(* ===== verification/Prelude.thy ===== *)
theory Prelude
  imports Main "HOL-Library.Char_ord" "HOL-Library.List_Lexorder" "HOL-Library.Product_Lexorder"
begin

text \<open>
  What every component shares. The services of the backend are coroutines over one database
  session and one blob store that stop at the first raised exception. A service method is a
  function from the world to an outcome and the world it leaves: \<open>Inl\<close> carries the exception,
  \<open>Inr\<close> the returned value, and the world of a failed call still holds what the call had done
  before it raised (whether that is rolled back is decided by the router, not here).

  The theory gives the combinators the models are written with, the rules by which invariants
  and frame properties pass through them, and the lookups and updates on tables of rows.
\<close>

named_theorems run_simps \<open>equations that evaluate a call on a world\<close>
named_theorems keeps_rules \<open>frame properties of operations\<close>
named_theorems pres_rules \<open>invariants that operations preserve\<close>

section \<open>Calls that may raise\<close>

type_synonym ('w, 'e, 'a) call = "'w \<Rightarrow> ('e + 'a) \<times> 'w"

definition returnM :: "'a \<Rightarrow> ('w, 'e, 'a) call" where
  "returnM x = (\<lambda>w. (Inr x, w))"

definition raiseM :: "'e \<Rightarrow> ('w, 'e, 'a) call" where
  "raiseM e = (\<lambda>w. (Inl e, w))"

definition bindM :: "('w, 'e, 'a) call \<Rightarrow> ('a \<Rightarrow> ('w, 'e, 'b) call) \<Rightarrow> ('w, 'e, 'b) call" where
  "bindM m f = (\<lambda>w. case m w of (Inl e, w') \<Rightarrow> (Inl e, w') | (Inr x, w') \<Rightarrow> f x w')"

definition thenM :: "('w, 'e, 'a) call \<Rightarrow> ('w, 'e, 'b) call \<Rightarrow> ('w, 'e, 'b) call" where
  "thenM m n = bindM m (\<lambda>_. n)"

definition getsM :: "('w \<Rightarrow> 'a) \<Rightarrow> ('w, 'e, 'a) call" where
  "getsM f = (\<lambda>w. (Inr (f w), w))"

definition modifyM :: "('w \<Rightarrow> 'w) \<Rightarrow> ('w, 'e, unit) call" where
  "modifyM f = (\<lambda>w. (Inr (), f w))"

definition liftM :: "('w \<Rightarrow> 'e + 'a) \<Rightarrow> ('w, 'e, 'a) call" where
  "liftM f = (\<lambda>w. (f w, w))"

definition guardM :: "bool \<Rightarrow> 'e \<Rightarrow> ('w, 'e, unit) call" where
  "guardM b e = (if b then returnM () else raiseM e)"

definition whenM :: "bool \<Rightarrow> ('w, 'e, unit) call \<Rightarrow> ('w, 'e, unit) call" where
  "whenM b m = (if b then m else returnM ())"

text \<open>\<open>try: m except Exception: h\<close>, where \<open>h\<close> gets the exception.\<close>

definition catchM :: "('w, 'e, 'a) call \<Rightarrow> ('e \<Rightarrow> ('w, 'e, 'a) call) \<Rightarrow> ('w, 'e, 'a) call" where
  "catchM m h = (\<lambda>w. case m w of (Inl e, w') \<Rightarrow> h e w' | (Inr x, w') \<Rightarrow> (Inr x, w'))"

fun forM :: "'a list \<Rightarrow> ('a \<Rightarrow> ('w, 'e, unit) call) \<Rightarrow> ('w, 'e, unit) call" where
  "forM [] f = returnM ()"
| "forM (x # xs) f = thenM (f x) (forM xs f)"

fun foldM :: "('a \<Rightarrow> 's \<Rightarrow> ('w, 'e, 's) call) \<Rightarrow> 'a list \<Rightarrow> 's \<Rightarrow> ('w, 'e, 's) call" where
  "foldM f [] s = returnM s"
| "foldM f (x # xs) s = bindM (f x s) (foldM f xs)"

fun mapM :: "('a \<Rightarrow> ('w, 'e, 'b) call) \<Rightarrow> 'a list \<Rightarrow> ('w, 'e, 'b list) call" where
  "mapM f [] = returnM []"
| "mapM f (x # xs) = bindM (f x) (\<lambda>y. bindM (mapM f xs) (\<lambda>ys. returnM (y # ys)))"

lemma run_return [run_simps, simp]: "returnM x w = (Inr x, w)"
  by (simp add: returnM_def)

lemma run_raise [run_simps, simp]: "raiseM e w = (Inl e, w)"
  by (simp add: raiseM_def)

lemma run_gets [run_simps, simp]: "getsM f w = (Inr (f w), w)"
  by (simp add: getsM_def)

lemma run_modify [run_simps, simp]: "modifyM f w = (Inr (), f w)"
  by (simp add: modifyM_def)

lemma run_lift [run_simps, simp]: "liftM f w = (f w, w)"
  by (simp add: liftM_def)

lemma run_guard [run_simps]: "guardM b e w = (if b then Inr () else Inl e, w)"
  by (simp add: guardM_def)

lemma run_when [run_simps]: "whenM b m w = (if b then m w else (Inr (), w))"
  by (simp add: whenM_def)

lemma run_bind [run_simps]:
  "bindM m f w = (case m w of (Inl e, w') \<Rightarrow> (Inl e, w') | (Inr x, w') \<Rightarrow> f x w')"
  by (simp add: bindM_def)

lemma run_then [run_simps]:
  "thenM m n w = (case m w of (Inl e, w') \<Rightarrow> (Inl e, w') | (Inr x, w') \<Rightarrow> n w')"
  by (simp add: thenM_def bindM_def)

lemma run_catch [run_simps]:
  "catchM m h w = (case m w of (Inl e, w') \<Rightarrow> h e w' | (Inr x, w') \<Rightarrow> (Inr x, w'))"
  by (simp add: catchM_def)

lemma bind_return [simp]: "bindM (returnM x) f = f x"
  by (simp add: bindM_def returnM_def)

lemma bind_raise [simp]: "bindM (raiseM e) f = raiseM e"
  by (simp add: bindM_def raiseM_def)

lemma bind_assoc: "bindM (bindM m f) g = bindM m (\<lambda>x. bindM (f x) g)"
  by (auto simp: bindM_def fun_eq_iff split: prod.splits sum.splits)

lemma bind_InrE:
  assumes "bindM m f w = (Inr y, w')"
  obtains x w1 where "m w = (Inr x, w1)" "f x w1 = (Inr y, w')"
  using assms by (auto simp: bindM_def split: prod.splits sum.splits)

lemma then_InrE:
  assumes "thenM m n w = (Inr y, w')"
  obtains x w1 where "m w = (Inr x, w1)" "n w1 = (Inr y, w')"
  by (rule bind_InrE [OF assms [unfolded thenM_def]]) (rule that)

lemma guard_InrE:
  assumes "guardM b e w = (Inr y, w')"
  obtains "b" "w = w'"
  by (cases b) (use assms that in \<open>simp_all add: guardM_def\<close>)

lemma gets_InrE:
  assumes "getsM f w = (Inr y, w')"
  obtains "f w = y" "w = w'"
  using assms unfolding getsM_def by blast

lemma lift_InrE:
  assumes "liftM f w = (Inr y, w')"
  obtains "f w = Inr y" "w = w'"
  using assms unfolding liftM_def by blast

lemma when_InrE:
  assumes "whenM b m w = (Inr y, w')"
  obtains "b" "m w = (Inr y, w')" | "\<not> b" "w = w'"
  using assms by (cases b) (auto simp: whenM_def)

lemmas call_elims = bind_InrE then_InrE guard_InrE gets_InrE lift_InrE when_InrE

text \<open>A call that did not raise has returned something.\<close>

lemma returned: "\<not> isl (fst (m w)) \<Longrightarrow> m w = (Inr (projr (fst (m w))), snd (m w))"
  by (cases "m w"; cases "fst (m w)") auto

lemma returned_unit: "\<not> isl (fst (m w)) \<Longrightarrow> m w = (Inr (), snd (m w))"
  by (cases "m w"; cases "fst (m w)") auto

section \<open>Invariants and frames of calls\<close>

text \<open>\<open>preserves I m\<close>: whatever the outcome of \<open>m\<close>, it leaves a world with \<open>I\<close> if it found one.\<close>

definition preserves :: "('w \<Rightarrow> bool) \<Rightarrow> ('w, 'e, 'a) call \<Rightarrow> bool" where
  "preserves I m \<longleftrightarrow> (\<forall>w. I w \<longrightarrow> I (snd (m w)))"

text \<open>\<open>keeps f m\<close>: \<open>m\<close> never changes the part \<open>f\<close> of the world.\<close>

definition keeps :: "('w \<Rightarrow> 'b) \<Rightarrow> ('w, 'e, 'a) call \<Rightarrow> bool" where
  "keeps f m \<longleftrightarrow> (\<forall>w. f (snd (m w)) = f w)"

text \<open>\<open>okay P m Q\<close>: from a world with \<open>P\<close>, a call that returns \<open>x\<close> leaves a world with \<open>Q x\<close>.\<close>

definition okay :: "('w \<Rightarrow> bool) \<Rightarrow> ('w, 'e, 'a) call \<Rightarrow> ('a \<Rightarrow> 'w \<Rightarrow> bool) \<Rightarrow> bool" where
  "okay P m Q \<longleftrightarrow> (\<forall>w x w'. P w \<longrightarrow> m w = (Inr x, w') \<longrightarrow> Q x w')"

lemma preservesD: "preserves I m \<Longrightarrow> I w \<Longrightarrow> m w = (r, w') \<Longrightarrow> I w'"
  unfolding preserves_def by (metis snd_conv)

lemma preserves_snd: "preserves I m \<Longrightarrow> I w \<Longrightarrow> I (snd (m w))"
  by (simp add: preserves_def)

lemma keepsD: "keeps f m \<Longrightarrow> m w = (r, w') \<Longrightarrow> f w' = f w"
  unfolding keeps_def by (metis snd_conv)

lemma keeps_snd: "keeps f m \<Longrightarrow> f (snd (m w)) = f w"
  by (simp add: keeps_def)

lemma preserves_return [pres_rules]: "preserves I (returnM x)"
  and preserves_raise [pres_rules]: "preserves I (raiseM e)"
  and preserves_gets [pres_rules]: "preserves I (getsM f)"
  and preserves_lift [pres_rules]: "preserves I (liftM g)"
  and preserves_guard [pres_rules]: "preserves I (guardM b e)"
  by (auto simp: preserves_def guardM_def)

lemma preserves_bind [pres_rules]:
  "preserves I m \<Longrightarrow> (\<And>x. preserves I (f x)) \<Longrightarrow> preserves I (bindM m f)"
  by (auto simp: preserves_def bindM_def split: prod.splits sum.splits; metis snd_conv)

lemma preserves_then [pres_rules]:
  "preserves I m \<Longrightarrow> preserves I n \<Longrightarrow> preserves I (thenM m n)"
  by (simp add: thenM_def preserves_bind)

lemma preserves_when [pres_rules]: "preserves I m \<Longrightarrow> preserves I (whenM b m)"
  by (auto simp: preserves_def whenM_def)

lemma preserves_catch [pres_rules]:
  "preserves I m \<Longrightarrow> (\<And>e. preserves I (h e)) \<Longrightarrow> preserves I (catchM m h)"
  by (auto simp: preserves_def catchM_def split: prod.splits sum.splits; metis snd_conv)

lemma preserves_for [pres_rules]:
  "(\<And>x. x \<in> set xs \<Longrightarrow> preserves I (f x)) \<Longrightarrow> preserves I (forM xs f)"
  by (induction xs) (auto intro: pres_rules)

lemma preserves_map [pres_rules]:
  "(\<And>x. x \<in> set xs \<Longrightarrow> preserves I (f x)) \<Longrightarrow> preserves I (mapM f xs)"
  by (induction xs) (auto intro: pres_rules)

lemma preserves_fold [pres_rules]:
  "(\<And>x s. x \<in> set xs \<Longrightarrow> preserves I (f x s)) \<Longrightarrow> preserves I (foldM f xs s)"
  by (induction xs arbitrary: s) (auto intro: pres_rules)

lemma keeps_return [keeps_rules]: "keeps f (returnM x)"
  and keeps_raise [keeps_rules]: "keeps f (raiseM e)"
  and keeps_gets [keeps_rules]: "keeps f (getsM g)"
  and keeps_lift [keeps_rules]: "keeps f (liftM h)"
  and keeps_guard [keeps_rules]: "keeps f (guardM b e)"
  by (auto simp: keeps_def guardM_def)

lemma keeps_bind [keeps_rules]:
  "keeps f m \<Longrightarrow> (\<And>x. keeps f (g x)) \<Longrightarrow> keeps f (bindM m g)"
  by (auto simp: keeps_def bindM_def split: prod.splits sum.splits; metis snd_conv)

lemma keeps_then [keeps_rules]: "keeps f m \<Longrightarrow> keeps f n \<Longrightarrow> keeps f (thenM m n)"
  by (simp add: thenM_def keeps_bind)

lemma keeps_when [keeps_rules]: "keeps f m \<Longrightarrow> keeps f (whenM b m)"
  by (auto simp: keeps_def whenM_def)

lemma keeps_catch [keeps_rules]:
  "keeps f m \<Longrightarrow> (\<And>e. keeps f (h e)) \<Longrightarrow> keeps f (catchM m h)"
  by (auto simp: keeps_def catchM_def split: prod.splits sum.splits; metis snd_conv)

lemma keeps_for [keeps_rules]:
  "(\<And>x. x \<in> set xs \<Longrightarrow> keeps f (g x)) \<Longrightarrow> keeps f (forM xs g)"
  by (induction xs) (auto intro: keeps_rules)

lemma keeps_map [keeps_rules]:
  "(\<And>x. x \<in> set xs \<Longrightarrow> keeps f (g x)) \<Longrightarrow> keeps f (mapM g xs)"
  by (induction xs) (auto intro: keeps_rules)

lemma keeps_fold [keeps_rules]:
  "(\<And>x s. x \<in> set xs \<Longrightarrow> keeps f (g x s)) \<Longrightarrow> keeps f (foldM g xs s)"
  by (induction xs arbitrary: s) (auto intro: keeps_rules)

text \<open>A loop that only reads: what each round keeps of the accumulator holds at the end.\<close>

lemma fold_reads:
  assumes "\<And>x s r w'. x \<in> set xs \<Longrightarrow> I s \<Longrightarrow> f x s w = (r, w') \<Longrightarrow>
      w' = w \<and> (case r of Inl e \<Rightarrow> E e | Inr s' \<Rightarrow> I s')"
  shows "I s \<Longrightarrow> foldM f xs s w = (r, w') \<Longrightarrow> w' = w \<and> (case r of Inl e \<Rightarrow> E e | Inr s' \<Rightarrow> I s')"
  using assms
proof (induction xs arbitrary: s)
  case (Cons x xs)
  obtain r1 w1 where 1: "f x s w = (r1, w1)" by (cases "f x s w")
  have *: "w1 = w \<and> (case r1 of Inl e \<Rightarrow> E e | Inr s' \<Rightarrow> I s')" by (rule Cons.prems(3) [OF _ Cons.prems(1) 1]) simp
  show ?case
  proof (cases r1)
    case (Inl e)
    with 1 * Cons.prems(2) show ?thesis by (auto simp: run_bind)
  next
    case (Inr s')
    with 1 * Cons.prems(2) have "foldM f xs s' w = (r, w')" by (simp add: run_bind)
    with Inr * show ?thesis by (intro Cons.IH [of s'] Cons.prems(3)) auto
  qed
qed auto

lemma keeps_modify: "(\<And>w. f (g w) = f w) \<Longrightarrow> keeps f (modifyM g)"
  by (simp add: keeps_def)

lemma preserves_modify: "(\<And>w. I w \<Longrightarrow> I (g w)) \<Longrightarrow> preserves I (modifyM g)"
  by (simp add: preserves_def)

lemma preserves_of_keeps: "keeps f m \<Longrightarrow> preserves (\<lambda>w. P (f w)) m"
  by (simp add: preserves_def keeps_def)

text \<open>A call that only reads keeps every invariant.\<close>

lemma preserves_read: "keeps (\<lambda>w. w) m \<Longrightarrow> preserves I m"
  by (simp add: keeps_def preserves_def)

lemma okay_of_preserves: "preserves I m \<Longrightarrow> okay I m (\<lambda>_. I)"
  unfolding okay_def by (meson preservesD)

lemma okay_bind:
  "okay I m (\<lambda>_. I) \<Longrightarrow> (\<And>x. okay I (f x) (\<lambda>_. I)) \<Longrightarrow> okay I (bindM m f) (\<lambda>_. I)"
  unfolding okay_def by (meson bind_InrE)

lemma keeps_if [keeps_rules]:
  "keeps f m \<Longrightarrow> keeps f n \<Longrightarrow> keeps f (if b then m else n)"
  by simp

lemma keeps_case_option [keeps_rules]:
  "keeps f m \<Longrightarrow> (\<And>x. keeps f (g x)) \<Longrightarrow> keeps f (case y of None \<Rightarrow> m | Some x \<Rightarrow> g x)"
  by (cases y) auto

lemma preserves_if [pres_rules]:
  "(b \<Longrightarrow> preserves I m) \<Longrightarrow> (\<not> b \<Longrightarrow> preserves I n) \<Longrightarrow> preserves I (if b then m else n)"
  by simp

lemma preserves_case_option [pres_rules]:
  "preserves I m \<Longrightarrow> (\<And>x. preserves I (g x)) \<Longrightarrow> preserves I (case y of None \<Rightarrow> m | Some x \<Rightarrow> g x)"
  by (cases y) auto

section \<open>Tables\<close>

text \<open>
  A table is the list of its rows in the order the database returns them. The generic facts
  about finding, changing and deleting rows by key are stated once, for any key column.
\<close>

definition row_get :: "('r \<Rightarrow> 'k) \<Rightarrow> 'k \<Rightarrow> 'r list \<Rightarrow> 'r option" where
  "row_get key k rows = find (\<lambda>r. key r = k) rows"

definition row_update :: "('r \<Rightarrow> 'k) \<Rightarrow> 'k \<Rightarrow> ('r \<Rightarrow> 'r) \<Rightarrow> 'r list \<Rightarrow> 'r list" where
  "row_update key k f rows = map (\<lambda>r. if key r = k then f r else r) rows"

definition row_delete :: "('r \<Rightarrow> bool) \<Rightarrow> 'r list \<Rightarrow> 'r list" where
  "row_delete P rows = filter (\<lambda>r. \<not> P r) rows"

lemma row_get_Some: "row_get key k rows = Some r \<Longrightarrow> r \<in> set rows \<and> key r = k"
  by (auto simp: row_get_def find_Some_iff)

lemma row_get_None: "row_get key k rows = None \<longleftrightarrow> (\<forall>r \<in> set rows. key r \<noteq> k)"
  by (auto simp: row_get_def find_None_iff)

lemma row_get_mem:
  assumes "distinct (map key rows)" "r \<in> set rows"
  shows "row_get key (key r) rows = Some r"
  using assms by (induction rows) (auto simp: row_get_def)

lemma row_get_unique:
  assumes "distinct (map key rows)"
  shows "row_get key k rows = Some r \<longleftrightarrow> r \<in> set rows \<and> key r = k"
  using assms row_get_Some[of key k rows r] row_get_mem[of key rows r] by auto

lemma row_get_append:
  "row_get key k (xs @ ys) = (case row_get key k xs of None \<Rightarrow> row_get key k ys | Some r \<Rightarrow> Some r)"
  by (induction xs) (auto simp: row_get_def)

lemma row_get_Cons [simp]:
  "row_get key k (x # xs) = (if key x = k then Some x else row_get key k xs)"
  by (simp add: row_get_def)

lemma row_get_Nil [simp]: "row_get key k [] = None"
  by (simp add: row_get_def)

lemma set_row_delete [simp]: "set (row_delete P rows) = {r \<in> set rows. \<not> P r}"
  by (auto simp: row_delete_def)

lemma row_delete_distinct: "distinct (map key rows) \<Longrightarrow> distinct (map key (row_delete P rows))"
  by (simp add: row_delete_def distinct_map_filter)

lemma row_delete_delete: "row_delete P (row_delete Q rows) = row_delete (\<lambda>r. P r \<or> Q r) rows"
  by (simp add: row_delete_def conj_commute)

lemma row_get_delete_other:
  "(\<And>r. r \<in> set rows \<Longrightarrow> key r = k \<Longrightarrow> \<not> P r) \<Longrightarrow> row_get key k (row_delete P rows) = row_get key k rows"
  by (induction rows) (auto simp: row_delete_def)

lemma row_get_delete_same:
  "(\<And>r. r \<in> set rows \<Longrightarrow> key r = k \<Longrightarrow> P r) \<Longrightarrow> row_get key k (row_delete P rows) = None"
  by (auto simp: row_get_None)

lemma length_row_update [simp]: "length (row_update key k f rows) = length rows"
  by (simp add: row_update_def)

lemma set_row_update:
  "set (row_update key k f rows) = (\<lambda>r. if key r = k then f r else r) ` set rows"
  by (simp add: row_update_def)

lemma row_keys_update:
  "(\<And>r. key (f r) = key r) \<Longrightarrow> map key (row_update key k f rows) = map key rows"
  by (simp add: row_update_def)

lemma row_get_update:
  "(\<And>r. key (f r) = key r) \<Longrightarrow>
    row_get key j (row_update key k f rows) =
      (if j = k then map_option f (row_get key j rows) else row_get key j rows)"
  by (induction rows) (auto simp: row_update_def)

lemma row_update_absent: "row_get key k rows = None \<Longrightarrow> row_update key k f rows = rows"
  by (induction rows) (auto simp: row_update_def split: if_splits)

text \<open>
  A table of the world: its rows, a key column, and the way the world is changed at the table.
  The law is that the change acts on exactly these rows. What an insert, an update and a delete do to a later
  lookup follows for every table at once.
\<close>

locale table =
  fixes key :: "'r \<Rightarrow> 'k"
    and rows :: "'w \<Rightarrow> 'r list"
    and put :: "('r list \<Rightarrow> 'r list) \<Rightarrow> 'w \<Rightarrow> 'w"
  assumes rows_put: "rows (put g w) = g (rows w)"
begin

lemma get_insert:
  "row_get key k (rows w) = None \<Longrightarrow>
    row_get key k (rows (put (\<lambda>rs. rs @ [r]) w)) = (if key r = k then Some r else None)"
  by (simp add: rows_put row_get_append)

lemma get_insert_other:
  "key r \<noteq> k \<Longrightarrow> row_get key k (rows (put (\<lambda>rs. rs @ [r]) w)) = row_get key k (rows w)"
  by (simp add: rows_put row_get_append split: option.splits)

lemma get_after_update:
  "(\<And>r. key (f r) = key r) \<Longrightarrow>
    row_get key j (rows (put (row_update key k f) w)) =
      (if j = k then map_option f (row_get key j (rows w)) else row_get key j (rows w))"
  by (simp add: rows_put row_get_update)

lemma get_deleted: "row_get key k (rows (put (row_delete (\<lambda>r. key r = k)) w)) = None"
  by (simp add: rows_put row_get_None)

lemma get_delete_other:
  "j \<noteq> k \<Longrightarrow> row_get key j (rows (put (row_delete (\<lambda>r. key r = k)) w)) = row_get key j (rows w)"
  by (simp add: rows_put row_get_delete_other)

lemma distinct_update:
  "(\<And>r. key (f r) = key r) \<Longrightarrow> distinct (map key (rows w)) \<Longrightarrow>
    distinct (map key (rows (put (row_update key k f) w)))"
  by (simp add: rows_put row_keys_update)

lemma distinct_delete:
  "distinct (map key (rows w)) \<Longrightarrow> distinct (map key (rows (put (row_delete P) w)))"
  by (simp add: rows_put row_delete_distinct)

end

end
