(* ===== verification/PyStr.thy ===== *)
theory PyStr
  imports Prelude
begin

text \<open>
  The string operations of Python's standard library that the services use. A Python string is a
  list of characters; characters here are the code points below 256, on which
  \<open>strip\<close>, \<open>lower\<close>, \<open>isdigit\<close> are given as Python computes them. No property rests on the
  bound.
\<close>

section \<open>Characters\<close>

definition code_point :: "char \<Rightarrow> nat" where
  "code_point c = of_char c"

definition py_isspace :: "char \<Rightarrow> bool" where
  "py_isspace c = (let n = code_point c in
     (9 \<le> n \<and> n \<le> 13) \<or> (28 \<le> n \<and> n \<le> 32) \<or> n = 133 \<or> n = 160)"

definition py_lower_char :: "char \<Rightarrow> char" where
  "py_lower_char c = (let n = code_point c in
     if (65 \<le> n \<and> n \<le> 90) \<or> (192 \<le> n \<and> n \<le> 222 \<and> n \<noteq> 215) then char_of (n + 32) else c)"

definition py_lower :: "string \<Rightarrow> string" where
  "py_lower s = map py_lower_char s"

definition py_isdigit_char :: "char \<Rightarrow> bool" where
  "py_isdigit_char c = (let n = code_point c in
     (48 \<le> n \<and> n \<le> 57) \<or> n = 178 \<or> n = 179 \<or> n = 185)"

definition py_isdigit :: "string \<Rightarrow> bool" where
  "py_isdigit s = (s \<noteq> [] \<and> list_all py_isdigit_char s)"

section \<open>Stripping, searching, splitting\<close>

definition py_lstrip :: "string \<Rightarrow> string" where
  "py_lstrip s = dropWhile py_isspace s"

definition py_rstrip :: "string \<Rightarrow> string" where
  "py_rstrip s = rev (dropWhile py_isspace (rev s))"

definition py_strip :: "string \<Rightarrow> string" where
  "py_strip s = py_rstrip (py_lstrip s)"

definition py_lstrip_char :: "char \<Rightarrow> string \<Rightarrow> string" where
  "py_lstrip_char c s = dropWhile (\<lambda>x. x = c) s"

text \<open>\<open>s.rfind(c)\<close>: the last index of \<open>c\<close>, \<open>-1\<close> when there is none.\<close>

definition py_rfind :: "char \<Rightarrow> string \<Rightarrow> int" where
  "py_rfind c s =
     (if c \<in> set s then int (length s) - 1 - int (length (takeWhile (\<lambda>x. x \<noteq> c) (rev s))) else -1)"

definition py_rpartition :: "char \<Rightarrow> string \<Rightarrow> string \<times> string \<times> string" where
  "py_rpartition c s =
     (let i = py_rfind c s in
      if i < 0 then ([], [], s) else (take (nat i) s, [c], drop (Suc (nat i)) s))"

fun py_split :: "char \<Rightarrow> string \<Rightarrow> string list" where
  "py_split c [] = [[]]"
| "py_split c (x # xs) =
     (if x = c then [] # py_split c xs
      else (case py_split c xs of [] \<Rightarrow> [[x]] | y # ys \<Rightarrow> (x # y) # ys))"

fun py_join :: "string \<Rightarrow> string list \<Rightarrow> string" where
  "py_join sep [] = []"
| "py_join sep [x] = x"
| "py_join sep (x # y # ys) = x @ sep @ py_join sep (y # ys)"

definition starts_with :: "string \<Rightarrow> string \<Rightarrow> bool" where
  "starts_with p s = (take (length p) s = p)"

text \<open>\<open>str(n)\<close> for a natural number.\<close>

fun nat_str :: "nat \<Rightarrow> string" where
  "nat_str n = (if n < 10 then [char_of (48 + n)] else nat_str (n div 10) @ [char_of (48 + n mod 10)])"

declare nat_str.simps [simp del]

fun str_nat :: "string \<Rightarrow> nat \<Rightarrow> nat" where
  "str_nat [] a = a"
| "str_nat (c # cs) a = str_nat cs (10 * a + (of_char c - 48))"

lemma str_nat_append: "str_nat (s @ t) a = str_nat t (str_nat s a)"
  by (induction s arbitrary: a) auto

lemma of_char_digit: "n < 10 \<Longrightarrow> (of_char (char_of (48 + n) :: char) :: nat) = 48 + n"
  by (simp add: of_char_of)

lemma str_nat_nat_str: "str_nat (nat_str n) 0 = n"
proof (induction n rule: nat_str.induct)
  case (1 n)
  show ?case
  proof (cases "n < 10")
    case True
    then show ?thesis by (simp add: nat_str.simps [of n] of_char_digit)
  next
    case False
    with 1 show ?thesis
      by (simp add: nat_str.simps [of n] str_nat_append of_char_digit)
  qed
qed

lemma nat_str_inject: "nat_str m = nat_str n \<Longrightarrow> m = n"
  by (metis str_nat_nat_str)

lemma nat_str_nonempty: "nat_str n \<noteq> []"
  by (subst nat_str.simps) simp

section \<open>Facts the components use\<close>

lemma takeWhile_shorter: "x \<in> set xs \<Longrightarrow> \<not> P x \<Longrightarrow> length (takeWhile P xs) < length xs"
  by (induction xs) auto

lemma py_rfind_bounds: "- 1 \<le> py_rfind c s \<and> py_rfind c s < int (length s)"
  using takeWhile_shorter [of c "rev s" "\<lambda>x. x \<noteq> c"] by (auto simp: py_rfind_def)

lemma py_rfind_found: "0 \<le> py_rfind c s \<longleftrightarrow> c \<in> set s"
  using takeWhile_shorter [of c "rev s" "\<lambda>x. x \<noteq> c"] by (auto simp: py_rfind_def)

lemma py_strip_clean:
  "py_strip s \<noteq> [] \<Longrightarrow> \<not> py_isspace (hd (py_strip s)) \<and> \<not> py_isspace (last (py_strip s))"
proof -
  assume ne: "py_strip s \<noteq> []"
  define t where "t = dropWhile py_isspace s"
  define r where "r = dropWhile py_isspace (rev t)"
  have strip: "py_strip s = rev r"
    by (simp add: py_strip_def py_rstrip_def py_lstrip_def t_def r_def)
  with ne have "r \<noteq> []" by simp
  then have last: "\<not> py_isspace (hd r)" unfolding r_def by (metis hd_dropWhile)
  obtain u where u: "rev t = u @ r" unfolding r_def
    by (metis takeWhile_dropWhile_id)
  then have t: "t = rev r @ rev u" by (metis rev_append rev_rev_ident)
  with \<open>r \<noteq> []\<close> have "t \<noteq> []" and "hd t = hd (rev r)" by simp_all
  moreover from \<open>t \<noteq> []\<close> have "\<not> py_isspace (hd t)" unfolding t_def by (metis hd_dropWhile)
  ultimately show ?thesis using strip last \<open>r \<noteq> []\<close> by (simp add: last_rev)
qed

lemma py_split_nonempty: "py_split c s \<noteq> []"
  by (induction s) (auto split: list.splits)

lemma py_join_split: "py_join [c] (py_split c s) = s"
proof (induction s)
  case Nil
  show ?case by simp
next
  case (Cons x xs)
  show ?case
  proof (cases "py_split c xs")
    case Nil
    then show ?thesis using py_split_nonempty by simp
  next
    case ys: (Cons y ys)
    with Cons show ?thesis by (cases ys) auto
  qed
qed

end
