(* ===== verification/Models.thy ===== *)
theory Models
  imports PyStr
begin

text \<open>
  The rows of the database (\<open>app/models\<close>), the enumerations and error codes of \<open>app/core\<close>, and
  the settings the services read. A UUID is a natural number, a timestamp a number of
  microseconds since the epoch (all timestamps of the backend are UTC), a Python int an
  \<open>int\<close>. Columns that the database constrains to an enumeration have that datatype.
\<close>

type_synonym uuid = nat
type_synonym time = int
type_synonym bytes = "char list"

definition usec_per_second :: int where "usec_per_second = 1000000"
definition minutes :: "int \<Rightarrow> time" where "minutes n = n * 60 * usec_per_second"
definition hours :: "int \<Rightarrow> time" where "hours n = minutes (60 * n)"
definition days :: "int \<Rightarrow> time" where "days n = hours (24 * n)"

section \<open>Errors\<close>

datatype error_code =
    EMAIL_ALREADY_EXISTS | INVALID_CREDENTIALS | UNAUTHORIZED | REFRESH_TOKEN_REVOKED | USER_INACTIVE
  | FORBIDDEN
  | NOT_FOUND
  | QUOTA_EXCEEDED | FILE_TOO_LARGE
  | VALIDATION_ERROR
  | NAME_CONFLICT | INVALID_OPERATION | ITEM_CONTENT_NOT_FOUND
  | SHARE_LINK_INVALID
  | SHARE_LINK_PASSWORD_REQUIRED
  | ASSISTANT_UNAVAILABLE
  | INTERNAL_ERROR

text \<open>
  An exception: \<open>AppError\<close> with its code and HTTP status (the message text is not modelled), an \<open>HTTPException\<close> of a route, or one
  of the exceptions the libraries raise through the services. \<open>Diverges\<close> is not an exception
  of the source: it is the outcome of a loop that does not end.
\<close>

datatype error =
    AppError error_code nat
  | IntegrityError
  | MultipleResultsFound
  | NoResultFound
  | AssertionError
  | DBError
  | RuntimeError
  | ValueError
  | PathTraversalError
  | StorageKeyNotFoundError
  | StreamError
  | PyTypeError
  | PyKeyError
  | PyIndexError
  | StepResolutionFailed
  | EmbeddingError
  | CredentialCipherError
  | PyAttributeError
  | HTTPException nat
  | Diverges

definition UnauthorizedError :: error where "UnauthorizedError = AppError UNAUTHORIZED 401"
definition ForbiddenError :: error where "ForbiddenError = AppError FORBIDDEN 403"
definition NotFoundError :: error where "NotFoundError = AppError NOT_FOUND 404"
definition QuotaExceededError :: error where "QuotaExceededError = AppError QUOTA_EXCEEDED 413"
definition FileTooLargeError :: error where "FileTooLargeError = AppError FILE_TOO_LARGE 413"
definition NameConflictError :: error where "NameConflictError = AppError NAME_CONFLICT 409"
definition InvalidOperationError :: error where
  "InvalidOperationError = AppError INVALID_OPERATION 422"

text \<open>\<open>AppError(ErrorCode.INVALID_OPERATION, ...)\<close> raised directly has the default status 400.\<close>

definition BadOperation :: error where "BadOperation = AppError INVALID_OPERATION 400"

lemmas error_defs = UnauthorizedError_def ForbiddenError_def NotFoundError_def
  QuotaExceededError_def FileTooLargeError_def NameConflictError_def InvalidOperationError_def
  BadOperation_def

section \<open>Enumerations\<close>

datatype item_type = FILE | FOLDER

datatype sort_field = BY_NAME | BY_CREATED_AT | BY_UPDATED_AT | BY_SIZE_BYTES

datatype sort_order = ASC | DESC

datatype permission = VIEWER | DOWNLOADER | EDITOR | OWNER

datatype link_permission = LINK_VIEWER | LINK_DOWNLOADER | LINK_EDITOR

datatype activity_action =
    CREATE | UPLOAD | DOWNLOAD | PREVIEW | RENAME | MOVE | STAR | TRASH | RESTORE
  | PERMANENT_DELETE | SHARE | UNSHARE | VERSION_CREATE | VERSION_DELETE | SNAPSHOT_RESTORE

datatype upload_status = PENDING | UPLOADING | COMPLETED | FAILED | CANCELLED

datatype snapshot_trigger = SCHEDULED | MANUAL | ASSISTANT | PRE_RESTORE

section \<open>Rows\<close>

record user =
  u_id :: uuid
  u_email :: string
  u_username :: string
  u_password_hash :: string
  u_avatar_url :: "string option"
  u_quota_bytes :: int
  u_used_bytes :: int
  u_is_active :: bool
  u_is_admin :: bool
  u_must_change_password :: bool
  u_created_at :: time
  u_updated_at :: time

record drive_item =
  di_id :: uuid
  di_owner_id :: uuid
  di_parent_id :: "uuid option"
  di_item_type :: item_type
  di_name :: string
  di_mime_type :: "string option"
  di_extension :: "string option"
  di_size_bytes :: int
  di_storage_key :: "string option"
  di_checksum :: "string option"
  di_is_starred :: bool
  di_is_deleted :: bool
  di_deleted_at :: "time option"
  di_created_by :: uuid
  di_updated_by :: "uuid option"
  di_created_at :: time
  di_updated_at :: time

record file_version =
  fv_id :: uuid
  fv_file_id :: uuid
  fv_version_no :: int
  fv_storage_key :: string
  fv_size_bytes :: int
  fv_checksum :: "string option"
  fv_created_by :: uuid
  fv_created_at :: time

record share =
  sh_id :: uuid
  sh_item_id :: uuid
  sh_owner_id :: uuid
  sh_target_user_id :: uuid
  sh_permission :: permission
  sh_created_at :: time
  sh_updated_at :: time

record share_link =
  sl_id :: uuid
  sl_item_id :: uuid
  sl_token_hash :: string
  sl_permission :: link_permission
  sl_password_hash :: "string option"
  sl_expires_at :: "time option"
  sl_is_active :: bool
  sl_created_by :: uuid
  sl_created_at :: time
  sl_attempt_window_start :: "time option"
  sl_attempt_count :: int
  sl_locked_until :: "time option"

record preference =
  pf_id :: uuid
  pf_user_id :: uuid
  pf_item_id :: uuid
  pf_is_starred :: bool
  pf_created_at :: time
  pf_updated_at :: time

record activity_log =
  al_id :: uuid
  al_actor_id :: uuid
  al_item_id :: "uuid option"
  al_action :: activity_action
  al_via_link :: "uuid option"
  al_created_at :: time

record refresh_token =
  rt_id :: uuid
  rt_user_id :: uuid
  rt_token_hash :: string
  rt_expires_at :: time
  rt_revoked_at :: "time option"
  rt_created_at :: time

record upload_session =
  us_id :: uuid
  us_user_id :: uuid
  us_parent_id :: "uuid option"
  us_filename :: string
  us_mime_type :: "string option"
  us_total_size :: int
  us_chunk_size :: int
  us_total_chunks :: int
  us_status :: upload_status
  us_checksum :: "string option"
  us_drive_item_id :: "uuid option"
  us_error_code :: "string option"
  us_created_at :: time
  us_updated_at :: time
  us_expires_at :: time

record upload_chunk =
  uc_id :: uuid
  uc_session_id :: uuid
  uc_chunk_index :: int
  uc_size :: int
  uc_checksum :: "string option"
  uc_storage_key :: string
  uc_created_at :: time

record snapshot =
  sn_id :: uuid
  sn_user_id :: uuid
  sn_trigger :: snapshot_trigger
  sn_label :: string
  sn_item_count :: int
  sn_total_bytes :: int
  sn_pinned :: bool
  sn_created_at :: time

record snapshot_settings =
  ss_user_id :: uuid
  ss_retention_n :: int
  ss_schedule_enabled :: bool
  ss_schedule_interval_minutes :: int
  ss_quota_bytes :: "int option"

record snapshot_entry =
  se_id :: uuid
  se_snapshot_id :: uuid
  se_item_id :: uuid
  se_parent_item_id :: "uuid option"
  se_name :: string
  se_item_type :: item_type
  se_storage_key :: "string option"
  se_checksum :: "string option"
  se_size_bytes :: int

text \<open>The rows of the search: the text of a file, and one vector per piece of it. A vector is the list of its
  components as they are printed; what the distance of two of them is belongs to pgvector.\<close>

type_synonym vector = "string list"

record search_row =
  si_item_id :: uuid
  si_content :: string
  si_updated_at :: time

record embedding =
  em_id :: uuid
  em_item_id :: uuid
  em_chunk_index :: nat
  em_snippet :: string
  em_vector :: vector
  em_model :: string
  em_updated_at :: time

text \<open>A connection to an external language model.\<close>

record model_connection =
  mc_id :: uuid
  mc_user_id :: uuid
  mc_label :: string
  mc_kind :: string
  mc_base_url :: string
  mc_model :: string
  mc_secret_encrypted :: string
  mc_masked_hint :: string
  mc_status :: string
  mc_created_at :: time
  mc_updated_at :: time

text \<open>A stored blob: its bytes and its last-modified time.\<close>

record blob =
  bl_key :: string
  bl_data :: bytes
  bl_modified_at :: time

end
