(* ===== verification/Json.thy ===== *)
theory Json
  imports Models
begin

text \<open>
  The JSON values that plans, arguments and skill outputs are made of, the Python operations the workflow code uses on
  them, and the references between steps (first part of \<open>assistant/workflow.py\<close>). A dict is the list of its pairs in
  insertion order; a float, with which the code never computes, is kept as its \<open>repr\<close>.
\<close>

section \<open>Values\<close>

datatype json = JNull | JBool bool | JInt int | JFloat string | JStr string | JList "json list" | JObj "(string \<times> json) list"

type_synonym args = "(string \<times> json) list"

text \<open>\<open>d[k] = v\<close> keeps the place of a key that is there.\<close>

fun dict_set :: "string \<Rightarrow> 'v \<Rightarrow> (string \<times> 'v) list \<Rightarrow> (string \<times> 'v) list" where
  "dict_set k v [] = [(k, v)]"
| "dict_set k v ((j, u) # d) = (if j = k then (k, v) # d else (j, u) # dict_set k v d)"

lemma map_of_dict_set [simp]: "map_of (dict_set k v d) = (map_of d)(k \<mapsto> v)"
  by (induction k v d rule: dict_set.induct) auto

lemma dict_set_mem: "(j, u) \<in> set (dict_set k v d) \<Longrightarrow> u = v \<or> (j, u) \<in> set d"
  by (induction k v d rule: dict_set.induct) (auto split: if_splits)

lemma keys_dict_set [simp]: "fst ` set (dict_set k v d) = insert k (fst ` set d)"
  by (induction k v d rule: dict_set.induct) auto

text \<open>\<open>d.get(k)\<close>, \<open>None\<close> being the value \<open>JNull\<close>.\<close>

definition get_or :: "json \<Rightarrow> string \<Rightarrow> args \<Rightarrow> json" where
  "get_or v0 k d = (case map_of d k of Some v \<Rightarrow> v | None \<Rightarrow> v0)"

abbreviation get_key :: "string \<Rightarrow> args \<Rightarrow> json" where "get_key \<equiv> get_or JNull"

fun truthy :: "json \<Rightarrow> bool" where
  "truthy JNull = False"
| "truthy (JBool b) = b"
| "truthy (JInt n) = (n \<noteq> 0)"
| "truthy (JFloat s) = (s \<noteq> ''0.0'' \<and> s \<noteq> ''-0.0'')"
| "truthy (JStr s) = (s \<noteq> [])"
| "truthy (JList xs) = (xs \<noteq> [])"
| "truthy (JObj d) = (d \<noteq> [])"

definition int_str :: "int \<Rightarrow> string" where
  "int_str n = (if n < 0 then CHR ''-'' # nat_str (nat (- n)) else nat_str (nat n))"

text \<open>\<open>repr\<close> of a string: quotes, escapes, and two hexadecimal digits for what cannot be printed.\<close>

definition hex_digit :: "nat \<Rightarrow> char" where
  "hex_digit n = char_of (if n < 10 then 48 + n else 87 + n)"

definition repr_char :: "char \<Rightarrow> char \<Rightarrow> string" where
  "repr_char quote c = (let n = code_point c in
     if c = quote \<or> n = 92 then [CHR 0x5C, c]
     else if n = 9 then [CHR 0x5C, CHR ''t'']
     else if n = 10 then [CHR 0x5C, CHR ''n'']
     else if n = 13 then [CHR 0x5C, CHR ''r'']
     else if n < 32 \<or> (127 \<le> n \<and> n \<le> 160) \<or> n = 173
     then [CHR 0x5C, CHR ''x'', hex_digit (n div 16), hex_digit (n mod 16)] else [c])"

definition repr_str :: "string \<Rightarrow> string" where
  "repr_str s = (let quote = (if CHR 0x27 \<in> set s \<and> CHR 0x22 \<notin> set s then CHR 0x22 else CHR 0x27) in
     quote # concat (map (repr_char quote) s) @ [quote])"

fun py_repr :: "json \<Rightarrow> string" where
  "py_repr JNull = ''None''"
| "py_repr (JBool b) = (if b then ''True'' else ''False'')"
| "py_repr (JInt n) = int_str n"
| "py_repr (JFloat s) = s"
| "py_repr (JStr s) = repr_str s"
| "py_repr (JList xs) = ''['' @ py_join '', '' (map py_repr xs) @ '']''"
| "py_repr (JObj d) = ''{'' @ py_join '', '' (map (\<lambda>(k, v). repr_str k @ '': '' @ py_repr v) d) @ ''}''"

fun py_str :: "json \<Rightarrow> string" where
  "py_str (JStr s) = s"
| "py_str v = py_repr v"

text \<open>\<open>int(s)\<close>: surrounding spaces, a sign, and digits that single underscores may separate.\<close>

fun digits_ok :: "string \<Rightarrow> bool" where
  "digits_ok [] = False"
| "digits_ok [c] = (48 \<le> code_point c \<and> code_point c \<le> 57)"
| "digits_ok (c # d # cs) = (48 \<le> code_point c \<and> code_point c \<le> 57
     \<and> (if d = CHR ''_'' then digits_ok cs else digits_ok (d # cs)))"

definition py_int :: "string \<Rightarrow> int option" where
  "py_int s = (let t = py_strip s;
     body = (if t \<noteq> [] \<and> (hd t = CHR ''-'' \<or> hd t = CHR ''+'') then tl t else t) in
     if digits_ok body
     then (let n = int (str_nat (filter (\<lambda>c. c \<noteq> CHR ''_'') body) 0) in
       Some (if t \<noteq> [] \<and> hd t = CHR ''-'' then - n else n))
     else None)"

section \<open>Errors of the workflow code\<close>

datatype wf_error =
    StepResolutionError
  | KeyError
  | IndexError
  | NotAnInteger
  | SkillError error

section \<open>References\<close>

fun is_reference :: "json \<Rightarrow> bool" where
  "is_reference (JObj d) = (''from'' \<in> set (map fst d) \<or> ''from_step'' \<in> set (map fst d))"
| "is_reference v = False"

fun ref_source :: "json \<Rightarrow> json" where
  "ref_source (JObj d) = (if ''from'' \<in> set (map fst d) then get_key ''from'' d
     else if ''from_step'' \<in> set (map fst d) then get_key ''from_step'' d else JNull)"
| "ref_source v = JNull"

definition is_selection_ref :: "json \<Rightarrow> bool" where
  "is_selection_ref v = (ref_source v = JStr ''selection'')"

text \<open>A step reference and the index it names: an integer source that is not a bool.\<close>

definition step_ref :: "json \<Rightarrow> int option" where
  "step_ref v = (case ref_source v of JInt n \<Rightarrow> Some n | _ \<Rightarrow> None)"

definition is_step_ref :: "json \<Rightarrow> bool" where
  "is_step_ref v = (step_ref v \<noteq> None)"

text \<open>\<open>value.get(k)\<close> of a reference, which is a dict.\<close>

fun field :: "json \<Rightarrow> string \<Rightarrow> json \<Rightarrow> json" where
  "field (JObj d) k v0 = get_or v0 k d"
| "field v k v0 = v0"

definition ref_path :: "json \<Rightarrow> string" where
  "ref_path v = py_str (field v ''path'' (JStr []))"

section \<open>Paths\<close>

definition path_parts :: "string \<Rightarrow> string list" where
  "path_parts path = filter (\<lambda>p. p \<noteq> []) (py_split CHR ''.'' path)"

text \<open>\<open>xs[i]\<close>: a negative index counts from the end.\<close>

definition py_index :: "'a list \<Rightarrow> int \<Rightarrow> 'a option" where
  "py_index xs i = (let j = (if i < 0 then i + int (length xs) else i) in
     if 0 \<le> j \<and> j < int (length xs) then Some (xs ! nat j) else None)"

fun descend :: "json \<Rightarrow> string \<Rightarrow> wf_error + json" where
  "descend (JList xs) part = (case py_int part of
     None \<Rightarrow> Inl NotAnInteger
   | Some i \<Rightarrow> (case py_index xs i of None \<Rightarrow> Inl IndexError | Some v \<Rightarrow> Inr v))"
| "descend (JObj d) part = (case map_of d part of None \<Rightarrow> Inl KeyError | Some v \<Rightarrow> Inr v)"
| "descend v part = Inl StepResolutionError"

fun resolve_parts :: "json \<Rightarrow> string list \<Rightarrow> wf_error + json" where
  "resolve_parts current [] = Inr current"
| "resolve_parts current (p # ps) = (case descend current p of Inl e \<Rightarrow> Inl e | Inr v \<Rightarrow> resolve_parts v ps)"

definition resolve_path :: "json \<Rightarrow> string \<Rightarrow> wf_error + json" where
  "resolve_path output path = resolve_parts output (path_parts path)"

text \<open>The object that holds the last part of the path.\<close>

definition reference_parent :: "json \<Rightarrow> string \<Rightarrow> wf_error + json" where
  "reference_parent output path = (let parts = path_parts path in
     if parts = [] then Inr JNull else resolve_path output (py_join ''.'' (butlast parts)))"

lemma resolve_parts_append:
  "resolve_parts v (ps @ qs) = (case resolve_parts v ps of Inl e \<Rightarrow> Inl e | Inr u \<Rightarrow> resolve_parts u qs)"
  by (induction ps arbitrary: v) (auto split: sum.split)

text \<open>Joining path parts and splitting the path again is the identity.\<close>

lemma split_nonempty: "py_split c s \<noteq> []"
  by (induction c s rule: py_split.induct) (auto split: list.split)

lemma split_without: "p \<in> set (py_split c s) \<Longrightarrow> c \<notin> set p"
  by (induction c s arbitrary: p rule: py_split.induct) (auto split: if_splits list.splits)

lemma split_append: "c \<notin> set p \<Longrightarrow> py_split c (p @ c # s) = p # py_split c s"
  by (induction p) auto

lemma split_single: "c \<notin> set p \<Longrightarrow> py_split c p = [p]"
  by (induction p) auto

lemma path_parts_join:
  assumes "list_all (\<lambda>p. p \<noteq> [] \<and> CHR ''.'' \<notin> set p) ps"
  shows "path_parts (py_join ''.'' ps) = ps"
  using assms by (induction "''.''" ps rule: py_join.induct) (simp_all add: path_parts_def split_single split_append)

lemma path_parts_ok: "list_all (\<lambda>p. p \<noteq> [] \<and> CHR ''.'' \<notin> set p) (path_parts path)"
  by (auto simp: path_parts_def list_all_iff split_without)

text \<open>So a path resolves exactly when its parent object has the last part.\<close>

lemma resolve_path_parent:
  assumes "path_parts path \<noteq> []"
  shows "resolve_path output path = (case reference_parent output path of Inl e \<Rightarrow> Inl e
      | Inr p \<Rightarrow> descend p (last (path_parts path)))"
proof -
  let ?ps = "path_parts path"
  have "list_all (\<lambda>p. p \<noteq> [] \<and> CHR ''.'' \<notin> set p) (butlast ?ps)"
    using path_parts_ok [of path] by (auto simp: list_all_iff dest: in_set_butlastD)
  then have "reference_parent output path = resolve_parts output (butlast ?ps)"
    using assms by (simp add: reference_parent_def resolve_path_def path_parts_join)
  moreover have "resolve_parts output (butlast ?ps @ [last ?ps]) = (case resolve_parts output (butlast ?ps) of
      Inl e \<Rightarrow> Inl e | Inr p \<Rightarrow> descend p (last ?ps))"
    unfolding resolve_parts_append by (simp split: sum.split)
  ultimately show ?thesis using assms by (simp add: resolve_path_def)
qed

end
