(* ===== verification/Plans.thy ===== *)
theory Plans
  imports Json
begin

text \<open>
  The steps of assistant workflows, their results, and the rows that store workflows and their runs
  (\<open>assistant/workflow.py\<close>, \<open>models/assistant_workflow.py\<close>). The JSON columns hold the dumped steps and results; the
  rows here hold the steps and results themselves.
\<close>

record planned_step =
  ps_skill :: string
  ps_arguments :: args
  ps_depends_on :: "int list"

record workflow_step =
  ws_index :: int
  ws_skill :: string
  ws_arguments :: args
  ws_depends_on :: "int list"
  ws_permission_tier :: string
  ws_requires_approval :: bool

text \<open>The error text of a result: the skipped step's text lists the steps it waited for.\<close>

datatype step_error = SkippedFor "int list" | FailedWith wf_error

record step_result =
  sr_index :: int
  sr_skill :: string
  sr_ok :: bool
  sr_output :: "json option"
  sr_error :: "step_error option"
  sr_skipped :: bool

datatype workflow_status = WORKFLOW_PENDING | WORKFLOW_EXECUTED | WORKFLOW_CANCELLED | WORKFLOW_SAVED

record assistant_workflow =
  aw_id :: uuid
  aw_user_id :: uuid
  aw_session_id :: uuid
  aw_source_nl :: string
  aw_steps :: "workflow_step list"
  aw_status :: workflow_status
  aw_name :: "string option"
  aw_created_at :: time
  aw_updated_at :: time

record workflow_run =
  wr_id :: uuid
  wr_user_id :: uuid
  wr_workflow_id :: "uuid option"
  wr_source_nl :: string
  wr_succeeded :: bool
  wr_step_results :: "step_result list"
  wr_created_at :: time
  wr_finished_at :: "time option"

text \<open>Skills a user's assistant wrote.\<close>

record assistant_skill =
  ak_id :: uuid
  ak_user_id :: uuid
  ak_name :: string
  ak_description :: string
  ak_manifest :: args
  ak_code :: string
  ak_status :: string
  ak_chat_enabled :: bool
  ak_created_at :: time
  ak_updated_at :: time

text \<open>Conversations. No caller stores tool calls with a message, so that column is left out.\<close>

record assistant_session =
  as_id :: uuid
  as_user_id :: uuid
  as_title :: string
  as_created_at :: time
  as_updated_at :: time

record assistant_message =
  am_id :: uuid
  am_session_id :: uuid
  am_role :: string
  am_content :: string
  am_created_at :: time

end
