(* ===== verification/World.thy ===== *)
theory World
  imports Models Plans
begin

text \<open>
  The state of the backend: the tables of the database, the blobs of the storage backend, the
  clock that \<open>datetime.now(UTC)\<close> reads and the supply of \<open>uuid4\<close>. The supply never returns an
  identifier twice, which is what \<open>uuid4\<close> is used for. The clock stands still during a call and
  may be set to any later time between two calls. \<open>db_lower\<close> and \<open>db_collate\<close> are the
  database's \<open>lower()\<close> and the sort key of its collation: both belong to PostgreSQL, and nothing
  is assumed of them.

  The constraints are those of the migrations under \<open>alembic/versions\<close>. A flush sends the
  pending rows to the database, which checks its unique indexes and foreign keys there: a flush
  that finds one violated raises \<open>IntegrityError\<close>.
\<close>

record world =
  users :: "user list"
  items :: "drive_item list"
  versions :: "file_version list"
  shares :: "share list"
  links :: "share_link list"
  prefs :: "preference list"
  logs :: "activity_log list"
  tokens :: "refresh_token list"
  sessions :: "upload_session list"
  chunks :: "upload_chunk list"
  snapshots :: "snapshot list"
  snap_settings :: "snapshot_settings list"
  entries :: "snapshot_entry list"
  workflows :: "assistant_workflow list"
  workflow_runs :: "workflow_run list"
  authored_skills :: "assistant_skill list"
  talks :: "assistant_session list"
  turns :: "assistant_message list"
  connections :: "model_connection list"
  search_rows :: "search_row list"
  embedding_rows :: "embedding list"
  blobs :: "blob list"
  uuid_next :: uuid
  clock :: time
  db_lower :: "string \<Rightarrow> string"
  db_collate :: "string \<Rightarrow> string"

type_synonym 'a M = "(world, error, 'a) call"

definition empty_world :: world where
  "empty_world = \<lparr>users = [], items = [], versions = [], shares = [], links = [], prefs = [], logs = [],
     tokens = [], sessions = [], chunks = [], snapshots = [], snap_settings = [], entries = [],
     workflows = [], workflow_runs = [], authored_skills = [], talks = [], turns = [], connections = [],
     search_rows = [], embedding_rows = [], blobs = [], uuid_next = 100, clock = 0, db_lower = py_lower, db_collate = (\<lambda>s. s)\<rparr>"

definition now :: "time M" where
  "now = getsM clock"

definition uuid4 :: "uuid M" where
  "uuid4 = (\<lambda>w. (Inr (uuid_next w), w\<lparr>uuid_next := Suc (uuid_next w)\<rparr>))"

lemma run_now [run_simps, simp]: "now w = (Inr (clock w), w)"
  by (simp add: now_def)

lemma run_uuid4 [run_simps, simp]: "uuid4 w = (Inr (uuid_next w), w\<lparr>uuid_next := Suc (uuid_next w)\<rparr>)"
  by (simp add: uuid4_def)

section \<open>Transactions\<close>

text \<open>
  A route hands its service one database session and commits after the service returned. When
  the service raises, the session is closed without a commit, so the tables are again as they
  were; a blob written or deleted meanwhile stays written or deleted.
\<close>

definition rollback :: "world \<Rightarrow> world \<Rightarrow> world" where
  "rollback before after =
     before\<lparr>blobs := blobs after, uuid_next := max (uuid_next before) (uuid_next after)\<rparr>"

definition transact :: "'a M \<Rightarrow> 'a M" where
  "transact m = (\<lambda>w. case m w of (Inl e, w') \<Rightarrow> (Inl e, rollback w w') | (Inr x, w') \<Rightarrow> (Inr x, w'))"

lemma transact_error: "m w = (Inl e, w') \<Longrightarrow> transact m w = (Inl e, rollback w w')"
  by (simp add: transact_def)

lemma transact_ok [simp]: "transact m w = (Inr x, w') \<longleftrightarrow> m w = (Inr x, w')"
  by (auto simp: transact_def split: prod.splits sum.splits)

lemma rollback_items [simp]: "items (rollback w w') = items w"
  and rollback_users [simp]: "users (rollback w w') = users w"
  and rollback_blobs [simp]: "blobs (rollback w w') = blobs w'"
  by (simp_all add: rollback_def)

text \<open>
  An invariant that calls keep when they return, and that neither blobs nor fresh identifiers
  affect, holds after every request.
\<close>

lemma preserves_transact:
  assumes "\<And>w w'. I w \<Longrightarrow> I (rollback w w')" "okay I m (\<lambda>_. I)"
  shows "preserves I (transact m)"
  using assms by (auto simp: preserves_def okay_def transact_def split: prod.splits sum.splits)

section \<open>The constraints of the drive tables\<close>

text \<open>
  \<open>uq_drive_items_same_folder_name\<close> is a partial unique index on
  \<open>(owner_id, parent_id, lower(name))\<close> over the rows that are not deleted. A null parent
  equals nothing in SQL, so the index never compares items at the root of a drive.
\<close>

definition name_slot :: "(string \<Rightarrow> string) \<Rightarrow> drive_item \<Rightarrow> uuid \<times> uuid option \<times> string" where
  "name_slot lower i = (di_owner_id i, di_parent_id i, lower (di_name i))"

definition indexed :: "drive_item \<Rightarrow> bool" where
  "indexed i = (\<not> di_is_deleted i \<and> di_parent_id i \<noteq> None)"

definition uq_same_folder_name :: "(string \<Rightarrow> string) \<Rightarrow> drive_item list \<Rightarrow> bool" where
  "uq_same_folder_name lower rows = distinct (map (name_slot lower) (filter indexed rows))"

definition fk_parent :: "drive_item list \<Rightarrow> bool" where
  "fk_parent rows = (let ids = map di_id rows in
     list_all (\<lambda>i. case di_parent_id i of None \<Rightarrow> True | Some p \<Rightarrow> p \<in> set ids) rows)"

definition pk_items :: "drive_item list \<Rightarrow> bool" where
  "pk_items rows = distinct (map di_id rows)"

definition items_ok :: "world \<Rightarrow> bool" where
  "items_ok w = (pk_items (items w) \<and> fk_parent (items w) \<and> uq_same_folder_name (db_lower w) (items w))"

definition flush_items :: "unit M" where
  "flush_items = (\<lambda>w. if items_ok w then (Inr (), w) else (Inl IntegrityError, w))"

lemma run_flush_items [run_simps]:
  "flush_items w = (if items_ok w then (Inr (), w) else (Inl IntegrityError, w))"
  by (simp add: flush_items_def)

lemma fk_parent_iff:
  "fk_parent rows \<longleftrightarrow> (\<forall>i \<in> set rows. \<forall>p. di_parent_id i = Some p \<longrightarrow> p \<in> di_id ` set rows)"
  by (force simp: fk_parent_def list_all_iff split: option.splits)

lemma indexed_unique:
  assumes "uq_same_folder_name lower rows" "pk_items rows"
    and "a \<in> set rows" "b \<in> set rows" "indexed a" "indexed b" "name_slot lower a = name_slot lower b"
  shows "a = b"
proof -
  have "inj_on (name_slot lower) (set (filter indexed rows))"
    using assms(1) unfolding uq_same_folder_name_def distinct_map by blast
  with assms(3-7) show ?thesis by (auto dest: inj_onD)
qed

text \<open>
  The frame rules for the steps on one table: a field the step does not write keeps its value.
\<close>

lemma keeps_now [keeps_rules]: "keeps f now"
  by (simp add: now_def keeps_gets)

lemma keeps_uuid4 [keeps_rules]: "(\<And>w n. f (w\<lparr>uuid_next := n\<rparr>) = f w) \<Longrightarrow> keeps f uuid4"
  by (simp add: keeps_def)

lemma keeps_flush_items [keeps_rules]: "keeps f flush_items"
  by (simp add: keeps_def flush_items_def)

lemma preserves_now [pres_rules]: "preserves I now"
  by (simp add: now_def preserves_gets)

lemma preserves_flush_items [pres_rules]: "preserves I flush_items"
  by (simp add: preserves_def flush_items_def)

section \<open>Looking rows up\<close>

definition find_item :: "world \<Rightarrow> uuid \<Rightarrow> drive_item option" where
  "find_item w i = row_get di_id i (items w)"

definition find_user :: "world \<Rightarrow> uuid \<Rightarrow> user option" where
  "find_user w i = row_get u_id i (users w)"

text \<open>\<open>Result.scalar_one_or_none()\<close>: more than one row is an error.\<close>

fun scalar_one_or_none :: "'a list \<Rightarrow> error + 'a option" where
  "scalar_one_or_none [] = Inr None"
| "scalar_one_or_none [x] = Inr (Some x)"
| "scalar_one_or_none (x # y # ys) = Inl MultipleResultsFound"

lemma scalar_Some: "scalar_one_or_none xs = Inr (Some x) \<Longrightarrow> xs = [x]"
  by (cases xs rule: scalar_one_or_none.cases) auto

text \<open>\<open>OFFSET o LIMIT l\<close>: PostgreSQL refuses a negative one.\<close>

definition select_page :: "int \<Rightarrow> int \<Rightarrow> 'a list \<Rightarrow> error + 'a list" where
  "select_page offset limit rows =
     (if offset < 0 \<or> limit < 0 then Inl DBError
      else Inr (take (nat limit) (drop (nat offset) rows)))"

text \<open>A change to the rows of one item, and the UPDATE of a user row.\<close>

definition set_item :: "uuid \<Rightarrow> (drive_item \<Rightarrow> drive_item) \<Rightarrow> world \<Rightarrow> world" where
  "set_item i f w = items_update (row_update di_id i f) w"

definition set_user :: "uuid \<Rightarrow> (user \<Rightarrow> user) \<Rightarrow> world \<Rightarrow> world" where
  "set_user u f w = users_update (row_update u_id u f) w"

lemma find_item_Some: "find_item w i = Some r \<Longrightarrow> r \<in> set (items w) \<and> di_id r = i"
  unfolding find_item_def by (rule row_get_Some)

lemma find_item_mem: "pk_items (items w) \<Longrightarrow> r \<in> set (items w) \<Longrightarrow> find_item w (di_id r) = Some r"
  unfolding find_item_def pk_items_def by (rule row_get_mem)

lemma find_item_None: "find_item w i = None \<longleftrightarrow> i \<notin> di_id ` set (items w)"
  unfolding find_item_def by (auto simp: row_get_None)

interpretation user_table: table u_id users users_update
  by unfold_locales simp

interpretation item_table: table di_id items items_update
  by unfold_locales simp

interpretation version_table: table fv_id versions versions_update
  by unfold_locales simp

interpretation share_table: table sh_id shares shares_update
  by unfold_locales simp

interpretation link_table: table sl_id links links_update
  by unfold_locales simp

interpretation token_table: table rt_id tokens tokens_update
  by unfold_locales simp

interpretation session_table: table us_id sessions sessions_update
  by unfold_locales simp

interpretation snapshot_table: table sn_id snapshots snapshots_update
  by unfold_locales simp

interpretation skill_table: table ak_id authored_skills authored_skills_update
  by unfold_locales simp

interpretation talk_table: table as_id talks talks_update
  by unfold_locales simp

interpretation connection_table: table mc_id connections connections_update
  by unfold_locales simp

interpretation search_table: table si_item_id search_rows search_rows_update
  by unfold_locales simp

interpretation blob_table: table bl_key blobs blobs_update
  by unfold_locales simp

lemma find_item_set_item:
  "(\<And>r. di_id (f r) = di_id r) \<Longrightarrow>
    find_item (set_item i f w) j = (if j = i then map_option f (find_item w j) else find_item w j)"
  unfolding find_item_def set_item_def by (rule item_table.get_after_update)

lemma find_user_set_user:
  "(\<And>r. u_id (f r) = u_id r) \<Longrightarrow>
    find_user (set_user i f w) j = (if j = i then map_option f (find_user w j) else find_user w j)"
  unfolding find_user_def set_user_def by (rule user_table.get_after_update)

end
