(* ===== verification/DriveRepo.thy ===== *)
theory DriveRepo
  imports World
begin

text \<open>
  \<open>app/drive/repository.py\<close>: the queries on drive items and on the per-user preferences. A query
  reads the rows in table order; ORDER BY is a stable sort (PostgreSQL leaves the order of ties
  open).
\<close>

section \<open>Ordering\<close>

definition order_by :: "sort_order \<Rightarrow> ('a \<Rightarrow> 'k::linorder) \<Rightarrow> 'a list \<Rightarrow> 'a list" where
  "order_by ord key rows = (case ord of ASC \<Rightarrow> sort_key key rows | DESC \<Rightarrow> rev (sort_key key (rev rows)))"

lemma set_order_by [simp]: "set (order_by ord key rows) = set rows"
  by (cases ord) (auto simp: order_by_def)

lemma length_order_by [simp]: "length (order_by ord key rows) = length rows"
  by (cases ord) (auto simp: order_by_def)

lemma distinct_order_by [simp]: "distinct (order_by ord key rows) = distinct rows"
  by (cases ord) (auto simp: order_by_def)

definition folder_first :: "drive_item \<Rightarrow> nat" where
  "folder_first i = (if di_item_type i = FOLDER then 0 else 1)"

definition sort_items :: "world \<Rightarrow> sort_field \<Rightarrow> sort_order \<Rightarrow> drive_item list \<Rightarrow> drive_item list" where
  "sort_items w f ord rows = sort_key folder_first
     (case f of
        BY_NAME \<Rightarrow> order_by ord (\<lambda>i. db_collate w (di_name i)) rows
      | BY_CREATED_AT \<Rightarrow> order_by ord di_created_at rows
      | BY_UPDATED_AT \<Rightarrow> order_by ord di_updated_at rows
      | BY_SIZE_BYTES \<Rightarrow> order_by ord di_size_bytes rows)"

lemma set_sort_items [simp]: "set (sort_items w f ord rows) = set rows"
  by (cases f) (auto simp: sort_items_def)

lemma length_sort_items [simp]: "length (sort_items w f ord rows) = length rows"
  by (cases f) (auto simp: sort_items_def)

section \<open>Drive items\<close>

definition items_get_by_id :: "uuid \<Rightarrow> drive_item option M" where
  "items_get_by_id i = getsM (\<lambda>w. find_item w i)"

definition is_child :: "uuid option \<Rightarrow> uuid \<Rightarrow> drive_item \<Rightarrow> bool" where
  "is_child parent owner i = (di_owner_id i = owner \<and> \<not> di_is_deleted i \<and> di_parent_id i = parent)"

definition children :: "world \<Rightarrow> uuid option \<Rightarrow> uuid \<Rightarrow> drive_item list" where
  "children w parent owner = filter (is_child parent owner) (items w)"

definition list_children ::
  "uuid option \<Rightarrow> uuid \<Rightarrow> sort_field \<Rightarrow> sort_order \<Rightarrow> int \<Rightarrow> int \<Rightarrow> (drive_item list \<times> nat) M" where
  "list_children parent owner sort_by ord offset limit = liftM (\<lambda>w.
     let rows = children w parent owner in
     case select_page offset limit (sort_items w sort_by ord rows) of
       Inl e \<Rightarrow> Inl e
     | Inr page \<Rightarrow> Inr (page, length rows))"

definition new_item ::
  "uuid \<Rightarrow> time \<Rightarrow> uuid \<Rightarrow> uuid option \<Rightarrow> item_type \<Rightarrow> string \<Rightarrow> uuid \<Rightarrow> drive_item" where
  "new_item new_id t owner parent ty name by =
     \<lparr>di_id = new_id, di_owner_id = owner, di_parent_id = parent, di_item_type = ty,
      di_name = name, di_mime_type = None, di_extension = None, di_size_bytes = 0,
      di_storage_key = None, di_checksum = None, di_is_starred = False,
      di_is_deleted = False, di_deleted_at = None, di_created_by = by,
      di_updated_by = None, di_created_at = t, di_updated_at = t\<rparr>"

lemma new_item_simps [simp]:
  "di_id (new_item k t o' p ty n by) = k" "di_owner_id (new_item k t o' p ty n by) = o'"
  "di_parent_id (new_item k t o' p ty n by) = p" "di_item_type (new_item k t o' p ty n by) = ty"
  "di_name (new_item k t o' p ty n by) = n" "di_is_deleted (new_item k t o' p ty n by) = False"
  "di_storage_key (new_item k t o' p ty n by) = None"
  by (simp_all add: new_item_def)

definition items_create :: "uuid \<Rightarrow> uuid option \<Rightarrow> item_type \<Rightarrow> string \<Rightarrow> uuid \<Rightarrow> drive_item M" where
  "items_create owner parent ty name by =
     bindM now (\<lambda>t. bindM uuid4 (\<lambda>new_id.
       let item = new_item new_id t owner parent ty name by
       in thenM (modifyM (items_update (\<lambda>rows. rows @ [item])))
         (thenM flush_items (returnM item))))"

text \<open>The UPDATEs of one row: \<open>assert item is not None\<close>, set the columns, flush, return the row.\<close>

definition update_item :: "uuid \<Rightarrow> (time \<Rightarrow> drive_item \<Rightarrow> drive_item) \<Rightarrow> drive_item M" where
  "update_item i f =
     bindM now (\<lambda>t. bindM (items_get_by_id i) (\<lambda>item. case item of
         None \<Rightarrow> raiseM AssertionError
       | Some item \<Rightarrow>
           thenM (modifyM (set_item i (f t))) (thenM flush_items (returnM (f t item)))))"

definition update_name :: "uuid \<Rightarrow> string \<Rightarrow> uuid \<Rightarrow> drive_item M" where
  "update_name i name by =
     update_item i (\<lambda>t r. r\<lparr>di_name := name, di_updated_by := Some by, di_updated_at := t\<rparr>)"

definition update_parent :: "uuid \<Rightarrow> uuid option \<Rightarrow> uuid \<Rightarrow> drive_item M" where
  "update_parent i parent by =
     update_item i (\<lambda>t r. r\<lparr>di_parent_id := parent, di_updated_by := Some by, di_updated_at := t\<rparr>)"

definition same_name :: "string \<Rightarrow> uuid option \<Rightarrow> uuid \<Rightarrow> uuid option \<Rightarrow> drive_item \<Rightarrow> bool" where
  "same_name name parent owner exclude i =
     (di_owner_id i = owner \<and> \<not> di_is_deleted i \<and> di_name i = name \<and> di_parent_id i = parent
      \<and> (case exclude of None \<Rightarrow> True | Some x \<Rightarrow> di_id i \<noteq> x))"

definition name_query :: "world \<Rightarrow> string \<Rightarrow> uuid option \<Rightarrow> uuid \<Rightarrow> uuid option \<Rightarrow> error + bool" where
  "name_query w name parent owner exclude =
     (case scalar_one_or_none (filter (same_name name parent owner exclude) (items w)) of
        Inl e \<Rightarrow> Inl e
      | Inr r \<Rightarrow> Inr (r \<noteq> None))"

definition name_exists_in_parent :: "string \<Rightarrow> uuid option \<Rightarrow> uuid \<Rightarrow> uuid option \<Rightarrow> bool M" where
  "name_exists_in_parent name parent owner exclude =
     liftM (\<lambda>w. name_query w name parent owner exclude)"

section \<open>Preferences\<close>

definition find_pref :: "world \<Rightarrow> uuid \<Rightarrow> uuid \<Rightarrow> preference option" where
  "find_pref w u i = find (\<lambda>p. pf_user_id p = u \<and> pf_item_id p = i) (prefs w)"

definition get_preference :: "uuid \<Rightarrow> uuid \<Rightarrow> preference option M" where
  "get_preference u i = getsM (\<lambda>w. find_pref w u i)"

definition upsert_preference :: "uuid \<Rightarrow> uuid \<Rightarrow> bool \<Rightarrow> unit M" where
  "upsert_preference u i starred =
     bindM now (\<lambda>t. bindM (get_preference u i) (\<lambda>pref. case pref of
         None \<Rightarrow> bindM uuid4 (\<lambda>new_id.
           modifyM (prefs_update (\<lambda>rows. rows @
             [\<lparr>pf_id = new_id, pf_user_id = u, pf_item_id = i, pf_is_starred = starred,
               pf_created_at = t, pf_updated_at = t\<rparr>])))
       | Some p \<Rightarrow>
           modifyM (prefs_update (map (\<lambda>r. if pf_user_id r = u \<and> pf_item_id r = i
             then r\<lparr>pf_is_starred := starred, pf_updated_at := t\<rparr> else r)))))"

definition starred_ids :: "world \<Rightarrow> uuid \<Rightarrow> uuid list \<Rightarrow> uuid list" where
  "starred_ids w u ids =
     map pf_item_id (filter (\<lambda>p. pf_user_id p = u \<and> pf_item_id p \<in> set ids \<and> pf_is_starred p) (prefs w))"

definition get_starred_ids :: "uuid \<Rightarrow> uuid list \<Rightarrow> uuid list M" where
  "get_starred_ids u ids = (if ids = [] then returnM [] else getsM (\<lambda>w. starred_ids w u ids))"

definition get_all_starred_item_ids :: "uuid \<Rightarrow> int \<Rightarrow> uuid list M" where
  "get_all_starred_item_ids u limit = liftM (\<lambda>w.
     select_page 0 limit (map pf_item_id
       (order_by DESC pf_updated_at (filter (\<lambda>p. pf_user_id p = u \<and> pf_is_starred p) (prefs w)))))"

section \<open>Facts about the queries\<close>

lemma run_items_get_by_id [run_simps, simp]: "items_get_by_id i w = (Inr (find_item w i), w)"
  by (simp add: items_get_by_id_def)

lemma run_name_exists [run_simps, simp]:
  "name_exists_in_parent n p o' x w = (name_query w n p o' x, w)"
  by (simp add: name_exists_in_parent_def)

lemma keeps_items_get_by_id [keeps_rules]: "keeps f (items_get_by_id i)"
  and preserves_items_get_by_id [pres_rules]: "preserves I (items_get_by_id i)"
  by (simp_all add: keeps_def preserves_def)

lemma keeps_name_exists [keeps_rules]: "keeps f (name_exists_in_parent n p o' x)"
  and preserves_name_exists [pres_rules]: "preserves I (name_exists_in_parent n p o' x)"
  by (simp_all add: keeps_def preserves_def)

lemma keeps_list_children [keeps_rules]: "keeps f (list_children p o' s d a b)"
  and preserves_list_children [pres_rules]: "preserves I (list_children p o' s d a b)"
  by (simp_all add: list_children_def keeps_lift preserves_lift)

lemma keeps_get_starred_ids [keeps_rules]: "keeps f (get_starred_ids u ids)"
  and preserves_get_starred_ids [pres_rules]: "preserves I (get_starred_ids u ids)"
  by (simp_all add: get_starred_ids_def keeps_gets keeps_return preserves_gets preserves_return)

lemma keeps_get_preference [keeps_rules]: "keeps f (get_preference u i)"
  and preserves_get_preference [pres_rules]: "preserves I (get_preference u i)"
  by (simp_all add: get_preference_def keeps_gets preserves_gets)

lemma name_query_False:
  "name_query w n p o' x = Inr False \<longleftrightarrow> (\<forall>i \<in> set (items w). \<not> same_name n p o' x i)"
proof -
  have "name_query w n p o' x = Inr False \<longleftrightarrow> filter (same_name n p o' x) (items w) = []"
    unfolding name_query_def
    by (cases "filter (same_name n p o' x) (items w)" rule: scalar_one_or_none.cases) auto
  then show ?thesis by (simp add: filter_empty_conv)
qed

lemma name_query_True:
  "name_query w n p o' x = Inr True \<Longrightarrow> \<exists>i \<in> set (items w). same_name n p o' x i"
  unfolding name_query_def
  by (cases "filter (same_name n p o' x) (items w)" rule: scalar_one_or_none.cases)
    (auto simp: filter_eq_Cons_iff)

lemma children_iff: "i \<in> set (children w p o') \<longleftrightarrow> i \<in> set (items w) \<and> is_child p o' i"
  by (simp add: children_def)

end
