(* ===== verification/Ancestry.thy ===== *)
theory Ancestry
  imports DriveRepo
begin

text \<open>
  Folders form a forest through \<open>parent_id\<close>. Half of the backend walks that chain upwards: the
  permission service, the cycle check of a move, the breadcrumb trail, the subtree check of a
  public link. The locale states what such a walk relies on; the measure \<open>height\<close> and the induction
  rule of the locale are what every walk is proved with.
\<close>

section \<open>The interface of an upward walk\<close>

locale ancestry =
  fixes up :: "'w \<Rightarrow> 'k \<Rightarrow> 'k option"
    and nodes :: "'w \<Rightarrow> 'k set"
    and ok :: "'w \<Rightarrow> bool"
  assumes finite_nodes: "ok w \<Longrightarrow> finite (nodes w)"
    and up_node: "ok w \<Longrightarrow> up w x = Some y \<Longrightarrow> y \<in> nodes w"
    and up_acyclic: "ok w \<Longrightarrow> acyclic {(x, y). up w x = Some y}"
begin

definition up_rel :: "'w \<Rightarrow> ('k \<times> 'k) set" where
  "up_rel w = {(x, y). up w x = Some y}"

definition height :: "'w \<Rightarrow> 'k \<Rightarrow> nat" where
  "height w x = card ((up_rel w)\<^sup>+ `` {x})"

lemma above_nodes: "ok w \<Longrightarrow> (up_rel w)\<^sup>+ `` {x} \<subseteq> nodes w"
  by (auto simp: up_rel_def elim: tranclE intro: up_node)

lemma finite_above: "ok w \<Longrightarrow> finite ((up_rel w)\<^sup>+ `` {x})"
  by (rule finite_subset [OF above_nodes finite_nodes])

lemma height_less:
  assumes "ok w" "up w x = Some y"
  shows "height w y < height w x"
proof -
  let ?R = "up_rel w"
  from assms have xy: "(x, y) \<in> ?R" by (simp add: up_rel_def)
  have "y \<notin> ?R\<^sup>+ `` {y}"
    using up_acyclic [OF assms(1)] by (auto simp: acyclic_def up_rel_def)
  moreover have "?R\<^sup>+ `` {y} \<subseteq> ?R\<^sup>+ `` {x}" "y \<in> ?R\<^sup>+ `` {x}"
    using xy by (auto intro: trancl_into_trancl2)
  ultimately have "?R\<^sup>+ `` {y} \<subset> ?R\<^sup>+ `` {x}" by blast
  then show ?thesis unfolding height_def by (rule psubset_card_mono [OF finite_above [OF assms(1)]])
qed

lemma height_bound: "ok w \<Longrightarrow> height w x \<le> card (nodes w)"
  unfolding height_def by (rule card_mono [OF finite_nodes above_nodes])

lemma height_top: "up w x = None \<Longrightarrow> height w x = 0"
proof -
  assume "up w x = None"
  then have "(up_rel w)\<^sup>+ `` {x} = {}" by (auto simp: up_rel_def elim: converse_tranclE)
  then show ?thesis by (simp add: height_def)
qed

lemma up_induct [consumes 1, case_names step]:
  assumes "ok w" and step: "\<And>x. (\<And>y. up w x = Some y \<Longrightarrow> P y) \<Longrightarrow> P x"
  shows "P x"
proof (induction "height w x" arbitrary: x rule: less_induct)
  case less
  show ?case by (rule step) (use height_less [OF assms(1)] less in blast)
qed

lemma not_own_ancestor: "ok w \<Longrightarrow> (x, x) \<notin> (up_rel w)\<^sup>+"
  using up_acyclic by (auto simp: acyclic_def up_rel_def)

end

section \<open>The forest of drive items\<close>

definition parent_of :: "world \<Rightarrow> uuid \<Rightarrow> uuid option" where
  "parent_of w i = (case find_item w i of None \<Rightarrow> None | Some r \<Rightarrow> di_parent_id r)"

definition item_ids :: "world \<Rightarrow> uuid set" where
  "item_ids w = di_id ` set (items w)"

definition parent_rel :: "world \<Rightarrow> (uuid \<times> uuid) set" where
  "parent_rel w = {(x, y). parent_of w x = Some y}"

definition parents_are_folders :: "world \<Rightarrow> bool" where
  "parents_are_folders w =
     (\<forall>i \<in> set (items w). \<forall>j \<in> set (items w).
        di_parent_id i = Some (di_id j) \<longrightarrow> di_item_type j = FOLDER)"

definition ids_issued :: "world \<Rightarrow> bool" where
  "ids_issued w = (\<forall>i \<in> item_ids w. i < uuid_next w)"

text \<open>
  The invariant of the drive: unique keys, parents that exist and are folders, no folder inside
  itself, and no identifier in use that the supply will hand out again.
\<close>

definition forest :: "world \<Rightarrow> bool" where
  "forest w = (pk_items (items w) \<and> fk_parent (items w) \<and> parents_are_folders w
     \<and> ids_issued w \<and> acyclic (parent_rel w))"

lemma parent_of_iff:
  "pk_items (items w) \<Longrightarrow>
    parent_of w x = Some y \<longleftrightarrow> (\<exists>i \<in> set (items w). di_id i = x \<and> di_parent_id i = Some y)"
  unfolding parent_of_def
  by (auto split: option.splits dest: find_item_Some find_item_mem simp: find_item_None)

lemma parent_of_exists:
  "pk_items (items w) \<Longrightarrow> fk_parent (items w) \<Longrightarrow> parent_of w x = Some y \<Longrightarrow> y \<in> item_ids w"
  by (auto simp: parent_of_iff item_ids_def fk_parent_iff)

lemma card_item_ids: "card (item_ids w) \<le> length (items w)"
  unfolding item_ids_def by (metis card_image_le card_length finite_set le_trans)

interpretation drive_tree: ancestry parent_of item_ids forest
proof
  fix w x y
  assume ok: "forest w"
  then show "finite (item_ids w)" by (simp add: item_ids_def)
  from ok show "acyclic {(x, y). parent_of w x = Some y}"
    by (simp add: forest_def parent_rel_def)
  from ok show "parent_of w x = Some y \<Longrightarrow> y \<in> item_ids w"
    by (auto simp: forest_def intro: parent_of_exists)
qed

abbreviation depth_of :: "world \<Rightarrow> uuid \<Rightarrow> nat" where
  "depth_of \<equiv> drive_tree.height"

lemma up_rel_parent_rel: "drive_tree.up_rel w = parent_rel w"
  by (simp add: drive_tree.up_rel_def parent_rel_def)

text \<open>How the forest reacts to the three kinds of change: a new leaf, a new parent, a smaller table.\<close>

lemma parent_rel_subset_acyclic:
  "acyclic (parent_rel w) \<Longrightarrow> parent_rel w' \<subseteq> parent_rel w \<Longrightarrow> acyclic (parent_rel w')"
  by (rule acyclic_subset)

lemma forest_find: "forest w \<Longrightarrow> i \<in> set (items w) \<Longrightarrow> find_item w (di_id i) = Some i"
  by (simp add: forest_def find_item_mem)

lemma parent_of_set_item:
  assumes "\<And>r. di_id (f r) = di_id r"
  shows "parent_of (set_item i f w) x =
    (if x = i then Option.bind (find_item w i) (\<lambda>r. di_parent_id (f r)) else parent_of w x)"
  unfolding parent_of_def by (auto simp: find_item_set_item assms split: option.splits)

lemma items_set_item: "items (set_item i f w) = row_update di_id i f (items w)"
  by (simp add: set_item_def)

lemma item_ids_set_item:
  assumes "\<And>r. di_id (f r) = di_id r"
  shows "item_ids (set_item i f w) = item_ids w"
  unfolding item_ids_def items_set_item
  by (metis assms row_keys_update set_map)

text \<open>An update that leaves identifier, parent and type alone keeps the forest.\<close>

lemma forest_set_item:
  assumes "forest w"
    and "\<And>r. di_id (f r) = di_id r" "\<And>r. di_parent_id (f r) = di_parent_id r"
    and "\<And>r. di_item_type (f r) = di_item_type r"
  shows "forest (set_item i f w)"
proof -
  have keys: "map di_id (items (set_item i f w)) = map di_id (items w)"
    by (simp add: items_set_item row_keys_update assms(2))
  have rows: "r' \<in> set (items (set_item i f w)) \<Longrightarrow>
      \<exists>r \<in> set (items w). di_id r' = di_id r \<and> di_parent_id r' = di_parent_id r
        \<and> di_item_type r' = di_item_type r" for r'
    by (auto simp: items_set_item set_row_update assms(2-4) split: if_splits)
  have "parent_of (set_item i f w) x = parent_of w x" for x
    by (simp add: parent_of_set_item assms(2,3) del: split_paired_All)
      (simp add: parent_of_def split: option.splits)
  then have "parent_of (set_item i f w) = parent_of w" by (rule ext)
  moreover have "pk_items (items (set_item i f w))"
    using assms(1) keys by (simp add: forest_def pk_items_def)
  moreover have "fk_parent (items (set_item i f w))"
    using assms(1) rows keys unfolding forest_def fk_parent_iff by (metis list.set_map)
  moreover have "parents_are_folders (set_item i f w)"
    using assms(1) rows unfolding forest_def parents_are_folders_def by metis
  moreover have "ids_issued (set_item i f w)"
    using assms(1) by (simp add: forest_def ids_issued_def item_ids_set_item assms(2))
      (simp add: set_item_def)
  ultimately show ?thesis using assms(1) by (simp add: forest_def parent_rel_def)
qed

lemma forest_cong:
  "items w' = items w \<Longrightarrow> uuid_next w \<le> uuid_next w' \<Longrightarrow> forest w \<Longrightarrow> forest w'"
  by (auto simp: forest_def parents_are_folders_def ids_issued_def item_ids_def parent_rel_def
      parent_of_def find_item_def)

lemma forest_rollback: "forest w \<Longrightarrow> forest (rollback w w')"
  by (erule forest_cong [rotated 2]) (simp_all add: rollback_def)

text \<open>Deleting rows that no remaining row has as its parent keeps the forest.\<close>

lemma forest_delete:
  assumes "forest w" and "fk_parent (row_delete P (items w))"
  shows "forest (items_update (row_delete P) w)"
proof -
  let ?w = "items_update (row_delete P) w"
  have pk: "pk_items (items ?w)" using assms(1) by (simp add: forest_def pk_items_def row_delete_distinct)
  have "parent_rel ?w \<subseteq> parent_rel w"
    using assms(1) pk by (auto simp: parent_rel_def parent_of_iff forest_def)
  then have "acyclic (parent_rel ?w)"
    using assms(1) by (auto simp: forest_def intro: acyclic_subset)
  with assms pk show ?thesis
    by (auto simp: forest_def parents_are_folders_def ids_issued_def item_ids_def)
qed

text \<open>A new row under an identifier nobody uses keeps the forest.\<close>

lemma forest_insert:
  assumes w: "forest w" and new: "di_id r \<notin> item_ids w" "di_id r < uuid_next w"
    and parent: "\<And>p. di_parent_id r = Some p \<Longrightarrow> \<exists>f \<in> set (items w). di_id f = p \<and> di_item_type f = FOLDER"
  shows "forest (items_update (\<lambda>rows. rows @ [r]) w)"
proof -
  let ?w = "items_update (\<lambda>rows. rows @ [r]) w"
  have pk: "pk_items (items ?w)" using w new by (auto simp: forest_def pk_items_def item_ids_def)
  have fk: "fk_parent (items ?w)" using w parent by (force simp: forest_def fk_parent_iff)
  have rel: "parent_rel ?w \<subseteq> parent_rel w \<union> {(di_id r, p) | p. di_parent_id r = Some p}"
    using w pk by (auto simp: parent_rel_def parent_of_iff forest_def)
  have "acyclic (parent_rel ?w)"
  proof (cases "di_parent_id r")
    case None
    with rel w show ?thesis by (auto simp: forest_def intro: acyclic_subset)
  next
    case (Some p)
    have "(p, di_id r) \<notin> (parent_rel w)\<^sup>*"
    proof
      assume "(p, di_id r) \<in> (parent_rel w)\<^sup>*"
      moreover have "p \<noteq> di_id r" using parent [OF Some] new(1) unfolding item_ids_def by (metis imageI)
      ultimately obtain x where "(x, di_id r) \<in> parent_rel w" by (metis rtranclE)
      with w new(1) show False using drive_tree.up_node [OF w] by (auto simp: parent_rel_def)
    qed
    then have "acyclic (insert (di_id r, p) (parent_rel w))"
      using w by (simp add: forest_def acyclic_insert)
    with rel Some show ?thesis by (auto intro: acyclic_subset)
  qed
  moreover have "parents_are_folders ?w"
    using w parent new(1) fk unfolding forest_def parents_are_folders_def item_ids_def fk_parent_iff
    by (auto simp: pk_items_def inj_on_def distinct_map; metis imageI)
  moreover have "ids_issued ?w" using w new(2) by (auto simp: forest_def ids_issued_def item_ids_def)
  ultimately show ?thesis using pk fk by (simp add: forest_def)
qed

text \<open>
  A new parent keeps the forest when it is a folder of the table that is neither the item nor below it.
\<close>

lemma forest_reparent:
  assumes w: "forest w" and i: "di_id i = k" "i \<in> set (items w)"
    and f: "\<And>r. di_id (f r) = di_id r" "\<And>r. di_item_type (f r) = di_item_type r"
      "\<And>r. di_parent_id (f r) = np"
    and np: "\<And>p. np = Some p \<Longrightarrow> (\<exists>g \<in> set (items w). di_id g = p \<and> di_item_type g = FOLDER)
      \<and> (p, k) \<notin> (parent_rel w)\<^sup>*"
  shows "forest (set_item k f w)"
proof -
  let ?w = "set_item k f w"
  have keys: "map di_id (items ?w) = map di_id (items w)"
    by (simp add: items_set_item row_keys_update f(1))
  then have pk: "pk_items (items ?w)" and ids: "di_id ` set (items ?w) = di_id ` set (items w)"
    using w by (simp_all add: forest_def pk_items_def) (metis list.set_map)
  have rows: "r' \<in> set (items ?w) \<Longrightarrow>
      \<exists>r \<in> set (items w). di_id r' = di_id r \<and> di_item_type r' = di_item_type r
        \<and> di_parent_id r' = (if di_id r = k then np else di_parent_id r)" for r'
    by (auto simp: items_set_item set_row_update f split: if_splits)
  have fk: "fk_parent (items ?w)"
    using w np rows unfolding fk_parent_iff ids forest_def by (metis imageI)
  have folders: "parents_are_folders ?w"
  proof (unfold parents_are_folders_def, intro ballI impI)
    fix a b assume a: "a \<in> set (items ?w)" and b: "b \<in> set (items ?w)"
      and ab: "di_parent_id a = Some (di_id b)"
    obtain a0 where a0: "a0 \<in> set (items w)"
        "di_parent_id a = (if di_id a0 = k then np else di_parent_id a0)"
      using rows [OF a] by blast
    obtain b0 where b0: "b0 \<in> set (items w)" "di_id b = di_id b0" "di_item_type b = di_item_type b0"
      using rows [OF b] by blast
    show "di_item_type b = FOLDER"
    proof (cases "di_id a0 = k")
      case True
      then obtain g where g: "g \<in> set (items w)" "di_id g = di_id b0" "di_item_type g = FOLDER"
        using np a0 ab b0 by auto
      with w b0 have "g = b0" by (metis forest_find option.inject)
      with g b0 show ?thesis by simp
    next
      case False
      with a0 b0 ab w show ?thesis by (auto simp: forest_def parents_are_folders_def)
    qed
  qed
  have "parent_rel ?w \<subseteq> parent_rel w \<union> {(k, p) | p. np = Some p}"
    using w pk rows by (fastforce simp: parent_rel_def parent_of_iff forest_def split: if_splits)
  moreover have "acyclic (parent_rel w \<union> {(k, p) | p. np = Some p})"
  proof (cases np)
    case None
    with w show ?thesis by (simp add: forest_def)
  next
    case (Some p)
    then have "{(k, p) | p. np = Some p} = {(k, p)}" by auto
    with Some np w show ?thesis by (simp add: forest_def acyclic_insert)
  qed
  ultimately have "acyclic (parent_rel ?w)" by (rule acyclic_subset [rotated])
  moreover have "ids_issued ?w"
    using w ids by (simp add: forest_def ids_issued_def item_ids_def) (simp add: set_item_def)
  ultimately show ?thesis using pk fk folders by (simp add: forest_def)
qed

end
