(* ===== verification/Permissions.thy ===== *)
theory Permissions
  imports Ancestry
begin

text \<open>
  \<open>app/permission\<close>: the permission levels, the two queries on shares that the permission service
  needs, and the service itself. \<open>access_level\<close> is what the service promises, stated without the walk:
  the best grant on the item or on any folder above it, where owning counts as the best grant.
\<close>

section \<open>Levels\<close>

fun perm_level :: "permission \<Rightarrow> nat" where
  "perm_level VIEWER = 1"
| "perm_level DOWNLOADER = 2"
| "perm_level EDITOR = 3"
| "perm_level OWNER = 4"

definition has_at_least :: "permission option \<Rightarrow> permission \<Rightarrow> bool" where
  "has_at_least perm required =
     (case perm of None \<Rightarrow> False | Some p \<Rightarrow> perm_level p \<ge> perm_level required)"

text \<open>The order of the levels as an order on the type.\<close>

lemma perm_level_inject: "perm_level p = perm_level q \<longleftrightarrow> p = q"
  by (cases p; cases q) auto

instantiation permission :: linorder
begin

definition less_eq_permission :: "permission \<Rightarrow> permission \<Rightarrow> bool" where
  "less_eq_permission p q = (perm_level p \<le> perm_level q)"

definition less_permission :: "permission \<Rightarrow> permission \<Rightarrow> bool" where
  "less_permission p q = (perm_level p < perm_level q)"

instance
  by intro_classes (auto simp: less_eq_permission_def less_permission_def perm_level_inject)

end

definition level_of :: "permission option \<Rightarrow> nat" where
  "level_of p = (case p of None \<Rightarrow> 0 | Some q \<Rightarrow> perm_level q)"

lemma level_of_simps [simp]: "level_of None = 0" "level_of (Some q) = perm_level q"
  by (simp_all add: level_of_def)

lemma perm_level_le_4: "perm_level p \<le> 4" and perm_level_pos: "0 < perm_level p"
  by (cases p; simp)+

lemma level_of_OWNER: "level_of p = 4 \<longleftrightarrow> p = Some OWNER"
  by (cases p) (auto simp: perm_level_inject [of _ OWNER, simplified])

lemma has_at_least_level: "has_at_least p q \<longleftrightarrow> perm_level q \<le> level_of p"
  using perm_level_pos [of q] by (auto simp: has_at_least_def split: option.splits)

section \<open>Shares\<close>

definition find_share :: "world \<Rightarrow> uuid \<Rightarrow> uuid \<Rightarrow> share option" where
  "find_share w i u = find (\<lambda>s. sh_item_id s = i \<and> sh_target_user_id s = u) (shares w)"

definition get_by_item_and_user :: "uuid \<Rightarrow> uuid \<Rightarrow> share option M" where
  "get_by_item_and_user i u = getsM (\<lambda>w. find_share w i u)"

definition delete_by_item :: "uuid \<Rightarrow> unit M" where
  "delete_by_item i = modifyM (shares_update (row_delete (\<lambda>s. sh_item_id s = i)))"

section \<open>The walk up the chain\<close>

definition better :: "permission option \<Rightarrow> permission \<Rightarrow> permission option" where
  "better best candidate =
     (case best of
        None \<Rightarrow> Some candidate
      | Some b \<Rightarrow> if perm_level candidate > perm_level b then Some candidate else best)"

text \<open>
  The loop of \<open>get_permission\<close> has no guard against a cycle of parents: the number bounds its
  iterations, and reaching it is \<open>Diverges\<close>.
\<close>

fun permission_walk ::
  "nat \<Rightarrow> world \<Rightarrow> uuid \<Rightarrow> drive_item \<Rightarrow> permission option \<Rightarrow> error + permission option" where
  "permission_walk 0 w user_id current best = Inl Diverges"
| "permission_walk (Suc n) w user_id current best =
     (if di_owner_id current = user_id then Inr (Some OWNER)
      else
        (let best = (case find_share w (di_id current) user_id of
             None \<Rightarrow> best | Some s \<Rightarrow> better best (sh_permission s))
         in case di_parent_id current of
              None \<Rightarrow> Inr best
            | Some p \<Rightarrow>
                (case find_item w p of
                   None \<Rightarrow> Inr best
                 | Some parent \<Rightarrow> permission_walk n w user_id parent best)))"

definition get_permission :: "uuid \<Rightarrow> drive_item \<Rightarrow> permission option M" where
  "get_permission user_id item =
     liftM (\<lambda>w. permission_walk (Suc (length (items w))) w user_id item None)"

definition assert_can_view :: "uuid \<Rightarrow> drive_item \<Rightarrow> unit M" where
  "assert_can_view user_id item =
     bindM (get_permission user_id item) (\<lambda>perm. guardM (has_at_least perm VIEWER) ForbiddenError)"

definition assert_can_download :: "uuid \<Rightarrow> drive_item \<Rightarrow> unit M" where
  "assert_can_download user_id item =
     bindM (get_permission user_id item) (\<lambda>perm. guardM (has_at_least perm DOWNLOADER) ForbiddenError)"

definition assert_can_edit :: "uuid \<Rightarrow> drive_item \<Rightarrow> unit M" where
  "assert_can_edit user_id item =
     bindM (get_permission user_id item) (\<lambda>perm. guardM (has_at_least perm EDITOR) ForbiddenError)"

definition assert_is_owner :: "uuid \<Rightarrow> drive_item \<Rightarrow> unit M" where
  "assert_is_owner user_id item =
     bindM (get_permission user_id item) (\<lambda>perm. guardM (perm = Some OWNER) ForbiddenError)"

lemmas perm_asserts = assert_can_view_def assert_can_download_def assert_can_edit_def assert_is_owner_def

lemma keeps_get_permission [keeps_rules]: "keeps f (get_permission u i)"
  and preserves_get_permission [pres_rules]: "preserves I (get_permission u i)"
  by (simp_all add: get_permission_def keeps_lift preserves_lift)

lemma keeps_perm_asserts [keeps_rules]:
  "keeps f (assert_can_view u i)" "keeps f (assert_can_download u i)"
  "keeps f (assert_can_edit u i)" "keeps f (assert_is_owner u i)"
  unfolding perm_asserts by (intro keeps_rules)+

lemma preserves_perm_asserts [pres_rules]:
  "preserves I (assert_can_view u i)" "preserves I (assert_can_download u i)"
  "preserves I (assert_can_edit u i)" "preserves I (assert_is_owner u i)"
  unfolding perm_asserts by (intro pres_rules)+

section \<open>What the walk computes\<close>

definition grant :: "world \<Rightarrow> uuid \<Rightarrow> uuid \<Rightarrow> nat" where
  "grant w u i =
     (case find_item w i of
        None \<Rightarrow> 0
      | Some r \<Rightarrow>
          if di_owner_id r = u then 4
          else (case find_share w i u of None \<Rightarrow> 0 | Some s \<Rightarrow> perm_level (sh_permission s)))"

definition self_and_above :: "world \<Rightarrow> uuid \<Rightarrow> uuid set" where
  "self_and_above w i = (parent_rel w)\<^sup>* `` {i}"

definition access_level :: "world \<Rightarrow> uuid \<Rightarrow> uuid \<Rightarrow> nat" where
  "access_level w u i = Max (grant w u ` self_and_above w i)"

lemma self_and_above_step:
  "self_and_above w i = insert i (case parent_of w i of None \<Rightarrow> {} | Some p \<Rightarrow> self_and_above w p)"
proof -
  have "(i, x) \<in> (parent_rel w)\<^sup>* \<longleftrightarrow>
      x = i \<or> (\<exists>p. parent_of w i = Some p \<and> (p, x) \<in> (parent_rel w)\<^sup>*)" for x
    by (auto simp: parent_rel_def elim: converse_rtranclE intro: converse_rtrancl_into_rtrancl)
  then show ?thesis by (auto simp: self_and_above_def split: option.splits)
qed

lemma finite_self_and_above: "forest w \<Longrightarrow> finite (self_and_above w i)"
proof -
  assume "forest w"
  then have "finite ((parent_rel w)\<^sup>+ `` {i})"
    using drive_tree.finite_above [of w i] by (simp add: up_rel_parent_rel)
  moreover have "self_and_above w i = insert i ((parent_rel w)\<^sup>+ `` {i})"
    by (auto simp: self_and_above_def rtrancl_eq_or_trancl)
  ultimately show ?thesis by simp
qed

lemma grant_le_4: "grant w u i \<le> 4"
  by (auto simp: grant_def perm_level_le_4 split: option.splits)

lemma self_and_above_nonempty: "self_and_above w i \<noteq> {}"
  by (auto simp: self_and_above_def)

lemma access_level_le_4: "forest w \<Longrightarrow> access_level w u i \<le> 4"
  unfolding access_level_def
  using Max_le_iff [of "grant w u ` self_and_above w i" 4]
  by (simp add: finite_self_and_above grant_le_4 self_and_above_nonempty)

lemma access_level_step:
  assumes "forest w"
  shows "access_level w u i =
    max (grant w u i) (case parent_of w i of None \<Rightarrow> 0 | Some p \<Rightarrow> access_level w u p)"
proof (cases "parent_of w i")
  case None
  then show ?thesis by (subst access_level_def, subst self_and_above_step) simp
next
  case (Some p)
  have "self_and_above w p \<noteq> {}" by (auto simp: self_and_above_def)
  with Some assms show ?thesis
    by (subst access_level_def, subst self_and_above_step)
      (simp add: access_level_def finite_self_and_above Max_insert)
qed

lemma level_better: "level_of (better best c) = max (level_of best) (perm_level c)"
  by (auto simp: better_def split: option.splits)

lemma permission_walk_level:
  assumes "forest w"
  shows "current \<in> set (items w) \<Longrightarrow> depth_of w (di_id current) < n \<Longrightarrow>
    \<exists>r. permission_walk n w u current best = Inr r
      \<and> level_of r = max (level_of best) (access_level w u (di_id current))"
proof (induction n arbitrary: current best)
  case 0
  then show ?case by simp
next
  case (Suc n)
  note found = forest_find [OF assms Suc.prems(1)]
  have best4: "level_of best \<le> 4" by (cases best) (simp_all add: perm_level_le_4)
  have step: "access_level w u (di_id current) = max (grant w u (di_id current))
      (case di_parent_id current of None \<Rightarrow> 0 | Some p \<Rightarrow> access_level w u p)"
    by (subst access_level_step [OF assms]) (simp add: parent_of_def found)
  show ?case
  proof (cases "di_owner_id current = u")
    case True
    then have "grant w u (di_id current) = 4" by (simp add: grant_def found)
    moreover have "access_level w u (di_id current) \<le> 4" by (rule access_level_le_4 [OF assms])
    ultimately have "access_level w u (di_id current) = 4" using step by simp
    with True best4 show ?thesis by simp
  next
    case False
    define b where "b = (case find_share w (di_id current) u of
      None \<Rightarrow> best | Some s \<Rightarrow> better best (sh_permission s))"
    have b: "level_of b = max (level_of best) (grant w u (di_id current))"
      using False by (auto simp: b_def grant_def found level_better split: option.splits)
    show ?thesis
    proof (cases "di_parent_id current")
      case None
      with False b step show ?thesis by (simp add: b_def [symmetric])
    next
      case (Some p)
      have up: "parent_of w (di_id current) = Some p" by (simp add: parent_of_def found Some)
      then obtain parent where parent: "parent \<in> set (items w)" "di_id parent = p"
        using drive_tree.up_node [OF assms] by (auto simp: item_ids_def)
      have "depth_of w p < n"
        using drive_tree.height_less [OF assms up] Suc.prems(2) by simp
      with Suc.IH [of parent b] parent obtain r where
        "permission_walk n w u parent b = Inr r" "level_of r = max (level_of b) (access_level w u p)"
        by auto
      with False Some b step forest_find [OF assms parent(1)] parent(2) show ?thesis
        by (simp add: b_def [symmetric])
    qed
  qed
qed

lemma fuel_above: "forest w \<Longrightarrow> depth_of w i < Suc (length (items w))"
  using drive_tree.height_bound [of w i] card_item_ids [of w] by simp

lemma get_permission_level:
  assumes "forest w" "item \<in> set (items w)"
  obtains r where "get_permission u item w = (Inr r, w)" "level_of r = access_level w u (di_id item)"
proof -
  obtain r where "permission_walk (Suc (length (items w))) w u item None = Inr r"
      "level_of r = max (level_of None) (access_level w u (di_id item))"
    using permission_walk_level [OF assms fuel_above [OF assms(1)], of u None] by blast
  with that show thesis by (simp add: get_permission_def)
qed

text \<open>The four asserts are the comparisons of the level.\<close>

lemma assert_can_edit_iff:
  assumes "forest w" "item \<in> set (items w)"
  shows "assert_can_edit u item w =
    (if 3 \<le> access_level w u (di_id item) then Inr () else Inl ForbiddenError, w)"
  by (rule get_permission_level [OF assms, of u])
    (simp add: assert_can_edit_def run_bind run_guard has_at_least_level)

lemma assert_can_view_iff:
  assumes "forest w" "item \<in> set (items w)"
  shows "assert_can_view u item w =
    (if 1 \<le> access_level w u (di_id item) then Inr () else Inl ForbiddenError, w)"
  by (rule get_permission_level [OF assms, of u])
    (simp add: assert_can_view_def run_bind run_guard has_at_least_level)

lemma assert_can_download_iff:
  assumes "forest w" "item \<in> set (items w)"
  shows "assert_can_download u item w =
    (if 2 \<le> access_level w u (di_id item) then Inr () else Inl ForbiddenError, w)"
  by (rule get_permission_level [OF assms, of u])
    (simp add: assert_can_download_def run_bind run_guard has_at_least_level)

lemma assert_is_owner_iff:
  assumes "forest w" "item \<in> set (items w)"
  shows "assert_is_owner u item w =
    (if access_level w u (di_id item) = 4 then Inr () else Inl ForbiddenError, w)"
  by (rule get_permission_level [OF assms, of u])
    (auto simp: assert_is_owner_def run_bind run_guard level_of_OWNER)

text \<open>A grant on a folder reaches everything below it.\<close>

lemma access_level_inherited:
  assumes "forest w" "(i, a) \<in> (parent_rel w)\<^sup>*"
  shows "access_level w u a \<le> access_level w u i"
proof -
  have "self_and_above w a \<subseteq> self_and_above w i"
    using assms(2) by (auto simp: self_and_above_def)
  then show ?thesis unfolding access_level_def
    by (intro Max_mono image_mono) (auto simp: self_and_above_def finite_self_and_above
        [OF assms(1), unfolded self_and_above_def])
qed

lemma owner_access: "forest w \<Longrightarrow> i \<in> set (items w) \<Longrightarrow> di_owner_id i = u \<Longrightarrow> access_level w u (di_id i) = 4"
proof -
  assume a: "forest w" "i \<in> set (items w)" "di_owner_id i = u"
  then have "grant w u (di_id i) = 4" by (simp add: grant_def forest_find)
  with a(1) show ?thesis
    using access_level_step [OF a(1), of u "di_id i"] access_level_le_4 [OF a(1), of u "di_id i"] by simp
qed

text \<open>An executable criterion for the forest: every parent has a smaller identifier than its child.\<close>

definition forest_check :: "world \<Rightarrow> bool" where
  "forest_check w = (pk_items (items w) \<and> fk_parent (items w)
     \<and> list_all (\<lambda>i. di_id i < uuid_next w \<and> (case di_parent_id i of None \<Rightarrow> True | Some p \<Rightarrow> p < di_id i)
         \<and> list_all (\<lambda>j. di_parent_id i = Some (di_id j) \<longrightarrow> di_item_type j = FOLDER) (items w)) (items w))"

lemma forest_check: "forest_check w \<Longrightarrow> forest w"
proof -
  assume c: "forest_check w"
  then have pk: "pk_items (items w)" by (simp add: forest_check_def)
  have "parent_rel w \<subseteq> {(x, y). y < x}"
    using c by (auto simp: parent_rel_def parent_of_iff [OF pk] forest_check_def list_all_iff)
  moreover have "acyclic {(x, y :: nat). y < x}"
  proof -
    have "{(x, y :: nat). y < x} = less_than\<inverse>" by auto
    then show ?thesis using wf_acyclic [OF wf_less_than] by simp
  qed
  ultimately have "acyclic (parent_rel w)" by (rule acyclic_subset [rotated])
  with c show ?thesis
    by (auto simp: forest_def forest_check_def parents_are_folders_def ids_issued_def item_ids_def list_all_iff)
qed

end
