(* ===== verification/Common.thy ===== *)
theory Common
  imports DriveRepo
begin

text \<open>
  \<open>app/schemas/common.py\<close>: pages and the response for a drive item; and Python's list slices.
\<close>

section \<open>Slices\<close>

text \<open>\<open>xs[lo:hi]\<close>: a negative bound counts from the end, bounds are clipped to the list.\<close>

definition slice_bound :: "int \<Rightarrow> 'a list \<Rightarrow> nat" where
  "slice_bound i xs = nat (min (int (length xs)) (if i < 0 then i + int (length xs) else i))"

definition py_slice :: "int \<Rightarrow> int \<Rightarrow> 'a list \<Rightarrow> 'a list" where
  "py_slice lo hi xs = take (slice_bound hi xs - slice_bound lo xs) (drop (slice_bound lo xs) xs)"

lemma py_slice_nonneg:
  assumes "0 \<le> lo" "0 \<le> n"
  shows "py_slice lo (lo + n) xs = take (nat n) (drop (nat lo) xs)"
proof -
  have lo: "slice_bound lo xs = min (length xs) (nat lo)"
    and hi: "slice_bound (lo + n) xs = min (length xs) (nat lo + nat n)"
    using assms by (auto simp: slice_bound_def min_def nat_add_distrib)
  show ?thesis unfolding py_slice_def lo hi by (cases "nat lo \<le> length xs") (auto simp: min_def)
qed

section \<open>Pages\<close>

record 'a page =
  pg_items :: "'a list"
  pg_total :: int
  pg_page :: int
  pg_page_size :: int
  pg_pages :: int

text \<open>\<open>math.ceil(total / page_size)\<close>, exact: the quotients of the source are far below the
  precision of a float.\<close>

definition page_create :: "'a list \<Rightarrow> int \<Rightarrow> int \<Rightarrow> int \<Rightarrow> 'a page" where
  "page_create xs count page page_size =
     \<lparr>pg_items = xs, pg_total = count, pg_page = page, pg_page_size = page_size,
      pg_pages = (if page_size > 0 then - ((- count) div page_size) else 0)\<rparr>"

text \<open>The rows that the request for one page selects, and the pages of a listing one after another.\<close>

definition page_rows :: "int \<Rightarrow> int \<Rightarrow> 'a list \<Rightarrow> 'a list" where
  "page_rows page page_size rows = take (nat page_size) (drop (nat ((page - 1) * page_size)) rows)"

lemma select_page_rows:
  "1 \<le> page \<Longrightarrow> 0 \<le> page_size \<Longrightarrow>
    select_page ((page - 1) * page_size) page_size rows = Inr (page_rows page page_size rows)"
  by (auto simp: select_page_def page_rows_def mult_less_0_iff)

lemma concat_chunks:
  "length xs \<le> n * k \<Longrightarrow> concat (map (\<lambda>i. take k (drop (i * k) xs)) [0..<n]) = xs"
proof (induction n arbitrary: xs)
  case (Suc n)
  have "concat (map (\<lambda>i. take k (drop (i * k) xs)) [0..<Suc n]) =
      take k xs @ concat (map (\<lambda>i. take k (drop (i * k) (drop k xs))) [0..<n])"
    by (simp add: upt_rec [of 0 "Suc n"] map_Suc_upt [symmetric] comp_def add.commute del: upt_Suc)
  also have "\<dots> = take k xs @ drop k xs" using Suc.IH [of "drop k xs"] Suc.prems by simp
  finally show ?case by simp
qed simp

text \<open>Asking for the pages \<open>1..pages\<close> in turn returns every row once, in order.\<close>

lemma pages_cover:
  assumes "0 < page_size"
  shows "concat (map (\<lambda>p. page_rows (int (Suc p)) page_size rows)
      [0..<nat (pg_pages (page_create rows (int (length rows)) page page_size))]) = rows"
proof -
  let ?k = "nat page_size"
  let ?q = "(- int (length rows)) div page_size"
  have "?q * page_size = - int (length rows) - (- int (length rows)) mod page_size"
    by (simp add: minus_mod_eq_div_mult)
  moreover have "0 \<le> (- int (length rows)) mod page_size" using assms by simp
  ultimately have le: "int (length rows) \<le> (- ?q) * page_size" by simp
  have "?q \<le> 0" using assms by (simp add: div_nonpos_pos_le0)
  then have "int (nat (- ?q) * ?k) = (- ?q) * page_size" using assms by simp
  with le have "length rows \<le> nat (- ?q) * ?k" by linarith
  then have "concat (map (\<lambda>i. take ?k (drop (i * ?k) rows))
      [0..<nat (- ((- int (length rows)) div page_size))]) = rows"
    by (rule concat_chunks)
  moreover have "page_rows (int (Suc i)) page_size rows = take ?k (drop (i * ?k) rows)" for i
    using assms by (simp add: page_rows_def nat_mult_distrib)
  ultimately show ?thesis using assms by (simp add: page_create_def)
qed

section \<open>The response for an item\<close>

record item_response =
  ir_id :: uuid
  ir_owner_id :: uuid
  ir_parent_id :: "uuid option"
  ir_item_type :: item_type
  ir_name :: string
  ir_mime_type :: "string option"
  ir_extension :: "string option"
  ir_size_bytes :: int
  ir_is_starred :: bool
  ir_is_deleted :: bool
  ir_deleted_at :: "time option"
  ir_created_by :: uuid
  ir_updated_by :: "uuid option"
  ir_created_at :: time
  ir_updated_at :: time
  ir_shared_with_users :: bool
  ir_public_link :: bool

record badges =
  bd_shared_with_users :: bool
  bd_public_link :: bool

definition no_badges :: badges where
  "no_badges = \<lparr>bd_shared_with_users = False, bd_public_link = False\<rparr>"

definition to_response :: "drive_item \<Rightarrow> bool \<Rightarrow> badges option \<Rightarrow> item_response" where
  "to_response i starred b =
     \<lparr>ir_id = di_id i, ir_owner_id = di_owner_id i, ir_parent_id = di_parent_id i,
      ir_item_type = di_item_type i, ir_name = di_name i, ir_mime_type = di_mime_type i,
      ir_extension = di_extension i, ir_size_bytes = di_size_bytes i, ir_is_starred = starred,
      ir_is_deleted = di_is_deleted i, ir_deleted_at = di_deleted_at i,
      ir_created_by = di_created_by i, ir_updated_by = di_updated_by i,
      ir_created_at = di_created_at i, ir_updated_at = di_updated_at i,
      ir_shared_with_users = (case b of None \<Rightarrow> False | Some b \<Rightarrow> bd_shared_with_users b),
      ir_public_link = (case b of None \<Rightarrow> False | Some b \<Rightarrow> bd_public_link b)\<rparr>"

end
