(* ===== verification/Security.thy ===== *)
theory Security
  imports World
begin

text \<open>
  \<open>app/core/security.py\<close>, the settings it reads, and what the services use of the password and
  token libraries. Those libraries (pwdlib, PyJWT, hashlib, secrets) are parameters: the
  record \<open>crypto\<close> holds their functions, and \<open>jwt_ok\<close> is the documented behaviour that the theorems
  about tokens rely on.
\<close>

section \<open>Settings\<close>

record settings =
  access_token_expire_minutes :: int
  refresh_token_expire_days :: int
  share_access_token_expire_minutes :: int
  share_access_token_max_lifetime_minutes :: int
  share_link_attempt_limit :: int
  share_link_lockout_minutes :: int
  default_user_quota_bytes :: int
  upload_chunk_size_bytes :: int
  max_chunked_upload_size_bytes :: int
  upload_session_retention_days :: int

definition default_settings :: settings where
  "default_settings = \<lparr>access_token_expire_minutes = 30, refresh_token_expire_days = 30,
     share_access_token_expire_minutes = 15, share_access_token_max_lifetime_minutes = 240,
     share_link_attempt_limit = 5, share_link_lockout_minutes = 5,
     default_user_quota_bytes = 15 * 1024 * 1024 * 1024,
     upload_chunk_size_bytes = 8 * 1024 * 1024,
     max_chunked_upload_size_bytes = 5 * 1024 * 1024 * 1024,
     upload_session_retention_days = 7\<rparr>"

section \<open>Token payloads\<close>

text \<open>The claims of a JWT: a dict from claim names to strings and times.\<close>

datatype claim = Str string | Time time

type_synonym payload = "(string \<times> claim) list"

datatype decoded = Payload payload | Expired | Invalid

text \<open>\<open>str(uuid)\<close> and \<open>UUID(s)\<close>.\<close>

definition uuid_str :: "uuid \<Rightarrow> string" where
  "uuid_str u = nat_str u"

definition parse_uuid :: "string \<Rightarrow> uuid option" where
  "parse_uuid s = (let u = str_nat s 0 in if nat_str u = s then Some u else None)"

lemma parse_uuid_str [simp]: "parse_uuid (uuid_str u) = Some u"
  by (simp add: parse_uuid_def uuid_str_def str_nat_nat_str)

record 'tok crypto =
  hash_pw :: "string \<Rightarrow> nat \<Rightarrow> string"
  verify_pw :: "string \<Rightarrow> string \<Rightarrow> bool"
  jwt_encode :: "payload \<Rightarrow> 'tok"
  jwt_decode :: "time \<Rightarrow> 'tok \<Rightarrow> decoded"
  token_digest :: "'tok \<Rightarrow> string"
  text_digest :: "string \<Rightarrow> string"
  blob_digest :: "bytes \<Rightarrow> string"
  url_token :: "nat \<Rightarrow> string"

text \<open>\<open>_hasher.hash\<close> draws a fresh salt.\<close>

definition hash_password :: "'tok crypto \<Rightarrow> string \<Rightarrow> string M" where
  "hash_password c password = bindM uuid4 (\<lambda>salt. returnM (hash_pw c password salt))"

definition verify_password :: "'tok crypto \<Rightarrow> string \<Rightarrow> string \<Rightarrow> bool" where
  "verify_password c plain hashed = verify_pw c plain hashed"

section \<open>Creating and decoding tokens\<close>

definition ACCESS_TYPE :: string where "ACCESS_TYPE = ''access''"
definition REFRESH_TYPE :: string where "REFRESH_TYPE = ''refresh''"
definition SHARE_ACCESS_TOKEN_TYPE :: string where "SHARE_ACCESS_TOKEN_TYPE = ''share_access''"

definition create_token :: "'tok crypto \<Rightarrow> string \<Rightarrow> string \<Rightarrow> time \<Rightarrow> 'tok M" where
  "create_token c subject token_type expire_delta =
     bindM now (\<lambda>t. bindM uuid4 (\<lambda>jti.
       returnM (jwt_encode c
         [(''sub'', Str subject), (''type'', Str token_type), (''jti'', Str (uuid_str jti)),
          (''iat'', Time t), (''exp'', Time (t + expire_delta))])))"

definition create_access_token :: "'tok crypto \<Rightarrow> settings \<Rightarrow> uuid \<Rightarrow> 'tok M" where
  "create_access_token c cfg user_id =
     create_token c (uuid_str user_id) ACCESS_TYPE (minutes (access_token_expire_minutes cfg))"

definition create_refresh_token :: "'tok crypto \<Rightarrow> settings \<Rightarrow> uuid \<Rightarrow> 'tok M" where
  "create_refresh_token c cfg user_id =
     create_token c (uuid_str user_id) REFRESH_TYPE (days (refresh_token_expire_days cfg))"

definition decode_token :: "'tok crypto \<Rightarrow> time \<Rightarrow> 'tok \<Rightarrow> string \<Rightarrow> error + uuid" where
  "decode_token c t token expected_type =
     (case jwt_decode c t token of
        Expired \<Rightarrow> Inl UnauthorizedError
      | Invalid \<Rightarrow> Inl UnauthorizedError
      | Payload p \<Rightarrow>
          if map_of p ''type'' \<noteq> Some (Str expected_type) then Inl UnauthorizedError
          else (case map_of p ''sub'' of
              Some (Str sub) \<Rightarrow>
                (case parse_uuid sub of None \<Rightarrow> Inl ValueError | Some u \<Rightarrow> Inr u)
            | _ \<Rightarrow> Inl UnauthorizedError))"

definition decode_access_token :: "'tok crypto \<Rightarrow> time \<Rightarrow> 'tok \<Rightarrow> error + uuid" where
  "decode_access_token c t token = decode_token c t token ACCESS_TYPE"

definition decode_refresh_token :: "'tok crypto \<Rightarrow> time \<Rightarrow> 'tok \<Rightarrow> error + uuid" where
  "decode_refresh_token c t token = decode_token c t token REFRESH_TYPE"

text \<open>\<open>get_current_user_id\<close>: any failure to decode is \<open>UnauthorizedError\<close>.\<close>

definition current_user_id :: "'tok crypto \<Rightarrow> 'tok \<Rightarrow> uuid M" where
  "current_user_id c token = bindM now (\<lambda>t.
     case decode_access_token c t token of Inl _ \<Rightarrow> raiseM UnauthorizedError | Inr u \<Rightarrow> returnM u)"

record share_claims =
  sc_link_id :: uuid
  sc_root_item_id :: uuid
  sc_permission :: string
  sc_chain_started_at :: time

definition create_share_access_token ::
  "'tok crypto \<Rightarrow> settings \<Rightarrow> uuid \<Rightarrow> uuid \<Rightarrow> string \<Rightarrow> time option \<Rightarrow> 'tok M" where
  "create_share_access_token c cfg link_id root_item_id perm chain_started_at =
     bindM now (\<lambda>t. bindM uuid4 (\<lambda>jti.
       let started = (case chain_started_at of None \<Rightarrow> t | Some s \<Rightarrow> s) in
       returnM (jwt_encode c
         [(''sub'', Str (uuid_str link_id)), (''type'', Str SHARE_ACCESS_TOKEN_TYPE),
          (''itm'', Str (uuid_str root_item_id)), (''prm'', Str perm), (''cst'', Time started),
          (''jti'', Str (uuid_str jti)), (''iat'', Time t),
          (''exp'', Time (t + minutes (share_access_token_expire_minutes cfg)))])))"

definition claim_uuid :: "payload \<Rightarrow> string \<Rightarrow> uuid option" where
  "claim_uuid p k = (case map_of p k of Some (Str s) \<Rightarrow> parse_uuid s | _ \<Rightarrow> None)"

definition decode_share_access_token :: "'tok crypto \<Rightarrow> time \<Rightarrow> 'tok \<Rightarrow> error + share_claims" where
  "decode_share_access_token c t token =
     (case jwt_decode c t token of
        Payload p \<Rightarrow>
          if map_of p ''type'' \<noteq> Some (Str SHARE_ACCESS_TOKEN_TYPE) then Inl UnauthorizedError
          else (case (claim_uuid p ''sub'', claim_uuid p ''itm'', map_of p ''prm'', map_of p ''cst'') of
              (Some l, Some i, Some (Str q), Some (Time s)) \<Rightarrow>
                Inr \<lparr>sc_link_id = l, sc_root_item_id = i, sc_permission = q, sc_chain_started_at = s\<rparr>
            | _ \<Rightarrow> Inl UnauthorizedError)
      | _ \<Rightarrow> Inl UnauthorizedError)"

section \<open>What the token library promises\<close>

text \<open>
  PyJWT: decoding what was encoded with the same key gives the claims back while the \<open>exp\<close> claim
  lies in the future, and \<open>ExpiredSignatureError\<close> from then on.
\<close>

definition expires :: "payload \<Rightarrow> time option" where
  "expires p = (case map_of p ''exp'' of Some (Time t) \<Rightarrow> Some t | _ \<Rightarrow> None)"

definition jwt_ok :: "'tok crypto \<Rightarrow> bool" where
  "jwt_ok c \<longleftrightarrow> (\<forall>p e t. expires p = Some e \<longrightarrow>
     jwt_decode c t (jwt_encode c p) = (if t < e then Payload p else Expired))"

lemma jwt_okD: "jwt_ok c \<Longrightarrow> expires p = Some e \<Longrightarrow>
    jwt_decode c t (jwt_encode c p) = (if t < e then Payload p else Expired)"
  by (simp add: jwt_ok_def)

text \<open>A codec that has the behaviour: the token is the payload.\<close>

definition plain_decode :: "time \<Rightarrow> payload \<Rightarrow> decoded" where
  "plain_decode t p =
     (case expires p of None \<Rightarrow> Payload p | Some e \<Rightarrow> if t < e then Payload p else Expired)"

definition plain_crypto :: "payload crypto" where
  "plain_crypto = \<lparr>hash_pw = (\<lambda>p s. nat_str s @ ''$'' @ p),
     verify_pw = (\<lambda>p h. drop 1 (dropWhile (\<lambda>x. x \<noteq> CHR ''$'') h) = p),
     jwt_encode = (\<lambda>p. p), jwt_decode = plain_decode,
     token_digest = (\<lambda>p. case map_of p ''jti'' of Some (Str s) \<Rightarrow> s | _ \<Rightarrow> []),
     text_digest = (\<lambda>s. s), blob_digest = (\<lambda>s. nat_str (length s)), url_token = nat_str\<rparr>"

lemma jwt_ok_plain: "jwt_ok plain_crypto"
  by (simp add: jwt_ok_def plain_crypto_def plain_decode_def)

section \<open>Round trips\<close>

lemma run_create_token:
  "create_token c sub ty d w =
    (Inr (jwt_encode c
       [(''sub'', Str sub), (''type'', Str ty), (''jti'', Str (uuid_str (uuid_next w))),
        (''iat'', Time (clock w)), (''exp'', Time (clock w + d))]), w\<lparr>uuid_next := Suc (uuid_next w)\<rparr>)"
  by (simp add: create_token_def run_bind)

lemma decode_created:
  assumes "jwt_ok c" "create_token c (uuid_str u) ty d w = (Inr token, w')"
  shows "decode_token c t token expected =
    (if t < clock w + d \<and> expected = ty then Inr u else Inl UnauthorizedError)"
proof -
  let ?p = "[(''sub'', Str (uuid_str u)), (''type'', Str ty), (''jti'', Str (uuid_str (uuid_next w))),
        (''iat'', Time (clock w)), (''exp'', Time (clock w + d))]"
  have "expires ?p = Some (clock w + d)" by (simp add: expires_def)
  then have "jwt_decode c t (jwt_encode c ?p) = (if t < clock w + d then Payload ?p else Expired)"
    by (rule jwt_okD [OF assms(1)])
  moreover have "token = jwt_encode c ?p" using assms(2) by (simp add: run_create_token)
  ultimately show ?thesis by (auto simp: decode_token_def)
qed

lemma run_create_share_token:
  "create_share_access_token c cfg l i q s w =
    (Inr (jwt_encode c
       [(''sub'', Str (uuid_str l)), (''type'', Str SHARE_ACCESS_TOKEN_TYPE),
        (''itm'', Str (uuid_str i)), (''prm'', Str q),
        (''cst'', Time (case s of None \<Rightarrow> clock w | Some s \<Rightarrow> s)),
        (''jti'', Str (uuid_str (uuid_next w))), (''iat'', Time (clock w)),
        (''exp'', Time (clock w + minutes (share_access_token_expire_minutes cfg)))]),
     w\<lparr>uuid_next := Suc (uuid_next w)\<rparr>)"
  by (simp add: create_share_access_token_def run_bind Let_def)

lemma token_types_distinct:
  "ACCESS_TYPE \<noteq> REFRESH_TYPE" "ACCESS_TYPE \<noteq> SHARE_ACCESS_TOKEN_TYPE"
  "REFRESH_TYPE \<noteq> SHARE_ACCESS_TOKEN_TYPE"
  by (simp_all add: ACCESS_TYPE_def REFRESH_TYPE_def SHARE_ACCESS_TOKEN_TYPE_def)

lemma decode_share_created:
  assumes "jwt_ok c" "create_share_access_token c cfg l i q s w = (Inr token, w')"
  shows "decode_share_access_token c t token =
      (if t < clock w + minutes (share_access_token_expire_minutes cfg)
       then Inr \<lparr>sc_link_id = l, sc_root_item_id = i, sc_permission = q,
                 sc_chain_started_at = (case s of None \<Rightarrow> clock w | Some s \<Rightarrow> s)\<rparr>
       else Inl UnauthorizedError)"
    and "decode_access_token c t token = Inl UnauthorizedError"
    and "decode_refresh_token c t token = Inl UnauthorizedError"
proof -
  let ?e = "clock w + minutes (share_access_token_expire_minutes cfg)"
  let ?p = "[(''sub'', Str (uuid_str l)), (''type'', Str SHARE_ACCESS_TOKEN_TYPE),
        (''itm'', Str (uuid_str i)), (''prm'', Str q),
        (''cst'', Time (case s of None \<Rightarrow> clock w | Some s \<Rightarrow> s)),
        (''jti'', Str (uuid_str (uuid_next w))), (''iat'', Time (clock w)), (''exp'', Time ?e)]"
  have "expires ?p = Some ?e" by (simp add: expires_def)
  then have d: "jwt_decode c t (jwt_encode c ?p) = (if t < ?e then Payload ?p else Expired)"
    by (rule jwt_okD [OF assms(1)])
  have tok: "token = jwt_encode c ?p" using assms(2) by (simp add: run_create_share_token)
  show "decode_share_access_token c t token =
      (if t < ?e then Inr \<lparr>sc_link_id = l, sc_root_item_id = i, sc_permission = q,
                 sc_chain_started_at = (case s of None \<Rightarrow> clock w | Some s \<Rightarrow> s)\<rparr>
       else Inl UnauthorizedError)"
    by (simp add: tok d decode_share_access_token_def claim_uuid_def)
  show "decode_access_token c t token = Inl UnauthorizedError"
    "decode_refresh_token c t token = Inl UnauthorizedError"
    using token_types_distinct
    by (simp_all add: tok d decode_access_token_def decode_refresh_token_def decode_token_def)
qed

lemma keeps_create_token [keeps_rules]:
  assumes "\<And>w n. f (w\<lparr>uuid_next := n\<rparr>) = f w"
  shows "keeps f (create_token c sub ty d)" "keeps f (create_access_token c cfg u)"
    "keeps f (create_refresh_token c cfg u)" "keeps f (create_share_access_token c cfg l i q s)"
    "keeps f (hash_password c p)"
  unfolding create_access_token_def create_refresh_token_def create_token_def
    create_share_access_token_def hash_password_def Let_def
  by (intro keeps_rules assms)+

end
