(* ===== verification/Users.thy ===== *)
theory Users
  imports Security Ancestry
begin

text \<open>
  \<open>app/users\<close>: the user repository, \<open>UserService\<close> and \<open>QuotaService\<close>. The quota of a user is a
  ledger: one locale states what its two movements do to a balance, and the services that upload
  and delete files use its lemmas.
\<close>

section \<open>Repository\<close>

definition users_get_by_id :: "uuid \<Rightarrow> user option M" where
  "users_get_by_id i = getsM (\<lambda>w. find_user w i)"

definition list_all_ids :: "uuid list M" where
  "list_all_ids = getsM (\<lambda>w. map u_id (users w))"

definition users_by_email :: "string \<Rightarrow> user option M" where
  "users_by_email email = liftM (\<lambda>w. scalar_one_or_none (filter (\<lambda>u. u_email u = email) (users w)))"

definition users_ok :: "world \<Rightarrow> bool" where
  "users_ok w = (distinct (map u_id (users w)) \<and> distinct (map u_email (users w)))"

definition flush_users :: "unit M" where
  "flush_users = (\<lambda>w. if users_ok w then (Inr (), w) else (Inl IntegrityError, w))"

text \<open>UPDATE of one row, then the row is read back: \<open>assert user is not None\<close>.\<close>

definition update_user :: "uuid \<Rightarrow> (time \<Rightarrow> user \<Rightarrow> user) \<Rightarrow> user M" where
  "update_user i f =
     bindM now (\<lambda>t. thenM (modifyM (set_user i (f t))) (thenM flush_users
       (bindM (users_get_by_id i) (\<lambda>u. case u of None \<Rightarrow> raiseM AssertionError | Some u \<Rightarrow> returnM u))))"

definition repo_update_username :: "uuid \<Rightarrow> string \<Rightarrow> user M" where
  "repo_update_username i name = update_user i (\<lambda>t r. r\<lparr>u_username := name, u_updated_at := t\<rparr>)"

definition repo_update_email :: "uuid \<Rightarrow> string \<Rightarrow> user M" where
  "repo_update_email i email = update_user i (\<lambda>t r. r\<lparr>u_email := email, u_updated_at := t\<rparr>)"

definition repo_update_password :: "uuid \<Rightarrow> string \<Rightarrow> user M" where
  "repo_update_password i pw_hash = update_user i (\<lambda>t r.
     r\<lparr>u_password_hash := pw_hash, u_must_change_password := False, u_updated_at := t\<rparr>)"

definition credit :: "int \<Rightarrow> user \<Rightarrow> user" where
  "credit delta r = r\<lparr>u_used_bytes := u_used_bytes r + delta\<rparr>"

definition debit :: "int \<Rightarrow> user \<Rightarrow> user" where
  "debit delta r = r\<lparr>u_used_bytes := max 0 (u_used_bytes r - delta)\<rparr>"

definition repo_add_used_bytes :: "uuid \<Rightarrow> int \<Rightarrow> unit M" where
  "repo_add_used_bytes i delta =
     bindM now (\<lambda>t. thenM (modifyM (set_user i (\<lambda>r. (credit delta r)\<lparr>u_updated_at := t\<rparr>))) flush_users)"

definition repo_subtract_used_bytes :: "uuid \<Rightarrow> int \<Rightarrow> unit M" where
  "repo_subtract_used_bytes i delta =
     bindM now (\<lambda>t. thenM (modifyM (set_user i (\<lambda>r. (debit delta r)\<lparr>u_updated_at := t\<rparr>))) flush_users)"

text \<open>The bytes of every version of every live item that the user owns.\<close>

definition owned_version_bytes :: "world \<Rightarrow> uuid \<Rightarrow> int" where
  "owned_version_bytes w u =
     sum_list (map fv_size_bytes (filter (\<lambda>v. fv_file_id v \<in> set
       (map di_id (filter (\<lambda>i. di_owner_id i = u \<and> \<not> di_is_deleted i) (items w)))) (versions w)))"

definition repo_recalculate_used_bytes :: "uuid \<Rightarrow> int M" where
  "repo_recalculate_used_bytes i =
     bindM now (\<lambda>t. bindM (getsM (\<lambda>w. owned_version_bytes w i)) (\<lambda>total.
       thenM (modifyM (set_user i (\<lambda>r. r\<lparr>u_used_bytes := total, u_updated_at := t\<rparr>)))
         (thenM flush_users (returnM total))))"

section \<open>UserService\<close>

definition user_svc_get_by_id :: "uuid \<Rightarrow> user M" where
  "user_svc_get_by_id i = bindM (users_get_by_id i)
     (\<lambda>u. case u of None \<Rightarrow> raiseM NotFoundError | Some u \<Rightarrow> returnM u)"

definition user_svc_get_by_email :: "string \<Rightarrow> user M" where
  "user_svc_get_by_email email = bindM (users_by_email email)
     (\<lambda>u. case u of None \<Rightarrow> raiseM NotFoundError | Some u \<Rightarrow> returnM u)"

definition update_username :: "uuid \<Rightarrow> string \<Rightarrow> user M" where
  "update_username i name = thenM (user_svc_get_by_id i) (repo_update_username i (py_strip name))"

definition update_email :: "uuid \<Rightarrow> string \<Rightarrow> user M" where
  "update_email i email = thenM (user_svc_get_by_id i)
     (let normalized = py_lower (py_strip email) in
      bindM (users_by_email normalized) (\<lambda>existing.
        case existing of
          Some e \<Rightarrow> if u_id e \<noteq> i then raiseM (AppError EMAIL_ALREADY_EXISTS 409)
                    else repo_update_email i normalized
        | None \<Rightarrow> repo_update_email i normalized))"

definition change_password :: "'tok crypto \<Rightarrow> uuid \<Rightarrow> string \<Rightarrow> string \<Rightarrow> unit M" where
  "change_password c i current_password new_password =
     bindM (user_svc_get_by_id i) (\<lambda>user.
       if \<not> verify_password c current_password (u_password_hash user)
       then raiseM (AppError INVALID_CREDENTIALS 400)
       else bindM (hash_password c new_password) (\<lambda>h.
         thenM (repo_update_password i h) (returnM ())))"

section \<open>QuotaService\<close>

record quota_response =
  q_quota_bytes :: int
  q_used_bytes :: int
  q_available_bytes :: int
  q_percent_num :: int
  q_percent_den :: int

text \<open>The percentage is kept as the exact fraction that the code rounds to two digits.\<close>

definition get_quota_info :: "uuid \<Rightarrow> quota_response M" where
  "get_quota_info i = bindM (users_get_by_id i) (\<lambda>u. case u of
       None \<Rightarrow> raiseM NotFoundError
     | Some u \<Rightarrow> returnM
         \<lparr>q_quota_bytes = u_quota_bytes u, q_used_bytes = u_used_bytes u,
          q_available_bytes = max 0 (u_quota_bytes u - u_used_bytes u),
          q_percent_num = (if u_quota_bytes u > 0 then 100 * u_used_bytes u else 0),
          q_percent_den = (if u_quota_bytes u > 0 then u_quota_bytes u else 1)\<rparr>)"

definition assert_has_space :: "uuid \<Rightarrow> int \<Rightarrow> unit M" where
  "assert_has_space i needed = bindM (users_get_by_id i) (\<lambda>u. case u of
       None \<Rightarrow> raiseM NotFoundError
     | Some u \<Rightarrow> guardM (\<not> u_quota_bytes u - u_used_bytes u < needed) QuotaExceededError)"

definition add_used_bytes :: "uuid \<Rightarrow> int \<Rightarrow> unit M" where
  "add_used_bytes i delta = thenM (guardM (\<not> delta < 0) BadOperation) (repo_add_used_bytes i delta)"

definition subtract_used_bytes :: "uuid \<Rightarrow> int \<Rightarrow> unit M" where
  "subtract_used_bytes i delta = thenM (guardM (\<not> delta < 0) BadOperation) (repo_subtract_used_bytes i delta)"

definition recalculate_used_bytes :: "uuid \<Rightarrow> int M" where
  "recalculate_used_bytes i = repo_recalculate_used_bytes i"

section \<open>The ledger\<close>

text \<open>
  The contract of the quota: crediting and debiting move one account by the amount, a debit stops at zero,
  and no other account moves.
\<close>

locale ledger =
  fixes balance :: "'w \<Rightarrow> 'k \<Rightarrow> int option"
    and inc :: "'k \<Rightarrow> int \<Rightarrow> 'w \<Rightarrow> 'w"
    and dec :: "'k \<Rightarrow> int \<Rightarrow> 'w \<Rightarrow> 'w"
  assumes balance_inc: "balance (inc k d w) j = (if j = k then map_option (\<lambda>b. b + d) (balance w j) else balance w j)"
    and balance_dec: "balance (dec k d w) j = (if j = k then map_option (\<lambda>b. max 0 (b - d)) (balance w j) else balance w j)"
begin

lemma inc_dec: "balance w k = Some b \<Longrightarrow> 0 \<le> b \<Longrightarrow> 0 \<le> d \<Longrightarrow> balance (dec k d (inc k d w)) j = balance w j"
  by (simp add: balance_inc balance_dec)

lemma dec_nonneg: "balance (dec k d w) k = Some b \<Longrightarrow> 0 \<le> b"
  by (auto simp: balance_dec)

lemma nonneg_preserved:
  "(\<forall>j b. balance w j = Some b \<longrightarrow> 0 \<le> b) \<Longrightarrow> 0 \<le> d \<Longrightarrow>
    (\<forall>j b. balance (inc k d w) j = Some b \<longrightarrow> 0 \<le> b) \<and> (\<forall>j b. balance (dec k d w) j = Some b \<longrightarrow> 0 \<le> b)"
  by (auto simp: balance_inc balance_dec)

text \<open>A run of debits costs an account their sum, stopping at zero.\<close>

lemma dec_fold:
  "balance w k = Some b \<Longrightarrow> 0 \<le> b \<Longrightarrow> (\<forall>d \<in> set ds. 0 \<le> d) \<Longrightarrow>
    balance (fold (dec k) ds w) k = Some (max 0 (b - sum_list ds))"
proof (induction ds arbitrary: w b)
  case (Cons d ds)
  then have "balance (dec k d w) k = Some (max 0 (b - d))" by (simp add: balance_dec)
  moreover have "0 \<le> sum_list ds" using Cons.prems by (auto intro: sum_list_nonneg)
  ultimately show ?case using Cons.IH [of "dec k d w" "max 0 (b - d)"] Cons.prems by auto
qed simp

end

definition used_of :: "world \<Rightarrow> uuid \<Rightarrow> int option" where
  "used_of w u = map_option u_used_bytes (find_user w u)"

definition ledger_inc :: "uuid \<Rightarrow> int \<Rightarrow> world \<Rightarrow> world" where
  "ledger_inc u d w = set_user u (\<lambda>r. (credit d r)\<lparr>u_updated_at := clock w\<rparr>) w"

definition ledger_dec :: "uuid \<Rightarrow> int \<Rightarrow> world \<Rightarrow> world" where
  "ledger_dec u d w = set_user u (\<lambda>r. (debit d r)\<lparr>u_updated_at := clock w\<rparr>) w"

lemma used_of_set_user:
  "(\<And>r. u_id (f r) = u_id r) \<Longrightarrow> used_of (set_user u f w) j =
    (if j = u then map_option (\<lambda>r. u_used_bytes (f r)) (find_user w j) else used_of w j)"
  by (simp add: used_of_def find_user_set_user option.map_comp comp_def)

interpretation quota: ledger used_of ledger_inc ledger_dec
  by unfold_locales
    (simp_all add: ledger_inc_def ledger_dec_def used_of_def find_user_set_user credit_def debit_def
      option.map_comp comp_def)

section \<open>What the quota calls do\<close>

lemma users_ok_update:
  assumes "users_ok w" "\<And>r. u_id (f r) = u_id r" "\<And>r. u_email (f r) = u_email r"
  shows "users_ok (set_user u f w)"
proof -
  have "map u_email (row_update u_id u f (users w)) = map u_email (users w)"
    by (simp add: row_update_def assms(3))
  with assms show ?thesis by (simp add: users_ok_def set_user_def row_keys_update)
qed

lemma run_add_used_bytes [run_simps]:
  assumes "users_ok w" "0 \<le> d"
  shows "add_used_bytes u d w = (Inr (), ledger_inc u d w)"
  using users_ok_update [OF assms(1), of "\<lambda>r. (credit d r)\<lparr>u_updated_at := clock w\<rparr>"] assms(2)
  by (simp add: add_used_bytes_def repo_add_used_bytes_def flush_users_def run_simps ledger_inc_def credit_def)

lemma run_subtract_used_bytes [run_simps]:
  assumes "users_ok w" "0 \<le> d"
  shows "subtract_used_bytes u d w = (Inr (), ledger_dec u d w)"
  using users_ok_update [OF assms(1), of "\<lambda>r. (debit d r)\<lparr>u_updated_at := clock w\<rparr>"] assms(2)
  by (simp add: subtract_used_bytes_def repo_subtract_used_bytes_def flush_users_def run_simps ledger_dec_def debit_def)

lemma run_assert_has_space [run_simps]:
  "assert_has_space u n w =
    (case find_user w u of
       None \<Rightarrow> Inl NotFoundError
     | Some r \<Rightarrow> if u_used_bytes r + n \<le> u_quota_bytes r then Inr () else Inl QuotaExceededError, w)"
  by (auto simp: assert_has_space_def users_get_by_id_def run_simps split: option.splits)

lemma keeps_user_reads [keeps_rules]:
  "keeps f (users_get_by_id i)" "keeps f (users_by_email e)" "keeps f list_all_ids"
  "keeps f (user_svc_get_by_id i)" "keeps f (user_svc_get_by_email e)"
  "keeps f (get_quota_info i)" "keeps f (assert_has_space i n)"
  unfolding users_get_by_id_def users_by_email_def list_all_ids_def user_svc_get_by_id_def
    user_svc_get_by_email_def get_quota_info_def assert_has_space_def
  by (intro keeps_rules)+

lemma preserves_user_reads [pres_rules]:
  "preserves I (users_get_by_id i)" "preserves I (users_by_email e)" "preserves I list_all_ids"
  "preserves I (user_svc_get_by_id i)" "preserves I (user_svc_get_by_email e)"
  "preserves I (get_quota_info i)" "preserves I (assert_has_space i n)"
  unfolding users_get_by_id_def users_by_email_def list_all_ids_def user_svc_get_by_id_def
    user_svc_get_by_email_def get_quota_info_def assert_has_space_def
  by (intro pres_rules)+

lemma keeps_flush_users [keeps_rules]: "keeps f flush_users"
  by (simp add: keeps_def flush_users_def)

lemma keeps_user_writes [keeps_rules]:
  assumes "\<And>g w. f (users_update g w) = f w"
  shows "keeps f (update_user i h)" "keeps f (add_used_bytes u d)" "keeps f (subtract_used_bytes u d)"
    "keeps f (recalculate_used_bytes u)" "keeps f (update_username u n)" "keeps f (update_email u n)"
  unfolding update_user_def add_used_bytes_def subtract_used_bytes_def recalculate_used_bytes_def
    repo_add_used_bytes_def repo_subtract_used_bytes_def repo_recalculate_used_bytes_def
    update_username_def update_email_def repo_update_username_def repo_update_email_def update_user_def Let_def
  by (intro keeps_rules keeps_modify; simp add: set_user_def assms)+

end
