(* ===== verification/ShareRepo.thy ===== *)
theory ShareRepo
  imports Permissions Common Users
begin

text \<open>
  \<open>app/share/repository.py\<close>: the rows of shares and of public links, and the queries of the
  listings "shared with me", "shared by me" and of the badges.
\<close>

section \<open>Shares\<close>

text \<open>
  \<open>uq_shares_item_target_user\<close> and \<open>ck_shares_permission\<close>, whose list of levels does not have
  \<open>owner\<close>.
\<close>

definition shares_ok :: "world \<Rightarrow> bool" where
  "shares_ok w = (distinct (map (\<lambda>s. (sh_item_id s, sh_target_user_id s)) (shares w))
     \<and> list_all (\<lambda>s. sh_permission s \<noteq> OWNER) (shares w))"

definition flush_shares :: "unit M" where
  "flush_shares = (\<lambda>w. if shares_ok w then (Inr (), w) else (Inl IntegrityError, w))"

definition shares_create :: "uuid \<Rightarrow> uuid \<Rightarrow> uuid \<Rightarrow> permission \<Rightarrow> share M" where
  "shares_create item owner target perm =
     bindM now (\<lambda>t. bindM uuid4 (\<lambda>new_id.
       let s = \<lparr>sh_id = new_id, sh_item_id = item, sh_owner_id = owner, sh_target_user_id = target,
                sh_permission = perm, sh_created_at = t, sh_updated_at = t\<rparr> in
       thenM (modifyM (shares_update (\<lambda>rows. rows @ [s]))) (thenM flush_shares (returnM s))))"

definition find_share_row :: "world \<Rightarrow> uuid \<Rightarrow> share option" where
  "find_share_row w i = row_get sh_id i (shares w)"

definition update_permission :: "uuid \<Rightarrow> permission \<Rightarrow> share M" where
  "update_permission i perm =
     bindM now (\<lambda>t. bindM (getsM (\<lambda>w. find_share_row w i)) (\<lambda>r. case r of
         None \<Rightarrow> raiseM NoResultFound
       | Some s \<Rightarrow>
           (let f = (\<lambda>s. s\<lparr>sh_permission := perm, sh_updated_at := t\<rparr>) in
            thenM (modifyM (shares_update (row_update sh_id i f)))
              (thenM flush_shares (returnM (f s))))))"

definition shares_delete :: "uuid \<Rightarrow> unit M" where
  "shares_delete i = modifyM (shares_update (row_delete (\<lambda>s. sh_id s = i)))"

definition list_shared_with_me_rows :: "uuid \<Rightarrow> int \<Rightarrow> int \<Rightarrow> (share list \<times> nat) M" where
  "list_shared_with_me_rows u offset limit = liftM (\<lambda>w.
     let rows = filter (\<lambda>s. sh_target_user_id s = u) (shares w) in
     case select_page offset limit (order_by DESC sh_created_at rows) of
       Inl e \<Rightarrow> Inl e | Inr page \<Rightarrow> Inr (page, length rows))"

section \<open>Shared by me\<close>

record shared_by_me_row =
  sbm_item :: drive_item
  sbm_shares :: "(share \<times> user) list"
  sbm_links :: "share_link list"

definition shared_item_ids :: "world \<Rightarrow> uuid \<Rightarrow> uuid list" where
  "shared_item_ids w owner = map di_id (order_by ASC (\<lambda>i. db_collate w (di_name i))
     (filter (\<lambda>i. di_owner_id i = owner \<and> \<not> di_is_deleted i
        \<and> (di_id i \<in> set (map sh_item_id (filter (\<lambda>s. sh_owner_id s = owner) (shares w)))
           \<or> di_id i \<in> set (map sl_item_id (filter (\<lambda>l. sl_created_by l = owner) (links w)))))
       (items w)))"

definition share_user_rows :: "world \<Rightarrow> uuid \<Rightarrow> (share \<times> user) list" where
  "share_user_rows w i =
     List.map_filter (\<lambda>s. map_option (Pair s) (find_user w (sh_target_user_id s)))
       (order_by ASC sh_created_at (filter (\<lambda>s. sh_item_id s = i) (shares w)))"

definition link_rows :: "world \<Rightarrow> uuid \<Rightarrow> share_link list" where
  "link_rows w i = order_by ASC sl_created_at (filter (\<lambda>l. sl_item_id l = i) (links w))"

definition list_shared_by_me_rows :: "uuid \<Rightarrow> int \<Rightarrow> int \<Rightarrow> (shared_by_me_row list \<times> nat) M" where
  "list_shared_by_me_rows owner offset limit = getsM (\<lambda>w.
     let ids = shared_item_ids w owner;
         page_ids = py_slice offset (offset + limit) ids
     in (List.map_filter (\<lambda>i. map_option (\<lambda>it.
           \<lparr>sbm_item = it, sbm_shares = share_user_rows w i, sbm_links = link_rows w i\<rparr>) (find_item w i))
           page_ids, length ids))"

section \<open>Badges\<close>

definition link_live_at :: "time \<Rightarrow> share_link \<Rightarrow> bool" where
  "link_live_at t l = (sl_is_active l \<and> (case sl_expires_at l of None \<Rightarrow> True | Some e \<Rightarrow> e > t))"

definition share_badges :: "world \<Rightarrow> uuid \<Rightarrow> uuid \<Rightarrow> badges" where
  "share_badges w owner i =
     \<lparr>bd_shared_with_users = list_ex (\<lambda>s. sh_owner_id s = owner \<and> sh_item_id s = i) (shares w),
      bd_public_link = list_ex (\<lambda>l. sl_created_by l = owner \<and> sl_item_id l = i \<and> link_live_at (clock w) l) (links w)\<rparr>"

definition get_share_badges :: "uuid \<Rightarrow> uuid list \<Rightarrow> (uuid \<times> badges) list M" where
  "get_share_badges owner ids = getsM (\<lambda>w. map (\<lambda>i. (i, share_badges w owner i)) ids)"

section \<open>Links\<close>

definition links_ok :: "world \<Rightarrow> bool" where
  "links_ok w = distinct (map sl_token_hash (links w))"

definition flush_links :: "unit M" where
  "flush_links = (\<lambda>w. if links_ok w then (Inr (), w) else (Inl IntegrityError, w))"

definition links_create ::
  "uuid \<Rightarrow> string \<Rightarrow> link_permission \<Rightarrow> string option \<Rightarrow> time option \<Rightarrow> uuid \<Rightarrow> share_link M" where
  "links_create item token_hash perm pw_hash expires_at by =
     bindM now (\<lambda>t. bindM uuid4 (\<lambda>new_id.
       let l = \<lparr>sl_id = new_id, sl_item_id = item, sl_token_hash = token_hash, sl_permission = perm,
                sl_password_hash = pw_hash, sl_expires_at = expires_at, sl_is_active = True,
                sl_created_by = by, sl_created_at = t, sl_attempt_window_start = None,
                sl_attempt_count = 0, sl_locked_until = None\<rparr> in
       thenM (modifyM (links_update (\<lambda>rows. rows @ [l]))) (thenM flush_links (returnM l))))"

definition find_link :: "world \<Rightarrow> uuid \<Rightarrow> share_link option" where
  "find_link w i = row_get sl_id i (links w)"

definition find_link_by_hash :: "world \<Rightarrow> string \<Rightarrow> share_link option" where
  "find_link_by_hash w h = row_get sl_token_hash h (links w)"

definition links_get_by_token_hash :: "string \<Rightarrow> share_link option M" where
  "links_get_by_token_hash h = getsM (\<lambda>w. find_link_by_hash w h)"

definition links_get_by_id :: "uuid \<Rightarrow> share_link option M" where
  "links_get_by_id i = getsM (\<lambda>w. find_link w i)"

definition set_link :: "uuid \<Rightarrow> (share_link \<Rightarrow> share_link) \<Rightarrow> world \<Rightarrow> world" where
  "set_link i f w = links_update (row_update sl_id i f) w"

definition update_attempt_state :: "uuid \<Rightarrow> time option \<Rightarrow> int \<Rightarrow> time option \<Rightarrow> unit M" where
  "update_attempt_state i window_start count locked_until = modifyM (set_link i
     (\<lambda>l. l\<lparr>sl_attempt_window_start := window_start, sl_attempt_count := count,
            sl_locked_until := locked_until\<rparr>))"

definition links_deactivate :: "uuid \<Rightarrow> unit M" where
  "links_deactivate i = bindM (links_get_by_id i) (\<lambda>l. case l of
       None \<Rightarrow> raiseM NoResultFound
     | Some _ \<Rightarrow> modifyM (set_link i (\<lambda>l. l\<lparr>sl_is_active := False\<rparr>)))"

definition links_delete :: "uuid \<Rightarrow> unit M" where
  "links_delete i = modifyM (links_update (row_delete (\<lambda>l. sl_id l = i)))"

section \<open>Facts\<close>

lemma keeps_share_reads [keeps_rules]:
  "keeps f (get_share_badges u is)" "keeps f (list_shared_by_me_rows u a b)"
  "keeps f (list_shared_with_me_rows u a b)" "keeps f (links_get_by_id l)"
  "keeps f (links_get_by_token_hash h)" "keeps f (get_by_item_and_user i u)"
  unfolding get_share_badges_def list_shared_by_me_rows_def list_shared_with_me_rows_def
    links_get_by_id_def links_get_by_token_hash_def get_by_item_and_user_def
  by (intro keeps_rules)+

lemma keeps_flush_shares [keeps_rules]: "keeps f flush_shares" "keeps f flush_links"
  by (simp_all add: keeps_def flush_shares_def flush_links_def)

lemma keeps_share_writes [keeps_rules]:
  assumes "\<And>w n. f (w\<lparr>uuid_next := n\<rparr>) = f w" "\<And>g w. f (shares_update g w) = f w"
  shows "keeps f (shares_create i o' u p)" "keeps f (update_permission s p)" "keeps f (shares_delete s)"
    "keeps f (delete_by_item i)"
  unfolding shares_create_def update_permission_def shares_delete_def delete_by_item_def Let_def
  by (intro keeps_rules keeps_modify assms)+

lemma keeps_link_writes [keeps_rules]:
  assumes "\<And>w n. f (w\<lparr>uuid_next := n\<rparr>) = f w" "\<And>g w. f (links_update g w) = f w"
  shows "keeps f (links_create i h p pw e u)" "keeps f (update_attempt_state l ws n lu)"
    "keeps f (links_deactivate l)" "keeps f (links_delete l)"
  unfolding links_create_def update_attempt_state_def links_deactivate_def links_delete_def Let_def
  by (intro keeps_rules keeps_modify; simp add: set_link_def assms)+

lemma find_link_set_link:
  "(\<And>r. sl_id (f r) = sl_id r) \<Longrightarrow>
    find_link (set_link i f w) j = (if j = i then map_option f (find_link w j) else find_link w j)"
  unfolding find_link_def set_link_def by (rule link_table.get_after_update)

lemma find_link_Some: "find_link w i = Some l \<Longrightarrow> l \<in> set (links w) \<and> sl_id l = i"
  unfolding find_link_def by (rule row_get_Some)

lemma find_link_by_hash_Some: "find_link_by_hash w h = Some l \<Longrightarrow> l \<in> set (links w) \<and> sl_token_hash l = h"
  unfolding find_link_by_hash_def by (rule row_get_Some)

lemma find_link_deleted: "find_link (links_update (row_delete (\<lambda>l. sl_id l = i)) w) i = None"
  unfolding find_link_def by (rule link_table.get_deleted)

lemma mem_image_filter: "i \<in> f ` {x \<in> set xs. Q x} \<longleftrightarrow> (\<exists>x \<in> set xs. f x = i \<and> Q x)"
  by blast

text \<open>The listing "shared by me" names exactly the live items of the owner that carry a share or a link.\<close>

lemma shared_item_ids_iff:
  "i \<in> set (shared_item_ids w u) \<longleftrightarrow>
    (\<exists>r \<in> set (items w). di_id r = i \<and> di_owner_id r = u \<and> \<not> di_is_deleted r
      \<and> ((\<exists>s \<in> set (shares w). sh_owner_id s = u \<and> sh_item_id s = i)
         \<or> (\<exists>l \<in> set (links w). sl_created_by l = u \<and> sl_item_id l = i)))"
  unfolding shared_item_ids_def by (simp add: mem_image_filter) blast

end
