(* ===== verification/Activity.thy ===== *)
theory Activity
  imports DriveRepo
begin

text \<open>
  \<open>app/activity_log\<close>: the audit log. Its metadata, addresses and user agents are not modelled. The
  foreign keys of a row can fail: \<open>create\<close> raises then, and \<open>log\<close> swallows the exception.
\<close>

section \<open>Repository\<close>

definition log_fk :: "world \<Rightarrow> activity_log \<Rightarrow> bool" where
  "log_fk w r = (find_user w (al_actor_id r) \<noteq> None
     \<and> (case al_item_id r of None \<Rightarrow> True | Some i \<Rightarrow> find_item w i \<noteq> None))"

definition logs_create :: "uuid \<Rightarrow> uuid option \<Rightarrow> activity_action \<Rightarrow> activity_log M" where
  "logs_create actor item action =
     bindM uuid4 (\<lambda>new_id. bindM now (\<lambda>t.
       let r = \<lparr>al_id = new_id, al_actor_id = actor, al_item_id = item, al_action = action,
                al_via_link = None, al_created_at = t\<rparr> in
       bindM (getsM (\<lambda>w. log_fk w r)) (\<lambda>ok.
         thenM (guardM ok IntegrityError)
           (thenM (modifyM (logs_update (\<lambda>rows. rows @ [r]))) (returnM r)))))"

definition log_page :: "world \<Rightarrow> (activity_log \<Rightarrow> bool) \<Rightarrow> int \<Rightarrow> error + activity_log list" where
  "log_page w P limit = select_page 0 limit (order_by DESC al_created_at (filter P (logs w)))"

definition list_by_actor :: "uuid \<Rightarrow> int \<Rightarrow> activity_log list M" where
  "list_by_actor actor limit = liftM (\<lambda>w. log_page w (\<lambda>r. al_actor_id r = actor) limit)"

definition list_by_item :: "uuid \<Rightarrow> int \<Rightarrow> activity_log list M" where
  "list_by_item item limit = liftM (\<lambda>w. log_page w (\<lambda>r. al_item_id r = Some item) limit)"

text \<open>GROUP BY item, newest activity first.\<close>

definition last_activity :: "world \<Rightarrow> uuid \<Rightarrow> uuid \<Rightarrow> time" where
  "last_activity w actor i =
     Max (set (map al_created_at (filter (\<lambda>r. al_actor_id r = actor \<and> al_item_id r = Some i) (logs w))))"

definition active_item_ids :: "world \<Rightarrow> uuid \<Rightarrow> uuid list" where
  "active_item_ids w actor =
     remdups (List.map_filter al_item_id (filter (\<lambda>r. al_actor_id r = actor) (logs w)))"

definition get_recent_item_ids :: "uuid \<Rightarrow> int \<Rightarrow> uuid list \<Rightarrow> uuid list M" where
  "get_recent_item_ids actor limit exclude = liftM (\<lambda>w.
     select_page 0 limit (order_by DESC (last_activity w actor)
       (filter (\<lambda>i. i \<notin> set exclude) (active_item_ids w actor))))"

section \<open>Service\<close>

text \<open>\<open>except Exception: return None\<close>; the log never stops the caller.\<close>

definition log_activity :: "uuid \<Rightarrow> activity_action \<Rightarrow> uuid option \<Rightarrow> activity_log option M" where
  "log_activity actor action item =
     catchM (bindM (logs_create actor item action) (\<lambda>r. returnM (Some r))) (\<lambda>_. returnM None)"

lemma run_log_activity:
  "log_activity a act i w =
    (let v = w\<lparr>uuid_next := Suc (uuid_next w)\<rparr>;
         r = \<lparr>al_id = uuid_next w, al_actor_id = a, al_item_id = i, al_action = act,
              al_via_link = None, al_created_at = clock w\<rparr>
     in if log_fk v r then (Inr (Some r), logs_update (\<lambda>rows. rows @ [r]) v) else (Inr None, v))"
  by (simp add: log_activity_def logs_create_def run_simps Let_def)

lemma log_activity_result:
  obtains r k rows where "log_activity a act i w = (Inr r, w\<lparr>uuid_next := k, logs := rows\<rparr>)" "uuid_next w \<le> k"
proof -
  have "\<exists>r k rows. log_activity a act i w = (Inr r, w\<lparr>uuid_next := k, logs := rows\<rparr>) \<and> uuid_next w \<le> k"
    by (cases w) (auto simp: run_log_activity Let_def intro: exI [of _ "Suc _"])
  with that show thesis by blast
qed

lemma keeps_log_activity [keeps_rules]:
  assumes "\<And>w n. f (w\<lparr>uuid_next := n\<rparr>) = f w" "\<And>w l. f (w\<lparr>logs := l\<rparr>) = f w"
  shows "keeps f (log_activity a act i)"
  unfolding keeps_def
proof
  fix w
  obtain r k rows where l: "log_activity a act i w = (Inr r, w\<lparr>uuid_next := k, logs := rows\<rparr>)"
    by (rule log_activity_result)
  have "f (w\<lparr>uuid_next := k, logs := rows\<rparr>) = f w"
    using assms(1) [where w = "w\<lparr>logs := rows\<rparr>" and n = k] assms(2) [where w = w and l = rows] by (cases w) simp
  with l show "f (snd (log_activity a act i w)) = f w" by simp
qed

text \<open>A call followed by its log entry has the outcome of the call.\<close>

lemma log_activity_frame:
  assumes "log_activity a act i w = (r, w')"
  shows "items w' = items w" "users w' = users w" "versions w' = versions w" "shares w' = shares w"
    "links w' = links w" "prefs w' = prefs w" "tokens w' = tokens w" "sessions w' = sessions w"
    "chunks w' = chunks w" "snapshots w' = snapshots w" "snap_settings w' = snap_settings w"
    "entries w' = entries w" "blobs w' = blobs w" "clock w' = clock w"
    "db_lower w' = db_lower w" "db_collate w' = db_collate w" "uuid_next w \<le> uuid_next w'" "\<exists>y. r = Inr y"
  using assms by (auto simp: run_log_activity Let_def split: if_splits)

lemma keeps_log_reads [keeps_rules]:
  "keeps f (list_by_actor a n)" "keeps f (list_by_item i n)" "keeps f (get_recent_item_ids a n x)"
  by (simp_all add: list_by_actor_def list_by_item_def get_recent_item_ids_def keeps_lift)

end
