(* ===== verification/Drive.thy ===== *)
theory Drive
  imports ShareRepo Activity
begin

text \<open>
  \<open>app/drive/service.py\<close>: folders, names, moves and listings. \<open>wiring\<close> says which of the optional
  collaborators the service was built with: the routers of the drive and of public links pass
  a permission service, others do not.
\<close>

record wiring =
  has_perm :: bool
  has_activity :: bool
  has_share_repo :: bool

definition drive_router :: wiring where
  "drive_router = \<lparr>has_perm = True, has_activity = True, has_share_repo = True\<rparr>"

section \<open>Names\<close>

definition INVALID_NAME_CHARS :: "char set" where
  "INVALID_NAME_CHARS = {CHR ''/'', CHR 0x5C, CHR 0x00}"

definition MAX_NAME_LEN :: nat where "MAX_NAME_LEN = 512"

definition validate_name :: "string \<Rightarrow> error + string" where
  "validate_name name =
     (let name = py_strip name in
      if name = [] then Inl BadOperation
      else if length name > MAX_NAME_LEN then Inl BadOperation
      else if list_ex (\<lambda>c. c \<in> INVALID_NAME_CHARS) name then Inl BadOperation
      else Inr name)"

section \<open>Internal helpers\<close>

definition drive_assert_can_view :: "wiring \<Rightarrow> drive_item \<Rightarrow> uuid \<Rightarrow> unit M" where
  "drive_assert_can_view cfg item user_id =
     (if has_perm cfg then assert_can_view user_id item
      else guardM (di_owner_id item = user_id) ForbiddenError)"

definition drive_assert_can_edit :: "wiring \<Rightarrow> drive_item \<Rightarrow> uuid \<Rightarrow> unit M" where
  "drive_assert_can_edit cfg item user_id =
     (if has_perm cfg then assert_can_edit user_id item
      else guardM (di_owner_id item = user_id) ForbiddenError)"

definition get_live :: "uuid \<Rightarrow> drive_item M" where
  "get_live item_id = bindM (items_get_by_id item_id) (\<lambda>r. case r of
       None \<Rightarrow> raiseM NotFoundError
     | Some item \<Rightarrow> if di_is_deleted item then raiseM NotFoundError else returnM item)"

definition get_viewable :: "wiring \<Rightarrow> uuid \<Rightarrow> uuid \<Rightarrow> drive_item M" where
  "get_viewable cfg item_id user_id = bindM (get_live item_id)
     (\<lambda>item. thenM (drive_assert_can_view cfg item user_id) (returnM item))"

definition get_editable :: "wiring \<Rightarrow> uuid \<Rightarrow> uuid \<Rightarrow> drive_item M" where
  "get_editable cfg item_id user_id = bindM (get_live item_id)
     (\<lambda>item. thenM (drive_assert_can_edit cfg item user_id) (returnM item))"

text \<open>
  The loop of \<open>_is_descendant_or_self\<close>, with its set of seen folders. Every iteration adds one
  identifier of the table to the set or leaves the loop.
\<close>

function descend_loop :: "world \<Rightarrow> uuid \<Rightarrow> uuid option \<Rightarrow> uuid set \<Rightarrow> bool" where
  "descend_loop w candidate_id current seen =
     (case current of
        None \<Rightarrow> False
      | Some c \<Rightarrow>
          if c = candidate_id then True
          else if c \<in> seen then False
          else (case find_item w c of
              None \<Rightarrow> False
            | Some item \<Rightarrow> descend_loop w candidate_id (di_parent_id item) (insert c seen)))"
  by pat_completeness auto
termination
proof (relation "measure (\<lambda>(w, cand, cur, seen). card (item_ids w - seen))")
  fix w :: world and candidate_id :: uuid and current :: "uuid option" and seen :: "uuid set" and c item
  assume c: "c \<notin> seen" and item: "find_item w c = Some item"
  from find_item_Some [OF item] have "c \<in> item_ids w" by (auto simp: item_ids_def)
  with c have "item_ids w - insert c seen \<subset> item_ids w - seen" by blast
  moreover have "finite (item_ids w - seen)" by (simp add: item_ids_def)
  ultimately have "card (item_ids w - insert c seen) < card (item_ids w - seen)"
    by (rule psubset_card_mono [rotated])
  then show "((w, candidate_id, di_parent_id item, insert c seen), (w, candidate_id, current, seen))
      \<in> measure (\<lambda>(w, cand, cur, seen). card (item_ids w - seen))" by simp
qed simp

declare descend_loop.simps [simp del]

definition is_descendant_or_self :: "uuid \<Rightarrow> uuid \<Rightarrow> bool M" where
  "is_descendant_or_self candidate_id target_id =
     getsM (\<lambda>w. descend_loop w candidate_id (Some target_id) {})"

definition drive_starred :: "uuid \<Rightarrow> drive_item list \<Rightarrow> uuid list M" where
  "drive_starred user_id rows = get_starred_ids user_id (map di_id rows)"

definition drive_badges :: "wiring \<Rightarrow> uuid \<Rightarrow> drive_item list \<Rightarrow> (uuid \<times> badges) list M" where
  "drive_badges cfg user_id rows =
     (if \<not> has_share_repo cfg \<or> rows = [] then returnM [] else get_share_badges user_id (map di_id rows))"

definition drive_log :: "wiring \<Rightarrow> uuid \<Rightarrow> activity_action \<Rightarrow> uuid option \<Rightarrow> unit M" where
  "drive_log cfg actor action item =
     whenM (has_activity cfg) (thenM (log_activity actor action item) (returnM ()))"

section \<open>Reading\<close>

definition get_raw_item :: "wiring \<Rightarrow> uuid \<Rightarrow> uuid \<Rightarrow> drive_item M" where
  "get_raw_item cfg user_id item_id = get_viewable cfg item_id user_id"

definition get_raw_item_unscoped :: "uuid \<Rightarrow> drive_item M" where
  "get_raw_item_unscoped item_id = get_live item_id"

definition get_item :: "wiring \<Rightarrow> uuid \<Rightarrow> uuid \<Rightarrow> item_response M" where
  "get_item cfg user_id item_id =
     bindM (get_viewable cfg item_id user_id) (\<lambda>item.
     bindM (drive_starred user_id [item]) (\<lambda>starred.
       returnM (to_response item (di_id item \<in> set starred) None)))"

definition get_item_any_state :: "wiring \<Rightarrow> uuid \<Rightarrow> uuid \<Rightarrow> item_response M" where
  "get_item_any_state cfg user_id item_id =
     bindM (items_get_by_id item_id) (\<lambda>r. case r of
         None \<Rightarrow> raiseM NotFoundError
       | Some item \<Rightarrow>
           thenM (drive_assert_can_view cfg item user_id)
           (bindM (drive_starred user_id [item]) (\<lambda>starred.
             returnM (to_response item (di_id item \<in> set starred) None))))"

definition list_items ::
  "wiring \<Rightarrow> uuid \<Rightarrow> uuid option \<Rightarrow> int \<Rightarrow> int \<Rightarrow> sort_field \<Rightarrow> sort_order \<Rightarrow> item_response page M" where
  "list_items cfg user_id parent_id page page_size sort_by ord =
     thenM (case parent_id of
         None \<Rightarrow> returnM ()
       | Some p \<Rightarrow> bindM (get_live p) (\<lambda>parent. drive_assert_can_view cfg parent user_id))
     (bindM (list_children parent_id user_id sort_by ord ((page - 1) * page_size) page_size)
       (\<lambda>(rows, count).
         bindM (drive_starred user_id rows) (\<lambda>starred.
         bindM (drive_badges cfg user_id rows) (\<lambda>badges.
           returnM (page_create
             (map (\<lambda>i. to_response i (di_id i \<in> set starred) (map_of badges (di_id i))) rows)
             (int count) page page_size)))))"

text \<open>The ancestor chain, nearest first; the public method returns it root first.\<close>

function ancestor_loop :: "world \<Rightarrow> uuid option \<Rightarrow> uuid set \<Rightarrow> drive_item list" where
  "ancestor_loop w current seen =
     (case current of
        None \<Rightarrow> []
      | Some c \<Rightarrow>
          if c \<in> seen then []
          else (case find_item w c of
              None \<Rightarrow> []
            | Some parent \<Rightarrow> parent # ancestor_loop w (di_parent_id parent) (insert c seen)))"
  by pat_completeness auto
termination
proof (relation "measure (\<lambda>(w, cur, seen). card (item_ids w - seen))")
  fix w :: world and current :: "uuid option" and seen :: "uuid set" and c parent
  assume c: "c \<notin> seen" and item: "find_item w c = Some parent"
  from find_item_Some [OF item] have "c \<in> item_ids w" by (auto simp: item_ids_def)
  with c have "item_ids w - insert c seen \<subset> item_ids w - seen" by blast
  moreover have "finite (item_ids w - seen)" by (simp add: item_ids_def)
  ultimately have "card (item_ids w - insert c seen) < card (item_ids w - seen)"
    by (rule psubset_card_mono [rotated])
  then show "((w, di_parent_id parent, insert c seen), (w, current, seen))
      \<in> measure (\<lambda>(w, cur, seen). card (item_ids w - seen))" by simp
qed simp

declare ancestor_loop.simps [simp del]

definition get_ancestors :: "wiring \<Rightarrow> uuid \<Rightarrow> uuid \<Rightarrow> item_response list M" where
  "get_ancestors cfg user_id item_id =
     bindM (get_viewable cfg item_id user_id) (\<lambda>item.
     bindM (getsM (\<lambda>w. rev (ancestor_loop w (di_parent_id item) {}))) (\<lambda>chain.
     bindM (drive_starred user_id chain) (\<lambda>starred.
       returnM (map (\<lambda>a. to_response a (di_id a \<in> set starred) None) chain))))"

text \<open>The loops of \<open>get_starred\<close> and \<open>get_recent\<close>: look every identifier up, keep the user's live items.\<close>

definition own_live_items :: "world \<Rightarrow> uuid \<Rightarrow> uuid list \<Rightarrow> drive_item list" where
  "own_live_items w user_id ids = List.map_filter (\<lambda>i. case find_item w i of
       None \<Rightarrow> None
     | Some item \<Rightarrow> if \<not> di_is_deleted item \<and> di_owner_id item = user_id then Some item else None) ids"

definition get_starred :: "uuid \<Rightarrow> int \<Rightarrow> item_response list M" where
  "get_starred user_id limit =
     bindM (get_all_starred_item_ids user_id limit) (\<lambda>ids.
     bindM (getsM (\<lambda>w. own_live_items w user_id ids)) (\<lambda>rows.
       returnM (map (\<lambda>i. to_response i True None) rows)))"

definition get_recent :: "wiring \<Rightarrow> uuid \<Rightarrow> int \<Rightarrow> item_response list M" where
  "get_recent cfg user_id limit =
     (if \<not> has_activity cfg then returnM []
      else bindM (get_recent_item_ids user_id limit []) (\<lambda>ids.
        bindM (getsM (\<lambda>w. own_live_items w user_id ids)) (\<lambda>rows.
        if rows = [] then returnM []
        else bindM (drive_starred user_id rows) (\<lambda>starred.
          returnM (map (\<lambda>i. to_response i (di_id i \<in> set starred) None) rows)))))"

section \<open>Writing\<close>

definition create_folder :: "wiring \<Rightarrow> uuid \<Rightarrow> uuid option \<Rightarrow> string \<Rightarrow> item_response M" where
  "create_folder cfg user_id parent_id name =
     bindM (liftM (\<lambda>_. validate_name name)) (\<lambda>name.
     thenM (case parent_id of
         None \<Rightarrow> returnM ()
       | Some p \<Rightarrow> bindM (get_live p) (\<lambda>parent.
           thenM (drive_assert_can_edit cfg parent user_id)
             (guardM (di_item_type parent = FOLDER) BadOperation)))
     (bindM (name_exists_in_parent name parent_id user_id None) (\<lambda>taken.
     thenM (guardM (\<not> taken) NameConflictError)
     (bindM (items_create user_id parent_id FOLDER name user_id) (\<lambda>item.
     thenM (drive_log cfg user_id CREATE (Some (di_id item)))
       (returnM (to_response item False None)))))))"

definition rename :: "wiring \<Rightarrow> uuid \<Rightarrow> uuid \<Rightarrow> string \<Rightarrow> item_response M" where
  "rename cfg user_id item_id new_name =
     bindM (liftM (\<lambda>_. validate_name new_name)) (\<lambda>new_name.
     bindM (get_editable cfg item_id user_id) (\<lambda>item.
     if di_name item = new_name then
       bindM (drive_starred user_id [item]) (\<lambda>starred.
         returnM (to_response item (di_id item \<in> set starred) None))
     else
       bindM (name_exists_in_parent new_name (di_parent_id item) user_id (Some item_id)) (\<lambda>taken.
       thenM (guardM (\<not> taken) NameConflictError)
       (bindM (update_name item_id new_name user_id) (\<lambda>updated.
       thenM (drive_log cfg user_id RENAME (Some item_id))
       (bindM (drive_starred user_id [updated]) (\<lambda>starred.
         returnM (to_response updated (item_id \<in> set starred) None)))))) ))"

definition move :: "wiring \<Rightarrow> uuid \<Rightarrow> uuid \<Rightarrow> uuid option \<Rightarrow> item_response M" where
  "move cfg user_id item_id new_parent_id =
     bindM (get_editable cfg item_id user_id) (\<lambda>item.
     thenM (case new_parent_id of
         None \<Rightarrow> returnM ()
       | Some p \<Rightarrow> bindM (get_live p) (\<lambda>new_parent.
           thenM (drive_assert_can_edit cfg new_parent user_id)
           (thenM (guardM (di_item_type new_parent = FOLDER) BadOperation)
           (if di_item_type item = FOLDER
            then bindM (is_descendant_or_self item_id p) (\<lambda>below. guardM (\<not> below) BadOperation)
            else returnM ()))))
     (bindM (name_exists_in_parent (di_name item) new_parent_id user_id (Some item_id)) (\<lambda>taken.
     thenM (guardM (\<not> taken) NameConflictError)
     (bindM (update_parent item_id new_parent_id user_id) (\<lambda>updated.
     thenM (drive_log cfg user_id MOVE (Some item_id))
     (bindM (drive_starred user_id [updated]) (\<lambda>starred.
       returnM (to_response updated (item_id \<in> set starred) None))))))))"

definition set_starred :: "wiring \<Rightarrow> uuid \<Rightarrow> uuid \<Rightarrow> bool \<Rightarrow> item_response M" where
  "set_starred cfg user_id item_id starred =
     bindM (get_viewable cfg item_id user_id) (\<lambda>item.
     thenM (upsert_preference user_id item_id starred)
     (thenM (drive_log cfg user_id STAR (Some item_id))
       (returnM (to_response item starred None))))"

section \<open>Names that pass\<close>

lemma validate_name_Inr:
  assumes "validate_name s = Inr n"
  shows "n = py_strip s" "n \<noteq> []" "length n \<le> 512" "CHR ''/'' \<notin> set n" "CHR 0x5C \<notin> set n" "CHR 0x00 \<notin> set n"
  using assms by (auto simp: validate_name_def Let_def MAX_NAME_LEN_def INVALID_NAME_CHARS_def list_ex_iff split: if_splits)

section \<open>The walks over the ancestors\<close>

lemma descend_loop_iff:
  assumes "forest w"
  shows "(\<forall>s \<in> seen. (c, s) \<notin> (parent_rel w)\<^sup>*) \<Longrightarrow> c \<in> item_ids w \<Longrightarrow>
    descend_loop w cand (Some c) seen \<longleftrightarrow> (c, cand) \<in> (parent_rel w)\<^sup>*"
proof (induction c arbitrary: seen rule: drive_tree.up_induct [OF assms])
  case (1 c)
  note IH = 1(1) and fresh = 1(2) and c = 1(3)
  obtain item where item: "find_item w c = Some item" using c by (cases "find_item w c") (auto simp: find_item_None item_ids_def)
  have cs: "c \<notin> seen" using fresh by blast
  show ?case
  proof (cases "di_parent_id item")
    case None
    then have "parent_of w c = None" by (simp add: parent_of_def item)
    then have "(c, cand) \<in> (parent_rel w)\<^sup>* \<longleftrightarrow> c = cand"
      by (auto simp: parent_rel_def elim: converse_rtranclE)
    with None cs show ?thesis
      by (subst descend_loop.simps) (simp add: item descend_loop.simps [of _ _ None])
  next
    case (Some p)
    then have up: "parent_of w c = Some p" by (simp add: parent_of_def item)
    then have step: "(c, p) \<in> parent_rel w" by (simp add: parent_rel_def)
    have "(p, s) \<notin> (parent_rel w)\<^sup>*" if "s \<in> insert c seen" for s
    proof
      assume ps: "(p, s) \<in> (parent_rel w)\<^sup>*"
      show False
      proof (cases "s = c")
        case True
        with step ps have "(c, c) \<in> (parent_rel w)\<^sup>+" by auto
        then show False using drive_tree.not_own_ancestor [OF assms] by (simp add: up_rel_parent_rel)
      next
        case False
        with that fresh step ps show False by (meson converse_rtrancl_into_rtrancl insertE)
      qed
    qed
    moreover have "p \<in> item_ids w" using drive_tree.up_node [OF assms up] .
    ultimately have "descend_loop w cand (Some p) (insert c seen) \<longleftrightarrow> (p, cand) \<in> (parent_rel w)\<^sup>*"
      by (intro IH [OF up]) blast+
    moreover have "(c, cand) \<in> (parent_rel w)\<^sup>* \<longleftrightarrow> c = cand \<or> (p, cand) \<in> (parent_rel w)\<^sup>*"
      using up step by (auto simp: parent_rel_def elim: converse_rtranclE intro: converse_rtrancl_into_rtrancl)
    ultimately show ?thesis using cs Some by (subst descend_loop.simps) (simp add: item)
  qed
qed

lemma is_descendant_or_self_iff:
  "forest w \<Longrightarrow> t \<in> item_ids w \<Longrightarrow>
    is_descendant_or_self cand t w = (Inr ((t, cand) \<in> (parent_rel w)\<^sup>*), w)"
  by (simp add: is_descendant_or_self_def descend_loop_iff)

text \<open>The chain that \<open>get_ancestors\<close> walks: every folder above the item, once each, nearest first.\<close>

lemma ancestor_loop_chain:
  assumes "forest w"
  shows "parent_of w c = cur \<Longrightarrow> (\<forall>s \<in> seen. (c, s) \<notin> (parent_rel w)\<^sup>+) \<Longrightarrow>
    set (map di_id (ancestor_loop w cur seen)) = (parent_rel w)\<^sup>+ `` {c}
    \<and> distinct (map di_id (ancestor_loop w cur seen))
    \<and> (\<forall>i < length (ancestor_loop w cur seen).
        Some (di_id (ancestor_loop w cur seen ! i)) =
          (if i = 0 then cur else di_parent_id (ancestor_loop w cur seen ! (i - 1))))"
proof (induction c arbitrary: cur seen rule: drive_tree.up_induct [OF assms])
  case (1 c)
  note IH = 1(1) and cur = 1(2) and fresh = 1(3)
  show ?case
  proof (cases cur)
    case None
    with cur have "(parent_rel w)\<^sup>+ `` {c} = {}"
      by (auto simp: parent_rel_def elim: converse_tranclE)
    with None show ?thesis by (simp add: ancestor_loop.simps [of _ None])
  next
    case (Some p)
    with cur have up: "parent_of w c = Some p" by simp
    then have step: "(c, p) \<in> parent_rel w" by (simp add: parent_rel_def)
    obtain parent where parent: "find_item w p = Some parent"
      using drive_tree.up_node [OF assms up] by (cases "find_item w p") (auto simp: find_item_None item_ids_def)
    then have idp: "di_id parent = p" by (simp add: find_item_Some)
    have pcur: "parent_of w p = di_parent_id parent" by (simp add: parent_of_def parent)
    have ps: "p \<notin> seen" using fresh step by blast
    let ?rest = "ancestor_loop w (di_parent_id parent) (insert p seen)"
    have "(p, s) \<notin> (parent_rel w)\<^sup>+" if "s \<in> insert p seen" for s
      using that fresh step drive_tree.not_own_ancestor [OF assms, of p]
      by (auto simp: up_rel_parent_rel intro: trancl_into_trancl2)
    then have rest: "set (map di_id ?rest) = (parent_rel w)\<^sup>+ `` {p}" "distinct (map di_id ?rest)"
      "\<forall>i < length ?rest. Some (di_id (?rest ! i)) =
          (if i = 0 then di_parent_id parent else di_parent_id (?rest ! (i - 1)))"
      using IH [OF up pcur, of "insert p seen"] by blast+
    have unfold: "ancestor_loop w cur seen = parent # ?rest"
      using Some ps by (subst ancestor_loop.simps) (simp add: parent)
    have "(parent_rel w)\<^sup>+ `` {c} = insert p ((parent_rel w)\<^sup>+ `` {p})"
      using up step by (auto simp: parent_rel_def elim: converse_tranclE intro: trancl_into_trancl2)
    moreover have "p \<notin> (parent_rel w)\<^sup>+ `` {p}"
      using drive_tree.not_own_ancestor [OF assms, of p] by (simp add: up_rel_parent_rel)
    moreover have "Some (di_id ((parent # ?rest) ! i)) = (if i = 0 then cur else di_parent_id ((parent # ?rest) ! (i - 1)))"
      if "i < length (parent # ?rest)" for i
      using that rest(3) Some idp by (cases i) (auto simp: nth_Cons split: nat.splits)
    ultimately show ?thesis unfolding unfold using rest(1,2) idp by auto
  qed
qed

section \<open>What a call that returns has done\<close>

lemma get_live_InrE:
  assumes "get_live i w = (Inr r, w')"
  obtains "find_item w i = Some r" "\<not> di_is_deleted r" "w' = w"
  using assms that unfolding get_live_def
  by (auto simp: run_bind split: option.splits if_splits)

lemma keeps_drive_guards [keeps_rules]:
  "keeps f (get_live i)" "keeps f (drive_assert_can_view cfg it u)" "keeps f (drive_assert_can_edit cfg it u)"
  "keeps f (get_viewable cfg i u)" "keeps f (get_editable cfg i u)" "keeps f (is_descendant_or_self c t)"
  "keeps f (drive_starred u rows)" "keeps f (drive_badges cfg u rows)"
  unfolding get_live_def drive_assert_can_view_def drive_assert_can_edit_def get_viewable_def
    get_editable_def is_descendant_or_self_def drive_starred_def drive_badges_def
  by (intro keeps_rules)+

lemma same_world: "keeps (\<lambda>w. w) m \<Longrightarrow> m w = (r, w') \<Longrightarrow> w' = w"
  by (auto dest: keepsD)

lemma get_editable_InrE:
  assumes "get_editable cfg i u w = (Inr r, w')"
  obtains "find_item w i = Some r" "\<not> di_is_deleted r" "w' = w" "drive_assert_can_edit cfg r u w = (Inr (), w)"
proof -
  obtain r' w1 x w2 where g: "get_live i w = (Inr r', w1)"
    and a: "drive_assert_can_edit cfg r' u w1 = (Inr x, w2)" and r: "returnM r' w2 = (Inr r, w')"
    using assms unfolding get_editable_def by (auto elim!: bind_InrE then_InrE)
  have "w2 = w1" using same_world [OF keeps_drive_guards(3) a] .
  with g a r that show thesis by (auto elim!: get_live_InrE)
qed

lemma items_create_InrE:
  assumes "items_create o' p ty n by w = (Inr i, w')"
  obtains "i = new_item (uuid_next w) (clock w) o' p ty n by"
    "w' = items_update (\<lambda>rows. rows @ [i]) (w\<lparr>uuid_next := Suc (uuid_next w)\<rparr>)" "items_ok w'"
  using assms that by (auto simp: items_create_def run_simps Let_def split: if_splits)

lemma update_item_InrE:
  assumes "update_item i f w = (Inr r, w')"
  obtains old where "find_item w i = Some old" "r = f (clock w) old" "w' = set_item i (f (clock w)) w" "items_ok w'"
  using assms that by (auto simp: update_item_def run_simps split: if_splits option.splits)

lemma drive_log_InrE:
  assumes "drive_log cfg a act i w = (Inr x, w')"
  obtains "items w' = items w" "uuid_next w \<le> uuid_next w'" "db_lower w' = db_lower w" "users w' = users w"
    "shares w' = shares w" "versions w' = versions w" "blobs w' = blobs w" "links w' = links w"
proof (cases "has_activity cfg")
  case True
  then obtain r where "log_activity a act i w = (r, w')"
    using assms by (auto simp: drive_log_def whenM_def elim!: then_InrE)
  from log_activity_frame [OF this] show thesis by (intro that) simp_all
next
  case False
  with assms show thesis by (intro that) (auto simp: drive_log_def whenM_def)
qed

text \<open>A folder is created exactly once, under a live folder the user may edit, and its name was free.\<close>

lemma create_folder_InrE:
  assumes "create_folder cfg u p s w = (Inr r, w')"
  obtains n item where "validate_name s = Inr n" "item = new_item (uuid_next w) (clock w) u p FOLDER n u"
    "r = to_response item False None"
    "\<forall>i \<in> set (items w). \<not> same_name n p u None i"
    "\<And>q. p = Some q \<Longrightarrow> \<exists>f. find_item w q = Some f \<and> \<not> di_is_deleted f \<and> di_item_type f = FOLDER
       \<and> drive_assert_can_edit cfg f u w = (Inr (), w)"
    "items w' = items w @ [item]" "uuid_next w < uuid_next w'" "db_lower w' = db_lower w" "items_ok w'"
proof -
  obtain n where n: "validate_name s = Inr n"
    using assms by (auto simp: create_folder_def elim!: bind_InrE)
  let ?chk = "case p of None \<Rightarrow> returnM () | Some p \<Rightarrow> bindM (get_live p) (\<lambda>parent.
      thenM (drive_assert_can_edit cfg parent u) (guardM (di_item_type parent = FOLDER) BadOperation))"
  obtain x w1 where chk: "?chk w = (Inr x, w1)"
    and rest: "bindM (name_exists_in_parent n p u None) (\<lambda>taken.
     thenM (guardM (\<not> taken) NameConflictError)
     (bindM (items_create u p FOLDER n u) (\<lambda>item.
     thenM (drive_log cfg u CREATE (Some (di_id item))) (returnM (to_response item False None))))) w1 = (Inr r, w')"
    using assms n unfolding create_folder_def by (auto simp: run_bind elim!: then_InrE)
  have "keeps (\<lambda>w. w) ?chk" by (intro keeps_rules)
  then have w1: "w1 = w" using chk by (rule same_world)
  have parent: "\<exists>f. find_item w q = Some f \<and> \<not> di_is_deleted f \<and> di_item_type f = FOLDER
       \<and> drive_assert_can_edit cfg f u w = (Inr (), w)" if "p = Some q" for q
    using chk that unfolding w1
    by (auto elim!: bind_InrE then_InrE guard_InrE get_live_InrE)
  obtain item w2 w3 where free: "name_query w n p u None = Inr False"
    and c: "items_create u p FOLDER n u w = (Inr item, w2)"
    and l: "drive_log cfg u CREATE (Some (di_id item)) w2 = (Inr (), w3)"
    and r: "r = to_response item False None" "w' = w3"
    using rest unfolding w1 by (auto elim!: bind_InrE then_InrE simp: guardM_def split: if_splits)
  from items_create_InrE [OF c] obtain
    item: "item = new_item (uuid_next w) (clock w) u p FOLDER n u"
    and w2: "w2 = items_update (\<lambda>rows. rows @ [item]) (w\<lparr>uuid_next := Suc (uuid_next w)\<rparr>)" "items_ok w2"
    by metis
  from drive_log_InrE [OF l] have w3: "items w3 = items w2" "uuid_next w2 \<le> uuid_next w3" "db_lower w3 = db_lower w2"
    by metis+
  show thesis
    by (rule that [OF n item r(1)])
      (use free parent w2 w3 r in \<open>auto simp: name_query_False items_ok_def\<close>)
qed

lemma rename_InrE:
  assumes "rename cfg u i s w = (Inr r, w')"
  obtains n old where "validate_name s = Inr n" "find_item w i = Some old" "\<not> di_is_deleted old"
    "drive_assert_can_edit cfg old u w = (Inr (), w)" "di_name old = n" "w' = w"
  | n old where "validate_name s = Inr n" "find_item w i = Some old" "\<not> di_is_deleted old"
    "drive_assert_can_edit cfg old u w = (Inr (), w)" "di_name old \<noteq> n"
    "\<forall>j \<in> set (items w). \<not> same_name n (di_parent_id old) u (Some i) j"
    "items w' = items (set_item i (\<lambda>r. r\<lparr>di_name := n, di_updated_by := Some u, di_updated_at := clock w\<rparr>) w)"
    "uuid_next w \<le> uuid_next w'" "items_ok w'" "db_lower w' = db_lower w"
proof -
  obtain n where n: "validate_name s = Inr n"
    using assms by (auto simp: rename_def elim!: bind_InrE)
  obtain old w1 where g: "get_editable cfg i u w = (Inr old, w1)"
    and rest: "(if di_name old = n then
       bindM (drive_starred u [old]) (\<lambda>starred. returnM (to_response old (di_id old \<in> set starred) None))
     else bindM (name_exists_in_parent n (di_parent_id old) u (Some i)) (\<lambda>taken.
       thenM (guardM (\<not> taken) NameConflictError)
       (bindM (update_name i n u) (\<lambda>updated.
       thenM (drive_log cfg u RENAME (Some i))
       (bindM (drive_starred u [updated]) (\<lambda>starred.
         returnM (to_response updated (i \<in> set starred) None))))))) w1 = (Inr r, w')"
    using assms n unfolding rename_def by (auto simp: run_bind [of "liftM _"] elim!: bind_InrE)
  from get_editable_InrE [OF g] have old: "find_item w i = Some old" "\<not> di_is_deleted old" "w1 = w"
    "drive_assert_can_edit cfg old u w = (Inr (), w)" by metis+
  show thesis
  proof (cases "di_name old = n")
    case True
    with rest old have "w' = w"
      by (auto elim!: bind_InrE dest: same_world [OF keeps_drive_guards(7)])
    with True old n show thesis by (intro that(1)) auto
  next
    case False
    with rest old obtain up w2 w3 x st w4 where free: "name_query w n (di_parent_id old) u (Some i) = Inr False"
      and c: "update_name i n u w = (Inr up, w2)" and l: "drive_log cfg u RENAME (Some i) w2 = (Inr x, w3)"
      and s: "drive_starred u [up] w3 = (Inr st, w4)" "w' = w4"
      by (auto elim!: bind_InrE then_InrE simp: guardM_def split: if_splits)
    have w4: "w' = w3" using same_world [OF keeps_drive_guards(7) s(1)] s(2) by simp
    from update_item_InrE [OF c [unfolded update_name_def]]
    have w2: "w2 = set_item i (\<lambda>r. r\<lparr>di_name := n, di_updated_by := Some u, di_updated_at := clock w\<rparr>) w" "items_ok w2"
      by metis+
    from drive_log_InrE [OF l] have w3: "items w3 = items w2" "uuid_next w2 \<le> uuid_next w3" "db_lower w3 = db_lower w2"
      by metis+
    show thesis
      by (rule that(2) [OF n old(1,2,4) False])
        (use free w2 w3 w4 in \<open>auto simp: name_query_False items_ok_def set_item_def\<close>)
  qed
qed

lemma file_has_nothing_below:
  assumes "forest w" "find_item w i = Some r" "di_item_type r = FILE"
  shows "(x, i) \<notin> (parent_rel w)\<^sup>+"
proof
  assume "(x, i) \<in> (parent_rel w)\<^sup>+"
  then obtain y where "(y, i) \<in> parent_rel w" by (metis tranclD2)
  then obtain c where c: "c \<in> set (items w)" "di_parent_id c = Some i"
    using assms(1) by (auto simp: parent_rel_def parent_of_iff forest_def)
  with assms show False
    by (auto simp: forest_def parents_are_folders_def dest!: find_item_Some)
qed

abbreviation move_checks :: "wiring \<Rightarrow> uuid \<Rightarrow> uuid option \<Rightarrow> uuid \<Rightarrow> drive_item \<Rightarrow> unit M" where
  "move_checks cfg i np u old \<equiv> (case np of
         None \<Rightarrow> returnM ()
       | Some p \<Rightarrow> bindM (get_live p) (\<lambda>new_parent.
           thenM (drive_assert_can_edit cfg new_parent u)
           (thenM (guardM (di_item_type new_parent = FOLDER) BadOperation)
           (if di_item_type old = FOLDER
            then bindM (is_descendant_or_self i p) (\<lambda>below. guardM (\<not> below) BadOperation)
            else returnM ()))))"

text \<open>A destination that passes is a live folder that one may edit, and lies neither at nor below the item.\<close>

lemma move_checks_InrE:
  assumes w: "forest w" and old: "find_item w i = Some old" and chk: "move_checks cfg i (Some q) u old w = (Inr y, w)"
  shows "\<exists>f. find_item w q = Some f \<and> \<not> di_is_deleted f \<and> di_item_type f = FOLDER
       \<and> drive_assert_can_edit cfg f u w = (Inr (), w) \<and> (q, i) \<notin> (parent_rel w)\<^sup>*"
proof -
  obtain f where f: "find_item w q = Some f" "\<not> di_is_deleted f" "di_item_type f = FOLDER"
      "drive_assert_can_edit cfg f u w = (Inr (), w)"
    and below: "di_item_type old = FOLDER \<Longrightarrow> is_descendant_or_self i q w = (Inr False, w)"
    using chk by (auto elim!: bind_InrE then_InrE guard_InrE get_live_InrE split: if_splits simp: is_descendant_or_self_def)
  have "q \<in> item_ids w" using f(1) by (auto dest!: find_item_Some simp: item_ids_def)
  then have "(q, i) \<notin> (parent_rel w)\<^sup>*"
  proof (cases "di_item_type old")
    case FOLDER
    with below \<open>q \<in> item_ids w\<close> show ?thesis by (simp add: is_descendant_or_self_iff [OF w])
  next
    case FILE
    with f old have "q \<noteq> i" by auto
    with file_has_nothing_below [OF w old FILE] show ?thesis by (simp add: rtrancl_eq_or_trancl)
  qed
  with f show ?thesis by blast
qed

lemma move_InrE:
  assumes w: "forest w" and assms: "move cfg u i np w = (Inr r, w')"
  obtains old where "find_item w i = Some old" "\<not> di_is_deleted old"
    "drive_assert_can_edit cfg old u w = (Inr (), w)"
    "\<And>q. np = Some q \<Longrightarrow> \<exists>f. find_item w q = Some f \<and> \<not> di_is_deleted f \<and> di_item_type f = FOLDER
       \<and> drive_assert_can_edit cfg f u w = (Inr (), w) \<and> (q, i) \<notin> (parent_rel w)\<^sup>*"
    "\<forall>j \<in> set (items w). \<not> same_name (di_name old) np u (Some i) j"
    "items w' = items (set_item i (\<lambda>r. r\<lparr>di_parent_id := np, di_updated_by := Some u, di_updated_at := clock w\<rparr>) w)"
    "uuid_next w \<le> uuid_next w'" "items_ok w'" "db_lower w' = db_lower w"
proof -
  obtain old w1 where g: "get_editable cfg i u w = (Inr old, w1)"
    and rest: "thenM (move_checks cfg i np u old)
     (bindM (name_exists_in_parent (di_name old) np u (Some i)) (\<lambda>taken.
     thenM (guardM (\<not> taken) NameConflictError)
     (bindM (update_parent i np u) (\<lambda>updated.
     thenM (drive_log cfg u MOVE (Some i))
     (bindM (drive_starred u [updated]) (\<lambda>starred.
       returnM (to_response updated (i \<in> set starred) None))))))) w1 = (Inr r, w')"
    using assms unfolding move_def by (auto elim!: bind_InrE)
  from get_editable_InrE [OF g] have old: "find_item w i = Some old" "\<not> di_is_deleted old" "w1 = w"
    "drive_assert_can_edit cfg old u w = (Inr (), w)" by metis+
  let ?chk = "move_checks cfg i np u old"
  obtain y w2 up w3 x w4 st w5 where chk: "?chk w = (Inr y, w2)"
    and free: "name_query w2 (di_name old) np u (Some i) = Inr False"
    and c: "update_parent i np u w2 = (Inr up, w3)" and l: "drive_log cfg u MOVE (Some i) w3 = (Inr x, w4)"
    and s: "drive_starred u [up] w4 = (Inr st, w5)" "w' = w5"
    using rest unfolding old(3)
    by (auto elim!: bind_InrE then_InrE simp: guardM_def split: if_splits)
  have "keeps (\<lambda>w. w) ?chk" by (intro keeps_rules)
  then have w2: "w2 = w" using chk by (rule same_world)
  have w5: "w' = w4" using same_world [OF keeps_drive_guards(7) s(1)] s(2) by simp
  note parent = move_checks_InrE [OF w old(1)]
  from update_item_InrE [OF c [unfolded update_parent_def]]
  have w3: "w3 = set_item i (\<lambda>r. r\<lparr>di_parent_id := np, di_updated_by := Some u, di_updated_at := clock w\<rparr>) w" "items_ok w3"
    unfolding w2 by metis+
  from drive_log_InrE [OF l] have w4: "items w4 = items w3" "uuid_next w3 \<le> uuid_next w4" "db_lower w4 = db_lower w3"
    by metis+
  show thesis
    by (rule that [OF old(1,2,4) parent])
      (use chk free w2 w3 w4 w5 in \<open>auto simp: name_query_False items_ok_def set_item_def\<close>)
qed

section \<open>The forest survives\<close>

lemma forest_add_item:
  assumes w: "forest w" and p: "\<And>q. di_parent_id item = Some q \<Longrightarrow> \<exists>f. find_item w q = Some f \<and> di_item_type f = FOLDER"
    and item: "di_id item = uuid_next w"
    and w': "items w' = items w @ [item]" "uuid_next w < uuid_next w'"
  shows "forest w'"
proof -
  let ?v = "w\<lparr>uuid_next := Suc (uuid_next w)\<rparr>"
  have v: "forest ?v" using forest_cong [of ?v w] w by simp
  have fresh: "di_id item \<notin> item_ids ?v" using w item by (auto simp: forest_def ids_issued_def item_ids_def)
  have "\<exists>f \<in> set (items ?v). di_id f = q \<and> di_item_type f = FOLDER" if "di_parent_id item = Some q" for q
    using p [OF that] by (auto dest!: find_item_Some)
  then have "forest (items_update (\<lambda>rows. rows @ [item]) ?v)"
    using forest_insert [OF v fresh] item by simp
  then show ?thesis by (rule forest_cong [rotated 2]) (use w' in simp_all)
qed

lemma forest_create_folder: "okay forest (create_folder cfg u p s) (\<lambda>_. forest)"
  unfolding okay_def
proof (intro allI impI)
  fix w r w' assume w: "forest w" and c: "create_folder cfg u p s w = (Inr r, w')"
  from c show "forest w'"
    by (rule create_folder_InrE) (rule forest_add_item [OF w], auto)
qed

lemma forest_set_item_cong:
  assumes "forest w" "items w' = items (set_item i f w)" "uuid_next w \<le> uuid_next w'"
    and "\<And>r. di_id (f r) = di_id r" "\<And>r. di_parent_id (f r) = di_parent_id r"
    and "\<And>r. di_item_type (f r) = di_item_type r"
  shows "forest w'"
  using forest_set_item [OF assms(1,4,5,6)] assms(2,3)
  by (rule_tac forest_cong [of w' "set_item i f w"]) (simp_all add: set_item_def)

lemma forest_rename: "okay forest (rename cfg u i s) (\<lambda>_. forest)"
  unfolding okay_def
proof (intro allI impI)
  fix w r w' assume w: "forest w" and c: "rename cfg u i s w = (Inr r, w')"
  from c show "forest w'"
  proof (rule rename_InrE)
    fix n old
    assume "items w' = items (set_item i (\<lambda>r. r\<lparr>di_name := n, di_updated_by := Some u, di_updated_at := clock w\<rparr>) w)"
      and "uuid_next w \<le> uuid_next w'"
    with w show "forest w'" by (rule forest_set_item_cong) simp_all
  qed (simp add: w)
qed

lemma forest_move: "okay forest (move cfg u i np) (\<lambda>_. forest)"
  unfolding okay_def
proof (intro allI impI)
  fix w r w' assume w: "forest w" and c: "move cfg u i np w = (Inr r, w')"
  from w c show "forest w'"
  proof (rule move_InrE)
    fix old
    let ?f = "\<lambda>r. r\<lparr>di_parent_id := np, di_updated_by := Some u, di_updated_at := clock w\<rparr>"
    assume old: "find_item w i = Some old"
      and parent: "\<And>q. np = Some q \<Longrightarrow> \<exists>f. find_item w q = Some f \<and> \<not> di_is_deleted f \<and> di_item_type f = FOLDER
        \<and> drive_assert_can_edit cfg f u w = (Inr (), w) \<and> (q, i) \<notin> (parent_rel w)\<^sup>*"
      and items: "items w' = items (set_item i ?f w)" "uuid_next w \<le> uuid_next w'"
    from find_item_Some [OF old] have o: "di_id old = i" "old \<in> set (items w)" by auto
    have "forest (set_item i ?f w)"
      by (rule forest_reparent [OF w o, where np = np]) (use parent in \<open>force dest!: find_item_Some\<close>)+
    then show "forest w'" by (rule forest_cong [rotated 2]) (use items in \<open>simp_all add: set_item_def\<close>)
  qed
qed

lemma drive_requests_keep_forest [pres_rules]:
  "preserves forest (transact (create_folder cfg u p s))"
  "preserves forest (transact (rename cfg u i s))"
  "preserves forest (transact (move cfg u i np))"
  by (auto intro: preserves_transact forest_rollback forest_create_folder forest_rename forest_move)

section \<open>Names stay unique for those who own what they touch\<close>

definition names_unique :: "world \<Rightarrow> bool" where
  "names_unique w \<longleftrightarrow> (\<forall>i \<in> set (items w). \<forall>j \<in> set (items w).
     \<not> di_is_deleted i \<longrightarrow> \<not> di_is_deleted j \<longrightarrow> di_owner_id i = di_owner_id j
       \<longrightarrow> di_parent_id i = di_parent_id j \<longrightarrow> di_name i = di_name j \<longrightarrow> di_id i = di_id j)"

lemma names_uniqueD:
  "names_unique w \<Longrightarrow> i \<in> set (items w) \<Longrightarrow> j \<in> set (items w) \<Longrightarrow> \<not> di_is_deleted i \<Longrightarrow> \<not> di_is_deleted j \<Longrightarrow>
    di_owner_id i = di_owner_id j \<Longrightarrow> di_parent_id i = di_parent_id j \<Longrightarrow> di_name i = di_name j \<Longrightarrow> di_id i = di_id j"
  unfolding names_unique_def by blast

text \<open>While names are unique, the existence query never finds two rows.\<close>

lemma name_query_unique:
  assumes "names_unique w" "pk_items (items w)"
  shows "name_query w n p u x = Inr (\<exists>i \<in> set (items w). same_name n p u x i)"
proof (cases "filter (same_name n p u x) (items w)" rule: scalar_one_or_none.cases)
  case 1
  then show ?thesis by (simp add: name_query_def filter_empty_conv)
next
  case (2 i)
  have "i \<in> set (filter (same_name n p u x) (items w))" unfolding 2 by simp
  then have "i \<in> set (items w) \<and> same_name n p u x i" by simp
  with 2 show ?thesis by (auto simp: name_query_def)
next
  case (3 i j rest)
  have "{i, j} \<subseteq> set (filter (same_name n p u x) (items w))" unfolding 3 by simp
  then have "i \<in> set (items w)" "j \<in> set (items w)" "same_name n p u x i" "same_name n p u x j" by auto
  then have "di_id i = di_id j"
    using assms(1) by (intro names_uniqueD [OF assms(1)]) (auto simp: same_name_def)
  moreover have "distinct (map di_id (filter (same_name n p u x) (items w)))"
    using assms(2) by (simp add: pk_items_def distinct_map_filter)
  ultimately show ?thesis using 3 by simp
qed

lemma names_unique_add:
  assumes "names_unique w" "items w' = items w @ [item]"
    and "\<forall>i \<in> set (items w). \<not> same_name (di_name item) (di_parent_id item) (di_owner_id item) None i"
  shows "names_unique w'"
  unfolding names_unique_def
proof (intro ballI impI)
  fix i j assume ij: "i \<in> set (items w')" "j \<in> set (items w')" and live: "\<not> di_is_deleted i" "\<not> di_is_deleted j"
    and same: "di_owner_id i = di_owner_id j" "di_parent_id i = di_parent_id j" "di_name i = di_name j"
  have no: "x \<in> set (items w) \<Longrightarrow> \<not> di_is_deleted x \<Longrightarrow> di_owner_id x = di_owner_id item \<Longrightarrow>
      di_parent_id x = di_parent_id item \<Longrightarrow> di_name x \<noteq> di_name item" for x
    using assms(3) by (auto simp: same_name_def)
  consider "i = item" "j = item" | "i \<in> set (items w)" "j = item" | "i = item" "j \<in> set (items w)"
    | "i \<in> set (items w)" "j \<in> set (items w)" using ij assms(2) by auto
  then show "di_id i = di_id j"
  proof cases
    case 1 then show ?thesis by simp
  next
    case 2 with no [of i] live same show ?thesis by simp
  next
    case 3 with no [of j] live same show ?thesis by simp
  next
    case 4 with assms(1) live same show ?thesis by (blast intro: names_uniqueD)
  qed
qed

lemma names_unique_set:
  assumes "names_unique w" "items w' = items (set_item k f w)" "pk_items (items w)" "find_item w k = Some old"
    and f: "di_id (f old) = k"
    and "\<forall>i \<in> set (items w). \<not> same_name (di_name (f old)) (di_parent_id (f old)) (di_owner_id (f old)) (Some k) i"
  shows "names_unique w'"
proof -
  have only: "r \<in> set (items w) \<Longrightarrow> di_id r = k \<Longrightarrow> r = old" for r
    using assms(3,4) find_item_mem by fastforce
  show ?thesis unfolding names_unique_def
  proof (intro ballI impI)
    fix i j assume i: "i \<in> set (items w')" and j: "j \<in> set (items w')"
      and live: "\<not> di_is_deleted i" "\<not> di_is_deleted j"
      and same: "di_owner_id i = di_owner_id j" "di_parent_id i = di_parent_id j" "di_name i = di_name j"
    obtain i0 where i0: "i0 \<in> set (items w)" "i = (if di_id i0 = k then f i0 else i0)"
      using i assms(2) by (auto simp: items_set_item set_row_update)
    obtain j0 where j0: "j0 \<in> set (items w)" "j = (if di_id j0 = k then f j0 else j0)"
      using j assms(2) by (auto simp: items_set_item set_row_update)
    consider (both) "di_id i0 = k" "di_id j0 = k" | (one) "di_id i0 = k" "di_id j0 \<noteq> k"
      | (other) "di_id i0 \<noteq> k" "di_id j0 = k" | (none) "di_id i0 \<noteq> k" "di_id j0 \<noteq> k" by blast
    then show "di_id i = di_id j"
    proof cases
      case both then show ?thesis using i0 j0 only f by metis
    next
      case one
      then have "i = f old" "j = j0" using i0 j0 only by auto
      with assms(6) j0(1) one live same show ?thesis by (auto simp: same_name_def)
    next
      case other
      then have "j = f old" "i = i0" using i0 j0 only by auto
      with assms(6) i0(1) other live same show ?thesis by (auto simp: same_name_def)
    next
      case none
      then have "i = i0" "j = j0" using i0 j0 by auto
      with assms(1) i0(1) j0(1) live same show ?thesis by (blast intro: names_uniqueD)
    qed
  qed
qed

lemma create_folder_names:
  assumes "names_unique w" "create_folder cfg u p s w = (Inr r, w')"
  shows "names_unique w'"
  by (rule create_folder_InrE [OF assms(2)]) (rule names_unique_add [OF assms(1)], auto)

lemma rename_names:
  assumes "names_unique w" "pk_items (items w)" "rename cfg u i s w = (Inr r, w')"
    and own: "\<And>old. find_item w i = Some old \<Longrightarrow> di_owner_id old = u"
  shows "names_unique w'"
proof (rule rename_InrE [OF assms(3)])
  fix n old
  let ?f = "\<lambda>r. r\<lparr>di_name := n, di_updated_by := Some u, di_updated_at := clock w\<rparr>"
  assume a: "find_item w i = Some old" "items w' = items (set_item i ?f w)"
    "\<forall>j \<in> set (items w). \<not> same_name n (di_parent_id old) u (Some i) j"
  show "names_unique w'"
    by (rule names_unique_set [OF assms(1) a(2) assms(2) a(1)])
      (use a find_item_Some [OF a(1)] own in auto)
qed (simp add: assms(1))

lemma move_names:
  assumes "names_unique w" "forest w" "move cfg u i np w = (Inr r, w')"
    and own: "\<And>old. find_item w i = Some old \<Longrightarrow> di_owner_id old = u"
  shows "names_unique w'"
proof (rule move_InrE [OF assms(2,3)])
  fix old
  let ?f = "\<lambda>r. r\<lparr>di_parent_id := np, di_updated_by := Some u, di_updated_at := clock w\<rparr>"
  assume a: "find_item w i = Some old" "items w' = items (set_item i ?f w)"
    "\<forall>j \<in> set (items w). \<not> same_name (di_name old) np u (Some i) j"
  show "names_unique w'"
    by (rule names_unique_set [OF assms(1) a(2) _ a(1)])
      (use a find_item_Some [OF a(1)] own assms(2) in \<open>auto simp: forest_def\<close>)
qed

end
