(* ===== verification/Samples.thy ===== *)
theory Samples
  imports Drive
begin

text \<open>
  Small concrete worlds on which the theorems are instantiated: two users, and a drive of user 1
  with a folder tree, shared with user 2.
\<close>

definition sample_user :: "uuid \<Rightarrow> string \<Rightarrow> user" where
  "sample_user i email = \<lparr>u_id = i, u_email = email, u_username = ''u'', u_password_hash = ''0$pw'',
     u_avatar_url = None, u_quota_bytes = 1000, u_used_bytes = 0, u_is_active = True,
     u_is_admin = False, u_must_change_password = False, u_created_at = 0, u_updated_at = 0\<rparr>"

definition sample_folder :: "uuid \<Rightarrow> uuid \<Rightarrow> uuid option \<Rightarrow> string \<Rightarrow> drive_item" where
  "sample_folder i owner parent name = new_item i 0 owner parent FOLDER name owner"

definition sample_file :: "uuid \<Rightarrow> uuid \<Rightarrow> uuid option \<Rightarrow> string \<Rightarrow> string \<Rightarrow> int \<Rightarrow> drive_item" where
  "sample_file i owner parent name key n =
     (new_item i 0 owner parent FILE name owner)\<lparr>di_storage_key := Some key, di_size_bytes := n\<rparr>"

definition sample_version :: "uuid \<Rightarrow> uuid \<Rightarrow> string \<Rightarrow> int \<Rightarrow> file_version" where
  "sample_version i file_id key n = \<lparr>fv_id = i, fv_file_id = file_id, fv_version_no = 1, fv_storage_key = key,
     fv_size_bytes = n, fv_checksum = None, fv_created_by = 1, fv_created_at = 0\<rparr>"

definition sample_share :: "uuid \<Rightarrow> uuid \<Rightarrow> uuid \<Rightarrow> uuid \<Rightarrow> permission \<Rightarrow> share" where
  "sample_share i item owner target perm = \<lparr>sh_id = i, sh_item_id = item, sh_owner_id = owner,
     sh_target_user_id = target, sh_permission = perm, sh_created_at = 0, sh_updated_at = 0\<rparr>"

definition sample_blob :: "string \<Rightarrow> bytes \<Rightarrow> blob" where
  "sample_blob key d = \<lparr>bl_key = key, bl_data = d, bl_modified_at = 0\<rparr>"

text \<open>\<open>docs (10) / work (11) / draft.txt (12)\<close>, and \<open>misc (13)\<close>; user 2 edits \<open>docs\<close>.\<close>

definition sample_world :: world where
  "sample_world = empty_world\<lparr>
     users := [sample_user 1 ''a@x'', sample_user 2 ''b@x''],
     items := [sample_folder 10 1 None ''docs'', sample_folder 11 1 (Some 10) ''work'',
       sample_file 12 1 (Some 11) ''draft.txt'' ''k12'' 5, sample_folder 13 1 None ''misc''],
     versions := [sample_version 20 12 ''k12'' 5],
     shares := [sample_share 30 10 1 2 EDITOR],
     blobs := [sample_blob ''k12'' ''hello'']\<rparr>"

lemma sample_forest: "forest sample_world"
  by (rule forest_check) code_simp

lemma sample_pk: "pk_items (items sample_world)"
  using sample_forest by (simp add: forest_def)

lemma sample_users_ok: "users_ok sample_world"
  by code_simp

end
