(* ===== verification/DriveProperties.thy ===== *)
theory DriveProperties
  imports Samples
begin

text \<open>The properties of the permission service and of the drive service, with their instances.\<close>

section \<open>Permissions\<close>

text \<open>C1: on a well-formed drive the permission walk returns, changes nothing, and yields the best grant
  the user has on the item or on any folder above it, ownership being the highest.\<close>

theorem permission_is_best_grant:
  assumes "forest w" "item \<in> set (items w)"
  shows "\<exists>r. get_permission u item w = (Inr r, w) \<and> level_of r = access_level w u (di_id item)"
  by (rule get_permission_level [OF assms, of u]) blast

lemma permission_is_best_grant_witness:
  "\<exists>r. get_permission 2 (sample_file 12 1 (Some 11) ''draft.txt'' ''k12'' 5) sample_world = (Inr r, sample_world)
    \<and> level_of r = access_level sample_world 2 12"
  using permission_is_best_grant [OF sample_forest, of "sample_file 12 1 (Some 11) ''draft.txt'' ''k12'' 5" 2]
  by (simp add: sample_world_def sample_file_def)

text \<open>What a user may do with a folder, viewing, downloading or editing, the user may do with
  everything below it.\<close>

theorem grant_reaches_below:
  assumes "forest w" "folder \<in> set (items w)" "item \<in> set (items w)"
    and "(di_id item, di_id folder) \<in> (parent_rel w)\<^sup>*"
  shows "(assert_can_view u folder w = (Inr (), w) \<longrightarrow> assert_can_view u item w = (Inr (), w))
    \<and> (assert_can_download u folder w = (Inr (), w) \<longrightarrow> assert_can_download u item w = (Inr (), w))
    \<and> (assert_can_edit u folder w = (Inr (), w) \<longrightarrow> assert_can_edit u item w = (Inr (), w))"
  using access_level_inherited [OF assms(1,4), of u]
  by (auto simp: assert_can_view_iff assert_can_download_iff assert_can_edit_iff assms split: if_splits)

lemma grant_reaches_below_witness:
  "assert_can_edit 2 (sample_file 12 1 (Some 11) ''draft.txt'' ''k12'' 5) sample_world = (Inr (), sample_world)"
proof -
  have "(12, 11) \<in> parent_rel sample_world" "(11, 10) \<in> parent_rel sample_world"
    by (simp_all add: parent_rel_def) code_simp+
  then have "(12, 10) \<in> (parent_rel sample_world)\<^sup>*" by auto
  moreover have "fst (assert_can_edit 2 (sample_folder 10 1 None ''docs'') sample_world) = Inr ()" by code_simp
  then have "assert_can_edit 2 (sample_folder 10 1 None ''docs'') sample_world = (Inr (), sample_world)"
    using keeps_snd [OF keeps_perm_asserts(3) [where f = "\<lambda>w. w"]] by (metis prod.collapse)
  ultimately show ?thesis
    using grant_reaches_below [OF sample_forest, of "sample_folder 10 1 None ''docs''"
        "sample_file 12 1 (Some 11) ''draft.txt'' ''k12'' 5" 2]
    by (simp add: sample_world_def sample_file_def sample_folder_def)
qed

section \<open>The drive\<close>

text \<open>C3: no request to create, rename or move an item, by anyone and whatever its outcome, leaves a
  drive in which a folder lies inside itself, a parent is missing or is a file, or an identifier is used twice.\<close>

theorem drive_requests_safe:
  assumes "forest w"
  shows "forest (snd (transact (create_folder cfg u p s) w))
    \<and> forest (snd (transact (rename cfg u i s) w))
    \<and> forest (snd (transact (move cfg u i p) w))"
  using drive_requests_keep_forest assms by (simp add: preserves_def)

lemma drive_requests_safe_witness:
  "forest (snd (transact (move drive_router 1 11 (Some 13)) sample_world))"
  using drive_requests_safe [OF sample_forest] by blast

text \<open>Moving a folder into itself or below itself is refused, and nothing changes.\<close>

theorem move_below_itself_refused:
  assumes w: "forest w" and f: "find_item w i = Some f" "\<not> di_is_deleted f" "di_item_type f = FOLDER"
    and edit: "assert_can_edit u f w = (Inr (), w)"
    and g: "find_item w q = Some g" "\<not> di_is_deleted g" "di_item_type g = FOLDER"
    and below: "(q, i) \<in> (parent_rel w)\<^sup>*"
  shows "move drive_router u i (Some q) w = (Inl BadOperation, w)"
proof -
  from f(1) g(1) have fg: "f \<in> set (items w)" "di_id f = i" "g \<in> set (items w)" "di_id g = q"
    by (auto dest: find_item_Some)
  have "3 \<le> access_level w u i" using edit assert_can_edit_iff [OF w fg(1), of u] fg(2) by (auto split: if_splits)
  then have "3 \<le> access_level w u q" using access_level_inherited [OF w below, of u] by simp
  then have "assert_can_edit u g w = (Inr (), w)" using assert_can_edit_iff [OF w fg(3), of u] fg(4) by simp
  moreover have "is_descendant_or_self i q w = (Inr True, w)"
    using below fg is_descendant_or_self_iff [OF w, of q i] by (simp add: item_ids_def image_iff) blast
  ultimately show ?thesis using f g edit
    by (simp add: move_def get_editable_def get_live_def drive_assert_can_edit_def drive_router_def run_simps)
qed

lemma move_below_itself_refused_witness:
  "move drive_router 1 10 (Some 11) sample_world = (Inl BadOperation, sample_world)"
proof (rule move_below_itself_refused [OF sample_forest, where f = "sample_folder 10 1 None ''docs''"
      and g = "sample_folder 11 1 (Some 10) ''work''"])
  show "(11, 10) \<in> (parent_rel sample_world)\<^sup>*"
    by (rule r_into_rtrancl, simp add: parent_rel_def, code_simp)
  have "fst (assert_can_edit 1 (sample_folder 10 1 None ''docs'') sample_world) = Inr ()" by code_simp
  then show "assert_can_edit 1 (sample_folder 10 1 None ''docs'') sample_world = (Inr (), sample_world)"
    using keeps_snd [OF keeps_perm_asserts(3) [where f = "\<lambda>w. w"]] by (metis prod.collapse)
qed (simp_all add: find_item_def sample_world_def sample_folder_def sample_file_def)

definition folder_may_be_created :: "world \<Rightarrow> uuid \<Rightarrow> uuid option \<Rightarrow> string \<Rightarrow> bool" where
  "folder_may_be_created w u p n \<longleftrightarrow>
     (\<forall>q. p = Some q \<longrightarrow> (\<exists>f. find_item w q = Some f \<and> \<not> di_is_deleted f \<and> di_item_type f = FOLDER
        \<and> 3 \<le> access_level w u q))
     \<and> (\<forall>i \<in> set (items w). \<not> same_name n p u None i)
     \<and> (p \<noteq> None \<longrightarrow> (\<forall>i \<in> set (items w). indexed i \<longrightarrow> name_slot (db_lower w) i \<noteq> (u, p, db_lower w n)))"

lemma items_ok_add:
  "items_ok w \<Longrightarrow> items_ok (items_update (\<lambda>rows. rows @ [item]) (w\<lparr>uuid_next := k\<rparr>)) \<longleftrightarrow>
    di_id item \<notin> item_ids w
    \<and> (case di_parent_id item of None \<Rightarrow> True | Some q \<Rightarrow> q = di_id item \<or> q \<in> item_ids w)
    \<and> (indexed item \<longrightarrow> (\<forall>i \<in> set (items w). indexed i \<longrightarrow> name_slot (db_lower w) i \<noteq> name_slot (db_lower w) item))"
  by (auto simp: items_ok_def pk_items_def fk_parent_iff uq_same_folder_name_def item_ids_def image_iff
      split: option.splits; metis)

lemma items_ok_cong: "items w' = items w \<Longrightarrow> db_lower w' = db_lower w \<Longrightarrow> items_ok w' = items_ok w"
  by (simp add: items_ok_def)

lemma create_folder_ok_iff:
  assumes w: "forest w" "items_ok w"
  shows "items_ok (items_update (\<lambda>rows. rows @ [new_item (uuid_next w) t u p FOLDER n u]) (w\<lparr>uuid_next := k\<rparr>)) \<longleftrightarrow>
    (\<forall>q. p = Some q \<longrightarrow> q = uuid_next w \<or> q \<in> item_ids w)
    \<and> (p \<noteq> None \<longrightarrow> (\<forall>i \<in> set (items w). indexed i \<longrightarrow> name_slot (db_lower w) i \<noteq> (u, p, db_lower w n)))"
proof -
  have "uuid_next w \<notin> item_ids w" using w(1) by (auto simp: forest_def ids_issued_def)
  then show ?thesis
    using items_ok_add [OF w(2), of "new_item (uuid_next w) t u p FOLDER n u" k]
    by (auto simp: indexed_def [of "new_item _ _ _ _ _ _ _"] name_slot_def [of _ "new_item _ _ _ _ _ _ _"]
        split: option.splits)
qed

lemma run_create_folder:
  assumes w: "forest w" "items_ok w" and n: "validate_name s = Inr n" and may: "folder_may_be_created w u p n"
  obtains r w' where "create_folder drive_router u p s w = (Inr r, w')"
proof -
  let ?item = "new_item (uuid_next w) (clock w) u p FOLDER n u"
  let ?v = "items_update (\<lambda>rows. rows @ [?item]) (w\<lparr>uuid_next := Suc (uuid_next w)\<rparr>)"
  have "(case p of None \<Rightarrow> returnM () | Some p \<Rightarrow> bindM (get_live p) (\<lambda>parent.
      thenM (drive_assert_can_edit drive_router parent u) (guardM (di_item_type parent = FOLDER) BadOperation))) w
      = (Inr (), w)"
  proof (cases p)
    case None
    then show ?thesis by simp
  next
    case (Some q)
    then obtain f where f: "find_item w q = Some f" "\<not> di_is_deleted f" "di_item_type f = FOLDER" "3 \<le> access_level w u q"
      using may by (auto simp: folder_may_be_created_def)
    with find_item_Some [OF f(1)] have "assert_can_edit u f w = (Inr (), w)"
      by (simp add: assert_can_edit_iff [OF w(1)])
    with f Some show ?thesis
      by (simp add: get_live_def drive_assert_can_edit_def drive_router_def run_simps)
  qed
  moreover have "name_query w n p u None = Inr False"
    using may by (auto simp: folder_may_be_created_def name_query_False)
  moreover have "items_ok ?v"
    using may by (auto simp: create_folder_ok_iff [OF w] folder_may_be_created_def item_ids_def dest!: find_item_Some)
  then have "items_create u p FOLDER n u w = (Inr ?item, ?v)"
    by (simp add: items_create_def run_simps Let_def)
  moreover obtain x where "drive_log drive_router u CREATE (Some (di_id ?item)) ?v = (Inr (), x)"
    using log_activity_frame(18) [of u CREATE "Some (di_id ?item)" ?v]
    by (cases "log_activity u CREATE (Some (di_id ?item)) ?v")
      (auto simp: drive_log_def drive_router_def run_simps)
  ultimately have "create_folder drive_router u p s w = (Inr (to_response ?item False None), x)"
    using n by (simp add: create_folder_def run_simps)
  with that show thesis by blast
qed

text \<open>C4: \<open>create_folder\<close> succeeds exactly when the stripped name is valid, the parent is a live
  folder the user can edit, no live item of the user there has the name, and, below the root, none has it
  up to case; it then adds exactly the new folder.\<close>

theorem create_folder_spec:
  assumes "forest w" "items_ok w"
  shows "((\<exists>r w'. create_folder drive_router u p s w = (Inr r, w')) \<longleftrightarrow>
      (\<exists>n. validate_name s = Inr n \<and> folder_may_be_created w u p n))
    \<and> (\<forall>r w'. create_folder drive_router u p s w = (Inr r, w') \<longrightarrow>
      items w' = items w @ [new_item (uuid_next w) (clock w) u p FOLDER (py_strip s) u])"
proof -
  have "folder_may_be_created w u p n \<and> n = py_strip s \<and> items w' = items w @ [new_item (uuid_next w) (clock w) u p FOLDER n u]"
    if c: "create_folder drive_router u p s w = (Inr r, w')" and n: "validate_name s = Inr n" for r w' n
  proof (rule create_folder_InrE [OF c])
    fix m item
    let ?v = "items_update (\<lambda>rows. rows @ [item]) (w\<lparr>uuid_next := Suc (uuid_next w)\<rparr>)"
    assume a: "validate_name s = Inr m" "item = new_item (uuid_next w) (clock w) u p FOLDER m u"
      "\<forall>i \<in> set (items w). \<not> same_name m p u None i"
      "\<And>q. p = Some q \<Longrightarrow> \<exists>f. find_item w q = Some f \<and> \<not> di_is_deleted f \<and> di_item_type f = FOLDER
         \<and> drive_assert_can_edit drive_router f u w = (Inr (), w)"
      "items w' = items w @ [item]" "items_ok w'" "db_lower w' = db_lower w"
    have mn: "m = n" using a(1) n by simp
    have "items_ok ?v" using a(5,6,7) items_ok_cong [of w' ?v] by simp
    then have "p \<noteq> None \<longrightarrow> (\<forall>i \<in> set (items w). indexed i \<longrightarrow> name_slot (db_lower w) i \<noteq> (u, p, db_lower w m))"
      unfolding a(2) create_folder_ok_iff [OF assms] by blast
    moreover have "3 \<le> access_level w u q" if "p = Some q" for q
      using a(4) [OF that] by (auto simp: drive_assert_can_edit_def drive_router_def
          assert_can_edit_iff [OF assms(1)] dest!: find_item_Some split: if_splits)
    ultimately have "folder_may_be_created w u p m" using a(3,4) by (fastforce simp: folder_may_be_created_def)
    with a(2,5) mn validate_name_Inr(1) [OF n] show ?thesis by simp
  qed
  moreover have "\<exists>n. validate_name s = Inr n" if "create_folder drive_router u p s w = (Inr r, w')" for r w'
    using that by (auto simp: create_folder_def elim!: bind_InrE)
  ultimately show ?thesis using run_create_folder [OF assms, of s _ u p] by (metis validate_name_Inr(1))
qed

lemma create_folder_spec_witness:
  "\<exists>r w'. create_folder drive_router 2 (Some 11) '' new '' sample_world = (Inr r, w')
    \<and> items w' = items sample_world @ [new_item 100 0 2 (Some 11) FOLDER ''new'' 2]"
proof -
  have "items_ok sample_world" by code_simp
  moreover have "isl (fst (create_folder drive_router 2 (Some 11) '' new '' sample_world)) = False" by code_simp
  then obtain r w' where "create_folder drive_router 2 (Some 11) '' new '' sample_world = (Inr r, w')"
    by (cases "create_folder drive_router 2 (Some 11) '' new '' sample_world"; cases "fst (create_folder drive_router 2 (Some 11) '' new '' sample_world)") auto
  moreover have "py_strip '' new '' = ''new''" "uuid_next sample_world = 100" "clock sample_world = 0" by code_simp+
  ultimately show ?thesis
    using create_folder_spec [OF sample_forest, of 2 "Some 11" "'' new ''"] by metis
qed



text \<open>An editor who is not the owner gets past that rule. The conflict check of \<open>rename\<close> looks among
  the editor's own items, so user 2 can rename the shared folder \<open>docs\<close> of user 1 to the name of
  another root folder of user 1; from then on the owner's own requests about that name fail with
  \<open>MultipleResultsFound\<close>.\<close>

theorem rename_by_editor_duplicates_name:
  "\<not> names_unique (snd (rename drive_router 2 10 ''misc'' sample_world))
    \<and> fst (thenM (rename drive_router 2 10 ''misc'') (create_folder drive_router 1 None ''misc'') sample_world)
        = Inl MultipleResultsFound"
  by code_simp

text \<open>The breadcrumb trail of an item holds every folder above it exactly once, and each
  entry is the parent of the next, the last one the parent of the item.\<close>

theorem breadcrumbs_are_the_ancestors:
  assumes "forest w" "find_item w i = Some item" "get_ancestors cfg u i w = (Inr rs, w')"
  shows "set (map ir_id rs) = (parent_rel w)\<^sup>+ `` {i} \<and> distinct (map ir_id rs)
    \<and> (\<forall>k. Suc k < length rs \<longrightarrow> ir_parent_id (rs ! Suc k) = Some (ir_id (rs ! k)))
    \<and> (rs \<noteq> [] \<longrightarrow> di_parent_id item = Some (ir_id (last rs)))"
proof -
  let ?l = "ancestor_loop w (di_parent_id item) {}"
  obtain w1 w2 st where v: "get_viewable cfg i u w = (Inr item, w)"
    and rs: "rs = map (\<lambda>a. to_response a (di_id a \<in> set st) None) (rev ?l)"
  proof -
    obtain it w1 where g: "get_viewable cfg i u w = (Inr it, w1)"
      using assms(3) by (auto simp: get_ancestors_def elim!: bind_InrE)
    have w1: "w1 = w" using same_world [OF keeps_drive_guards(4) g] .
    have it: "it = item" using g assms(2)
      by (auto simp: get_viewable_def get_live_def run_simps split: if_splits prod.splits sum.splits)
    obtain st v where "drive_starred u (rev ?l) w = (Inr st, v)" "rs = map (\<lambda>a. to_response a (di_id a \<in> set st) None) (rev ?l)"
      using assms(3) g unfolding w1 it
      by (auto simp: get_ancestors_def run_simps split: prod.splits sum.splits)
    with g show thesis unfolding w1 it by (intro that)
  qed
  have "parent_of w i = di_parent_id item" by (simp add: parent_of_def assms(2))
  from ancestor_loop_chain [OF assms(1) this, of "{}"]
  have l: "set (map di_id ?l) = (parent_rel w)\<^sup>+ `` {i}" "distinct (map di_id ?l)"
    and link: "\<And>k. k < length ?l \<Longrightarrow> Some (di_id (?l ! k)) = (if k = 0 then di_parent_id item else di_parent_id (?l ! (k - 1)))"
    by auto
  have len: "length rs = length ?l" by (simp add: rs)
  have nth: "ir_id (rs ! k) = di_id (?l ! (length ?l - Suc k))" "ir_parent_id (rs ! k) = di_parent_id (?l ! (length ?l - Suc k))"
    if "k < length ?l" for k using that by (simp_all add: rs rev_nth to_response_def)
  have ids: "map ir_id rs = rev (map di_id ?l)" by (simp add: rs comp_def to_response_def rev_map)
  have "ir_parent_id (rs ! Suc k) = Some (ir_id (rs ! k))" if "Suc k < length rs" for k
    using that link [of "length ?l - Suc k"] nth [of k] nth [of "Suc k"] len by (simp add: Suc_diff_Suc)
  moreover have "di_parent_id item = Some (ir_id (last rs))" if "rs \<noteq> []"
  proof -
    have "?l \<noteq> []" using that len by auto
    then show ?thesis using that link [of 0] nth [of "length rs - 1"] len by (simp add: last_conv_nth)
  qed
  ultimately show ?thesis using l ids by simp
qed

lemma breadcrumbs_are_the_ancestors_witness:
  "\<exists>rs w'. get_ancestors drive_router 2 12 sample_world = (Inr rs, w')
    \<and> set (map ir_id rs) = (parent_rel sample_world)\<^sup>+ `` {12}"
proof -
  have "\<not> isl (fst (get_ancestors drive_router 2 12 sample_world))" by code_simp
  then obtain rs w' where r: "get_ancestors drive_router 2 12 sample_world = (Inr rs, w')"
    by (metis isl_def prod.collapse sum.collapse(2))
  have "find_item sample_world 12 = Some (sample_file 12 1 (Some 11) ''draft.txt'' ''k12'' 5)"
    by (simp add: find_item_def sample_world_def sample_folder_def sample_file_def)
  from breadcrumbs_are_the_ancestors [OF sample_forest this r] r show ?thesis by blast
qed





text \<open>A listing only ever holds items that the asking user owns. A collaborator who may view or
  edit a shared folder therefore sees none of the owner's items in it.\<close>

theorem shared_folder_lists_empty:
  assumes "list_items drive_router u (Some q) page page_size f ord w = (Inr pg, w')"
    and "\<forall>i \<in> set (items w). di_parent_id i = Some q \<longrightarrow> di_owner_id i \<noteq> u"
  shows "pg_items pg = [] \<and> pg_total pg = 0"
proof -
  have "children w (Some q) u = []" using assms(2) by (auto simp: children_def filter_empty_conv is_child_def)
  then have none: "list_children (Some q) u f ord a b w = (Inr (rows, n), v) \<Longrightarrow> rows = [] \<and> n = 0" for a b rows n v
    by (auto simp: list_children_def Let_def select_page_def sort_items_def order_by_def split: if_splits sum.splits sort_field.splits sort_order.splits)
  have "keeps (\<lambda>w. w) (bindM (get_live q) (\<lambda>parent. drive_assert_can_view drive_router parent u))"
    by (intro keeps_rules)
  note same = same_world [OF this]
  from assms(1) [unfolded list_items_def option.case] obtain x w1 where
    chk: "bindM (get_live q) (\<lambda>parent. drive_assert_can_view drive_router parent u) w = (Inr x, w1)"
    and rest: "bindM (list_children (Some q) u f ord ((page - 1) * page_size) page_size)
       (\<lambda>(rows, count). bindM (drive_starred u rows) (\<lambda>starred. bindM (drive_badges drive_router u rows)
         (\<lambda>badges. returnM (page_create
             (map (\<lambda>i. to_response i (di_id i \<in> set starred) (map_of badges (di_id i))) rows)
             (int count) page page_size)))) w1 = (Inr pg, w')"
    by (rule then_InrE)
  from rest obtain rows n w2 where
    l: "list_children (Some q) u f ord ((page - 1) * page_size) page_size w1 = (Inr (rows, n), w2)"
    and r: "pg_total pg = int n" "length (pg_items pg) = length rows"
    by (auto elim!: bind_InrE simp: page_create_def)
  from same [OF chk] l have "rows = [] \<and> n = 0" using none by blast
  with r show ?thesis by auto
qed

lemma shared_folder_lists_empty_witness:
  "\<exists>pg w'. list_items drive_router 2 (Some 10) 1 20 BY_NAME ASC sample_world = (Inr pg, w') \<and> pg_items pg = []"
proof -
  have "\<not> isl (fst (list_items drive_router 2 (Some 10) 1 20 BY_NAME ASC sample_world))" by code_simp
  then obtain pg w' where r: "list_items drive_router 2 (Some 10) 1 20 BY_NAME ASC sample_world = (Inr pg, w')"
    by (metis isl_def prod.collapse sum.collapse(2))
  from shared_folder_lists_empty [OF this] r show ?thesis
    by (simp add: sample_world_def sample_folder_def sample_file_def)
qed

end
