(* ===== verification/Storage.thy ===== *)
theory Storage
  imports World
begin

text \<open>
  \<open>app/storage\<close>: the local storage backend. A blob is a file under the storage root; the model
  keys it by the path that the backend resolves its key to, relative to the root. A stream is the list
  of chunks it yields and the exception it ends with, if any. Writes go to a temporary file that is
  renamed when complete, so a write that raises leaves the old blob: that is one update of the table
  here. Errors of the disk itself and directories standing where a file should be are not modelled.
\<close>

section \<open>Streams\<close>

type_synonym stream = "bytes list \<times> error option"

definition stream_bytes :: "stream \<Rightarrow> bytes" where
  "stream_bytes s = concat (fst s)"

section \<open>Keys\<close>

text \<open>\<open>(root / key).resolve()\<close> relative to the root: empty and \<open>.\<close> segments vanish.\<close>

definition canonical_key :: "string \<Rightarrow> string" where
  "canonical_key key = py_join ''/'' (filter (\<lambda>seg. seg \<noteq> [] \<and> seg \<noteq> ''.'') (py_split (CHR ''/'') key))"

definition resolve_path :: "string \<Rightarrow> error + string" where
  "resolve_path key =
     (if key = [] \<or> ''..'' \<in> set (py_split (CHR ''/'') key) \<or> starts_with ''/'' key
      then Inl PathTraversalError else Inr (canonical_key key))"

section \<open>Blobs\<close>

definition blob_get :: "world \<Rightarrow> string \<Rightarrow> bytes option" where
  "blob_get w p = map_option bl_data (row_get bl_key p (blobs w))"

definition blob_put :: "string \<Rightarrow> bytes \<Rightarrow> world \<Rightarrow> world" where
  "blob_put p d w =
     (case row_get bl_key p (blobs w) of
        None \<Rightarrow> blobs_update (\<lambda>rows. rows @ [\<lparr>bl_key = p, bl_data = d, bl_modified_at = clock w\<rparr>]) w
      | Some _ \<Rightarrow> blobs_update (row_update bl_key p (\<lambda>b. b\<lparr>bl_data := d, bl_modified_at := clock w\<rparr>)) w)"

definition blob_remove :: "string \<Rightarrow> world \<Rightarrow> world" where
  "blob_remove p w = blobs_update (row_delete (\<lambda>b. bl_key b = p)) w"

lemma blob_get_put: "blob_get (blob_put p d w) q = (if q = p then Some d else blob_get w q)"
  by (auto simp: blob_get_def blob_put_def row_get_update row_get_append split: option.splits)

lemma blob_get_remove: "blob_get (blob_remove p w) q = (if q = p then None else blob_get w q)"
  by (simp add: blob_get_def blob_remove_def row_get_delete_same row_get_delete_other)

section \<open>The interface of a blob store\<close>

text \<open>
  What the services rely on: a blob reads back as it was written, and neither a write nor a
  deletion touches another blob.
\<close>

locale blob_store =
  fixes content :: "'w \<Rightarrow> 'k \<Rightarrow> 'd option"
    and put :: "'k \<Rightarrow> 'd \<Rightarrow> 'w \<Rightarrow> 'w"
    and drop_key :: "'k \<Rightarrow> 'w \<Rightarrow> 'w"
  assumes content_put: "content (put k d w) j = (if j = k then Some d else content w j)"
    and content_drop: "content (drop_key k w) j = (if j = k then None else content w j)"
begin

lemma content_drops:
  "content (fold drop_key ks w) j = (if j \<in> set ks then None else content w j)"
  by (induction ks arbitrary: w) (auto simp: content_drop)

lemma content_puts:
  "content (fold (\<lambda>(k, d). put k d) kds w) j =
    (case map_of (rev kds) j of None \<Rightarrow> content w j | Some d \<Rightarrow> Some d)"
  by (induction kds arbitrary: w)
    (auto simp: content_put map_of_append map_add_def split: option.splits)

lemma put_then_drop: "content (drop_key k (put k d w)) j = content (drop_key k w) j"
  by (simp add: content_put content_drop)

end

interpretation local_store: blob_store blob_get blob_put blob_remove
  by unfold_locales (simp_all add: blob_get_put blob_get_remove)

section \<open>The operations of the provider\<close>

definition save :: "string \<Rightarrow> bytes \<Rightarrow> unit M" where
  "save key data = bindM (liftM (\<lambda>_. resolve_path key)) (\<lambda>path. modifyM (blob_put path data))"

text \<open>The loop over the stream: empty chunks are skipped, the number counts what was written.\<close>

fun write_chunks :: "bytes list \<Rightarrow> bytes \<Rightarrow> nat \<Rightarrow> bytes \<times> nat" where
  "write_chunks [] f written = (f, written)"
| "write_chunks (chunk # rest) f written =
     (if chunk = [] then write_chunks rest f written
      else write_chunks rest (f @ chunk) (written + length chunk))"

definition save_stream :: "string \<Rightarrow> stream \<Rightarrow> nat M" where
  "save_stream key s =
     bindM (liftM (\<lambda>_. resolve_path key)) (\<lambda>path.
       case write_chunks (fst s) [] 0 of (f, written) \<Rightarrow>
       (case snd s of
          Some e \<Rightarrow> raiseM e
        | None \<Rightarrow> thenM (modifyM (blob_put path f)) (returnM written)))"

definition storage_exists :: "string \<Rightarrow> bool M" where
  "storage_exists key =
     bindM (liftM (\<lambda>_. resolve_path key)) (\<lambda>path. getsM (\<lambda>w. blob_get w path \<noteq> None))"

definition get_size :: "string \<Rightarrow> nat M" where
  "get_size key =
     bindM (liftM (\<lambda>_. resolve_path key)) (\<lambda>path. liftM (\<lambda>w. case blob_get w path of
         None \<Rightarrow> Inl StorageKeyNotFoundError
       | Some d \<Rightarrow> Inr (length d)))"

text \<open>\<open>for key in keys: self._resolve_path(key)\<close>\<close>

fun resolve_all :: "string list \<Rightarrow> error + string list" where
  "resolve_all [] = Inr []"
| "resolve_all (key # keys) =
     (case resolve_path key of
        Inl e \<Rightarrow> Inl e
      | Inr p \<Rightarrow> (case resolve_all keys of Inl e \<Rightarrow> Inl e | Inr ps \<Rightarrow> Inr (p # ps)))"

fun read_all :: "world \<Rightarrow> string list \<Rightarrow> error + bytes list" where
  "read_all w [] = Inr []"
| "read_all w (p # ps) =
     (case blob_get w p of
        None \<Rightarrow> Inl StorageKeyNotFoundError
      | Some d \<Rightarrow> (case read_all w ps of Inl e \<Rightarrow> Inl e | Inr ds \<Rightarrow> Inr (d # ds)))"

definition storage_concat :: "string list \<Rightarrow> string \<Rightarrow> nat M" where
  "storage_concat source_keys target_key =
     bindM (liftM (\<lambda>_. resolve_path target_key)) (\<lambda>target.
     bindM (liftM (\<lambda>_. resolve_all source_keys)) (\<lambda>sources.
     bindM (liftM (\<lambda>w. read_all w sources)) (\<lambda>datas.
       thenM (modifyM (blob_put target (concat datas))) (returnM (length (concat datas))))))"

definition CHUNK_SIZE :: nat where "CHUNK_SIZE = 65536"

text \<open>The reads of a file through a buffer of the given size.\<close>

fun read_chunks :: "nat \<Rightarrow> bytes \<Rightarrow> bytes list" where
  "read_chunks n d = (if n = 0 \<or> d = [] then [] else take n d # read_chunks n (drop n d))"

declare read_chunks.simps [simp del]

definition open_read :: "string \<Rightarrow> bytes list M" where
  "open_read key =
     bindM (liftM (\<lambda>_. resolve_path key)) (\<lambda>path. liftM (\<lambda>w. case blob_get w path of
         None \<Rightarrow> Inl StorageKeyNotFoundError
       | Some d \<Rightarrow> Inr (read_chunks CHUNK_SIZE d)))"

definition storage_delete :: "string \<Rightarrow> unit M" where
  "storage_delete key = bindM (liftM (\<lambda>_. resolve_path key)) (\<lambda>path. modifyM (blob_remove path))"

definition UPLOAD_TEMP_PREFIX :: string where "UPLOAD_TEMP_PREFIX = ''uploads''"

definition skipped_key :: "string \<Rightarrow> bool" where
  "skipped_key key =
     (starts_with ''.tmp-'' (last (py_split (CHR ''/'') key)) \<or> starts_with (UPLOAD_TEMP_PREFIX @ ''/'') key)"

definition list_objects :: "blob list M" where
  "list_objects = getsM (\<lambda>w. filter (\<lambda>b. \<not> skipped_key (bl_key b)) (blobs w))"

section \<open>What the operations do\<close>

lemma write_chunks_concat: "write_chunks cs f n = (f @ concat cs, n + length (concat cs))"
  by (induction cs f n rule: write_chunks.induct) auto

lemma concat_read_chunks: "0 < n \<Longrightarrow> concat (read_chunks n d) = d"
proof (induction n d rule: read_chunks.induct)
  case (1 n d)
  then show ?case by (subst read_chunks.simps) auto
qed

lemma read_chunks_sizes: "c \<in> set (read_chunks n d) \<Longrightarrow> 0 < length c \<and> length c \<le> n"
proof (induction n d rule: read_chunks.induct)
  case (1 n d)
  then show ?case by (subst (asm) (2) read_chunks.simps) (auto split: if_splits)
qed

lemma run_save_stream [run_simps]:
  "resolve_path key = Inr p \<Longrightarrow>
    save_stream key s w = (case snd s of
      Some e \<Rightarrow> (Inl e, w)
    | None \<Rightarrow> (Inr (length (stream_bytes s)), blob_put p (stream_bytes s) w))"
  by (simp add: save_stream_def write_chunks_concat run_bind run_then stream_bytes_def split: option.splits)

lemma run_storage_delete [run_simps]:
  "resolve_path key = Inr p \<Longrightarrow> storage_delete key w = (Inr (), blob_remove p w)"
  by (simp add: storage_delete_def run_bind)

lemma run_storage_exists [run_simps]:
  "resolve_path key = Inr p \<Longrightarrow> storage_exists key w = (Inr (blob_get w p \<noteq> None), w)"
  by (simp add: storage_exists_def run_bind)

lemma run_open_read [run_simps]:
  "resolve_path key = Inr p \<Longrightarrow> blob_get w p = Some d \<Longrightarrow> open_read key w = (Inr (read_chunks CHUNK_SIZE d), w)"
  by (simp add: open_read_def run_bind)

lemma read_all_ok:
  "list_all2 (\<lambda>p d. blob_get w p = Some d) ps ds \<Longrightarrow> read_all w ps = Inr ds"
  by (induction ps ds rule: list_all2_induct) auto

lemma resolve_all_ok:
  "list_all2 (\<lambda>k p. resolve_path k = Inr p) ks ps \<Longrightarrow> resolve_all ks = Inr ps"
  by (induction ks ps rule: list_all2_induct) auto

text \<open>Only the blobs change: every part of the world that \<open>blobs_update\<close> leaves alone is kept.\<close>

lemma keeps_put_blob:
  assumes "\<And>g w. f (blobs_update g w) = f w"
  shows "f (blob_put p d w) = f w" "f (blob_remove p w) = f w"
  by (simp_all add: blob_put_def blob_remove_def assms split: option.splits)

lemma keeps_storage [keeps_rules]:
  assumes "\<And>g w. f (blobs_update g w) = f w"
  shows "keeps f (save key data)" "keeps f (save_stream key s)" "keeps f (storage_concat ks t)"
    "keeps f (storage_delete key)"
  unfolding save_def save_stream_def storage_concat_def storage_delete_def
  by (auto intro!: keeps_rules keeps_modify simp: keeps_put_blob [OF assms] split: prod.splits option.splits)

lemma keeps_storage_reads [keeps_rules]:
  "keeps f (storage_exists key)" "keeps f (get_size key)" "keeps f (open_read key)" "keeps f list_objects"
  unfolding storage_exists_def get_size_def open_read_def list_objects_def by (intro keeps_rules)+

lemma preserves_storage_reads [pres_rules]:
  "preserves I (storage_exists key)" "preserves I (get_size key)" "preserves I (open_read key)"
  "preserves I list_objects"
  unfolding storage_exists_def get_size_def open_read_def list_objects_def by (intro pres_rules)+

section \<open>The keys stay under the root\<close>

lemma py_split_join_segments:
  "xs \<noteq> [] \<Longrightarrow> (\<And>x. x \<in> set xs \<Longrightarrow> c \<notin> set x) \<Longrightarrow> py_split c (py_join [c] xs) = xs"
proof (induction xs rule: induct_list012)
  case (2 x)
  have "c \<notin> set x \<Longrightarrow> py_split c x = [x]" by (induction x) auto
  with 2 show ?case by simp
next
  case (3 x y ys)
  have app: "c \<notin> set x \<Longrightarrow> py_split c (x @ c # s) = x # py_split c s" for s
    by (induction x) (auto split: list.splits)
  show ?case using 3 app [of "py_join [c] (y # ys)"] by simp
qed simp

lemma py_split_segment_free: "x \<in> set (py_split c s) \<Longrightarrow> c \<notin> set x"
proof (induction s arbitrary: x)
  case Nil
  then show ?case by simp
next
  case (Cons a s)
  then show ?case by (cases "py_split c s") (auto split: if_splits)
qed

lemma canonical_segments:
  assumes "canonical_key key \<noteq> []"
  shows "py_split (CHR ''/'') (canonical_key key) =
    filter (\<lambda>seg. seg \<noteq> [] \<and> seg \<noteq> ''.'') (py_split (CHR ''/'') key)"
proof -
  have "filter (\<lambda>seg. seg \<noteq> [] \<and> seg \<noteq> ''.'') (py_split (CHR ''/'') key) \<noteq> []"
    using assms by (auto simp: canonical_key_def)
  then show ?thesis unfolding canonical_key_def
    by (rule py_split_join_segments) (auto dest: py_split_segment_free)
qed

text \<open>A resolved key has no segment that could leave the root, and resolving it again changes nothing.\<close>

lemma resolved_segments:
  assumes "resolve_path key = Inr p" "p \<noteq> []" "seg \<in> set (py_split (CHR ''/'') p)"
  shows "seg \<noteq> [] \<and> seg \<noteq> ''.'' \<and> seg \<noteq> ''..''"
proof -
  from assms(1) have p: "p = canonical_key key" and nodots: "''..'' \<notin> set (py_split (CHR ''/'') key)"
    by (auto simp: resolve_path_def split: if_splits)
  from assms(2,3) show ?thesis unfolding p by (auto simp: canonical_segments nodots)
qed

lemma hd_split: "starts_with [c] s \<Longrightarrow> [] \<in> set (py_split c s)"
  by (cases s) (auto simp: starts_with_def)

lemma resolve_idem:
  assumes "resolve_path key = Inr p" "p \<noteq> []"
  shows "resolve_path p = Inr p"
proof -
  note segs = resolved_segments [OF assms]
  from assms(1) have p: "p = canonical_key key" by (auto simp: resolve_path_def split: if_splits)
  have "canonical_key p = p"
    using assms(2) unfolding p by (subst canonical_key_def) (simp add: canonical_segments, simp add: canonical_key_def)
  moreover have "\<not> starts_with ''/'' p" using hd_split [of "CHR ''/''" p] segs by blast
  ultimately show ?thesis using assms(2) segs unfolding resolve_path_def by auto
qed

text \<open>Keys that the services build from clean segments resolve to themselves.\<close>

definition clean_segment :: "string \<Rightarrow> bool" where
  "clean_segment seg = (seg \<noteq> [] \<and> seg \<noteq> ''.'' \<and> seg \<noteq> ''..'' \<and> CHR ''/'' \<notin> set seg)"

lemma split_join_clean:
  "segs \<noteq> [] \<Longrightarrow> list_all clean_segment segs \<Longrightarrow> py_split (CHR ''/'') (py_join ''/'' segs) = segs"
  by (rule py_split_join_segments) (auto simp: list_all_iff clean_segment_def)

lemma resolve_join:
  assumes "segs \<noteq> []" "list_all clean_segment segs"
  shows "resolve_path (py_join ''/'' segs) = Inr (py_join ''/'' segs)"
proof -
  let ?key = "py_join ''/'' segs"
  have split: "py_split (CHR ''/'') ?key = segs" by (rule split_join_clean [OF assms])
  have "filter (\<lambda>seg. seg \<noteq> [] \<and> seg \<noteq> ''.'') segs = segs"
    using assms(2) by (auto simp: filter_id_conv list_all_iff clean_segment_def)
  then have "canonical_key ?key = ?key" by (simp add: canonical_key_def split)
  moreover have "''..'' \<notin> set (py_split (CHR ''/'') ?key)" "[] \<notin> set (py_split (CHR ''/'') ?key)"
    using assms(2) by (auto simp: split list_all_iff clean_segment_def)
  moreover from this(2) have "\<not> starts_with ''/'' ?key" using hd_split by blast
  moreover have "?key \<noteq> []" using split py_split.simps(1) assms by (metis clean_segment_def list.pred_inject(2))
  ultimately show ?thesis by (simp add: resolve_path_def)
qed

end
