(* ===== verification/Naming.thy ===== *)
theory Naming
  imports Drive Storage
begin

text \<open>
  Names for new files: \<open>_safe_filename\<close> and \<open>_split_name\<close> of \<open>app/upload/service.py\<close> and the loop
  that appends \<open>(1)\<close>, \<open>(2)\<close>, ... until the name is free. Uploads, completed upload sessions, the
  trash and the archive all have that loop, each with its own test; the locale \<open>name_supply\<close> holds the
  argument that it ends.
\<close>

section \<open>The interface\<close>

text \<open>The candidates are pairwise different; so a finite set of taken names cannot exhaust them.\<close>

locale name_supply =
  fixes cand :: "nat \<Rightarrow> 'n"
  assumes cand_inj: "cand i = cand j \<Longrightarrow> i = j"
begin

lemma some_free:
  assumes "finite T"
  shows "\<exists>k \<le> card T. cand k \<notin> T"
proof (rule ccontr)
  assume "\<not> ?thesis"
  then have "cand ` {..card T} \<subseteq> T" by auto
  then have "card (cand ` {..card T}) \<le> card T" by (rule card_mono [OF assms])
  moreover have "card (cand ` {..card T}) = Suc (card T)"
    by (simp add: card_image inj_on_def cand_inj)
  ultimately show False by simp
qed

text \<open>Which candidate a search from the first one on finds.\<close>

lemma least_free:
  assumes "finite T"
  obtains k where "cand k \<notin> T" "\<forall>j < k. cand j \<in> T" "k \<le> card T"
proof -
  let ?k = "LEAST k. cand k \<notin> T"
  obtain m where m: "m \<le> card T" "cand m \<notin> T" using some_free [OF assms] by blast
  have "cand ?k \<notin> T" by (rule LeastI [of _ m]) (rule m)
  moreover have "\<forall>j < ?k. cand j \<in> T" using not_less_Least by blast
  moreover have "?k \<le> card T" using Least_le [of "\<lambda>k. cand k \<notin> T" m] m by simp
  ultimately show thesis by (rule that)
qed

end

section \<open>File names\<close>

definition safe_filename :: "string \<Rightarrow> error + string" where
  "safe_filename name =
     (let name = py_strip name in
      if name = [] then Inl BadOperation
      else if length name > 512 then Inl BadOperation
      else if list_ex (\<lambda>c. c \<in> {CHR ''/'', CHR 0x5C, CHR 0x00}) name then Inl BadOperation
      else Inr name)"

definition split_name :: "string \<Rightarrow> string \<times> string" where
  "split_name name =
     (let idx = py_rfind (CHR ''.'') name in
      if idx > 0 then (take (nat idx) name, drop (nat idx) name) else (name, []))"

definition numbered :: "string \<Rightarrow> nat \<Rightarrow> string \<Rightarrow> string" where
  "numbered stem counter ext = stem @ '' ('' @ nat_str counter @ '')'' @ ext"

text \<open>The names tried in turn: the name itself, then the numbered ones.\<close>

definition candidate :: "string \<Rightarrow> nat \<Rightarrow> string" where
  "candidate name k =
     (if k = 0 then name else (case split_name name of (stem, ext) \<Rightarrow> numbered stem k ext))"

lemma split_name_append: "split_name name = (stem, ext) \<Longrightarrow> stem @ ext = name"
  by (auto simp: split_name_def Let_def split: if_splits)

lemma numbered_inject: "numbered stem i ext = numbered stem j ext \<Longrightarrow> i = j"
  by (auto simp: numbered_def dest: nat_str_inject)

lemma numbered_longer: "length (numbered stem k ext) > length (stem @ ext)"
  by (simp add: numbered_def)

interpretation file_names: name_supply "candidate name" for name
proof
  fix i j assume eq: "candidate name i = candidate name j"
  obtain stem ext where s: "split_name name = (stem, ext)" by (cases "split_name name")
  have "numbered stem k ext \<noteq> name" for k
    using numbered_longer [of stem ext k] split_name_append [OF s] by auto
  with eq s show "i = j"
    by (auto simp: candidate_def split: if_splits dest: numbered_inject)
qed

section \<open>The loop\<close>

text \<open>
  \<open>while await name_exists_in_parent(...)\<close>: the test may raise. The number bounds the iterations,
  reaching it is \<open>Diverges\<close>.
\<close>

fun first_free :: "nat \<Rightarrow> ('n \<Rightarrow> error + bool) \<Rightarrow> (nat \<Rightarrow> 'n) \<Rightarrow> nat \<Rightarrow> error + 'n" where
  "first_free 0 taken cand counter = Inl Diverges"
| "first_free (Suc n) taken cand counter =
     (case taken (cand counter) of
        Inl e \<Rightarrow> Inl e
      | Inr False \<Rightarrow> Inr (cand counter)
      | Inr True \<Rightarrow> first_free n taken cand (Suc counter))"

definition unique_name :: "string \<Rightarrow> uuid option \<Rightarrow> uuid \<Rightarrow> string M" where
  "unique_name name parent owner = liftM (\<lambda>w.
     first_free (Suc (length (items w))) (\<lambda>n. name_query w n parent owner None) (candidate name) 0)"

lemma first_free_finds:
  assumes "\<And>n. taken n = Inr (n \<in> T)" "cand k \<notin> T" "\<forall>j < k. cand j \<in> T"
  shows "i \<le> k \<Longrightarrow> k < i + n \<Longrightarrow> first_free n taken cand i = Inr (cand k)"
proof (induction n arbitrary: i)
  case (Suc n)
  show ?case
  proof (cases "i = k")
    case False
    with Suc have "i < k" by simp
    with assms(3) have "cand i \<in> T" by blast
    with Suc \<open>i < k\<close> assms(1) show ?thesis by simp
  qed (use assms in simp)
qed simp

lemma first_free_Inr: "first_free n taken cand i = Inr r \<Longrightarrow> taken r = Inr False \<and> (\<exists>k \<ge> i. r = cand k \<and> (\<forall>j. i \<le> j \<longrightarrow> j < k \<longrightarrow> taken (cand j) = Inr True))"
proof (induction n arbitrary: i)
  case (Suc n)
  show ?case
  proof (cases "taken (cand i)")
    case (Inr b)
    show ?thesis
    proof (cases b)
      case True
      with Inr Suc obtain k where k: "taken r = Inr False" "k \<ge> Suc i" "r = cand k"
          "\<forall>j. Suc i \<le> j \<longrightarrow> j < k \<longrightarrow> taken (cand j) = Inr True"
        by auto
      have "taken (cand j) = Inr True" if "i \<le> j" "j < k" for j
        using that k(4) Inr True by (cases "j = i") auto
      with k show ?thesis by (intro conjI exI [of _ k]) auto
    next
      case False
      with Inr Suc.prems show ?thesis by (intro conjI exI [of _ i]) auto
    qed
  qed (use Suc.prems in simp)
qed simp

text \<open>
  The existence query as a set of taken names; it has at most one name per row, so the bound
  of \<open>unique_name\<close> is never reached: the loop ends with the first free candidate, or with the
  exception that the query raised.
\<close>

definition taken_names :: "world \<Rightarrow> uuid option \<Rightarrow> uuid \<Rightarrow> string set" where
  "taken_names w parent owner =
     di_name ` {i \<in> set (items w). di_owner_id i = owner \<and> \<not> di_is_deleted i \<and> di_parent_id i = parent}"

lemma card_taken_names: "card (taken_names w p u) \<le> length (items w)" "finite (taken_names w p u)"
proof -
  have "card (taken_names w p u) \<le> card (set (items w))"
    unfolding taken_names_def by (rule order_trans [OF card_image_le card_mono]) auto
  then show "card (taken_names w p u) \<le> length (items w)" using card_length le_trans by blast
qed (simp add: taken_names_def)

lemma same_name_taken: "(\<exists>i \<in> set (items w). same_name n p u None i) \<longleftrightarrow> n \<in> taken_names w p u"
  by (auto simp: taken_names_def same_name_def)

lemma unique_name_finds:
  assumes "names_unique w" "pk_items (items w)"
  obtains k where "unique_name name p u w = (Inr (candidate name k), w)"
    "candidate name k \<notin> taken_names w p u" "\<forall>j < k. candidate name j \<in> taken_names w p u"
proof -
  let ?T = "taken_names w p u"
  obtain k where k: "candidate name k \<notin> ?T" "\<forall>j < k. candidate name j \<in> ?T" "k \<le> card ?T"
    by (rule file_names.least_free [OF card_taken_names(2)])
  have q: "name_query w n p u None = Inr (n \<in> ?T)" for n
    using name_query_unique [OF assms, of n p u None] by (simp add: same_name_taken)
  have "first_free (Suc (length (items w))) (\<lambda>n. name_query w n p u None) (candidate name) 0 = Inr (candidate name k)"
    by (rule first_free_finds [OF q k(1,2)]) (use k(3) card_taken_names(1) [of w p u] in linarith)+
  with k show thesis by (intro that) (simp_all add: unique_name_def)
qed

lemma unique_name_Inr:
  assumes "unique_name name p u w = (Inr n, w')"
  shows "w' = w" "n \<notin> taken_names w p u" "\<exists>k. n = candidate name k"
proof -
  from assms have f: "first_free (Suc (length (items w))) (\<lambda>n. name_query w n p u None) (candidate name) 0 = Inr n"
    and w: "w' = w" by (auto simp: unique_name_def)
  from first_free_Inr [OF f] have "name_query w n p u None = Inr False" "\<exists>k. n = candidate name k" by blast+
  then show "w' = w" "n \<notin> taken_names w p u" "\<exists>k. n = candidate name k"
    using w by (auto simp: name_query_False same_name_taken [symmetric])
qed

lemma keeps_unique_name [keeps_rules]: "keeps f (unique_name n p u)"
  by (simp add: unique_name_def keeps_lift)

section \<open>Storage keys\<close>

text \<open>\<open>f"users/{user_id}/files/{storage_uuid}/v{version_no}"\<close>\<close>

definition make_storage_key :: "uuid \<Rightarrow> uuid \<Rightarrow> nat \<Rightarrow> string" where
  "make_storage_key user_id storage_uuid version_no =
     ''users/'' @ nat_str user_id @ ''/files/'' @ nat_str storage_uuid @ ''/v'' @ nat_str version_no"

lemma nat_str_digits: "c \<in> set (nat_str n) \<Longrightarrow> \<exists>d < 10. c = char_of (48 + d :: nat)"
proof (induction n rule: nat_str.induct)
  case (1 n)
  show ?case
  proof (cases "n < 10")
    case True
    with 1(2) show ?thesis by (auto simp: nat_str.simps [of n])
  next
    case False
    with 1 show ?thesis
      by (subst (asm) (2) nat_str.simps) (auto intro: exI [of _ "n mod 10"])
  qed
qed

lemma nat_str_no_slash: "CHR ''/'' \<notin> set (nat_str n)" "CHR ''.'' \<notin> set (nat_str n)"
proof -
  have "of_char c \<noteq> (47 :: nat) \<and> of_char c \<noteq> (46 :: nat)" if "c \<in> set (nat_str n)" for c
    using nat_str_digits [OF that] of_char_digit by force
  then show "CHR ''/'' \<notin> set (nat_str n)" "CHR ''.'' \<notin> set (nat_str n)" by (force)+
qed

lemma nat_str_clean: "clean_segment (nat_str n)"
  using nat_str_no_slash [of n] by (auto simp: clean_segment_def nat_str_nonempty)

lemma storage_key_segments:
  "make_storage_key u s v = py_join ''/'' [''users'', nat_str u, ''files'', nat_str s, CHR ''v'' # nat_str v]"
  "list_all clean_segment [''users'', nat_str u, ''files'', nat_str s, CHR ''v'' # nat_str v]"
  using nat_str_no_slash [of v] nat_str_clean by (simp_all add: make_storage_key_def clean_segment_def)

lemma split_storage_key:
  "py_split (CHR ''/'') (make_storage_key u s v) = [''users'', nat_str u, ''files'', nat_str s, CHR ''v'' # nat_str v]"
  unfolding storage_key_segments(1) by (rule split_join_clean [OF _ storage_key_segments(2)]) simp

lemma resolve_storage_key [run_simps]: "resolve_path (make_storage_key u s v) = Inr (make_storage_key u s v)"
  unfolding storage_key_segments(1) by (rule resolve_join [OF _ storage_key_segments(2)]) simp

lemma storage_key_inject: "make_storage_key u s v = make_storage_key u' s' v' \<Longrightarrow> s = s'"
proof -
  assume "make_storage_key u s v = make_storage_key u' s' v'"
  then have "py_split (CHR ''/'') (make_storage_key u s v) = py_split (CHR ''/'') (make_storage_key u' s' v')" by simp
  then show "s = s'" by (simp add: split_storage_key nat_str_inject)
qed

end
