(* ===== verification/FileVersions.thy ===== *)
theory FileVersions
  imports Permissions Storage
begin

text \<open>\<open>app/file_version\<close>: the repository of file versions and the service that numbers them.\<close>

section \<open>Repository\<close>

definition versions_of :: "world \<Rightarrow> uuid \<Rightarrow> file_version list" where
  "versions_of w i = filter (\<lambda>v. fv_file_id v = i) (versions w)"

definition versions_create ::
  "uuid \<Rightarrow> int \<Rightarrow> string \<Rightarrow> int \<Rightarrow> string option \<Rightarrow> uuid \<Rightarrow> file_version M" where
  "versions_create file_id no key sz checksum by =
     bindM uuid4 (\<lambda>new_id. bindM now (\<lambda>t.
       let v = \<lparr>fv_id = new_id, fv_file_id = file_id, fv_version_no = no, fv_storage_key = key,
                fv_size_bytes = sz, fv_checksum = checksum, fv_created_by = by, fv_created_at = t\<rparr> in
       thenM (modifyM (versions_update (\<lambda>rows. rows @ [v])))
         (thenM flush_items (returnM v))))"

definition max_version_no :: "world \<Rightarrow> uuid \<Rightarrow> int" where
  "max_version_no w i = (let nos = map fv_version_no (versions_of w i) in
     if nos = [] then 0 else Max (set nos))"

definition get_max_version_no :: "uuid \<Rightarrow> int M" where
  "get_max_version_no i = getsM (\<lambda>w. max_version_no w i)"

definition list_by_file :: "uuid \<Rightarrow> file_version list M" where
  "list_by_file i = getsM (\<lambda>w. order_by DESC fv_version_no (versions_of w i))"

definition delete_by_file :: "uuid \<Rightarrow> unit M" where
  "delete_by_file i = modifyM (versions_update (row_delete (\<lambda>v. fv_file_id v = i)))"

section \<open>Service\<close>

definition create_version :: "uuid \<Rightarrow> drive_item \<Rightarrow> string \<Rightarrow> int \<Rightarrow> string option \<Rightarrow> file_version M" where
  "create_version user_id item key sz checksum =
     thenM (guardM (di_item_type item = FILE) BadOperation)
     (thenM (assert_can_edit user_id item)
     (bindM (get_max_version_no (di_id item)) (\<lambda>n.
        versions_create (di_id item) (n + 1) key sz checksum user_id)))"

definition list_versions :: "uuid \<Rightarrow> drive_item \<Rightarrow> file_version list M" where
  "list_versions user_id item =
     thenM (guardM (di_item_type item = FILE) BadOperation)
     (thenM (assert_can_view user_id item) (list_by_file (di_id item)))"

section \<open>Facts\<close>

lemma max_version_no_bound: "v \<in> set (versions_of w i) \<Longrightarrow> fv_version_no v \<le> max_version_no w i"
  by (auto simp: max_version_no_def Let_def)

lemma run_versions_create [run_simps]:
  "versions_create i n k s c u w =
    (let v = \<lparr>fv_id = uuid_next w, fv_file_id = i, fv_version_no = n, fv_storage_key = k,
              fv_size_bytes = s, fv_checksum = c, fv_created_by = u, fv_created_at = clock w\<rparr>;
         w' = versions_update (\<lambda>rows. rows @ [v]) (w\<lparr>uuid_next := Suc (uuid_next w)\<rparr>)
     in if items_ok w then (Inr v, w') else (Inl IntegrityError, w'))"
  by (simp add: versions_create_def run_simps items_ok_def Let_def)

lemma keeps_version_reads [keeps_rules]:
  "keeps f (get_max_version_no i)" "keeps f (list_by_file i)" "keeps f (list_versions u it)"
  unfolding get_max_version_no_def list_by_file_def list_versions_def by (intro keeps_rules)+

lemma keeps_version_writes [keeps_rules]:
  assumes "\<And>w n. f (w\<lparr>uuid_next := n\<rparr>) = f w" "\<And>g w. f (versions_update g w) = f w"
  shows "keeps f (versions_create i n k s c u)" "keeps f (create_version u it k s c)" "keeps f (delete_by_file i)"
  unfolding create_version_def versions_create_def delete_by_file_def Let_def
  by (intro keeps_rules keeps_modify assms)+

text \<open>The numbers of a file's versions stay distinct as versions are added through the service.\<close>

definition version_numbers_distinct :: "world \<Rightarrow> bool" where
  "version_numbers_distinct w \<longleftrightarrow> distinct (map (\<lambda>v. (fv_file_id v, fv_version_no v)) (versions w))"

lemma create_version_distinct:
  assumes "version_numbers_distinct w" "create_version u it k s c w = (Inr v, w')"
  shows "version_numbers_distinct w' \<and> fv_version_no v = max_version_no w (di_id it) + 1
    \<and> versions w' = versions w @ [v] \<and> items w' = items w"
proof -
  obtain w1 where a: "assert_can_edit u it w = (Inr (), w1)"
    and r: "versions_create (di_id it) (max_version_no w1 (di_id it) + 1) k s c u w1 = (Inr v, w')"
    using assms(2) unfolding create_version_def
    by (auto elim!: call_elims simp: get_max_version_no_def)
  have w1: "w1 = w" using keepsD [OF keeps_perm_asserts(3) [where f = "\<lambda>w. w"] a] .
  have v: "fv_file_id v = di_id it" "fv_version_no v = max_version_no w (di_id it) + 1"
    and vs: "versions w' = versions w @ [v]" "items w' = items w"
    using r by (auto simp: w1 run_versions_create Let_def split: if_splits)
  have "(di_id it, max_version_no w (di_id it) + 1) \<notin> (\<lambda>v. (fv_file_id v, fv_version_no v)) ` set (versions w)"
    using max_version_no_bound [of _ w "di_id it"] by (force simp: versions_of_def)
  with assms(1) v vs show ?thesis by (simp add: version_numbers_distinct_def)
qed

end
