(* ===== verification/Upload.thy ===== *)
theory Upload
  imports Naming FileVersions
begin

text \<open>
  \<open>app/upload/service.py\<close>: the simple upload. The stream goes to the blob store first, then the rows
  are written; if they cannot be, the blob is deleted again. The content index that may follow
  (\<open>search_indexer\<close>) is modelled in Search.
\<close>

section \<open>Recording a stored file\<close>

text \<open>
  The rows of a new file, as \<open>upload_simple\<close> and \<open>_create_item\<close> of the chunked upload write them:
  the item, its columns (sent with the next flush), version 1, and the bytes charged to the user.
\<close>

definition file_columns :: "int \<Rightarrow> string option \<Rightarrow> string \<Rightarrow> string \<Rightarrow> string \<Rightarrow> drive_item \<Rightarrow> drive_item" where
  "file_columns sz mime ext checksum key r =
     r\<lparr>di_size_bytes := sz, di_mime_type := mime,
       di_extension := (if ext = [] then None else Some (py_lstrip_char (CHR ''.'') ext)),
       di_checksum := Some checksum, di_storage_key := Some key\<rparr>"

definition record_file ::
  "uuid \<Rightarrow> uuid option \<Rightarrow> string \<Rightarrow> int \<Rightarrow> string option \<Rightarrow> string \<Rightarrow> string \<Rightarrow> string \<Rightarrow> drive_item M" where
  "record_file user_id parent name sz mime ext checksum key =
     bindM (items_create user_id parent FILE name user_id) (\<lambda>item.
     thenM (modifyM (set_item (di_id item) (file_columns sz mime ext checksum key)))
     (thenM (versions_create (di_id item) 1 key sz (Some checksum) user_id)
     (thenM (add_used_bytes user_id sz)
       (returnM (file_columns sz mime ext checksum key item)))))"

section \<open>The simple upload\<close>

definition check_upload_parent :: "uuid \<Rightarrow> uuid option \<Rightarrow> unit M" where
  "check_upload_parent user_id parent_id = (case parent_id of
       None \<Rightarrow> returnM ()
     | Some p \<Rightarrow> bindM (get_live p) (\<lambda>parent.
         thenM (guardM (di_item_type parent = FOLDER) BadOperation) (assert_can_edit user_id parent)))"

definition upload_simple ::
  "'tok crypto \<Rightarrow> uuid \<Rightarrow> uuid option \<Rightarrow> string \<Rightarrow> stream \<Rightarrow> int \<Rightarrow> string option \<Rightarrow> item_response M" where
  "upload_simple c user_id parent_id filename s size_bytes mime_type =
     bindM (liftM (\<lambda>_. safe_filename filename)) (\<lambda>filename.
     thenM (check_upload_parent user_id parent_id)
     (thenM (assert_has_space user_id size_bytes)
     (bindM (unique_name filename parent_id user_id) (\<lambda>final_name.
     bindM uuid4 (\<lambda>storage_uuid.
     let storage_key = make_storage_key user_id storage_uuid 1;
         ext = snd (split_name filename) in
     bindM (save_stream storage_key s) (\<lambda>actual_size.
     bindM (catchM
         (record_file user_id parent_id final_name (int actual_size) mime_type ext
            (blob_digest c (stream_bytes s)) storage_key)
         (\<lambda>e. thenM (storage_delete storage_key) (raiseM e))) (\<lambda>item.
       returnM (to_response item False None))))))))"

section \<open>What recording does\<close>

definition file_row :: "world \<Rightarrow> uuid \<Rightarrow> uuid option \<Rightarrow> string \<Rightarrow> int \<Rightarrow> string option \<Rightarrow> string \<Rightarrow> string \<Rightarrow> string \<Rightarrow> drive_item" where
  "file_row w user_id parent name sz mime ext checksum key =
     file_columns sz mime ext checksum key (new_item (uuid_next w) (clock w) user_id parent FILE name user_id)"

lemma file_columns_simps [simp]:
  "di_id (file_columns sz m e c k r) = di_id r" "di_owner_id (file_columns sz m e c k r) = di_owner_id r"
  "di_parent_id (file_columns sz m e c k r) = di_parent_id r" "di_name (file_columns sz m e c k r) = di_name r"
  "di_item_type (file_columns sz m e c k r) = di_item_type r"
  "di_is_deleted (file_columns sz m e c k r) = di_is_deleted r"
  "di_size_bytes (file_columns sz m e c k r) = sz" "di_storage_key (file_columns sz m e c k r) = Some k"
  "di_checksum (file_columns sz m e c k r) = Some c"
  by (simp_all add: file_columns_def)

lemma row_update_new:
  "k \<notin> key ` set rows \<Longrightarrow> key r = k \<Longrightarrow> row_update key k f (rows @ [r]) = rows @ [f r]"
  by (induction rows) (auto simp: row_update_def)

lemma record_file_InrE:
  assumes w: "forest w" and r: "record_file u p name sz mime ext ck key w = (Inr item, w')"
  obtains v where "item = file_row w u p name sz mime ext ck key" "items w' = items w @ [item]"
    "versions w' = versions w @ [v]" "fv_file_id v = di_id item" "fv_storage_key v = key"
    "fv_size_bytes v = sz" "fv_version_no v = 1" "fv_checksum v = Some ck"
    "blobs w' = blobs w" "uuid_next w < uuid_next w'" "items_ok w'" "db_lower w' = db_lower w"
    "users_ok w \<Longrightarrow> \<forall>j. used_of w' j = (if j = u then map_option (\<lambda>b. b + sz) (used_of w j) else used_of w j)"
    "0 \<le> sz"
proof -
  obtain it w1 v w2 where c: "items_create u p FILE name u w = (Inr it, w1)"
    and v: "versions_create (di_id it) 1 key sz (Some ck) u (set_item (di_id it) (file_columns sz mime ext ck key) w1) = (Inr v, w2)"
    and q: "add_used_bytes u sz w2 = (Inr (), w')" and item: "item = file_columns sz mime ext ck key it"
    using r unfolding record_file_def by (auto elim!: bind_InrE then_InrE)
  from items_create_InrE [OF c] have it: "it = new_item (uuid_next w) (clock w) u p FILE name u"
    and w1: "w1 = items_update (\<lambda>rows. rows @ [it]) (w\<lparr>uuid_next := Suc (uuid_next w)\<rparr>)" "items_ok w1"
    by metis+
  have sz: "0 \<le> sz" using q by (auto simp: add_used_bytes_def run_simps split: if_splits)
  have fresh: "uuid_next w \<notin> di_id ` set (items w)" using w by (auto simp: forest_def ids_issued_def item_ids_def)
  have rows: "items (set_item (di_id it) (file_columns sz mime ext ck key) w1) = items w @ [item]"
    using row_update_new [of "uuid_next w" di_id "items w" it] fresh by (simp add: items_set_item w1 it item)
  have v2: "fv_file_id v = di_id item" "fv_storage_key v = key" "fv_size_bytes v = sz" "fv_version_no v = 1"
      "fv_checksum v = Some ck" "versions w2 = versions w @ [v]" "items w2 = items w @ [item]" "blobs w2 = blobs w"
      "uuid_next w2 = Suc (Suc (uuid_next w))" "users w2 = users w" "db_lower w2 = db_lower w" "items_ok w2"
    using v rows by (auto simp: run_versions_create Let_def w1 item set_item_def items_ok_def split: if_splits)
  have frame: "items w' = items w2" "versions w' = versions w2" "blobs w' = blobs w2" "uuid_next w' = uuid_next w2" "db_lower w' = db_lower w2"
    by (rule keepsD [OF keeps_user_writes(2) q]; simp)+
  have used: "\<forall>j. used_of w' j = (if j = u then map_option (\<lambda>b. b + sz) (used_of w j) else used_of w j)" if "users_ok w"
  proof -
    have "users_ok w2" using that v2 by (simp add: users_ok_def)
    with q sz have "w' = ledger_inc u sz w2" by (simp add: run_add_used_bytes)
    moreover have "used_of w2 = used_of w" using v2 by (simp add: used_of_def find_user_def fun_eq_iff)
    ultimately show ?thesis by (simp add: quota.balance_inc)
  qed
  show thesis
    by (rule that [of v])
      (use v2 frame it used sz in \<open>simp_all add: item file_row_def items_ok_def\<close>)
qed

lemma keeps_record_file [keeps_rules]: "keeps blobs (record_file u p name sz mime ext ck key)"
  unfolding record_file_def items_create_def Let_def
  by (intro keeps_rules keeps_modify; simp add: set_item_def)+

lemma keeps_check_upload_parent [keeps_rules]: "keeps f (check_upload_parent u p)"
  unfolding check_upload_parent_def by (intro keeps_rules)+

section \<open>What an upload does\<close>

text \<open>Blob keys that the supply has not handed out yet are not in use.\<close>

definition blob_keys_issued :: "world \<Rightarrow> bool" where
  "blob_keys_issued w \<longleftrightarrow> (\<forall>u k. uuid_next w \<le> k \<longrightarrow> blob_get w (make_storage_key u k 1) = None)"

lemma forest_record_file:
  assumes "forest w" "record_file u p name sz mime ext ck key w = (Inr item, w')"
    and "\<And>q. p = Some q \<Longrightarrow> \<exists>f. find_item w q = Some f \<and> di_item_type f = FOLDER"
  shows "forest w'"
  by (rule record_file_InrE [OF assms(1,2)])
    (rule forest_add_item [OF assms(1), of "file_row w u p name sz mime ext ck key"], auto simp: file_row_def assms(3))

lemma check_upload_parent_InrE:
  assumes "check_upload_parent u p w = (Inr x, w')"
  obtains "w' = w" "\<And>q. p = Some q \<Longrightarrow> \<exists>f. find_item w q = Some f \<and> \<not> di_is_deleted f \<and> di_item_type f = FOLDER
    \<and> assert_can_edit u f w = (Inr (), w)"
proof -
  have w: "w' = w" using same_world [OF keeps_check_upload_parent assms] .
  have "\<exists>f. find_item w q = Some f \<and> \<not> di_is_deleted f \<and> di_item_type f = FOLDER \<and> assert_can_edit u f w = (Inr (), w)"
    if "p = Some q" for q
    using assms that unfolding check_upload_parent_def w
    by (auto elim!: bind_InrE then_InrE guard_InrE get_live_InrE)
  with w show thesis by (rule that)
qed

text \<open>The part of the upload after the checks, from the fresh key on.\<close>

definition store_and_record ::
  "'tok crypto \<Rightarrow> uuid \<Rightarrow> uuid option \<Rightarrow> string \<Rightarrow> string \<Rightarrow> stream \<Rightarrow> string option \<Rightarrow> string \<Rightarrow> item_response M" where
  "store_and_record c user_id parent_id name ext s mime_type storage_key =
     bindM (save_stream storage_key s) (\<lambda>actual_size.
     bindM (catchM
         (record_file user_id parent_id name (int actual_size) mime_type ext
            (blob_digest c (stream_bytes s)) storage_key)
         (\<lambda>e. thenM (storage_delete storage_key) (raiseM e))) (\<lambda>item.
       returnM (to_response item False None)))"

lemma upload_checks_keep:
  "snd (check_upload_parent u p w) = w" "snd (assert_has_space u n w) = w" "snd (unique_name fn p u w) = w"
  by (rule keeps_snd [where f = "\<lambda>w. w"], intro keeps_rules)+

lemma upload_simple_split:
  "upload_simple c u p fn s n mime w =
    (case safe_filename fn of
       Inl e \<Rightarrow> (Inl e, w)
     | Inr fn \<Rightarrow>
       (case fst (check_upload_parent u p w) of
          Inl e \<Rightarrow> (Inl e, w)
        | Inr _ \<Rightarrow>
          (case fst (assert_has_space u n w) of
             Inl e \<Rightarrow> (Inl e, w)
           | Inr _ \<Rightarrow>
             (case fst (unique_name fn p u w) of
                Inl e \<Rightarrow> (Inl e, w)
              | Inr name \<Rightarrow>
                  store_and_record c u p name (snd (split_name fn)) s mime
                    (make_storage_key u (uuid_next w) 1) (w\<lparr>uuid_next := Suc (uuid_next w)\<rparr>)))))"
proof -
  obtain r1 where r1: "check_upload_parent u p w = (r1, w)" by (metis prod.collapse upload_checks_keep(1))
  obtain r2 where r2: "assert_has_space u n w = (r2, w)" by (metis prod.collapse upload_checks_keep(2))
  define r3 where "r3 fn = fst (unique_name fn p u w)" for fn
  have r3: "unique_name fn p u w = (r3 fn, w)" for fn
    by (metis prod.collapse upload_checks_keep(3) r3_def)
  show ?thesis
    by (simp add: upload_simple_def store_and_record_def run_bind run_then Let_def r1 r2 r3 split: sum.splits)
qed

text \<open>An upload that raises leaves every blob as it was.\<close>

lemma store_and_record_error:
  assumes "blob_get w (make_storage_key u k 1) = None"
    and "store_and_record c u p name ext s mime (make_storage_key u k 1) w = (Inl e, w')"
  shows "blob_get w' j = blob_get w j"
proof (cases "snd s")
  case (Some e)
  with assms show ?thesis by (simp add: store_and_record_def run_simps)
next
  case None
  let ?key = "make_storage_key u k 1"
  let ?v = "blob_put ?key (stream_bytes s) w"
  obtain e' w2 where r: "record_file u p name (int (length (stream_bytes s))) mime ext (blob_digest c (stream_bytes s)) ?key ?v = (Inl e', w2)"
    and w': "w' = blob_remove ?key w2"
    using assms(2) None by (auto simp: store_and_record_def run_simps split: sum.splits prod.splits)
  have "blobs w2 = blobs ?v" using keepsD [OF keeps_record_file r] .
  then have "blob_get w2 j = blob_get ?v j" by (simp add: blob_get_def)
  with assms(1) show ?thesis unfolding w' by (simp add: local_store.content_drop local_store.content_put)
qed

lemma upload_simple_error:
  assumes "blob_keys_issued w" "upload_simple c u p fn s n mime w = (Inl e, w')"
  shows "blob_get w' j = blob_get w j"
proof -
  have none: "blob_get (w\<lparr>uuid_next := m\<rparr>) (make_storage_key u (uuid_next w) 1) = None" for m
    using assms(1) by (simp add: blob_keys_issued_def blob_get_def)
  have same: "blob_get (w\<lparr>uuid_next := m\<rparr>) j = blob_get w j" for m by (simp add: blob_get_def)
  show ?thesis
    using assms(2) store_and_record_error [OF none, where j = j and s = s] unfolding upload_simple_split
    by (auto split: sum.splits simp: same)
qed

text \<open>An upload that returns has stored the stream and written the rows that describe it.\<close>

lemma upload_simple_InrE:
  assumes w: "forest w" and u: "upload_simple c u p fn s n mime w = (Inr r, w')"
  obtains name item v key k where
    "safe_filename fn = Inr name" "key = make_storage_key u (uuid_next w) 1"
    "item = file_row (w\<lparr>uuid_next := Suc (uuid_next w)\<rparr>) u p (candidate name k) (int (length (stream_bytes s))) mime
      (snd (split_name name)) (blob_digest c (stream_bytes s)) key"
    "candidate name k \<notin> taken_names w p u" "r = to_response item False None" "snd s = None"
    "items w' = items w @ [item]" "versions w' = versions w @ [v]" "fv_file_id v = di_id item"
    "fv_storage_key v = key" "fv_size_bytes v = int (length (stream_bytes s))"
    "\<forall>j. blob_get w' j = (if j = key then Some (stream_bytes s) else blob_get w j)"
    "users_ok w \<Longrightarrow> \<forall>j. used_of w' j =
      (if j = u then map_option (\<lambda>b. b + int (length (stream_bytes s))) (used_of w j) else used_of w j)"
    "\<exists>x. find_user w u = Some x \<and> u_used_bytes x + n \<le> u_quota_bytes x" "forest w'" "items_ok w'"
proof -
  let ?key = "make_storage_key u (uuid_next w) 1"
  let ?w1 = "w\<lparr>uuid_next := Suc (uuid_next w)\<rparr>"
  let ?v = "blob_put ?key (stream_bytes s) ?w1"
  obtain name final where name: "safe_filename fn = Inr name"
    and p: "check_upload_parent u p w = (Inr (), w)" and space: "assert_has_space u n w = (Inr (), w)"
    and un: "unique_name name p u w = (Inr final, w)"
    and st: "store_and_record c u p final (snd (split_name name)) s mime ?key ?w1 = (Inr r, w')"
    using u unfolding upload_simple_split
    using upload_checks_keep(1) [of u p w] upload_checks_keep(2) [of u n w] upload_checks_keep(3) [of _ p u w]
    by (auto split: sum.splits) (metis prod.collapse old.unit.exhaust)
  obtain k where k: "final = candidate name k" "candidate name k \<notin> taken_names w p u"
    using unique_name_Inr [OF un] by blast
  obtain x where x: "find_user w u = Some x" "u_used_bytes x + n \<le> u_quota_bytes x"
    using space by (auto simp: run_assert_has_space split: option.splits if_splits)
  have s: "snd s = None" using st by (auto simp: store_and_record_def run_simps split: option.splits)
  then obtain item where rec: "record_file u p final (int (length (stream_bytes s))) mime (snd (split_name name))
      (blob_digest c (stream_bytes s)) ?key ?v = (Inr item, w')" and r: "r = to_response item False None"
    using st by (auto simp: store_and_record_def run_simps split: sum.splits prod.splits)
  have same: "items ?v = items w" "versions ?v = versions w" "users ?v = users w" "uuid_next ?v = Suc (uuid_next w)" "clock ?v = clock w"
    by (simp_all add: keeps_put_blob)
  have fv: "forest ?v" using forest_cong [of ?v w] w same by simp
  have par: "\<exists>f. find_item ?v q = Some f \<and> di_item_type f = FOLDER" if "p = Some q" for q
    using p that same by (auto elim!: check_upload_parent_InrE simp: find_item_def)
  have f': "forest w'" by (rule forest_record_file [OF fv rec par])
  show thesis
  proof (rule record_file_InrE [OF fv rec])
    fix v assume v: "item = file_row ?v u p final (int (length (stream_bytes s))) mime (snd (split_name name)) (blob_digest c (stream_bytes s)) ?key"
      "items w' = items ?v @ [item]" "versions w' = versions ?v @ [v]" "fv_file_id v = di_id item"
      "fv_storage_key v = ?key" "fv_size_bytes v = int (length (stream_bytes s))" "blobs w' = blobs ?v" "items_ok w'"
      and used: "users_ok ?v \<Longrightarrow> \<forall>j. used_of w' j =
        (if j = u then map_option (\<lambda>b. b + int (length (stream_bytes s))) (used_of ?v j) else used_of ?v j)"
    have blob: "\<forall>j. blob_get w' j = (if j = ?key then Some (stream_bytes s) else blob_get w j)"
      using v(7) local_store.content_put [of ?key "stream_bytes s" ?w1] by (simp add: blob_get_def)
    have item: "item = file_row ?w1 u p (candidate name k) (int (length (stream_bytes s))) mime
      (snd (split_name name)) (blob_digest c (stream_bytes s)) ?key"
      using v(1) k(1) same by (simp add: file_row_def)
    have used': "\<forall>j. used_of w' j = (if j = u then map_option (\<lambda>b. b + int (length (stream_bytes s))) (used_of w j) else used_of w j)" if "users_ok w"
      using that used same by (simp add: users_ok_def used_of_def find_user_def)
    show thesis
      by (rule that [OF name refl item k(2) r s]) (use v same blob used' x f' in auto)
  qed
qed

end
