(* ===== verification/UploadSessions.thy ===== *)
theory UploadSessions
  imports Upload Samples
begin

text \<open>
  \<open>app/upload/session_repository.py\<close>, \<open>session_service.py\<close> and the cleanup pass of \<open>scheduler.py\<close>: the chunked
  upload that survives a closed browser. A session row counts the chunks it expects; a chunk is a
  blob under the prefix \<open>uploads/\<close> and a row; completing joins the chunks into one blob and
  records the file.
\<close>

section \<open>Repository\<close>

fun active_status :: "upload_status \<Rightarrow> bool" where
  "active_status PENDING = True"
| "active_status UPLOADING = True"
| "active_status COMPLETED = False"
| "active_status FAILED = False"
| "active_status CANCELLED = False"

definition sessions_create ::
  "uuid \<Rightarrow> uuid option \<Rightarrow> string \<Rightarrow> string option \<Rightarrow> int \<Rightarrow> int \<Rightarrow> int \<Rightarrow> time \<Rightarrow> time \<Rightarrow> upload_session M" where
  "sessions_create user_id parent_id filename mime_type total_size chunk_size total_chunks expires_at t =
     bindM uuid4 (\<lambda>new_id.
       let s = \<lparr>us_id = new_id, us_user_id = user_id, us_parent_id = parent_id, us_filename = filename,
                us_mime_type = mime_type, us_total_size = total_size, us_chunk_size = chunk_size,
                us_total_chunks = total_chunks, us_status = PENDING, us_checksum = None,
                us_drive_item_id = None, us_error_code = None, us_created_at = t, us_updated_at = t,
                us_expires_at = expires_at\<rparr> in
       thenM (modifyM (sessions_update (\<lambda>rows. rows @ [s]))) (returnM s))"

definition find_session :: "world \<Rightarrow> uuid \<Rightarrow> upload_session option" where
  "find_session w i = row_get us_id i (sessions w)"

definition get_for_user :: "uuid \<Rightarrow> uuid \<Rightarrow> upload_session option M" where
  "get_for_user session_id user_id = getsM (\<lambda>w. case find_session w session_id of
       None \<Rightarrow> None | Some s \<Rightarrow> if us_user_id s = user_id then Some s else None)"

definition chunk_rows :: "world \<Rightarrow> uuid \<Rightarrow> upload_chunk list" where
  "chunk_rows w session_id = filter (\<lambda>c. uc_session_id c = session_id) (chunks w)"

definition list_chunks :: "uuid \<Rightarrow> upload_chunk list M" where
  "list_chunks session_id = getsM (\<lambda>w. order_by ASC uc_chunk_index (chunk_rows w session_id))"

definition list_completed_indexes :: "uuid \<Rightarrow> int list M" where
  "list_completed_indexes session_id = getsM (\<lambda>w.
     map uc_chunk_index (order_by ASC uc_chunk_index (chunk_rows w session_id)))"

definition is_chunk :: "uuid \<Rightarrow> int \<Rightarrow> upload_chunk \<Rightarrow> bool" where
  "is_chunk session_id chunk_index c = (uc_session_id c = session_id \<and> uc_chunk_index c = chunk_index)"

definition upsert_chunk :: "uuid \<Rightarrow> int \<Rightarrow> int \<Rightarrow> string \<Rightarrow> string option \<Rightarrow> time \<Rightarrow> unit M" where
  "upsert_chunk session_id chunk_index sz storage_key checksum t =
     bindM uuid4 (\<lambda>new_id. modifyM (chunks_update (\<lambda>rows.
       if list_ex (is_chunk session_id chunk_index) rows
       then map (\<lambda>c. if is_chunk session_id chunk_index c
              then c\<lparr>uc_size := sz, uc_storage_key := storage_key, uc_checksum := checksum, uc_created_at := t\<rparr>
              else c) rows
       else rows @ [\<lparr>uc_id = new_id, uc_session_id = session_id, uc_chunk_index = chunk_index, uc_size = sz,
              uc_checksum = checksum, uc_storage_key = storage_key, uc_created_at = t\<rparr>])))"

definition status_columns ::
  "upload_status \<Rightarrow> time \<Rightarrow> string option \<Rightarrow> uuid option \<Rightarrow> upload_session \<Rightarrow> upload_session" where
  "status_columns status t checksum drive_item_id s =
     s\<lparr>us_status := status, us_updated_at := t,
       us_checksum := (case checksum of None \<Rightarrow> us_checksum s | Some c \<Rightarrow> Some c),
       us_drive_item_id := (case drive_item_id of None \<Rightarrow> us_drive_item_id s | Some i \<Rightarrow> Some i)\<rparr>"

definition update_status :: "uuid \<Rightarrow> upload_status \<Rightarrow> time \<Rightarrow> string option \<Rightarrow> uuid option \<Rightarrow> unit M" where
  "update_status session_id status t checksum drive_item_id =
     modifyM (sessions_update (row_update us_id session_id (status_columns status t checksum drive_item_id)))"

definition active_total :: "world \<Rightarrow> uuid \<Rightarrow> int" where
  "active_total w user_id = sum_list (map us_total_size
     (filter (\<lambda>s. us_user_id s = user_id \<and> active_status (us_status s)) (sessions w)))"

definition sum_active_total_size :: "uuid \<Rightarrow> int M" where
  "sum_active_total_size user_id = getsM (\<lambda>w. active_total w user_id)"

definition list_expired :: "time \<Rightarrow> upload_session list M" where
  "list_expired t = getsM (\<lambda>w. filter (\<lambda>s. us_expires_at s < t \<and> active_status (us_status s)) (sessions w))"

definition delete_chunks :: "uuid \<Rightarrow> unit M" where
  "delete_chunks session_id = modifyM (chunks_update (row_delete (\<lambda>c. uc_session_id c = session_id)))"

text \<open>Deleting a session deletes its chunk rows (ON DELETE CASCADE).\<close>

definition delete_session :: "uuid \<Rightarrow> unit M" where
  "delete_session session_id = modifyM (\<lambda>w.
     chunks_update (row_delete (\<lambda>c. uc_session_id c = session_id))
       (sessions_update (row_delete (\<lambda>s. us_id s = session_id)) w))"

section \<open>Service\<close>

definition terminal_status :: "upload_status \<Rightarrow> bool" where
  "terminal_status s = (s = COMPLETED \<or> s = FAILED \<or> s = CANCELLED)"

definition chunk_key :: "uuid \<Rightarrow> uuid \<Rightarrow> int \<Rightarrow> string" where
  "chunk_key user_id session_id chunk_index =
     UPLOAD_TEMP_PREFIX @ ''/'' @ nat_str user_id @ ''/'' @ nat_str session_id @ ''/'' @ nat_str (nat chunk_index)"

definition get_or_404 :: "uuid \<Rightarrow> uuid \<Rightarrow> upload_session M" where
  "get_or_404 user_id session_id = bindM (get_for_user session_id user_id)
     (\<lambda>s. case s of None \<Rightarrow> raiseM NotFoundError | Some s \<Rightarrow> returnM s)"

record session_status =
  ssn_session :: upload_session
  ssn_uploaded :: "int list"

definition create_session ::
  "settings \<Rightarrow> uuid \<Rightarrow> string \<Rightarrow> int \<Rightarrow> uuid option \<Rightarrow> string option \<Rightarrow> session_status M" where
  "create_session cfg user_id filename total_size parent_id mime_type =
     bindM (liftM (\<lambda>_. safe_filename filename)) (\<lambda>filename.
     thenM (guardM (\<not> total_size > max_chunked_upload_size_bytes cfg) FileTooLargeError)
     (thenM (check_upload_parent user_id parent_id)
     (bindM (sum_active_total_size user_id) (\<lambda>reserved.
     thenM (assert_has_space user_id (total_size + reserved))
     (bindM now (\<lambda>t.
     let total_chunks = - ((- total_size) div upload_chunk_size_bytes cfg) in
     bindM (sessions_create user_id parent_id filename mime_type total_size (upload_chunk_size_bytes cfg)
         total_chunks (t + days (upload_session_retention_days cfg)) t) (\<lambda>s.
       returnM \<lparr>ssn_session = s, ssn_uploaded = []\<rparr>)))))))"

definition get_session :: "uuid \<Rightarrow> uuid \<Rightarrow> session_status M" where
  "get_session user_id session_id =
     bindM (get_or_404 user_id session_id) (\<lambda>s.
     bindM (list_completed_indexes (us_id s)) (\<lambda>indexes.
       returnM \<lparr>ssn_session = s, ssn_uploaded = indexes\<rparr>))"

definition upload_chunk ::
  "'tok crypto \<Rightarrow> uuid \<Rightarrow> uuid \<Rightarrow> int \<Rightarrow> stream \<Rightarrow> unit M" where
  "upload_chunk c user_id session_id chunk_index s =
     bindM (get_or_404 user_id session_id) (\<lambda>session.
     thenM (guardM (\<not> terminal_status (us_status session)) InvalidOperationError)
     (thenM (guardM (\<not> (chunk_index < 0 \<or> chunk_index \<ge> us_total_chunks session)) InvalidOperationError)
     (let key = chunk_key user_id (us_id session) chunk_index in
     bindM (save_stream key s) (\<lambda>sz.
     bindM now (\<lambda>t.
     thenM (upsert_chunk (us_id session) chunk_index (int sz) key (Some (blob_digest c (stream_bytes s))) t)
       (whenM (us_status session = PENDING) (update_status (us_id session) UPLOADING t None None)))))))"

definition discard_chunks :: "upload_chunk list \<Rightarrow> unit M" where
  "discard_chunks cs = (case cs of
       [] \<Rightarrow> returnM ()
     | c # _ \<Rightarrow> thenM (forM cs (\<lambda>c. storage_delete (uc_storage_key c))) (delete_chunks (uc_session_id c)))"

definition checksum_of :: "'tok crypto \<Rightarrow> string \<Rightarrow> string M" where
  "checksum_of c storage_key =
     bindM (open_read storage_key) (\<lambda>cs. returnM (blob_digest c (concat cs)))"

definition session_create_item ::
  "upload_session \<Rightarrow> uuid \<Rightarrow> string \<Rightarrow> int \<Rightarrow> string \<Rightarrow> drive_item M" where
  "session_create_item session user_id storage_key actual_size checksum =
     bindM (unique_name (us_filename session) (us_parent_id session) user_id) (\<lambda>final_name.
       record_file user_id (us_parent_id session) final_name actual_size (us_mime_type session)
         (snd (split_name (us_filename session))) checksum storage_key)"

definition missing_chunks :: "int \<Rightarrow> upload_chunk list \<Rightarrow> int list" where
  "missing_chunks total_chunks cs =
     filter (\<lambda>i. i \<notin> set (map uc_chunk_index cs)) (map int [0..<nat total_chunks])"

definition complete_session :: "'tok crypto \<Rightarrow> uuid \<Rightarrow> uuid \<Rightarrow> item_response M" where
  "complete_session c user_id session_id =
     bindM (get_or_404 user_id session_id) (\<lambda>session.
     thenM (guardM (\<not> terminal_status (us_status session)) InvalidOperationError)
     (bindM (list_chunks (us_id session)) (\<lambda>cs.
     thenM (guardM (missing_chunks (us_total_chunks session) cs = []) InvalidOperationError)
     (let ordered = sort_key uc_chunk_index cs in
     bindM uuid4 (\<lambda>storage_uuid.
     let storage_key = make_storage_key user_id storage_uuid 1 in
     bindM (storage_concat (map uc_storage_key ordered) storage_key) (\<lambda>actual_size.
     bindM (catchM
         (bindM (checksum_of c storage_key) (\<lambda>checksum.
          bindM (session_create_item session user_id storage_key (int actual_size) checksum) (\<lambda>item.
            returnM (item, checksum))))
         (\<lambda>e. thenM (storage_delete storage_key) (raiseM e))) (\<lambda>(item, checksum).
     thenM (discard_chunks ordered)
     (bindM now (\<lambda>t.
     thenM (update_status (us_id session) COMPLETED t (Some checksum) (Some (di_id item)))
     (thenM (log_activity user_id UPLOAD (Some (di_id item)))
       (returnM (to_response item False None))))))))))))"

definition cancel_session :: "uuid \<Rightarrow> uuid \<Rightarrow> unit M" where
  "cancel_session user_id session_id =
     bindM (get_or_404 user_id session_id) (\<lambda>session.
     thenM (guardM (us_status session \<noteq> COMPLETED) InvalidOperationError)
     (if us_status session = CANCELLED then returnM ()
      else bindM (list_chunks (us_id session)) (\<lambda>cs.
        thenM (discard_chunks cs)
        (bindM now (\<lambda>t. update_status (us_id session) CANCELLED t None None)))))"

definition cleanup_expired :: "nat M" where
  "cleanup_expired =
     bindM now (\<lambda>t. bindM (list_expired t) (\<lambda>expired.
     thenM (forM expired (\<lambda>s.
         bindM (list_chunks (us_id s)) (\<lambda>cs.
         thenM (discard_chunks cs) (delete_session (us_id s)))))
       (returnM (length expired))))"

text \<open>\<open>run_once\<close> of the scheduler: its own transaction, and an exception is logged away.\<close>

definition cleanup_run_once :: "nat M" where
  "cleanup_run_once = catchM (transact cleanup_expired) (\<lambda>_. returnM 0)"

end
