(* ===== verification/UploadSessionFacts.thy ===== *)
theory UploadSessionFacts
  imports UploadSessions "HOL-Library.Multiset"
begin

text \<open>
  What the operations on upload sessions do: the rows of chunks stay unique per index, a completed
  session's file is the concatenation of its chunks, quota reservations add up, and the status
  of a session moves along one step relation.
\<close>

section \<open>Chunk keys\<close>

lemma chunk_key_segments:
  "chunk_key u s i = py_join ''/'' [''uploads'', nat_str u, nat_str s, nat_str (nat i)]"
  "list_all clean_segment [''uploads'', nat_str u, nat_str s, nat_str (nat i)]"
  using nat_str_clean by (simp_all add: chunk_key_def UPLOAD_TEMP_PREFIX_def) (simp add: clean_segment_def)

lemma split_chunk_key: "py_split (CHR ''/'') (chunk_key u s i) = [''uploads'', nat_str u, nat_str s, nat_str (nat i)]"
  unfolding chunk_key_segments(1) by (rule split_join_clean [OF _ chunk_key_segments(2)]) simp

lemma resolve_chunk_key [run_simps]: "resolve_path (chunk_key u s i) = Inr (chunk_key u s i)"
  unfolding chunk_key_segments(1) by (rule resolve_join [OF _ chunk_key_segments(2)]) simp

lemma chunk_key_inject: "chunk_key u s i = chunk_key u' s' j \<Longrightarrow> u = u' \<and> s = s' \<and> nat i = nat j"
proof -
  assume "chunk_key u s i = chunk_key u' s' j"
  then have "py_split (CHR ''/'') (chunk_key u s i) = py_split (CHR ''/'') (chunk_key u' s' j)" by simp
  then show ?thesis by (auto simp: split_chunk_key dest: nat_str_inject)
qed

lemma chunk_key_not_storage_key: "chunk_key u s i \<noteq> make_storage_key u' k v"
proof
  assume "chunk_key u s i = make_storage_key u' k v"
  then have "py_split (CHR ''/'') (chunk_key u s i) = py_split (CHR ''/'') (make_storage_key u' k v)" by simp
  then show False by (simp add: split_chunk_key split_storage_key)
qed

section \<open>The chunk table\<close>

definition chunks_unique :: "world \<Rightarrow> bool" where
  "chunks_unique w = distinct (map (\<lambda>c. (uc_session_id c, uc_chunk_index c)) (chunks w))"

lemma upsert_chunk_unique:
  assumes "chunks_unique w" "upsert_chunk sid i sz key ck t w = (r, w')"
  shows "chunks_unique w'"
proof -
  let ?p = "\<lambda>c. (uc_session_id c, uc_chunk_index c)"
  let ?g = "\<lambda>c. if is_chunk sid i c then c\<lparr>uc_size := sz, uc_storage_key := key, uc_checksum := ck, uc_created_at := t\<rparr> else c"
  have w': "w' = chunks_update (\<lambda>rows. if list_ex (is_chunk sid i) rows then map ?g rows
      else rows @ [\<lparr>uc_id = uuid_next w, uc_session_id = sid, uc_chunk_index = i, uc_size = sz,
              uc_checksum = ck, uc_storage_key = key, uc_created_at = t\<rparr>]) (w\<lparr>uuid_next := Suc (uuid_next w)\<rparr>)"
    using assms(2) by (simp add: upsert_chunk_def run_simps)
  show ?thesis
  proof (cases "list_ex (is_chunk sid i) (chunks w)")
    case True
    have "map ?p (map ?g (chunks w)) = map ?p (chunks w)" by simp
    then have "distinct (map ?p (map ?g (chunks w)))" using assms(1) by (simp only: chunks_unique_def)
    moreover have "chunks w' = map ?g (chunks w)" using True by (simp add: w')
    ultimately show ?thesis by (simp only: chunks_unique_def)
  next
    case False
    then have "(sid, i) \<notin> ?p ` set (chunks w)" by (auto simp: list_ex_iff is_chunk_def)
    with False assms(1) show ?thesis by (simp add: chunks_unique_def w')
  qed
qed

lemma distinct_indexes: "chunks_unique w \<Longrightarrow> distinct (map uc_chunk_index (chunk_rows w i))"
proof -
  assume "chunks_unique w"
  then have "distinct (map (\<lambda>c. (uc_session_id c, uc_chunk_index c)) (chunk_rows w i))"
    by (simp add: chunks_unique_def chunk_rows_def distinct_map_filter)
  then have d: "distinct (chunk_rows w i)" "inj_on (\<lambda>c. (uc_session_id c, uc_chunk_index c)) (set (chunk_rows w i))"
    by (simp_all add: distinct_map)
  have "inj_on uc_chunk_index (set (chunk_rows w i))"
  proof (rule inj_onI)
    fix a b assume ab: "a \<in> set (chunk_rows w i)" "b \<in> set (chunk_rows w i)" "uc_chunk_index a = uc_chunk_index b"
    then have "uc_session_id a = uc_session_id b" by (simp add: chunk_rows_def)
    with ab d(2) show "a = b" by (auto dest: inj_onD)
  qed
  with d(1) show ?thesis by (simp add: distinct_map)
qed

text \<open>Chunks in order: what \<open>complete_session\<close> sorts are the indexes \<open>0, 1, ..., total - 1\<close>, each once.\<close>

lemma complete_indexes:
  assumes "distinct (map uc_chunk_index cs)" "missing_chunks n cs = []"
    and "\<forall>c \<in> set cs. 0 \<le> uc_chunk_index c \<and> uc_chunk_index c < n"
  shows "map uc_chunk_index (sort_key uc_chunk_index cs) = map int [0..<nat n]"
proof (rule sorted_distinct_set_unique)
  show "sorted (map uc_chunk_index (sort_key uc_chunk_index cs))" by simp
  have "mset (map uc_chunk_index (sort_key uc_chunk_index cs)) = mset (map uc_chunk_index cs)" by simp
  then show "distinct (map uc_chunk_index (sort_key uc_chunk_index cs))"
    using assms(1) by (metis mset_eq_imp_distinct_iff)
  show "sorted (map int [0..<nat n])" by (simp add: sorted_iff_nth_mono)
  show "distinct (map int [0..<nat n])" by (simp add: distinct_map inj_on_def)
  have "set (map int [0..<nat n]) \<subseteq> uc_chunk_index ` set cs"
    using assms(2) by (auto simp: missing_chunks_def filter_empty_conv)
  moreover have "i \<in> set (map int [0..<nat n])" if "0 \<le> i" "i < n" for i
    using that by (simp add: image_iff) (metis atLeastLessThan_iff int_nat_eq le0 nat_mono_iff not_less order.strict_trans1 zless_nat_eq_int_zless)
  ultimately show "set (map uc_chunk_index (sort_key uc_chunk_index cs)) = set (map int [0..<nat n])"
    using assms(3) by auto
qed

section \<open>Discarding\<close>

lemma run_delete_keys:
  assumes "\<forall>c \<in> set cs. resolve_path (uc_storage_key c) = Inr (uc_storage_key c)"
  shows "forM cs (\<lambda>c. storage_delete (uc_storage_key c)) w = (Inr (), fold blob_remove (map uc_storage_key cs) w)"
  using assms by (induction cs arbitrary: w) (simp_all add: run_then run_storage_delete)

lemma keeps_fold_remove:
  assumes "\<And>g w. f (blobs_update g w) = f w"
  shows "f (fold blob_remove ks w) = f w"
  by (induction ks arbitrary: w) (simp_all add: keeps_put_blob [OF assms])

lemma run_discard_chunks:
  assumes "\<forall>c \<in> set cs. resolve_path (uc_storage_key c) = Inr (uc_storage_key c)"
    and "\<forall>c \<in> set cs. uc_session_id c = sid"
    and "cs = [] \<Longrightarrow> chunk_rows w sid = []"
  shows "discard_chunks cs w =
    (Inr (), chunks_update (row_delete (\<lambda>c. uc_session_id c = sid)) (fold blob_remove (map uc_storage_key cs) w))"
proof (cases cs)
  case Nil
  have "row_delete (\<lambda>c. uc_session_id c = sid) (chunks w) = chunks w"
    using assms(3) [OF Nil] by (auto simp: chunk_rows_def row_delete_def filter_empty_conv filter_id_conv)
  then show ?thesis by (simp add: Nil discard_chunks_def)
next
  case (Cons c rest)
  then have "uc_session_id c = sid" using assms(2) by simp
  then show ?thesis
    using run_delete_keys [OF assms(1), of w] Cons
    by (simp add: discard_chunks_def run_then delete_chunks_def)
qed

section \<open>Completing a session\<close>

text \<open>
  The invariant that \<open>upload_chunk\<close> maintains: one row per index, every row inside the range of its
  session, and a blob under the key of the row.
\<close>

definition chunks_ok :: "world \<Rightarrow> bool" where
  "chunks_ok w \<longleftrightarrow> chunks_unique w \<and> (\<forall>c \<in> set (chunks w). \<exists>s. find_session w (uc_session_id c) = Some s
     \<and> uc_storage_key c = chunk_key (us_user_id s) (us_id s) (uc_chunk_index c)
     \<and> 0 \<le> uc_chunk_index c \<and> uc_chunk_index c < us_total_chunks s \<and> blob_get w (uc_storage_key c) \<noteq> None)"

definition session_bytes :: "world \<Rightarrow> upload_session \<Rightarrow> bytes" where
  "session_bytes w s = concat (map (\<lambda>i. the (blob_get w (chunk_key (us_user_id s) (us_id s) (int i))))
     [0..<nat (us_total_chunks s)])"

lemma find_session_Some: "find_session w i = Some s \<Longrightarrow> s \<in> set (sessions w) \<and> us_id s = i"
  unfolding find_session_def by (rule row_get_Some)

lemma get_or_404_InrE:
  assumes "get_or_404 u i w = (Inr s, w')"
  obtains "find_session w i = Some s" "us_user_id s = u" "us_id s = i" "w' = w"
proof (cases "find_session w i")
  case None
  with assms show thesis by (simp add: get_or_404_def get_for_user_def run_simps)
next
  case (Some x)
  then have "us_user_id x = u" "s = x" "w' = w"
    using assms by (auto simp: get_or_404_def get_for_user_def run_simps split: if_splits)
  with Some find_session_Some [OF Some] show thesis by (intro that) simp_all
qed

lemma session_chunks:
  assumes ok: "chunks_ok w" and s: "find_session w i = Some s" and m: "missing_chunks (us_total_chunks s) (order_by ASC uc_chunk_index (chunk_rows w i)) = []"
  defines "ordered \<equiv> sort_key uc_chunk_index (order_by ASC uc_chunk_index (chunk_rows w i))"
  shows "map uc_storage_key ordered = map (\<lambda>k. chunk_key (us_user_id s) i (int k)) [0..<nat (us_total_chunks s)]"
    and "\<forall>c \<in> set ordered. uc_session_id c = i" "ordered = [] \<Longrightarrow> chunk_rows w i = []"
    and "\<forall>k < nat (us_total_chunks s). blob_get w (chunk_key (us_user_id s) i (int k)) \<noteq> None"
proof -
  let ?cs = "order_by ASC uc_chunk_index (chunk_rows w i)"
  have rows: "c \<in> set ordered \<Longrightarrow> c \<in> set (chunks w) \<and> uc_session_id c = i" for c
    by (auto simp: ordered_def chunk_rows_def)
  have row: "uc_storage_key c = chunk_key (us_user_id s) i (uc_chunk_index c) \<and> 0 \<le> uc_chunk_index c
      \<and> uc_chunk_index c < us_total_chunks s \<and> blob_get w (uc_storage_key c) \<noteq> None" if "c \<in> set ordered" for c
    using ok rows [OF that] s find_session_Some [OF s] unfolding chunks_ok_def by fastforce
  have "distinct (map uc_chunk_index (chunk_rows w i))"
    using ok unfolding chunks_ok_def by (intro distinct_indexes) blast
  moreover have "mset (map uc_chunk_index ?cs) = mset (map uc_chunk_index (chunk_rows w i))"
    by (simp add: order_by_def)
  ultimately have d: "distinct (map uc_chunk_index ?cs)" by (metis mset_eq_imp_distinct_iff)
  have idx: "map uc_chunk_index ordered = map int [0..<nat (us_total_chunks s)]"
    unfolding ordered_def by (rule complete_indexes [OF d m]) (use row in \<open>auto simp: ordered_def\<close>)
  have "map uc_storage_key ordered = map (chunk_key (us_user_id s) i) (map uc_chunk_index ordered)"
    using row by simp
  then show keys: "map uc_storage_key ordered = map (\<lambda>k. chunk_key (us_user_id s) i (int k)) [0..<nat (us_total_chunks s)]"
    by (simp add: idx comp_def)
  show "\<forall>c \<in> set ordered. uc_session_id c = i" using rows by blast
  show "ordered = [] \<Longrightarrow> chunk_rows w i = []" by (simp add: ordered_def) (metis length_0_conv length_order_by length_sort)
  show "\<forall>k < nat (us_total_chunks s). blob_get w (chunk_key (us_user_id s) i (int k)) \<noteq> None"
  proof (intro allI impI)
    fix k assume "k < nat (us_total_chunks s)"
    then have "chunk_key (us_user_id s) i (int k) \<in> set (map uc_storage_key ordered)" unfolding keys by simp
    then obtain c where "c \<in> set ordered" "uc_storage_key c = chunk_key (us_user_id s) i (int k)" by auto
    with row show "blob_get w (chunk_key (us_user_id s) i (int k)) \<noteq> None" by metis
  qed
qed

lemma run_storage_concat:
  assumes "resolve_path t = Inr t" "list_all2 (\<lambda>k d. resolve_path k = Inr k \<and> blob_get w k = Some d) ks ds"
  shows "storage_concat ks t w = (Inr (length (concat ds)), blob_put t (concat ds) w)"
proof -
  have "resolve_all ks = Inr ks"
    using assms(2) by (intro resolve_all_ok) (auto simp: list_all2_conv_all_nth)
  moreover have "read_all w ks = Inr ds"
    using assms(2) by (intro read_all_ok) (auto simp: list_all2_conv_all_nth)
  ultimately show ?thesis using assms(1) by (simp add: storage_concat_def run_bind run_then)
qed

lemma keeps_session_create_item: "keeps blobs (session_create_item s u k n c)" "keeps sessions (session_create_item s u k n c)"
    "keeps chunks (session_create_item s u k n c)"
  unfolding session_create_item_def record_file_def items_create_def Let_def
  by (intro keeps_rules keeps_modify; simp add: set_item_def)+

text \<open>The part of \<open>complete_session\<close> after the checks.\<close>

definition join_and_record ::
  "'tok crypto \<Rightarrow> uuid \<Rightarrow> upload_session \<Rightarrow> upload_chunk list \<Rightarrow> string \<Rightarrow> item_response M" where
  "join_and_record c user_id session ordered storage_key =
     bindM (storage_concat (map uc_storage_key ordered) storage_key) (\<lambda>actual_size.
     bindM (catchM
         (bindM (checksum_of c storage_key) (\<lambda>checksum.
          bindM (session_create_item session user_id storage_key (int actual_size) checksum) (\<lambda>item.
            returnM (item, checksum))))
         (\<lambda>e. thenM (storage_delete storage_key) (raiseM e))) (\<lambda>(item, checksum).
     thenM (discard_chunks ordered)
     (bindM now (\<lambda>t.
     thenM (update_status (us_id session) COMPLETED t (Some checksum) (Some (di_id item)))
     (thenM (log_activity user_id UPLOAD (Some (di_id item)))
       (returnM (to_response item False None)))))))"

lemma complete_session_split:
  "complete_session c u i w =
    (case find_session w i of
       None \<Rightarrow> (Inl NotFoundError, w)
     | Some s \<Rightarrow>
       if us_user_id s \<noteq> u then (Inl NotFoundError, w)
       else if terminal_status (us_status s) then (Inl InvalidOperationError, w)
       else (let cs = order_by ASC uc_chunk_index (chunk_rows w i) in
         if missing_chunks (us_total_chunks s) cs \<noteq> [] then (Inl InvalidOperationError, w)
         else join_and_record c u s (sort_key uc_chunk_index cs) (make_storage_key u (uuid_next w) 1)
                (w\<lparr>uuid_next := Suc (uuid_next w)\<rparr>)))"
proof (cases "find_session w i")
  case None
  then show ?thesis by (simp add: complete_session_def get_or_404_def get_for_user_def run_simps)
next
  case (Some s)
  then have "us_id s = i" by (simp add: find_session_Some)
  with Some show ?thesis
    by (simp add: complete_session_def get_or_404_def get_for_user_def run_simps Let_def list_chunks_def join_and_record_def)
qed

text \<open>The checksum as the evaluator computes it: the digest of the blob.\<close>

lemma checksum_of_code [code]:
  "checksum_of c key = bindM (liftM (\<lambda>_. resolve_path key)) (\<lambda>path. liftM (\<lambda>w. case blob_get w path of
       None \<Rightarrow> Inl StorageKeyNotFoundError | Some d \<Rightarrow> Inr (blob_digest c d)))"
  by (auto simp: checksum_of_def open_read_def bindM_def liftM_def returnM_def fun_eq_iff CHUNK_SIZE_def
      concat_read_chunks split: sum.splits option.splits prod.splits)

lemma run_checksum_of:
  "resolve_path key = Inr key \<Longrightarrow> blob_get w key = Some d \<Longrightarrow> checksum_of c key w = (Inr (blob_digest c d), w)"
  by (simp add: checksum_of_def run_bind run_open_read concat_read_chunks CHUNK_SIZE_def)

text \<open>Putting the joined blob and dropping the chunks.\<close>

lemma joined_blobs:
  assumes "blobs w2 = blobs (blob_put key d w)" "blobs w' = blobs (fold blob_remove ks w2)"
  shows "blob_get w' q = (if q \<in> set ks then None else if q = key then Some d else blob_get w q)"
proof -
  have "blob_get w2 q = (if q = key then Some d else blob_get w q)"
    using local_store.content_put [of key d w q] assms(1) by (simp add: blob_get_def)
  moreover have "blob_get w' q = blob_get (fold blob_remove ks w2) q" using assms(2) by (simp add: blob_get_def)
  ultimately show ?thesis by (simp add: local_store.content_drops)
qed

lemma keeps_clock_session_create_item: "keeps clock (session_create_item s u k z ck)"
  unfolding session_create_item_def record_file_def items_create_def Let_def
  by (intro keeps_rules keeps_modify; simp add: set_item_def)+

text \<open>The steps of a join that returns: the chunks' bytes become a blob, the file is recorded, then the chunks go.\<close>

lemma join_and_record_steps:
  assumes keys: "map uc_storage_key ordered = map (\<lambda>k. chunk_key v sid (int k)) [0..<n]"
    and blobs: "\<forall>k < n. blob_get w (chunk_key v sid (int k)) \<noteq> None"
    and s: "key = make_storage_key u m 1"
    and j: "join_and_record c u s ordered key w = (Inr r, w')"
    and d: "d = concat (map (\<lambda>k. the (blob_get w (chunk_key v sid (int k)))) [0..<n])"
  obtains item w2 w3 where
    "session_create_item s u key (int (length d)) (blob_digest c d) (blob_put key d w) = (Inr item, w2)"
    "discard_chunks ordered w2 = (Inr (), w3)"
    "thenM (update_status (us_id s) COMPLETED (clock w3) (Some (blob_digest c d)) (Some (di_id item)))
       (thenM (log_activity u UPLOAD (Some (di_id item))) (returnM (to_response item False None))) w3 = (Inr r, w')"
proof -
  have res: "resolve_path key = Inr key" by (simp add: s resolve_storage_key)
  have "list_all2 (\<lambda>k d. resolve_path k = Inr k \<and> blob_get w k = Some d) (map uc_storage_key ordered)
      (map (\<lambda>k. the (blob_get w (chunk_key v sid (int k)))) [0..<n])"
    unfolding keys using blobs by (auto simp: list_all2_conv_all_nth resolve_chunk_key)
  from run_storage_concat [OF res this]
  have cat: "storage_concat (map uc_storage_key ordered) key w = (Inr (length d), blob_put key d w)"
    by (simp add: d)
  have sum: "checksum_of c key (blob_put key d w) = (Inr (blob_digest c d), blob_put key d w)"
    by (rule run_checksum_of [OF res]) (simp add: local_store.content_put)
  show thesis using that j
    by (auto simp: join_and_record_def run_bind run_then cat sum run_catch run_storage_delete [OF res]
        split: prod.splits sum.splits)
qed

lemma join_and_record_InrE:
  assumes w: "forest w" and keys: "map uc_storage_key ordered = map (\<lambda>k. chunk_key v sid (int k)) [0..<n]"
    and rows: "\<forall>c \<in> set ordered. uc_session_id c = sid" "ordered = [] \<Longrightarrow> chunk_rows w sid = []"
    and blobs: "\<forall>k < n. blob_get w (chunk_key v sid (int k)) \<noteq> None"
    and s: "us_id s = sid" "key = make_storage_key u m 1"
    and j: "join_and_record c u s ordered key w = (Inr r, w')"
  defines "d \<equiv> concat (map (\<lambda>k. the (blob_get w (chunk_key v sid (int k)))) [0..<n])"
  obtains name item vs where "item = file_row w u (us_parent_id s) name (int (length d)) (us_mime_type s)
      (snd (split_name (us_filename s))) (blob_digest c d) key"
    "name \<notin> taken_names w (us_parent_id s) u" "r = to_response item False None"
    "items w' = items w @ [item]" "versions w' = versions w @ [vs]" "fv_file_id vs = di_id item"
    "fv_storage_key vs = key" "fv_size_bytes vs = int (length d)"
    "\<forall>q. blob_get w' q = (if q \<in> set (map (\<lambda>k. chunk_key v sid (int k)) [0..<n]) then None
       else if q = key then Some d else blob_get w q)"
    "chunks w' = row_delete (\<lambda>c. uc_session_id c = sid) (chunks w)"
    "sessions w' = row_update us_id sid (status_columns COMPLETED (clock w) (Some (blob_digest c d)) (Some (di_id item))) (sessions w)"
    "users_ok w \<Longrightarrow> \<forall>q. used_of w' q = (if q = u then map_option (\<lambda>b. b + int (length d)) (used_of w q) else used_of w q)"
proof -
  let ?w1 = "blob_put key d w"
  obtain item w2 w3 where ci: "session_create_item s u key (int (length d)) (blob_digest c d) ?w1 = (Inr item, w2)"
    and dis: "discard_chunks ordered w2 = (Inr (), w3)"
    and rest: "thenM (update_status (us_id s) COMPLETED (clock w3) (Some (blob_digest c d)) (Some (di_id item)))
       (thenM (log_activity u UPLOAD (Some (di_id item))) (returnM (to_response item False None))) w3 = (Inr r, w')"
    by (rule join_and_record_steps [OF keys blobs s(2) j meta_eq_to_obj_eq [OF d_def]])
  obtain name where un: "unique_name (us_filename s) (us_parent_id s) u ?w1 = (Inr name, ?w1)"
    and rec: "record_file u (us_parent_id s) name (int (length d)) (us_mime_type s) (snd (split_name (us_filename s))) (blob_digest c d) key ?w1 = (Inr item, w2)"
    using ci unfolding session_create_item_def by (auto elim!: bind_InrE dest: unique_name_Inr(1))
  have same: "items ?w1 = items w" "versions ?w1 = versions w" "users ?w1 = users w" "uuid_next ?w1 = uuid_next w" "clock ?w1 = clock w"
      "sessions ?w1 = sessions w" "chunks ?w1 = chunks w"
    by (simp_all add: keeps_put_blob)
  have f1: "forest ?w1" using forest_cong [of ?w1 w] w same by simp
  have keep2: "sessions w2 = sessions w" "chunks w2 = chunks w" "clock w2 = clock w"
    using keepsD [OF keeps_session_create_item(2) ci] keepsD [OF keeps_session_create_item(3) ci]
      keepsD [OF keeps_clock_session_create_item ci] same by simp_all
  have keys': "\<forall>c \<in> set ordered. resolve_path (uc_storage_key c) = Inr (uc_storage_key c)"
  proof
    fix c assume "c \<in> set ordered"
    then have "uc_storage_key c \<in> set (map uc_storage_key ordered)" by simp
    then show "resolve_path (uc_storage_key c) = Inr (uc_storage_key c)" unfolding keys by (auto simp: resolve_chunk_key)
  qed
  have "ordered = [] \<Longrightarrow> chunk_rows w2 sid = []" using rows(2) keep2 by (simp add: chunk_rows_def)
  from run_discard_chunks [OF keys' rows(1) this] dis
  have w3: "w3 = chunks_update (row_delete (\<lambda>c. uc_session_id c = sid)) (fold blob_remove (map uc_storage_key ordered) w2)" by simp
  obtain l w4 where log: "log_activity u UPLOAD (Some (di_id item))
      (sessions_update (row_update us_id sid (status_columns COMPLETED (clock w3) (Some (blob_digest c d)) (Some (di_id item)))) w3) = (l, w')"
    and r: "r = to_response item False None"
    using rest s(1) by (auto simp: run_then update_status_def split: prod.splits sum.splits)
  note logf = log_activity_frame [OF log]
  have w3f: "items w3 = items w2" "versions w3 = versions w2" "users w3 = users w2" "sessions w3 = sessions w2" "clock w3 = clock w2"
    "chunks w3 = row_delete (\<lambda>c. uc_session_id c = sid) (chunks w2)"
    by (simp_all add: w3 keeps_fold_remove)
  have blob: "\<forall>q. blob_get w' q = (if q \<in> set (map (\<lambda>k. chunk_key v sid (int k)) [0..<n]) then None
       else if q = key then Some d else blob_get w q)"
    unfolding keys [symmetric] using keepsD [OF keeps_record_file rec] logf by (intro allI joined_blobs [of w2]) (simp_all add: w3)
  show thesis
  proof (rule record_file_InrE [OF f1 rec])
    fix vs assume v: "item = file_row ?w1 u (us_parent_id s) name (int (length d)) (us_mime_type s) (snd (split_name (us_filename s))) (blob_digest c d) key"
      "items w2 = items ?w1 @ [item]" "versions w2 = versions ?w1 @ [vs]" "fv_file_id vs = di_id item"
      "fv_storage_key vs = key" "fv_size_bytes vs = int (length d)"
      and used: "users_ok ?w1 \<Longrightarrow> \<forall>q. used_of w2 q = (if q = u then map_option (\<lambda>b. b + int (length d)) (used_of ?w1 q) else used_of ?w1 q)"
    have used': "\<forall>q. used_of w' q = (if q = u then map_option (\<lambda>b. b + int (length d)) (used_of w q) else used_of w q)" if "users_ok w"
      using that used same logf w3f by (simp add: users_ok_def used_of_def find_user_def)
    show thesis
      by (rule that [of item name vs])
        (use v same logf w3f keep2 blob used' r unique_name_Inr(2) [OF un] in
          \<open>simp_all add: file_row_def taken_names_def\<close>)
  qed
qed

section \<open>Receiving a chunk\<close>

lemma upsert_rows:
  assumes "upsert_chunk sid i sz key ck t w = (r, w')"
  shows "r = Inr ()" "uuid_next w \<le> uuid_next w'" "sessions w' = sessions w" "blobs w' = blobs w" "clock w' = clock w"
    "\<exists>c \<in> set (chunks w'). is_chunk sid i c"
    "c \<in> set (chunks w') \<Longrightarrow> if is_chunk sid i c then uc_storage_key c = key else c \<in> set (chunks w)"
proof -
  let ?new = "\<lparr>uc_id = uuid_next w, uc_session_id = sid, uc_chunk_index = i, uc_size = sz,
              uc_checksum = ck, uc_storage_key = key, uc_created_at = t\<rparr>"
  let ?g = "\<lambda>c. if is_chunk sid i c then c\<lparr>uc_size := sz, uc_storage_key := key, uc_checksum := ck, uc_created_at := t\<rparr> else c"
  have r: "r = Inr ()" and w': "w' = chunks_update (\<lambda>rows. if list_ex (is_chunk sid i) rows then map ?g rows else rows @ [?new])
      (w\<lparr>uuid_next := Suc (uuid_next w)\<rparr>)"
    using assms by (simp_all add: upsert_chunk_def run_simps)
  show "r = Inr ()" "uuid_next w \<le> uuid_next w'" "sessions w' = sessions w" "blobs w' = blobs w" "clock w' = clock w"
    by (simp_all add: r w')
  have rows: "chunks w' = (if list_ex (is_chunk sid i) (chunks w) then map ?g (chunks w) else chunks w @ [?new])"
    by (simp add: w')
  show "\<exists>c \<in> set (chunks w'). is_chunk sid i c"
  proof (cases "list_ex (is_chunk sid i) (chunks w)")
    case True
    then obtain x where x: "x \<in> set (chunks w)" "is_chunk sid i x" by (auto simp: list_ex_iff)
    then have "is_chunk sid i (?g x)" by (simp add: is_chunk_def)
    moreover have "?g x \<in> set (chunks w')" using True x(1) unfolding rows by simp
    ultimately show ?thesis by blast
  next
    case False
    then show ?thesis unfolding rows by (simp add: is_chunk_def)
  qed
  show "c \<in> set (chunks w') \<Longrightarrow> if is_chunk sid i c then uc_storage_key c = key else c \<in> set (chunks w)"
    unfolding rows by (auto simp: list_ex_iff is_chunk_def split: if_splits)
qed

lemma find_session_update:
  "(\<And>s. us_id (f s) = us_id s) \<Longrightarrow>
    row_get us_id j (row_update us_id i f (sessions w)) = (if j = i then map_option f (find_session w j) else find_session w j)"
  unfolding find_session_def by (rule row_get_update)

lemma status_columns_simps [simp]:
  "us_id (status_columns st t c d s) = us_id s" "us_user_id (status_columns st t c d s) = us_user_id s"
  "us_total_chunks (status_columns st t c d s) = us_total_chunks s" "us_status (status_columns st t c d s) = st"
  by (simp_all add: status_columns_def)

lemma one_chunk:
  assumes "chunks_unique w" "\<exists>c \<in> set (chunks w). is_chunk i k c"
  shows "length (filter (is_chunk i k) (chunks w)) = 1"
proof -
  let ?p = "\<lambda>c. (uc_session_id c, uc_chunk_index c)"
  let ?l = "filter (is_chunk i k) (chunks w)"
  have "distinct (map ?p ?l)" using assms(1) by (simp add: chunks_unique_def distinct_map_filter)
  then have "length ?l = card (?p ` set ?l)" by (metis distinct_card length_map list.set_map)
  also have "?p ` set ?l = {(i, k)}" using assms(2) by (force simp: is_chunk_def)
  finally show ?thesis by simp
qed

lemma upload_chunk_InrE:
  assumes "upload_chunk c u i k s w = (Inr x, w')"
  obtains ses w2 where "find_session w i = Some ses" "us_user_id ses = u" "\<not> terminal_status (us_status ses)"
    "0 \<le> k" "k < us_total_chunks ses" "snd s = None"
    "upsert_chunk i k (int (length (stream_bytes s))) (chunk_key u i k) (Some (blob_digest c (stream_bytes s))) (clock w)
       (blob_put (chunk_key u i k) (stream_bytes s) w) = (Inr (), w2)"
    "w' = (if us_status ses = PENDING then sessions_update (row_update us_id i (status_columns UPLOADING (clock w) None None)) w2 else w2)"
proof -
  obtain ses w1 where g: "get_or_404 u i w = (Inr ses, w1)"
    and rest: "thenM (guardM (\<not> terminal_status (us_status ses)) InvalidOperationError)
     (thenM (guardM (\<not> (k < 0 \<or> k \<ge> us_total_chunks ses)) InvalidOperationError)
     (bindM (save_stream (chunk_key u (us_id ses) k) s) (\<lambda>sz.
     bindM now (\<lambda>t.
     thenM (upsert_chunk (us_id ses) k (int sz) (chunk_key u (us_id ses) k) (Some (blob_digest c (stream_bytes s))) t)
       (whenM (us_status ses = PENDING) (update_status (us_id ses) UPLOADING t None None)))))) w1 = (Inr x, w')"
    using assms unfolding upload_chunk_def Let_def by (rule bind_InrE)
  from get_or_404_InrE [OF g] have ses: "find_session w i = Some ses" "us_user_id ses = u" "us_id ses = i" "w1 = w" by metis+
  have clock: "clock (blob_put key d w) = clock w" for key d by (simp add: keeps_put_blob)
  have g1: "\<not> terminal_status (us_status ses)" using rest by (auto elim!: then_InrE guard_InrE)
  have g2: "0 \<le> k" "k < us_total_chunks ses" using rest by (auto elim!: then_InrE guard_InrE)
  have s: "snd s = None"
  proof (rule ccontr)
    assume "snd s \<noteq> None"
    with rest g1 g2 show False
      by (auto simp: run_bind run_then run_guard run_save_stream [OF resolve_chunk_key])
  qed
  obtain y w2 where u: "upsert_chunk i k (int (length (stream_bytes s))) (chunk_key u i k) (Some (blob_digest c (stream_bytes s))) (clock w)
       (blob_put (chunk_key u i k) (stream_bytes s) w) = (y, w2)"
    by (cases "upsert_chunk i k (int (length (stream_bytes s))) (chunk_key u i k) (Some (blob_digest c (stream_bytes s))) (clock w)
       (blob_put (chunk_key u i k) (stream_bytes s) w)")
  then have y: "y = Inr ()" by (rule upsert_rows(1))
  have "w' = (if us_status ses = PENDING then sessions_update (row_update us_id i (status_columns UPLOADING (clock w) None None)) w2 else w2)"
    using rest g1 g2 s u by (simp add: y ses clock run_bind run_then run_guard run_when
        run_save_stream [OF resolve_chunk_key] update_status_def split: if_splits)
  with ses(1,2) g1 g2 s u show thesis unfolding y by (rule that)
qed

lemma upload_chunk_ok:
  assumes ok: "chunks_ok w" and up: "upload_chunk c u i k s w = (Inr x, w')"
  shows "chunks_ok w'" "blob_get w' (chunk_key u i k) = Some (stream_bytes s)"
    "j \<noteq> chunk_key u i k \<Longrightarrow> blob_get w' j = blob_get w j"
    "length (filter (is_chunk i k) (chunks w')) = 1"
proof -
  let ?key = "chunk_key u i k"
  let ?v = "blob_put ?key (stream_bytes s) w"
  obtain ses w2 where ses: "find_session w i = Some ses" "us_user_id ses = u" "0 \<le> k" "k < us_total_chunks ses"
    and ups: "upsert_chunk i k (int (length (stream_bytes s))) ?key (Some (blob_digest c (stream_bytes s))) (clock w) ?v = (Inr (), w2)"
    and w': "w' = (if us_status ses = PENDING then sessions_update (row_update us_id i (status_columns UPLOADING (clock w) None None)) w2 else w2)"
    using upload_chunk_InrE [OF up] by metis
  note rows = upsert_rows [OF ups]
  have same: "sessions ?v = sessions w" "chunks ?v = chunks w" by (simp_all add: keeps_put_blob)
  have blob: "blob_get w' j = (if j = ?key then Some (stream_bytes s) else blob_get w j)" for j
  proof -
    have "blobs w' = blobs ?v" using rows(4) by (simp add: w')
    then have "blob_get w' j = blob_get ?v j" by (simp add: blob_get_def)
    then show ?thesis by (simp add: local_store.content_put)
  qed
  then show "blob_get w' ?key = Some (stream_bytes s)" "j \<noteq> ?key \<Longrightarrow> blob_get w' j = blob_get w j" by simp_all
  have "chunks_unique ?v" using ok same by (simp add: chunks_ok_def chunks_unique_def)
  then have "chunks_unique w2" using ups by (rule upsert_chunk_unique)
  moreover have cw: "chunks w' = chunks w2" by (simp add: w')
  ultimately have uniq: "chunks_unique w'" by (simp add: chunks_unique_def)
  show "length (filter (is_chunk i k) (chunks w')) = 1"
    by (rule one_chunk [OF uniq]) (use rows(6) cw in simp)
  have find: "\<exists>s'. find_session w' q = Some s' \<and> us_user_id s' = us_user_id s0 \<and> us_id s' = us_id s0 \<and> us_total_chunks s' = us_total_chunks s0"
    if "find_session w q = Some s0" for q s0
    using that rows(3) same by (auto simp: w' find_session_def row_get_update)
  show "chunks_ok w'"
    unfolding chunks_ok_def
  proof (intro conjI uniq ballI)
    fix d assume d: "d \<in> set (chunks w')"
    show "\<exists>s'. find_session w' (uc_session_id d) = Some s' \<and> uc_storage_key d = chunk_key (us_user_id s') (us_id s') (uc_chunk_index d)
      \<and> 0 \<le> uc_chunk_index d \<and> uc_chunk_index d < us_total_chunks s' \<and> blob_get w' (uc_storage_key d) \<noteq> None"
    proof (cases "is_chunk i k d")
      case True
      then have "uc_session_id d = i" "uc_chunk_index d = k" by (simp_all add: is_chunk_def)
      moreover have "uc_storage_key d = ?key" using rows(7) [of d] d True cw by simp
      moreover obtain s' where "find_session w' i = Some s'" "us_user_id s' = u" "us_id s' = i" "us_total_chunks s' = us_total_chunks ses"
        using find [OF ses(1)] ses(2) find_session_Some [OF ses(1)] by auto
      ultimately show ?thesis using ses blob by auto
    next
      case False
      then have "d \<in> set (chunks w)" using rows(7) [of d] d cw same by simp
      then obtain s0 where s0: "find_session w (uc_session_id d) = Some s0" "uc_storage_key d = chunk_key (us_user_id s0) (us_id s0) (uc_chunk_index d)"
          "0 \<le> uc_chunk_index d" "uc_chunk_index d < us_total_chunks s0" "blob_get w (uc_storage_key d) \<noteq> None"
        using ok unfolding chunks_ok_def by blast
      obtain s' where "find_session w' (uc_session_id d) = Some s'" "us_user_id s' = us_user_id s0" "us_id s' = us_id s0" "us_total_chunks s' = us_total_chunks s0"
        using find [OF s0(1)] by blast
      with s0 blob show ?thesis by auto
    qed
  qed
qed

section \<open>The life of a session\<close>

inductive session_step :: "upload_status \<Rightarrow> upload_status \<Rightarrow> bool" where
  first_chunk: "session_step PENDING UPLOADING"
| finish: "st = PENDING \<or> st = UPLOADING \<Longrightarrow> session_step st COMPLETED"
| cancel: "st \<noteq> COMPLETED \<Longrightarrow> st \<noteq> CANCELLED \<Longrightarrow> session_step st CANCELLED"

inductive_cases session_step_elim: "session_step st st'"

inductive_simps session_step_from: "session_step COMPLETED st" "session_step CANCELLED st"

lemma settled_status: "session_step\<^sup>*\<^sup>* st st' \<Longrightarrow> st = COMPLETED \<or> st = CANCELLED \<Longrightarrow> st' = st"
  by (induction rule: rtranclp_induct) (auto elim: session_step_elim)

text \<open>A call may give session \<open>sid\<close> the status \<open>new\<close>, and changes no other.\<close>

definition status_within :: "uuid \<Rightarrow> uuid \<Rightarrow> upload_status \<Rightarrow> upload_status \<Rightarrow> world \<Rightarrow> bool" where
  "status_within i sid st new w \<longleftrightarrow>
     (\<exists>s. find_session w i = Some s \<and> (us_status s = st \<or> i = sid \<and> us_status s = new))"

lemma status_within_update [pres_rules]:
  "preserves (status_within i sid st new) (update_status sid new t ck d)"
  unfolding update_status_def
  by (rule preserves_modify) (auto simp: status_within_def find_session_def row_get_update)

lemma status_within_keeps: "keeps sessions m \<Longrightarrow> preserves (status_within i sid st new) m"
  unfolding status_within_def find_session_def by (rule preserves_of_keeps)

lemma keeps_sessions [keeps_rules]:
  "keeps sessions (discard_chunks cs)" "keeps sessions (checksum_of c k)"
  "keeps sessions (upsert_chunk a b d e g h)" "keeps sessions (list_chunks a)"
  "keeps sessions (get_or_404 u i)"
  unfolding discard_chunks_def checksum_of_def upsert_chunk_def delete_chunks_def list_chunks_def get_or_404_def get_for_user_def
  by ((cases cs; simp)?; intro keeps_rules keeps_modify; simp)+

text \<open>
  Every call on session \<open>sid\<close> looks it up, checks its status and goes on. If what follows writes no status
  but \<open>new\<close>, and \<open>new\<close> is one step away from every status that passes the check, the call makes
  at most one step.
\<close>

lemma one_session_step:
  assumes "find_session w i = Some s"
    and call: "m = bindM (get_or_404 u sid) (\<lambda>x. thenM (guardM (P (us_status x)) e) (rest x))"
    and rest: "\<And>x st. us_id x = sid \<Longrightarrow> preserves (status_within i sid st new) (rest x)"
    and step: "\<And>st. P st \<Longrightarrow> st = new \<or> session_step st new"
  shows "\<exists>s'. find_session (snd (m w)) i = Some s' \<and> session_step\<^sup>=\<^sup>= (us_status s) (us_status s')"
proof (cases "\<exists>x. find_session w sid = Some x \<and> us_user_id x = u \<and> P (us_status x)")
  case True
  then obtain x where x: "find_session w sid = Some x" "us_user_id x = u" "P (us_status x)" by blast
  then have id: "us_id x = sid" using find_session_Some by blast
  have g: "get_or_404 u sid w = (Inr x, w)" using x by (simp add: get_or_404_def get_for_user_def run_simps)
  have "status_within i sid (us_status s) new w" using assms(1) by (simp add: status_within_def)
  with rest [OF id] have "status_within i sid (us_status s) new (snd (rest x w))" by (rule preserves_snd)
  moreover have "snd (m w) = snd (rest x w)" using x by (simp add: call run_bind run_then run_guard g)
  moreover have "i = sid \<Longrightarrow> us_status s = new \<or> session_step (us_status s) new"
    using assms(1) x step by auto
  ultimately show ?thesis unfolding status_within_def by auto
next
  case False
  have "snd (m w) = w"
  proof (cases "fst (get_or_404 u sid w)")
    case (Inl a)
    then show ?thesis using keeps_sessions(5) [of u sid]
      by (auto simp: call run_bind get_or_404_def get_for_user_def split: prod.splits sum.splits option.splits)
  next
    case (Inr x)
    then have g: "get_or_404 u sid w = (Inr x, snd (get_or_404 u sid w))" by (metis prod.collapse)
    from get_or_404_InrE [OF g] have "find_session w sid = Some x" "us_user_id x = u" "snd (get_or_404 u sid w) = w" by metis+
    with False g show ?thesis by (simp add: call run_bind run_then run_guard)
  qed
  with assms(1) show ?thesis by simp
qed

lemma keeps_sessions_storage: "keeps sessions (save_stream k d)" "keeps sessions (storage_concat ks t)"
    "keeps sessions (storage_delete k)" "keeps sessions (log_activity a b e)"
  by (intro keeps_rules; simp)+

lemma session_calls_step:
  assumes "find_session w i = Some s"
  shows "\<exists>s'. find_session (snd (upload_chunk c u sid k d w)) i = Some s' \<and> session_step\<^sup>=\<^sup>= (us_status s) (us_status s')"
    and "\<exists>s'. find_session (snd (complete_session c u sid w)) i = Some s' \<and> session_step\<^sup>=\<^sup>= (us_status s) (us_status s')"
    and "\<exists>s'. find_session (snd (cancel_session u sid w)) i = Some s' \<and> session_step\<^sup>=\<^sup>= (us_status s) (us_status s')"
proof -
  have uuid_keeps: "preserves (status_within i q st new) uuid4" for q st new by (intro status_within_keeps keeps_rules) simp
  have open_cases: "\<not> terminal_status st \<Longrightarrow> st = PENDING \<or> st = UPLOADING" for st
    by (cases st) (simp_all add: terminal_status_def)
  note keeps = status_within_keeps [OF keeps_sessions(1)] status_within_keeps [OF keeps_sessions(2)]
    status_within_keeps [OF keeps_sessions(3)] status_within_keeps [OF keeps_sessions(4)]
    status_within_keeps [OF keeps_sessions_storage(1)] status_within_keeps [OF keeps_sessions_storage(2)]
    status_within_keeps [OF keeps_sessions_storage(3)] status_within_keeps [OF keeps_sessions_storage(4)]
    status_within_keeps [OF keeps_session_create_item(2)] status_within_update
  show "\<exists>s'. find_session (snd (upload_chunk c u sid k d w)) i = Some s' \<and> session_step\<^sup>=\<^sup>= (us_status s) (us_status s')"
    by (rule one_session_step [where new = UPLOADING and P = "\<lambda>st. \<not> terminal_status st", OF assms upload_chunk_def])
      (auto simp: Let_def intro!: pres_rules keeps intro: first_chunk dest!: open_cases)
  show "\<exists>s'. find_session (snd (complete_session c u sid w)) i = Some s' \<and> session_step\<^sup>=\<^sup>= (us_status s) (us_status s')"
    by (rule one_session_step [where new = COMPLETED and P = "\<lambda>st. \<not> terminal_status st", OF assms complete_session_def])
      (auto simp: Let_def intro!: pres_rules keeps uuid_keeps intro: finish dest!: open_cases split: prod.splits)
  show "\<exists>s'. find_session (snd (cancel_session u sid w)) i = Some s' \<and> session_step\<^sup>=\<^sup>= (us_status s) (us_status s')"
    by (rule one_session_step [where new = CANCELLED and P = "\<lambda>st. st \<noteq> COMPLETED", OF assms cancel_session_def])
      (auto intro!: pres_rules keeps intro: cancel)
qed

end
