(* ===== verification/UploadProperties.thy ===== *)
theory UploadProperties
  imports UploadSessionFacts
begin

text \<open>The properties of simple and chunked uploads, with their instances.\<close>

section \<open>Simple uploads\<close>

text \<open>C7: the search for a free file name ends on every drive with unique names: it returns the name itself or the
  first of its numbered variants that no live item of the user in the folder has.\<close>

theorem unique_name_is_first_free:
  assumes "names_unique w" "pk_items (items w)"
  shows "\<exists>k. unique_name name p u w = (Inr (candidate name k), w)
    \<and> candidate name k \<notin> taken_names w p u \<and> (\<forall>j < k. candidate name j \<in> taken_names w p u)"
  by (rule unique_name_finds [OF assms, of name p u]) blast

lemma sample_names: "names_unique sample_world"
  by (simp add: names_unique_def sample_world_def sample_folder_def sample_file_def)

lemma unique_name_is_first_free_witness:
  "\<exists>k. unique_name ''draft.txt'' (Some 11) 1 sample_world = (Inr (candidate ''draft.txt'' k), sample_world)
    \<and> candidate ''draft.txt'' k \<noteq> ''draft.txt''"
proof -
  have "''draft.txt'' \<in> taken_names sample_world (Some 11) 1"
    by (simp add: same_name_taken [symmetric] same_name_def sample_world_def sample_folder_def sample_file_def)
  with unique_name_is_first_free [OF sample_names sample_pk, of "''draft.txt''" "Some 11" 1] show ?thesis by metis
qed

text \<open>C8: an upload that returns has stored exactly the streamed bytes under a fresh key, added one file
  row and its version 1 with the true size and checksum under a free name, charged the user that
  size, and touched no other blob, row or account.\<close>

theorem upload_stores_the_stream:
  assumes "forest w" "users_ok w" "upload_simple c u p fn s n mime w = (Inr r, w')"
  shows "\<exists>item v. items w' = items w @ [item] \<and> versions w' = versions w @ [v]
    \<and> di_parent_id item = p \<and> di_owner_id item = u \<and> di_item_type item = FILE
    \<and> di_name item \<notin> taken_names w p u
    \<and> di_size_bytes item = int (length (stream_bytes s)) \<and> di_checksum item = Some (blob_digest c (stream_bytes s))
    \<and> fv_file_id v = di_id item \<and> di_storage_key item = Some (fv_storage_key v) \<and> fv_size_bytes v = di_size_bytes item
    \<and> (\<forall>j. blob_get w' j = (if j = fv_storage_key v then Some (stream_bytes s) else blob_get w j))
    \<and> (\<forall>j. used_of w' j = (if j = u then map_option (\<lambda>b. b + di_size_bytes item) (used_of w j) else used_of w j))"
proof (rule upload_simple_InrE [OF assms(1,3)])
  fix name item v key k
  assume a: "key = make_storage_key u (uuid_next w) 1"
    "item = file_row (w\<lparr>uuid_next := Suc (uuid_next w)\<rparr>) u p (candidate name k) (int (length (stream_bytes s))) mime
      (snd (split_name name)) (blob_digest c (stream_bytes s)) key"
    "candidate name k \<notin> taken_names w p u" "items w' = items w @ [item]" "versions w' = versions w @ [v]"
    "fv_file_id v = di_id item" "fv_storage_key v = key" "fv_size_bytes v = int (length (stream_bytes s))"
    "\<forall>j. blob_get w' j = (if j = key then Some (stream_bytes s) else blob_get w j)"
    and used: "users_ok w \<Longrightarrow> \<forall>j. used_of w' j =
      (if j = u then map_option (\<lambda>b. b + int (length (stream_bytes s))) (used_of w j) else used_of w j)"
  show ?thesis
    by (rule exI [of _ item], rule exI [of _ v]) (use a used [OF assms(2)] in \<open>simp add: file_row_def\<close>)
qed

lemma upload_stores_the_stream_witness:
  "\<exists>r w'. upload_simple plain_crypto 2 (Some 11) ''a.txt'' ([''ab'', ''c''], None) 3 None sample_world = (Inr r, w')
    \<and> used_of w' 2 = Some 3"
proof -
  have "\<not> isl (fst (upload_simple plain_crypto 2 (Some 11) ''a.txt'' ([''ab'', ''c''], None) 3 None sample_world))" by code_simp
  then obtain r w' where r: "upload_simple plain_crypto 2 (Some 11) ''a.txt'' ([''ab'', ''c''], None) 3 None sample_world = (Inr r, w')"
    by (metis isl_def prod.collapse sum.collapse(2))
  have "used_of sample_world 2 = Some 0" by code_simp
  with upload_stores_the_stream [OF sample_forest sample_users_ok r] r show ?thesis
    by (auto simp: stream_bytes_def)
qed




section \<open>Chunked uploads\<close>

text \<open>C10: a session is opened only if its declared size, together with everything the user's unfinished sessions
  have been promised and the bytes in use, fits the quota: promises never oversell it.\<close>

theorem sessions_never_oversell:
  assumes "create_session cfg u fn size_bytes p mime w = (Inr st, w')"
  shows "\<exists>r. find_user w u = Some r \<and> active_total w' u = active_total w u + size_bytes
    \<and> active_total w' u + u_used_bytes r \<le> u_quota_bytes r
    \<and> us_status (ssn_session st) = PENDING \<and> ssn_session st \<in> set (sessions w')
    \<and> size_bytes \<le> max_chunked_upload_size_bytes cfg"
proof -
  let ?n = "- ((- size_bytes) div upload_chunk_size_bytes cfg)"
  obtain name s w1 w2 where g: "size_bytes \<le> max_chunked_upload_size_bytes cfg"
    and chk: "check_upload_parent u p w = (Inr (), w1)"
    and space1: "assert_has_space u (size_bytes + active_total w1 u) w1 = (Inr (), w2)"
    and c1: "sessions_create u p name mime size_bytes (upload_chunk_size_bytes cfg) ?n
        (clock w2 + days (upload_session_retention_days cfg)) (clock w2) w2 = (Inr s, w')"
    and st: "st = \<lparr>ssn_session = s, ssn_uploaded = []\<rparr>"
    using assms unfolding create_session_def
    by (auto elim!: bind_InrE then_InrE guard_InrE lift_InrE simp: sum_active_total_size_def Let_def)
  have w1: "w1 = w" using same_world [OF keeps_check_upload_parent chk] .
  have w2: "w2 = w" using same_world [OF keeps_user_reads(7) space1] w1 by simp
  note space = space1 [unfolded w1 w2] and c = c1 [unfolded w2]
  show ?thesis using space c st g
    by (auto simp: run_assert_has_space sessions_create_def run_simps Let_def active_total_def split: option.splits if_splits)
qed

definition open_session :: "nat \<Rightarrow> uuid \<Rightarrow> int \<Rightarrow> int \<Rightarrow> upload_session" where
  "open_session i u size_bytes n = \<lparr>us_id = i, us_user_id = u, us_parent_id = None, us_filename = ''big.bin'',
     us_mime_type = None, us_total_size = size_bytes, us_chunk_size = 8, us_total_chunks = n,
     us_status = PENDING, us_checksum = None, us_drive_item_id = None, us_error_code = None,
     us_created_at = 0, us_updated_at = 0, us_expires_at = 10\<rparr>"

lemma sessions_never_oversell_witness:
  "\<exists>st w'. create_session default_settings 1 ''big.bin'' 900 None None sample_world = (Inr st, w')
    \<and> active_total w' 1 + 0 \<le> 1000"
proof -
  have "\<not> isl (fst (create_session default_settings 1 ''big.bin'' 900 None None sample_world))" by code_simp
  then obtain st w' where r: "create_session default_settings 1 ''big.bin'' 900 None None sample_world = (Inr st, w')"
    by (metis isl_def prod.collapse sum.collapse(2))
  have "find_user sample_world 1 = Some (sample_user 1 ''a@x'')" by (simp add: find_user_def sample_world_def sample_user_def)
  with sessions_never_oversell [OF r] r show ?thesis by (auto simp: sample_user_def)
qed

text \<open>A chunk that arrives is stored whole under the key of its index, an earlier attempt at the index
  is overwritten and never doubled, and the rows of all chunks still describe stored blobs inside the range
  of their sessions.\<close>

theorem chunk_retry_overwrites:
  assumes "chunks_ok w" "upload_chunk c u i k s w = (Inr (), w')"
  shows "chunks_ok w' \<and> blob_get w' (chunk_key u i k) = Some (stream_bytes s)
    \<and> (\<forall>j. j \<noteq> chunk_key u i k \<longrightarrow> blob_get w' j = blob_get w j)
    \<and> length (filter (is_chunk i k) (chunks w')) = 1"
  by (intro conjI allI impI upload_chunk_ok [OF assms])

text \<open>A world in which session 50 of user 1 has received its two chunks, the second one first.\<close>

definition sample_chunk :: "uuid \<Rightarrow> int \<Rightarrow> int \<Rightarrow> upload_chunk" where
  "sample_chunk i k n = \<lparr>uc_id = i, uc_session_id = 50, uc_chunk_index = k, uc_size = n, uc_checksum = None,
     uc_storage_key = chunk_key 1 50 k, uc_created_at = 0\<rparr>"

definition session_world :: world where
  "session_world = sample_world\<lparr>sessions := [open_session 50 1 5 2],
     chunks := [sample_chunk 51 1 2, sample_chunk 52 0 3],
     blobs := [sample_blob (chunk_key 1 50 1) ''de'', sample_blob (chunk_key 1 50 0) ''abc'']\<rparr>"

lemma session_world_ok: "forest session_world" "users_ok session_world" "chunks_ok session_world"
proof -
  show "forest session_world" by (rule forest_check) code_simp
  show "users_ok session_world" by code_simp
  have "chunk_key 1 50 1 = ''uploads/1/50/1''" "chunk_key 1 50 0 = ''uploads/1/50/0''" by code_simp+
  then show "chunks_ok session_world"
    by (simp add: chunks_ok_def chunks_unique_def session_world_def sample_chunk_def open_session_def
        find_session_def blob_get_def sample_blob_def)
qed

lemma chunk_retry_overwrites_witness:
  "\<exists>w'. upload_chunk plain_crypto 1 50 0 ([''xyz''], None) session_world = (Inr (), w') \<and> chunks_ok w'
    \<and> blob_get w' (chunk_key 1 50 0) = Some ''xyz''"
proof -
  have "fst (upload_chunk plain_crypto 1 50 0 ([''xyz''], None) session_world) = Inr ()" by code_simp
  then obtain w' where r: "upload_chunk plain_crypto 1 50 0 ([''xyz''], None) session_world = (Inr (), w')"
    by (metis prod.collapse)
  from chunk_retry_overwrites [OF session_world_ok(3) r] r show ?thesis by (auto simp: stream_bytes_def)
qed

text \<open>C11: the file of a completed session is the concatenation of its chunks by index, whatever the order they
  arrived in; its row and version carry the size and checksum of these bytes under a free name, the user is
  charged the size, the session is closed on the file, and no chunk blob or row is left.\<close>

theorem completed_file_is_the_chunks:
  assumes "forest w" "users_ok w" "chunks_ok w" "find_session w i = Some s"
    and "complete_session c u i w = (Inr r, w')"
  shows "\<exists>item v. items w' = items w @ [item] \<and> versions w' = versions w @ [v]
    \<and> blob_get w' (fv_storage_key v) = Some (session_bytes w s)
    \<and> di_size_bytes item = int (length (session_bytes w s)) \<and> fv_size_bytes v = di_size_bytes item
    \<and> di_checksum item = Some (blob_digest c (session_bytes w s))
    \<and> di_owner_id item = u \<and> di_parent_id item = us_parent_id s \<and> di_name item \<notin> taken_names w (us_parent_id s) u
    \<and> (\<forall>j. used_of w' j = (if j = u then map_option (\<lambda>b. b + di_size_bytes item) (used_of w j) else used_of w j))
    \<and> (\<forall>k < nat (us_total_chunks s). blob_get w' (chunk_key u i (int k)) = None) \<and> chunk_rows w' i = []
    \<and> (\<exists>s'. find_session w' i = Some s' \<and> us_status s' = COMPLETED \<and> us_drive_item_id s' = Some (di_id item))"
proof -
  let ?w = "w\<lparr>uuid_next := Suc (uuid_next w)\<rparr>"
  let ?cs = "order_by ASC uc_chunk_index (chunk_rows w i)"
  let ?key = "make_storage_key u (uuid_next w) 1"
  from assms(4,5) have u: "us_user_id s = u" and miss: "missing_chunks (us_total_chunks s) ?cs = []"
    and j: "join_and_record c u s (sort_key uc_chunk_index ?cs) ?key ?w = (Inr r, w')"
    by (auto simp: complete_session_split Let_def split: if_splits)
  have i: "us_id s = i" using find_session_Some [OF assms(4)] by simp
  note ch = session_chunks [OF assms(3,4) miss, unfolded u]
  have f: "forest ?w" using forest_cong [of ?w w] assms(1) by simp
  have blob: "blob_get ?w = blob_get w" by (simp add: blob_get_def fun_eq_iff)
  have rows: "sort_key uc_chunk_index ?cs = [] \<Longrightarrow> chunk_rows ?w i = []" using ch(3) by (simp add: chunk_rows_def)
  have stored: "\<forall>k < nat (us_total_chunks s). blob_get ?w (chunk_key u i (int k)) \<noteq> None" using ch(4) blob by simp
  have d: "concat (map (\<lambda>k. the (blob_get w (chunk_key u i (int k)))) [0..<nat (us_total_chunks s)]) = session_bytes w s"
    by (simp add: session_bytes_def u i)
  note joined = join_and_record_InrE [OF f ch(1) ch(2) rows stored i refl j, unfolded blob d]
  show ?thesis
  proof (rule joined)
    fix name item v
    assume a: "item = file_row ?w u (us_parent_id s) name (int (length (session_bytes w s))) (us_mime_type s)
        (snd (split_name (us_filename s))) (blob_digest c (session_bytes w s)) ?key"
      "name \<notin> taken_names ?w (us_parent_id s) u" "items w' = items ?w @ [item]" "versions w' = versions ?w @ [v]"
      "fv_storage_key v = ?key" "fv_size_bytes v = int (length (session_bytes w s))"
      "\<forall>q. blob_get w' q = (if q \<in> set (map (\<lambda>k. chunk_key u i (int k)) [0..<nat (us_total_chunks s)]) then None
         else if q = ?key then Some (session_bytes w s) else blob_get w q)"
      "chunks w' = row_delete (\<lambda>c. uc_session_id c = i) (chunks ?w)"
      "sessions w' = row_update us_id i (status_columns COMPLETED (clock ?w) (Some (blob_digest c (session_bytes w s))) (Some (di_id item))) (sessions ?w)"
      and used: "users_ok ?w \<Longrightarrow> \<forall>q. used_of w' q =
        (if q = u then map_option (\<lambda>b. b + int (length (session_bytes w s))) (used_of ?w q) else used_of ?w q)"
    have "?key \<notin> set (map (\<lambda>k. chunk_key u i (int k)) [0..<nat (us_total_chunks s)])"
      using chunk_key_not_storage_key [THEN not_sym] by auto
    moreover have "chunk_rows w' i = []" by (simp add: chunk_rows_def a(8) row_delete_def)
    moreover have "find_session w' i = Some (status_columns COMPLETED (clock ?w) (Some (blob_digest c (session_bytes w s))) (Some (di_id item)) s)"
      using assms(4) by (simp add: find_session_def a(9) row_get_update)
    moreover have "users_ok ?w" "used_of ?w = used_of w" using assms(2) by (simp_all add: users_ok_def used_of_def find_user_def fun_eq_iff)
    ultimately show ?thesis
      by (intro exI [of _ item] exI [of _ v]) (use a used in \<open>simp add: file_row_def taken_names_def status_columns_def\<close>)
  qed
qed

lemma completed_file_is_the_chunks_witness:
  "\<exists>r w' v. complete_session plain_crypto 1 50 session_world = (Inr r, w') \<and> v \<in> set (versions w')
    \<and> blob_get w' (fv_storage_key v) = Some ''abcde''"
proof -
  have "\<not> isl (fst (complete_session plain_crypto 1 50 session_world))" by code_simp
  then obtain r w' where r: "complete_session plain_crypto 1 50 session_world = (Inr r, w')"
    by (metis isl_def prod.collapse sum.collapse(2))
  have s: "find_session session_world 50 = Some (open_session 50 1 5 2)"
    by (simp add: find_session_def session_world_def open_session_def)
  have "session_bytes session_world (open_session 50 1 5 2) = ''abcde''" by code_simp
  with completed_file_is_the_chunks [OF session_world_ok s r] r show ?thesis by (metis in_set_conv_decomp)
qed

text \<open>Completing a session that misses a chunk, that is closed, or that belongs to another user is refused and
  changes nothing, so the client can send the gaps and try again.\<close>

theorem completion_refused_changes_nothing:
  assumes "find_session w i = Some s"
    and "us_user_id s \<noteq> u \<or> terminal_status (us_status s)
      \<or> (\<exists>k. 0 \<le> k \<and> k < us_total_chunks s \<and> (\<forall>c \<in> set (chunks w). \<not> is_chunk i k c))"
  shows "complete_session c u i w = (Inl (if us_user_id s \<noteq> u then NotFoundError else InvalidOperationError), w)"
proof -
  have "missing_chunks (us_total_chunks s) (order_by ASC uc_chunk_index (chunk_rows w i)) \<noteq> []"
    if k: "0 \<le> k" "k < us_total_chunks s" "\<forall>c \<in> set (chunks w). \<not> is_chunk i k c" for k
  proof -
    have "k \<in> set (map int [0..<nat (us_total_chunks s)])" using k(1,2) by (simp add: image_iff) (metis atLeastLessThan_iff int_nat_eq le0 nat_less_eq_zless)
    moreover have "k \<notin> set (map uc_chunk_index (order_by ASC uc_chunk_index (chunk_rows w i)))"
      using k(3) by (auto simp: chunk_rows_def is_chunk_def)
    ultimately have "k \<in> set (missing_chunks (us_total_chunks s) (order_by ASC uc_chunk_index (chunk_rows w i)))"
      by (simp add: missing_chunks_def)
    then show ?thesis by auto
  qed
  with assms show ?thesis by (auto simp: complete_session_split Let_def)
qed

lemma completion_refused_changes_nothing_witness:
  "complete_session plain_crypto 1 50 (session_world\<lparr>chunks := [sample_chunk 51 1 2]\<rparr>)
    = (Inl InvalidOperationError, session_world\<lparr>chunks := [sample_chunk 51 1 2]\<rparr>)"
proof -
  let ?w = "session_world\<lparr>chunks := [sample_chunk 51 1 2]\<rparr>"
  have s: "find_session ?w 50 = Some (open_session 50 1 5 2)"
    by (simp add: find_session_def session_world_def open_session_def)
  have "complete_session plain_crypto 1 50 ?w = (Inl (if us_user_id (open_session 50 1 5 2) \<noteq> 1 then NotFoundError else InvalidOperationError), ?w)"
    by (rule completion_refused_changes_nothing [OF s])
      (rule disjI2, rule disjI2, rule exI [of _ 0], simp add: open_session_def sample_chunk_def is_chunk_def)
  then show ?thesis by (simp add: open_session_def)
qed

text \<open>C12: whatever the calls on upload sessions do, a session takes at most one step of its life cycle per call, and a
  session that is completed or cancelled stays so for every sequence of further steps.\<close>

theorem session_life_cycle:
  assumes "find_session w i = Some s"
    and "w' = snd (upload_chunk c u sid k d w) \<or> w' = snd (complete_session c u sid w) \<or> w' = snd (cancel_session u sid w)"
  shows "\<exists>s'. find_session w' i = Some s' \<and> session_step\<^sup>=\<^sup>= (us_status s) (us_status s')
    \<and> (us_status s \<in> {COMPLETED, CANCELLED} \<longrightarrow> us_status s' = us_status s)"
proof -
  obtain s' where s': "find_session w' i = Some s'" "session_step\<^sup>=\<^sup>= (us_status s) (us_status s')"
    using session_calls_step [OF assms(1)] assms(2) by metis
  then have "session_step\<^sup>*\<^sup>* (us_status s) (us_status s')" by auto
  with s' show ?thesis by (auto dest: settled_status)
qed

lemma session_life_cycle_witness:
  "\<exists>s'. find_session (snd (cancel_session 1 50 session_world)) 50 = Some s' \<and> session_step\<^sup>=\<^sup>= PENDING (us_status s')"
proof -
  have "find_session session_world 50 = Some (open_session 50 1 5 2)"
    by (simp add: find_session_def session_world_def open_session_def)
  from session_life_cycle [OF this, where w' = "snd (cancel_session 1 50 session_world)" and u = 1 and sid = 50
      and c = plain_crypto and k = 0 and d = "([], None)"]
  show ?thesis by (auto simp: open_session_def)
qed

definition small_quota :: world where
  "small_quota = empty_world\<lparr>users := [(sample_user 1 ''a@x'')\<lparr>u_quota_bytes := 10\<rparr>]\<rparr>"

text \<open>The size a session declares is checked when it is opened and never again: a user with a quota of ten
  bytes opens a session for five, sends twenty in its one chunk, and ends with twenty bytes in use.\<close>

theorem declared_size_not_rechecked:
  "let w1 = snd (create_session default_settings 1 ''a.bin'' 5 None None small_quota);
       w2 = snd (upload_chunk plain_crypto 1 100 0 ([''0123456789'', ''0123456789''], None) w1);
       w3 = snd (complete_session plain_crypto 1 100 w2)
   in map us_total_size (sessions w3) = [5] \<and> map us_status (sessions w3) = [COMPLETED]
     \<and> map u_quota_bytes (users w3) = [10] \<and> map u_used_bytes (users w3) = [20]"
  by code_simp

end
