(* ===== verification/SnapshotRepo.thy ===== *)
theory SnapshotRepo
  imports Users Storage
begin

text \<open>
  \<open>app/snapshot/repository.py\<close>: the rows of snapshots, their entries and settings, the queries over
  the blobs that entries reference, and the two writes a restore makes on drive items.
\<close>

section \<open>Snapshots and entries\<close>

definition list_owner_items :: "uuid \<Rightarrow> drive_item list M" where
  "list_owner_items owner_id = getsM (\<lambda>w. filter (\<lambda>i. di_owner_id i = owner_id \<and> \<not> di_is_deleted i) (items w))"

definition list_all_items :: "uuid \<Rightarrow> drive_item list M" where
  "list_all_items owner_id = getsM (\<lambda>w. filter (\<lambda>i. di_owner_id i = owner_id) (items w))"

text \<open>What an entry records of an item, before it has an identifier and a snapshot.\<close>

record entry_data =
  ed_item_id :: uuid
  ed_parent_item_id :: "uuid option"
  ed_name :: string
  ed_item_type :: item_type
  ed_storage_key :: "string option"
  ed_checksum :: "string option"
  ed_size_bytes :: int

definition entry_row :: "uuid \<Rightarrow> uuid \<Rightarrow> entry_data \<Rightarrow> snapshot_entry" where
  "entry_row i snapshot_id e =
     \<lparr>se_id = i, se_snapshot_id = snapshot_id, se_item_id = ed_item_id e, se_parent_item_id = ed_parent_item_id e,
      se_name = ed_name e, se_item_type = ed_item_type e, se_storage_key = ed_storage_key e,
      se_checksum = ed_checksum e, se_size_bytes = ed_size_bytes e\<rparr>"

definition create_snapshot ::
  "uuid \<Rightarrow> snapshot_trigger \<Rightarrow> string \<Rightarrow> bool \<Rightarrow> int \<Rightarrow> int \<Rightarrow> entry_data list \<Rightarrow> snapshot M" where
  "create_snapshot user_id trigger label pinned item_count total_bytes es =
     bindM uuid4 (\<lambda>new_id. bindM now (\<lambda>t.
       let snap = \<lparr>sn_id = new_id, sn_user_id = user_id, sn_trigger = trigger, sn_label = label,
             sn_item_count = item_count, sn_total_bytes = total_bytes, sn_pinned = pinned, sn_created_at = t\<rparr> in
       thenM (modifyM (snapshots_update (\<lambda>rows. rows @ [snap])))
       (thenM (forM es (\<lambda>e. bindM uuid4 (\<lambda>entry_id.
           modifyM (entries_update (\<lambda>rows. rows @ [entry_row entry_id new_id e])))))
       (returnM snap))))"

definition snapshots_of :: "world \<Rightarrow> uuid \<Rightarrow> snapshot list" where
  "snapshots_of w user_id = order_by DESC sn_created_at (filter (\<lambda>s. sn_user_id s = user_id) (snapshots w))"

definition repo_list_snapshots :: "uuid \<Rightarrow> snapshot list M" where
  "repo_list_snapshots user_id = getsM (\<lambda>w. snapshots_of w user_id)"

definition get_snapshot :: "uuid \<Rightarrow> uuid \<Rightarrow> snapshot option M" where
  "get_snapshot user_id snapshot_id =
     getsM (\<lambda>w. find (\<lambda>s. sn_id s = snapshot_id \<and> sn_user_id s = user_id) (snapshots w))"

definition entries_of :: "world \<Rightarrow> uuid \<Rightarrow> snapshot_entry list" where
  "entries_of w snapshot_id = filter (\<lambda>e. se_snapshot_id e = snapshot_id) (entries w)"

definition list_entries :: "uuid \<Rightarrow> uuid option \<Rightarrow> snapshot_entry list M" where
  "list_entries snapshot_id parent_item_id = getsM (\<lambda>w. order_by ASC (\<lambda>e. db_collate w (se_name e))
     (filter (\<lambda>e. se_parent_item_id e = parent_item_id) (entries_of w snapshot_id)))"

definition list_all_entries :: "uuid \<Rightarrow> snapshot_entry list M" where
  "list_all_entries snapshot_id = getsM (\<lambda>w. entries_of w snapshot_id)"

text \<open>Deleting a snapshot deletes its entries (ON DELETE CASCADE).\<close>

definition drop_snapshot :: "uuid \<Rightarrow> world \<Rightarrow> world" where
  "drop_snapshot snapshot_id w =
     entries_update (row_delete (\<lambda>e. se_snapshot_id e = snapshot_id))
       (snapshots_update (row_delete (\<lambda>s. sn_id s = snapshot_id)) w)"

definition delete_snapshot :: "uuid \<Rightarrow> unit M" where
  "delete_snapshot snapshot_id = modifyM (drop_snapshot snapshot_id)"

section \<open>Settings\<close>

definition repo_get_settings :: "uuid \<Rightarrow> snapshot_settings option M" where
  "repo_get_settings user_id = getsM (\<lambda>w. row_get ss_user_id user_id (snap_settings w))"

definition upsert_settings :: "uuid \<Rightarrow> int \<Rightarrow> bool \<Rightarrow> int \<Rightarrow> int option \<Rightarrow> snapshot_settings M" where
  "upsert_settings user_id retention_n schedule_enabled schedule_interval_minutes quota_bytes =
     bindM (repo_get_settings user_id) (\<lambda>old.
       let s = \<lparr>ss_user_id = user_id, ss_retention_n = retention_n, ss_schedule_enabled = schedule_enabled,
             ss_schedule_interval_minutes = schedule_interval_minutes, ss_quota_bytes = quota_bytes\<rparr> in
       thenM (case old of
           None \<Rightarrow> modifyM (snap_settings_update (\<lambda>rows. rows @ [s]))
         | Some _ \<Rightarrow> modifyM (snap_settings_update (row_update ss_user_id user_id (\<lambda>_. s))))
       (returnM s))"

definition get_user_quota_bytes :: "uuid \<Rightarrow> int M" where
  "get_user_quota_bytes user_id =
     getsM (\<lambda>w. case find_user w user_id of None \<Rightarrow> 0 | Some u \<Rightarrow> u_quota_bytes u)"

section \<open>Restoring items\<close>

definition restored_row :: "uuid \<Rightarrow> snapshot_entry \<Rightarrow> time \<Rightarrow> drive_item" where
  "restored_row owner_id e t =
     \<lparr>di_id = se_item_id e, di_owner_id = owner_id, di_parent_id = se_parent_item_id e,
      di_item_type = se_item_type e, di_name = se_name e, di_mime_type = None, di_extension = None,
      di_size_bytes = se_size_bytes e, di_storage_key = se_storage_key e, di_checksum = se_checksum e,
      di_is_starred = False, di_is_deleted = False, di_deleted_at = None, di_created_by = owner_id,
      di_updated_by = Some owner_id, di_created_at = t, di_updated_at = t\<rparr>"

definition reverted :: "snapshot_entry \<Rightarrow> time \<Rightarrow> drive_item \<Rightarrow> drive_item" where
  "reverted e t r = r\<lparr>di_parent_id := se_parent_item_id e, di_name := se_name e,
     di_size_bytes := se_size_bytes e, di_storage_key := se_storage_key e, di_checksum := se_checksum e,
     di_is_deleted := False, di_deleted_at := None, di_updated_at := t\<rparr>"

definition upsert_item :: "uuid \<Rightarrow> snapshot_entry \<Rightarrow> unit M" where
  "upsert_item owner_id e =
     bindM now (\<lambda>t. bindM (items_get_by_id (se_item_id e)) (\<lambda>existing.
       thenM (case existing of
           None \<Rightarrow> modifyM (items_update (\<lambda>rows. rows @ [restored_row owner_id e t]))
         | Some _ \<Rightarrow> modifyM (set_item (se_item_id e) (reverted e t)))
       flush_items))"

definition set_deleted :: "uuid \<Rightarrow> bool \<Rightarrow> unit M" where
  "set_deleted item_id deleted =
     bindM now (\<lambda>t. bindM (items_get_by_id item_id) (\<lambda>item. case item of
         None \<Rightarrow> returnM ()
       | Some _ \<Rightarrow> thenM (modifyM (set_item item_id
             (\<lambda>r. r\<lparr>di_is_deleted := deleted, di_deleted_at := (if deleted then Some t else None)\<rparr>)))
           flush_items))"

section \<open>Blobs\<close>

definition entry_keys :: "world \<Rightarrow> string list" where
  "entry_keys w = List.map_filter se_storage_key (entries w)"

definition is_referenced_by_snapshot :: "string \<Rightarrow> bool M" where
  "is_referenced_by_snapshot storage_key = getsM (\<lambda>w. storage_key \<in> set (entry_keys w))"

text \<open>Every key that an item, a version or an entry holds; \<open>if row\<close> leaves out the empty string.\<close>

definition live_keys :: "world \<Rightarrow> string list" where
  "live_keys w = filter (\<lambda>k. k \<noteq> [])
     (List.map_filter di_storage_key (items w) @ map fv_storage_key (versions w) @ entry_keys w)"

definition referenced_storage_keys :: "string list M" where
  "referenced_storage_keys = getsM live_keys"

definition user_entries :: "world \<Rightarrow> uuid \<Rightarrow> snapshot_entry list" where
  "user_entries w user_id = concat (map (\<lambda>s. entries_of w (sn_id s)) (snapshots_of w user_id))"

text \<open>One size per distinct checksum: the largest that the user's entries give it.\<close>

definition checksum_size :: "snapshot_entry list \<Rightarrow> string \<Rightarrow> int" where
  "checksum_size es ck = Max (set (map se_size_bytes (filter (\<lambda>e. se_checksum e = Some ck) es)))"

definition snapshot_bytes :: "world \<Rightarrow> uuid \<Rightarrow> int" where
  "snapshot_bytes w user_id = (let es = user_entries w user_id in
     sum_list (map (checksum_size es) (remdups (List.map_filter se_checksum es))))"

definition used_snapshot_bytes :: "uuid \<Rightarrow> int M" where
  "used_snapshot_bytes user_id = getsM (\<lambda>w. snapshot_bytes w user_id)"

text \<open>The bytes whose last holder is the snapshot, by storage key.\<close>

definition holders :: "world \<Rightarrow> uuid \<Rightarrow> string \<Rightarrow> uuid list" where
  "holders w user_id key = remdups (map se_snapshot_id
     (filter (\<lambda>e. se_storage_key e = Some key) (user_entries w user_id)))"

definition only_in_snapshot :: "world \<Rightarrow> uuid \<Rightarrow> uuid \<Rightarrow> string list" where
  "only_in_snapshot w user_id snapshot_id = filter
     (\<lambda>key. length (holders w user_id key) = 1
        \<and> key \<notin> set (List.map_filter di_storage_key (items w)) \<and> key \<notin> set (map fv_storage_key (versions w)))
     (remdups (List.map_filter se_storage_key (entries_of w snapshot_id)))"

definition key_size :: "snapshot_entry list \<Rightarrow> string \<Rightarrow> int" where
  "key_size es key = Max (set (map se_size_bytes (filter (\<lambda>e. se_storage_key e = Some key) es)))"

definition reclaimable_bytes_by_snapshot :: "uuid \<Rightarrow> (uuid \<times> int) list M" where
  "reclaimable_bytes_by_snapshot user_id = getsM (\<lambda>w. List.map_filter (\<lambda>s.
     let keys = only_in_snapshot w user_id (sn_id s) in
     if keys = [] then None else Some (sn_id s, sum_list (map (key_size (entries_of w (sn_id s))) keys)))
     (snapshots_of w user_id))"

section \<open>Facts\<close>

lemma set_map_filter_iff: "y \<in> set (List.map_filter f xs) \<longleftrightarrow> (\<exists>x \<in> set xs. f x = Some y)"
  by (induction xs) (auto simp: List.map_filter_def)

lemma entry_keys_iff: "k \<in> set (entry_keys w) \<longleftrightarrow> (\<exists>e \<in> set (entries w). se_storage_key e = Some k)"
  by (simp add: entry_keys_def set_map_filter_iff)

lemma live_keys_iff:
  "k \<in> set (live_keys w) \<longleftrightarrow> k \<noteq> [] \<and> ((\<exists>i \<in> set (items w). di_storage_key i = Some k)
     \<or> (\<exists>v \<in> set (versions w). fv_storage_key v = k) \<or> (\<exists>e \<in> set (entries w). se_storage_key e = Some k))"
  by (simp add: live_keys_def entry_keys_iff set_map_filter_iff image_iff) blast

lemma keeps_snapshot_reads [keeps_rules]:
  "keeps f (list_owner_items u)" "keeps f (list_all_items u)" "keeps f (repo_list_snapshots u)"
  "keeps f (get_snapshot u s)" "keeps f (list_entries s p)" "keeps f (list_all_entries s)"
  "keeps f (repo_get_settings u)" "keeps f (get_user_quota_bytes u)" "keeps f (is_referenced_by_snapshot k)"
  "keeps f referenced_storage_keys" "keeps f (used_snapshot_bytes u)" "keeps f (reclaimable_bytes_by_snapshot u)"
  unfolding list_owner_items_def list_all_items_def repo_list_snapshots_def get_snapshot_def list_entries_def
    list_all_entries_def repo_get_settings_def get_user_quota_bytes_def is_referenced_by_snapshot_def
    referenced_storage_keys_def used_snapshot_bytes_def reclaimable_bytes_by_snapshot_def
  by (intro keeps_rules)+

section \<open>The interface of a blob collector\<close>

text \<open>
  Two services delete blobs that nobody needs any more: the permanent deletion of items and the garbage
  collection. Both walk over candidate keys and drop those that a test does not protect. What they rely on
  is that dropping a blob does not change the verdict of the test on other keys.
\<close>

locale blob_collector = blob_store +
  fixes protected :: "'a \<Rightarrow> 'b \<Rightarrow> bool"
  assumes protected_drop: "j \<noteq> k \<Longrightarrow> protected (drop_key k w) j = protected w j"
begin

definition sweep :: "'b list \<Rightarrow> 'a \<Rightarrow> 'a" where
  "sweep ks w = fold (\<lambda>k v. if protected v k then v else drop_key k v) ks w"

lemma content_sweep:
  "distinct ks \<Longrightarrow> content (sweep ks w) j = (if j \<in> set ks \<and> \<not> protected w j then None else content w j)"
proof (induction ks arbitrary: w)
  case Nil
  then show ?case by (simp add: sweep_def)
next
  case (Cons k ks)
  let ?v = "if protected w k then w else drop_key k w"
  have "sweep (k # ks) w = sweep ks ?v" by (simp add: sweep_def)
  moreover have "content (sweep ks ?v) j = (if j \<in> set ks \<and> \<not> protected ?v j then None else content ?v j)"
    using Cons by simp
  moreover have "j \<noteq> k \<Longrightarrow> protected ?v j = protected w j" by (simp add: protected_drop)
  ultimately show ?case using Cons.prems by (auto simp: content_drop)
qed

lemma protected_survives: "distinct ks \<Longrightarrow> protected w j \<Longrightarrow> content (sweep ks w) j = content w j"
  by (simp add: content_sweep)

end

definition snapshot_refers :: "world \<Rightarrow> string \<Rightarrow> bool" where
  "snapshot_refers w k = (k \<in> set (entry_keys w))"

lemma entry_keys_remove: "entry_keys (blob_remove k w) = entry_keys w"
  by (simp add: entry_keys_def blob_remove_def)

interpretation snapshot_guard: blob_collector blob_get blob_put blob_remove snapshot_refers
  by unfold_locales (simp add: snapshot_refers_def entry_keys_remove)

end
