(* ===== verification/Trash.thy ===== *)
theory Trash
  imports SnapshotRepo FileVersions Naming ShareRepo Activity
begin

text \<open>
  \<open>app/trash\<close>: the trash of a drive. Trashing marks one row; deleting permanently removes the rows of
  the whole subtree, deepest first, with their versions and shares, gives the bytes back to the
  quota and drops the blobs that no snapshot holds.
\<close>

section \<open>Repository\<close>

definition trash_get :: "uuid \<Rightarrow> drive_item M" where
  "trash_get i = bindM (items_get_by_id i)
     (\<lambda>r. case r of None \<Rightarrow> raiseM NoResultFound | Some item \<Rightarrow> returnM item)"

definition mark_deleted :: "uuid \<Rightarrow> time \<Rightarrow> drive_item M" where
  "mark_deleted i deleted_at = thenM (trash_get i)
     (update_item i (\<lambda>t r. r\<lparr>di_is_deleted := True, di_deleted_at := Some deleted_at, di_updated_at := t\<rparr>))"

definition mark_restored :: "uuid \<Rightarrow> drive_item M" where
  "mark_restored i = thenM (trash_get i)
     (update_item i (\<lambda>t r. r\<lparr>di_is_deleted := False, di_deleted_at := None, di_updated_at := t\<rparr>))"

text \<open>SQL's LIKE: percent matches any text, underscore any character, backslash quotes the next one.\<close>

fun like :: "string \<Rightarrow> string \<Rightarrow> bool" where
  "like [] s = (s = [])"
| "like (p # ps) s =
     (if p = CHR ''%'' then list_ex (\<lambda>k. like ps (drop k s)) [0..<Suc (length s)]
      else if p = CHR ''_'' then s \<noteq> [] \<and> like ps (tl s)
      else if p = CHR 0x5C then
        (case ps of [] \<Rightarrow> False | q # qs \<Rightarrow> s \<noteq> [] \<and> hd s = q \<and> like qs (tl s))
      else s \<noteq> [] \<and> hd s = p \<and> like ps (tl s))"

definition trash_rows :: "world \<Rightarrow> uuid \<Rightarrow> string option \<Rightarrow> drive_item list" where
  "trash_rows w owner name = filter
     (\<lambda>i. di_owner_id i = owner \<and> di_is_deleted i
        \<and> (case name of None \<Rightarrow> True | Some n \<Rightarrow>
             n = [] \<or> like (db_lower w (''%'' @ n @ ''%'')) (db_lower w (di_name i)))) (items w)"

definition list_deleted :: "uuid \<Rightarrow> int \<Rightarrow> int \<Rightarrow> string option \<Rightarrow> (drive_item list \<times> nat) M" where
  "list_deleted owner offset limit name = liftM (\<lambda>w.
     let rows = trash_rows w owner name in
     case select_page offset limit (order_by DESC (\<lambda>i. case di_deleted_at i of None \<Rightarrow> 0 | Some t \<Rightarrow> t) rows) of
       Inl e \<Rightarrow> Inl e
     | Inr page \<Rightarrow> Inr (page, length rows))"

definition get_all_deleted :: "uuid \<Rightarrow> drive_item list M" where
  "get_all_deleted owner = getsM (\<lambda>w. filter (\<lambda>i. di_owner_id i = owner \<and> di_is_deleted i) (items w))"

text \<open>
  The DELETE of items and what their foreign keys do: versions, shares, links, preferences and search rows go with an
  item (CASCADE), log rows and upload sessions lose their reference (SET NULL), and an item that still has
  children makes the statement fail at the flush.
\<close>

definition erase_items :: "(uuid \<Rightarrow> bool) \<Rightarrow> world \<Rightarrow> world" where
  "erase_items P w = w\<lparr>items := row_delete (\<lambda>r. P (di_id r)) (items w),
     versions := row_delete (\<lambda>r. P (fv_file_id r)) (versions w),
     shares := row_delete (\<lambda>r. P (sh_item_id r)) (shares w),
     links := row_delete (\<lambda>r. P (sl_item_id r)) (links w),
     prefs := row_delete (\<lambda>r. P (pf_item_id r)) (prefs w),
     search_rows := row_delete (\<lambda>r. P (si_item_id r)) (search_rows w),
     embedding_rows := row_delete (\<lambda>r. P (em_item_id r)) (embedding_rows w),
     logs := map (\<lambda>r. r\<lparr>al_item_id := (case al_item_id r of None \<Rightarrow> None | Some i \<Rightarrow> if P i then None else Some i)\<rparr>) (logs w),
     sessions := map (\<lambda>r. r\<lparr>us_parent_id := (case us_parent_id r of None \<Rightarrow> None | Some i \<Rightarrow> if P i then None else Some i),
         us_drive_item_id := (case us_drive_item_id r of None \<Rightarrow> None | Some i \<Rightarrow> if P i then None else Some i)\<rparr>)
       (sessions w)\<rparr>"

definition hard_delete :: "uuid \<Rightarrow> unit M" where
  "hard_delete i = thenM (modifyM (erase_items (\<lambda>j. j = i))) flush_items"

text \<open>
  The descendants of a folder level by level, whoever owns them. The loop has no guard against a cycle: the
  number bounds its rounds, and reaching it is \<open>Diverges\<close>.
\<close>

fun children_levels :: "nat \<Rightarrow> world \<Rightarrow> uuid list \<Rightarrow> error + drive_item list" where
  "children_levels n w [] = Inr []"
| "children_levels 0 w (q # queue) = Inl Diverges"
| "children_levels (Suc n) w (q # queue) =
     (let cs = filter (\<lambda>i. case di_parent_id i of None \<Rightarrow> False | Some p \<Rightarrow> p \<in> set (q # queue)) (items w) in
      case children_levels n w (map di_id cs) of
        Inl e \<Rightarrow> Inl e
      | Inr rest \<Rightarrow> Inr (cs @ rest))"

definition get_children_recursive :: "uuid \<Rightarrow> drive_item list M" where
  "get_children_recursive i = liftM (\<lambda>w. children_levels (Suc (length (items w))) w [i])"

section \<open>Service\<close>

text \<open>The optional collaborators: the trash router passes the snapshot store and no activity log, the
  assistant (which only trashes and restores) passes both.\<close>

record trash_wiring =
  tw_activity :: bool
  tw_snapshot_refs :: bool

definition trash_router :: trash_wiring where
  "trash_router = \<lparr>tw_activity = False, tw_snapshot_refs = True\<rparr>"

definition trash_log :: "trash_wiring \<Rightarrow> uuid \<Rightarrow> activity_action \<Rightarrow> uuid \<Rightarrow> unit M" where
  "trash_log cfg user_id action item_id =
     whenM (tw_activity cfg) (thenM (log_activity user_id action (Some item_id)) (returnM ()))"

definition trash_item :: "trash_wiring \<Rightarrow> uuid \<Rightarrow> uuid \<Rightarrow> item_response M" where
  "trash_item cfg user_id item_id =
     bindM (items_get_by_id item_id) (\<lambda>r. case r of
         None \<Rightarrow> raiseM NotFoundError
       | Some item \<Rightarrow>
           thenM (guardM (di_owner_id item = user_id) ForbiddenError)
           (thenM (guardM (\<not> di_is_deleted item) BadOperation)
           (bindM now (\<lambda>t.
            bindM (mark_deleted item_id t) (\<lambda>item.
            thenM (trash_log cfg user_id TRASH item_id) (returnM (to_response item False None)))))))"

definition list_trash :: "uuid \<Rightarrow> int \<Rightarrow> int \<Rightarrow> string option \<Rightarrow> item_response page M" where
  "list_trash user_id page page_size name =
     bindM (list_deleted user_id ((page - 1) * page_size) page_size name) (\<lambda>(rows, count).
       returnM (page_create (map (\<lambda>i. to_response i False None) rows) (int count) page page_size))"

text \<open>Where a restored item goes: its parent, or the root when the parent is gone or in the trash.\<close>

definition restore_parent :: "drive_item \<Rightarrow> uuid option M" where
  "restore_parent item = (case di_parent_id item of
       None \<Rightarrow> returnM None
     | Some p \<Rightarrow> bindM (items_get_by_id p) (\<lambda>parent. returnM (case parent of
           None \<Rightarrow> None
         | Some parent \<Rightarrow> if di_is_deleted parent then None else Some p)))"

definition restore :: "trash_wiring \<Rightarrow> uuid \<Rightarrow> uuid \<Rightarrow> item_response M" where
  "restore cfg user_id item_id =
     bindM (items_get_by_id item_id) (\<lambda>r. case r of
         None \<Rightarrow> raiseM NotFoundError
       | Some item \<Rightarrow>
           thenM (guardM (di_owner_id item = user_id) ForbiddenError)
           (thenM (guardM (di_is_deleted item) BadOperation)
           (bindM (restore_parent item) (\<lambda>parent_id.
            bindM (unique_name (di_name item) parent_id user_id) (\<lambda>name.
            bindM (mark_restored item_id) (\<lambda>item.
            bindM (if parent_id \<noteq> di_parent_id item then update_parent item_id parent_id user_id else returnM item) (\<lambda>item.
            bindM (if name \<noteq> di_name item then update_name item_id name user_id else returnM item) (\<lambda>item.
            thenM (trash_log cfg user_id RESTORE item_id) (returnM (to_response item False None))))))))))"

definition delete_file_versions :: "drive_item \<Rightarrow> (int \<times> string list) M" where
  "delete_file_versions item =
     bindM (list_by_file (di_id item)) (\<lambda>vs.
     thenM (delete_by_file (di_id item))
       (returnM (sum_list (map fv_size_bytes vs), remdups (map fv_storage_key vs))))"

definition reclaim_blobs :: "trash_wiring \<Rightarrow> string list \<Rightarrow> unit M" where
  "reclaim_blobs cfg storage_keys = forM storage_keys (\<lambda>key.
     if \<not> tw_snapshot_refs cfg then returnM ()
     else bindM (is_referenced_by_snapshot key) (\<lambda>held.
       if held then returnM ()
       else bindM (storage_exists key) (\<lambda>there. whenM there (storage_delete key))))"

text \<open>One round over a descendant; \<open>add_file\<close> is the part for a file, on the running total and key set.\<close>

definition add_file :: "drive_item \<Rightarrow> int \<times> string list \<Rightarrow> (int \<times> string list) M" where
  "add_file item acc = bindM (delete_file_versions item)
     (\<lambda>(freed, keys). returnM (fst acc + freed, snd acc @ filter (\<lambda>k. k \<notin> set (snd acc)) keys))"

definition delete_child :: "drive_item \<Rightarrow> int \<times> string list \<Rightarrow> (int \<times> string list) M" where
  "delete_child child acc =
     bindM (if di_item_type child = FILE then add_file child acc else returnM acc) (\<lambda>acc.
     thenM (delete_by_item (di_id child)) (thenM (hard_delete (di_id child)) (returnM acc)))"

definition permanent_delete :: "trash_wiring \<Rightarrow> uuid \<Rightarrow> uuid \<Rightarrow> unit M" where
  "permanent_delete cfg user_id item_id =
     bindM (items_get_by_id item_id) (\<lambda>r. case r of
         None \<Rightarrow> raiseM NotFoundError
       | Some item \<Rightarrow>
           thenM (guardM (di_owner_id item = user_id) ForbiddenError)
           (thenM (guardM (di_is_deleted item) BadOperation)
           (bindM (if di_item_type item = FILE then add_file item (0, [])
             else bindM (get_children_recursive item_id) (\<lambda>descendants.
               foldM delete_child (rev descendants) (0, []))) (\<lambda>(total_freed, candidate_keys).
            thenM (delete_by_item item_id)
            (thenM (hard_delete item_id)
            (thenM (reclaim_blobs cfg candidate_keys)
            (thenM (whenM (total_freed > 0) (subtract_used_bytes user_id total_freed))
              (trash_log cfg user_id PERMANENT_DELETE item_id))))))))"

definition empty_trash :: "trash_wiring \<Rightarrow> uuid \<Rightarrow> unit M" where
  "empty_trash cfg user_id =
     bindM (get_all_deleted user_id) (\<lambda>all_deleted.
       let top_level = filter (\<lambda>i. case di_parent_id i of
           None \<Rightarrow> True | Some p \<Rightarrow> p \<notin> set (map di_id all_deleted)) all_deleted in
       forM top_level (\<lambda>item. permanent_delete cfg user_id (di_id item)))"

end
