(* ===== verification/TrashFacts.thy ===== *)
theory TrashFacts
  imports Trash "HOL-Library.Multiset"
begin

text \<open>
  What the deletion of a subtree does: the traversal returns every descendant, parents before children;
  deleting in the reverse order never leaves a child without its parent; the whole loop is one \<open>erase_items\<close>.
\<close>

section \<open>Erasing\<close>

lemma erase_erase: "erase_items P (erase_items Q w) = erase_items (\<lambda>j. P j \<or> Q j) w"
proof -
  have logs: "r\<lparr>al_item_id := (case case al_item_id r of None \<Rightarrow> None | Some i \<Rightarrow> if Q i then None else Some i of
        None \<Rightarrow> None | Some i \<Rightarrow> if P i then None else Some i)\<rparr>
      = r\<lparr>al_item_id := (case al_item_id r of None \<Rightarrow> None | Some i \<Rightarrow> if P i \<or> Q i then None else Some i)\<rparr>" for r :: activity_log
    by (auto split: option.splits)
  have opt: "(case case x of None \<Rightarrow> None | Some i \<Rightarrow> if Q i then None else Some i of
      None \<Rightarrow> None | Some i \<Rightarrow> if P i then None else Some i)
    = (case x of None \<Rightarrow> None | Some i \<Rightarrow> if P i \<or> Q i then None else Some i)" for x :: "uuid option"
    by (auto split: option.splits)
  show ?thesis by (simp add: erase_items_def row_delete_delete comp_def opt)
qed

lemma erase_none: "erase_items (\<lambda>_. False) w = w"
proof -
  have opt: "(case x of None \<Rightarrow> None | Some i \<Rightarrow> Some i) = x" for x :: "uuid option" by (cases x) simp_all
  show ?thesis by (simp add: erase_items_def opt row_delete_def cong: option.case_cong)
qed

lemma erase_fields [simp]:
  "items (erase_items P w) = row_delete (\<lambda>r. P (di_id r)) (items w)"
  "versions (erase_items P w) = row_delete (\<lambda>r. P (fv_file_id r)) (versions w)"
  "users (erase_items P w) = users w" "blobs (erase_items P w) = blobs w" "entries (erase_items P w) = entries w"
  "uuid_next (erase_items P w) = uuid_next w" "db_lower (erase_items P w) = db_lower w" "clock (erase_items P w) = clock w"
  by (simp_all add: erase_items_def)

text \<open>A set of items that holds, with every item, the children of that item.\<close>

definition closed_below :: "world \<Rightarrow> (uuid \<Rightarrow> bool) \<Rightarrow> bool" where
  "closed_below w P \<longleftrightarrow> (\<forall>x \<in> set (items w). \<forall>p. di_parent_id x = Some p \<longrightarrow> P p \<longrightarrow> P (di_id x))"

lemma erase_fk:
  assumes "fk_parent (items w)" "closed_below w P"
  shows "fk_parent (items (erase_items P w))"
  using assms unfolding fk_parent_iff closed_below_def by fastforce

lemma erase_items_ok:
  assumes "items_ok w" "closed_below w P"
  shows "items_ok (erase_items P w)"
proof -
  have "distinct (map (name_slot (db_lower w)) (filter indexed (row_delete (\<lambda>r. P (di_id r)) (items w))))"
  proof -
    have "filter indexed (row_delete (\<lambda>r. P (di_id r)) (items w)) = filter (\<lambda>r. \<not> P (di_id r)) (filter indexed (items w))"
      by (simp add: row_delete_def conj_commute)
    moreover have "distinct (map (name_slot (db_lower w)) (filter indexed (items w)))"
      using assms(1) by (simp add: items_ok_def uq_same_folder_name_def)
    ultimately show ?thesis by (simp only: distinct_map_filter)
  qed
  moreover have "pk_items (items (erase_items P w))"
    using assms(1) by (simp add: items_ok_def pk_items_def row_delete_distinct)
  ultimately show ?thesis using assms erase_fk [of w P] by (simp add: items_ok_def uq_same_folder_name_def)
qed

lemma erase_forest:
  assumes "forest w" "closed_below w P"
  shows "forest (erase_items P w)"
proof -
  have "fk_parent (row_delete (\<lambda>r. P (di_id r)) (items w))"
    using erase_fk [of w P] assms by (simp add: forest_def)
  from forest_delete [OF assms(1) this] show ?thesis by (rule forest_cong [rotated 2]) simp_all
qed

section \<open>The traversal\<close>

definition has_parent_in :: "uuid list \<Rightarrow> drive_item \<Rightarrow> bool" where
  "has_parent_in q i = (case di_parent_id i of None \<Rightarrow> False | Some p \<Rightarrow> p \<in> set q)"

lemma has_parent_in_iff: "has_parent_in q i \<longleftrightarrow> (\<exists>p \<in> set q. di_parent_id i = Some p)"
  by (auto simp: has_parent_in_def split: option.splits)

lemma children_levels_Suc:
  "q \<noteq> [] \<Longrightarrow> children_levels (Suc n) w q =
    (let cs = filter (has_parent_in q) (items w) in
     case children_levels n w (map di_id cs) of Inl e \<Rightarrow> Inl e | Inr rest \<Rightarrow> Inr (cs @ rest))"
  by (cases q) (simp_all add: has_parent_in_def [abs_def])

declare children_levels.simps(3) [simp del]

lemma children_levels_total:
  assumes w: "forest w"
  shows "(\<forall>x \<in> set q. k \<le> depth_of w x) \<Longrightarrow> length (items w) < n + k \<Longrightarrow>
    \<exists>r. children_levels n w q = Inr r"
proof (induction n arbitrary: q k)
  case 0
  have "q = []"
  proof (rule ccontr)
    assume "q \<noteq> []"
    then have "k \<le> depth_of w (hd q)" using 0(1) by simp
    also have "\<dots> \<le> length (items w)" using drive_tree.height_bound [OF w] card_item_ids le_trans by blast
    finally show False using 0(2) by simp
  qed
  then show ?case by simp
next
  case (Suc n)
  show ?case
  proof (cases "q = []")
    case False
    let ?cs = "filter (has_parent_in q) (items w)"
    have "\<forall>x \<in> set (map di_id ?cs). Suc k \<le> depth_of w x"
    proof
      fix x assume "x \<in> set (map di_id ?cs)"
      then obtain i p where i: "i \<in> set (items w)" "x = di_id i" "p \<in> set q" "di_parent_id i = Some p"
        by (auto simp: has_parent_in_iff)
      then have "parent_of w x = Some p" by (simp add: parent_of_def forest_find [OF w])
      from drive_tree.height_less [OF w this] Suc.prems(1) i(3) show "Suc k \<le> depth_of w x" by fastforce
    qed
    with Suc.IH [of "map di_id ?cs" "Suc k"] Suc.prems(2) obtain r where "children_levels n w (map di_id ?cs) = Inr r" by auto
    with False show ?thesis by (simp add: children_levels_Suc)
  qed simp
qed

lemma children_levels_step:
  assumes "children_levels (Suc n) w q = Inr r" "q \<noteq> []"
  obtains rest where "children_levels n w (map di_id (filter (has_parent_in q) (items w))) = Inr rest"
    "r = filter (has_parent_in q) (items w) @ rest"
  using assms by (auto simp: children_levels_Suc Let_def split: sum.splits)

lemma children_levels_cover:
  "children_levels n w q = Inr r \<Longrightarrow> x \<in> set (items w) \<Longrightarrow> has_parent_in q x \<Longrightarrow> x \<in> set r"
proof (induction n arbitrary: q r)
  case 0
  then show ?case by (cases q) (auto simp: has_parent_in_iff)
next
  case (Suc n)
  then have "q \<noteq> []" by (auto simp: has_parent_in_iff)
  with Suc.prems show ?case by (auto elim: children_levels_step)
qed

text \<open>The children of an item come after it.\<close>

lemma children_levels_order:
  "children_levels n w q = Inr r \<Longrightarrow> r = us @ c # vs \<Longrightarrow> x \<in> set (items w) \<Longrightarrow> di_parent_id x = Some (di_id c) \<Longrightarrow> x \<in> set vs"
proof (induction n arbitrary: q r us)
  case 0
  then show ?case by (cases q) auto
next
  case (Suc n)
  then have "q \<noteq> []" by auto
  then obtain rest where rest: "children_levels n w (map di_id (filter (has_parent_in q) (items w))) = Inr rest"
      "r = filter (has_parent_in q) (items w) @ rest"
    using children_levels_step [OF Suc.prems(1)] by blast
  let ?cs = "filter (has_parent_in q) (items w)"
  have later: "us = ?cs @ zs \<Longrightarrow> rest = zs @ c # vs \<Longrightarrow> ?case" for zs using Suc.IH [OF rest(1)] Suc.prems(3,4) by blast
  from Suc.prems(2) rest(2) obtain zs where "?cs = us @ zs \<and> zs @ rest = c # vs \<or> us = ?cs @ zs \<and> rest = zs @ c # vs"
    by (auto simp: append_eq_append_conv2)
  then show ?case
  proof
    assume a: "?cs = us @ zs \<and> zs @ rest = c # vs"
    show ?case
    proof (cases zs)
      case Nil
      with a later [of "[]"] show ?thesis by simp
    next
      case (Cons z zs')
      with a have "c \<in> set ?cs" "vs = zs' @ rest" by auto
      moreover have "has_parent_in (map di_id ?cs) x" using calculation(1) Suc.prems(4) by (simp add: has_parent_in_iff)
      ultimately show ?thesis using children_levels_cover [OF rest(1) Suc.prems(3)] by simp
    qed
  qed (use later in blast)
qed

lemma children_levels_below:
  assumes "pk_items (items w)"
  shows "children_levels n w q = Inr r \<Longrightarrow> c \<in> set r \<Longrightarrow> c \<in> set (items w) \<and> (\<exists>p \<in> set q. (di_id c, p) \<in> (parent_rel w)\<^sup>+)"
proof (induction n arbitrary: q r c)
  case 0
  then show ?case by (cases q) auto
next
  case (Suc n)
  then have "q \<noteq> []" by auto
  then obtain rest where rest: "children_levels n w (map di_id (filter (has_parent_in q) (items w))) = Inr rest"
      "r = filter (has_parent_in q) (items w) @ rest"
    using children_levels_step [OF Suc.prems(1)] by blast
  have up: "\<exists>p \<in> set q. (di_id d, p) \<in> (parent_rel w)\<^sup>+" if d: "d \<in> set (items w)" "has_parent_in q d" for d
  proof -
    from d(2) obtain p where "p \<in> set q" "di_parent_id d = Some p" by (auto simp: has_parent_in_iff)
    then show ?thesis using assms d(1) by (force simp: parent_rel_def parent_of_iff)
  qed
  from Suc.prems(2) rest(2) consider "c \<in> set (items w)" "has_parent_in q c" | "c \<in> set rest" by auto
  then show ?case
  proof cases
    case 2
    with Suc.IH [OF rest(1)] obtain d where "c \<in> set (items w)" "d \<in> set (items w)" "has_parent_in q d" "(di_id c, di_id d) \<in> (parent_rel w)\<^sup>+"
      by auto
    with up show ?thesis by (meson trancl_trans)
  qed (use up in blast)
qed

lemmas children_levels_parts = children_levels_cover children_levels_order children_levels_below [rotated]

section \<open>The loop over the descendants\<close>

definition is_file :: "world \<Rightarrow> uuid \<Rightarrow> bool" where
  "is_file w i = (case find_item w i of None \<Rightarrow> False | Some r \<Rightarrow> di_item_type r = FILE)"

text \<open>The versions that deleting the items of \<open>P\<close> pays for.\<close>

definition charged :: "world \<Rightarrow> (uuid \<Rightarrow> bool) \<Rightarrow> file_version list" where
  "charged w P = filter (\<lambda>v. P (fv_file_id v) \<and> is_file w (fv_file_id v)) (versions w)"

definition charged_bytes :: "world \<Rightarrow> (uuid \<Rightarrow> bool) \<Rightarrow> int" where
  "charged_bytes w P = sum_list (map fv_size_bytes (charged w P))"

definition charged_state :: "world \<Rightarrow> (uuid \<Rightarrow> bool) \<Rightarrow> int \<times> string list \<Rightarrow> bool" where
  "charged_state w P acc \<longleftrightarrow> fst acc = charged_bytes w P \<and> distinct (snd acc)
     \<and> set (snd acc) = fv_storage_key ` set (charged w P)"

lemma sum_filter_or:
  "(\<And>x. A x \<Longrightarrow> \<not> B x) \<Longrightarrow> sum_list (map f (filter (\<lambda>x. A x \<or> B x) xs))
    = sum_list (map f (filter A xs)) + (sum_list (map f (filter B xs)) :: int)"
  by (induction xs) auto

lemma run_add_file:
  "add_file c (t, ks) v = (Inr (t + sum_list (map fv_size_bytes (versions_of v (di_id c))),
      ks @ filter (\<lambda>k. k \<notin> set ks) (remdups (map fv_storage_key (order_by DESC fv_version_no (versions_of v (di_id c)))))),
    versions_update (row_delete (\<lambda>r. fv_file_id r = di_id c)) v)"
proof -
  have "mset (order_by DESC key rows) = mset rows" for key :: "file_version \<Rightarrow> int" and rows
    by (simp add: order_by_def)
  then have "sum_list (map f (order_by DESC key rows)) = sum_list (map f rows)"
    for f :: "file_version \<Rightarrow> int" and key :: "file_version \<Rightarrow> int" and rows
    by (metis mset_map sum_mset_sum_list)
  then show ?thesis by (simp add: add_file_def delete_file_versions_def list_by_file_def delete_by_file_def run_bind run_then)
qed

lemma erase_after_parts:
  "erase_items (\<lambda>j. j = i) (shares_update (row_delete (\<lambda>s. sh_item_id s = i)) v) = erase_items (\<lambda>j. j = i) v"
  "erase_items (\<lambda>j. j = i) (shares_update (row_delete (\<lambda>s. sh_item_id s = i))
     (versions_update (row_delete (\<lambda>r. fv_file_id r = i)) v)) = erase_items (\<lambda>j. j = i) v"
  "erase_items (\<lambda>j. j = i) (versions_update (row_delete (\<lambda>r. fv_file_id r = i)) v) = erase_items (\<lambda>j. j = i) v"
  by (simp_all add: erase_items_def row_delete_delete)

lemma charged_insert:
  assumes "is_file w c" "\<not> P c"
  shows "set (charged w (\<lambda>j. P j \<or> j = c)) = set (charged w P) \<union> set (versions_of w c)"
    and "charged_bytes w (\<lambda>j. P j \<or> j = c) = charged_bytes w P + sum_list (map fv_size_bytes (versions_of w c))"
proof -
  have eq: "(P j \<or> j = c) \<and> is_file w j \<longleftrightarrow> P j \<and> is_file w j \<or> j = c" for j using assms by blast
  show "set (charged w (\<lambda>j. P j \<or> j = c)) = set (charged w P) \<union> set (versions_of w c)"
    by (auto simp: charged_def versions_of_def eq)
  show "charged_bytes w (\<lambda>j. P j \<or> j = c) = charged_bytes w P + sum_list (map fv_size_bytes (versions_of w c))"
    unfolding charged_bytes_def charged_def versions_of_def eq by (rule sum_filter_or) (use assms in blast)
qed

lemma charged_same:
  assumes "P c \<or> \<not> is_file w c"
  shows "charged w (\<lambda>j. P j \<or> j = c) = charged w P"
  unfolding charged_def by (rule filter_cong) (use assms in auto)

text \<open>The counting of one file, whether or not an earlier round has erased it.\<close>

lemma add_file_charged:
  assumes acc: "charged_state w P acc" and c: "is_file w (di_id c)"
  obtains acc' where "add_file c acc (erase_items P w) =
      (Inr acc', versions_update (row_delete (\<lambda>r. fv_file_id r = di_id c)) (erase_items P w))"
    and "charged_state w (\<lambda>j. P j \<or> j = di_id c) acc'"
proof -
  let ?P = "\<lambda>j. P j \<or> j = di_id c"
  let ?vs = "versions_of (erase_items P w) (di_id c)"
  let ?new = "remdups (map fv_storage_key (order_by DESC fv_version_no ?vs))"
  have vs: "?vs = (if P (di_id c) then [] else versions_of w (di_id c))"
    by (auto simp: versions_of_def row_delete_def filter_empty_conv intro!: filter_cong)
  have "charged_state w ?P (fst acc + sum_list (map fv_size_bytes ?vs), snd acc @ filter (\<lambda>k. k \<notin> set (snd acc)) ?new)"
  proof (cases "P (di_id c)")
    case True
    then have "charged w ?P = charged w P" by (intro charged_same) simp
    with True acc show ?thesis by (simp add: vs charged_state_def charged_bytes_def order_by_def)
  next
    case False
    from charged_insert [where P = P, OF c False] acc False show ?thesis by (auto simp: vs charged_state_def)
  qed
  then show thesis using run_add_file [of c "fst acc" "snd acc" "erase_items P w"] by (intro that) simp_all
qed

lemma run_delete_child:
  assumes acc: "charged_state w P acc" and c: "c \<in> set (items w)" "pk_items (items w)"
    and ok: "items_ok (erase_items (\<lambda>j. P j \<or> j = di_id c) w)"
  obtains acc' where "delete_child c acc (erase_items P w) = (Inr acc', erase_items (\<lambda>j. P j \<or> j = di_id c) w)"
    and "charged_state w (\<lambda>j. P j \<or> j = di_id c) acc'"
proof -
  have single: "erase_items (\<lambda>j. j = di_id c) (erase_items P w) = erase_items (\<lambda>j. P j \<or> j = di_id c) w"
    by (simp add: erase_erase disj_commute)
  have type: "is_file w (di_id c) \<longleftrightarrow> di_item_type c = FILE" by (simp add: is_file_def find_item_mem [OF c(2,1)])
  show thesis
  proof (cases "di_item_type c = FILE")
    case True
    obtain acc' where a: "add_file c acc (erase_items P w) =
        (Inr acc', versions_update (row_delete (\<lambda>r. fv_file_id r = di_id c)) (erase_items P w))"
      "charged_state w (\<lambda>j. P j \<or> j = di_id c) acc'"
      using add_file_charged [OF acc] type True by blast
    then show thesis using True ok
      by (intro that) (simp_all add: delete_child_def run_bind run_then delete_by_item_def hard_delete_def run_flush_items
          erase_after_parts single)
  next
    case False
    then have "charged w (\<lambda>j. P j \<or> j = di_id c) = charged w P" using type by (intro charged_same) simp
    with acc have "charged_state w (\<lambda>j. P j \<or> j = di_id c) acc" by (simp add: charged_state_def charged_bytes_def)
    then show thesis using False ok
      by (intro that) (simp_all add: delete_child_def run_bind run_then delete_by_item_def hard_delete_def run_flush_items
          erase_after_parts single)
  qed
qed

lemma run_delete_children:
  assumes ok: "items_ok w"
  shows "set cs \<subseteq> set (items w) \<Longrightarrow> closed_below w P \<Longrightarrow>
    (\<And>us c vs x. cs = us @ c # vs \<Longrightarrow> x \<in> set (items w) \<Longrightarrow> di_parent_id x = Some (di_id c) \<Longrightarrow> P (di_id x) \<or> di_id x \<in> di_id ` set us) \<Longrightarrow>
    charged_state w P acc \<Longrightarrow>
    \<exists>acc'. foldM delete_child cs acc (erase_items P w) = (Inr acc', erase_items (\<lambda>j. P j \<or> j \<in> di_id ` set cs) w)
      \<and> charged_state w (\<lambda>j. P j \<or> j \<in> di_id ` set cs) acc'"
proof (induction cs arbitrary: P acc)
  case Nil
  then show ?case by simp
next
  case (Cons c cs)
  let ?P = "\<lambda>j. P j \<or> j = di_id c"
  have closed: "closed_below w ?P"
    unfolding closed_below_def
  proof (intro ballI allI impI)
    fix x p assume x: "x \<in> set (items w)" "di_parent_id x = Some p" "P p \<or> p = di_id c"
    show "P (di_id x) \<or> di_id x = di_id c"
    proof (cases "P p")
      case True
      with x Cons.prems(2) show ?thesis unfolding closed_below_def by blast
    next
      case False
      with x Cons.prems(3) [of "[]" c cs x] show ?thesis by simp
    qed
  qed
  obtain acc1 where one: "delete_child c acc (erase_items P w) = (Inr acc1, erase_items ?P w)" "charged_state w ?P acc1"
    using run_delete_child [OF Cons.prems(4) _ _ erase_items_ok [OF ok closed]] Cons.prems(1) ok
    by (metis items_ok_def list.set_intros(1) subsetD)
  have "\<exists>acc'. foldM delete_child cs acc1 (erase_items ?P w) = (Inr acc', erase_items (\<lambda>j. ?P j \<or> j \<in> di_id ` set cs) w)
      \<and> charged_state w (\<lambda>j. ?P j \<or> j \<in> di_id ` set cs) acc'"
  proof (rule Cons.IH [OF _ closed _ one(2)])
    show "set cs \<subseteq> set (items w)" using Cons.prems(1) by simp
    fix us d vs x assume "cs = us @ d # vs" "x \<in> set (items w)" "di_parent_id x = Some (di_id d)"
    with Cons.prems(3) [of "c # us" d vs x] show "?P (di_id x) \<or> di_id x \<in> di_id ` set us" by auto
  qed
  moreover have "(\<lambda>j. ?P j \<or> j \<in> di_id ` set cs) = (\<lambda>j. P j \<or> j \<in> di_id ` set (c # cs))" by auto
  ultimately show ?case using one(1) by (simp add: run_bind)
qed

section \<open>Permanent deletion\<close>

lemma reclaim_one:
  assumes "resolve_path key = Inr key" "tw_snapshot_refs cfg"
  shows "reclaim_blobs cfg [key] v = (Inr (), if snapshot_refers v key then v else blob_remove key v)"
proof -
  have "blob_get v key = None \<Longrightarrow> blob_remove key v = v"
  proof -
    assume "blob_get v key = None"
    then have "row_delete (\<lambda>b. bl_key b = key) (blobs v) = blobs v"
      by (auto simp: blob_get_def row_get_None row_delete_def filter_id_conv)
    then show ?thesis by (simp add: blob_remove_def)
  qed
  with assms show ?thesis
    by (simp add: reclaim_blobs_def run_then run_bind is_referenced_by_snapshot_def run_when
        run_storage_exists run_storage_delete snapshot_refers_def)
qed

lemma run_reclaim:
  assumes "\<forall>k \<in> set ks. resolve_path k = Inr k" "tw_snapshot_refs cfg"
  shows "reclaim_blobs cfg ks v = (Inr (), snapshot_guard.sweep ks v)"
  using assms(1)
proof (induction ks arbitrary: v)
  case Nil
  then show ?case by (simp add: reclaim_blobs_def snapshot_guard.sweep_def)
next
  case (Cons k ks)
  have "reclaim_blobs cfg (k # ks) v = thenM (reclaim_blobs cfg [k]) (reclaim_blobs cfg ks) v"
    by (simp add: reclaim_blobs_def run_then split: prod.splits sum.splits)
  also have "\<dots> = (Inr (), snapshot_guard.sweep (k # ks) v)"
    using Cons reclaim_one [OF _ assms(2)] by (simp add: run_then snapshot_guard.sweep_def)
  finally show ?case .
qed

lemma keeps_sweep:
  assumes "\<And>g w. f (blobs_update g w) = f w"
  shows "f (snapshot_guard.sweep ks v) = f v"
  unfolding snapshot_guard.sweep_def by (induction ks arbitrary: v) (simp_all add: keeps_put_blob [OF assms])

definition subtree :: "world \<Rightarrow> uuid \<Rightarrow> uuid \<Rightarrow> bool" where
  "subtree w i j \<longleftrightarrow> (j, i) \<in> (parent_rel w)\<^sup>*"

lemma subtree_closed: "pk_items (items w) \<Longrightarrow> closed_below w (subtree w i)"
  unfolding closed_below_def subtree_def
  by (auto simp: parent_rel_def parent_of_iff intro: converse_rtrancl_into_rtrancl)

lemma subtree_of_file:
  assumes "forest w" "find_item w i = Some it" "di_item_type it = FILE"
  shows "subtree w i j \<longleftrightarrow> j = i"
proof
  assume s: "subtree w i j"
  show "j = i"
  proof (rule ccontr)
    assume "j \<noteq> i"
    with s obtain y where "(y, i) \<in> parent_rel w" unfolding subtree_def by (metis rtranclE)
    then obtain r where r: "r \<in> set (items w)" "di_parent_id r = Some i"
      using assms(1) by (auto simp: parent_rel_def parent_of_iff forest_def)
    have "it \<in> set (items w)" "di_id it = i" using find_item_Some [OF assms(2)] by auto
    with r assms(1,3) show False by (auto simp: forest_def parents_are_folders_def)
  qed
qed (simp add: subtree_def)

lemma subtree_of_folder:
  assumes w: "forest w" and r: "children_levels n w [i] = Inr r"
  shows "subtree w i j \<longleftrightarrow> j \<in> di_id ` set r \<or> j = i"
proof
  have pk: "pk_items (items w)" using w by (simp add: forest_def)
  note parts = children_levels_parts [OF r]
  show "j \<in> di_id ` set r \<or> j = i" if "subtree w i j"
    using that unfolding subtree_def
  proof (induction rule: converse_rtrancl_induct)
    case (step y z)
    then obtain x where x: "x \<in> set (items w)" "di_id x = y" "di_parent_id x = Some z"
      using pk by (auto simp: parent_rel_def parent_of_iff)
    from step.IH show ?case
    proof
      assume "z \<in> di_id ` set r"
      then obtain c us vs where "z = di_id c" "r = us @ c # vs" by (metis image_iff split_list)
      with parts(2) x show ?thesis by (metis in_set_conv_decomp append_Cons append_assoc image_eqI Un_iff set_append list.set_intros(2))
    next
      assume "z = i"
      with parts(1) x show ?thesis by (force simp: has_parent_in_iff)
    qed
  qed simp
  show "subtree w i j" if "j \<in> di_id ` set r \<or> j = i"
    using that parts(3) pk unfolding subtree_def by (fastforce dest: trancl_into_rtrancl)
qed

text \<open>The rows are gone and the bytes counted when the blobs' turn comes.\<close>

lemma run_delete_rows:
  assumes w: "forest w" and ok: "items_ok w" and it: "find_item w i = Some it"
  obtains acc where
    "bindM (if di_item_type it = FILE then add_file it (0, [])
       else bindM (get_children_recursive i) (\<lambda>ds. foldM delete_child (rev ds) (0, []))) (\<lambda>acc.
     thenM (delete_by_item i) (thenM (hard_delete i) (returnM acc))) w = (Inr acc, erase_items (subtree w i) w)"
    "charged_state w (subtree w i) acc"
proof -
  have pk: "pk_items (items w)" using w by (simp add: forest_def)
  have item: "it \<in> set (items w)" "di_id it = i" using find_item_Some [OF it] by auto
  have start: "charged_state w (\<lambda>_. False) (0, [])" by (simp add: charged_state_def charged_bytes_def charged_def)
  have okB: "items_ok (erase_items (subtree w i) w)" by (rule erase_items_ok [OF ok subtree_closed [OF pk]])
  show thesis
  proof (cases "di_item_type it = FILE")
    case True
    have B: "subtree w i = (\<lambda>j. False \<or> j = di_id it)" using subtree_of_file [OF w it True] item by auto
    have "is_file w (di_id it)" using it item True by (simp add: is_file_def)
    from add_file_charged [OF start this] obtain acc where
      a: "add_file it (0, []) w = (Inr acc, versions_update (row_delete (\<lambda>r. fv_file_id r = i)) w)"
      and c: "charged_state w (subtree w i) acc" using item by (auto simp: erase_none B)
    show thesis
      by (rule that [OF _ c]) (use a True okB item in \<open>simp add: B run_bind run_then delete_by_item_def hard_delete_def run_flush_items erase_after_parts\<close>)
  next
    case False
    obtain r where r: "children_levels (Suc (length (items w))) w [i] = Inr r"
      using children_levels_total [OF w, of "[i]" 0 "Suc (length (items w))"] by auto
    note parts = children_levels_parts [OF r]
    let ?P = "\<lambda>j. False \<or> j \<in> di_id ` set (rev r)"
    have "closed_below w (\<lambda>_. False)" by (simp add: closed_below_def)
    moreover have "set (rev r) \<subseteq> set (items w)" using parts(3) pk by auto
    moreover have "False \<or> di_id x \<in> di_id ` set us"
      if "rev r = us @ c # vs" "x \<in> set (items w)" "di_parent_id x = Some (di_id c)" for us c vs x
    proof -
      have "r = rev vs @ c # rev us" using that(1) by (metis append.assoc append_Cons append_Nil rev.simps(2) rev_append rev_rev_ident)
      from parts(2) [OF this that(2,3)] show ?thesis by simp
    qed
    ultimately obtain acc where loop: "foldM delete_child (rev r) (0, []) (erase_items (\<lambda>_. False) w) = (Inr acc, erase_items ?P w)"
      and c: "charged_state w ?P acc"
      using run_delete_children [OF ok, of "rev r" "\<lambda>_. False" "(0, [])"] start by blast
    have B: "subtree w i = (\<lambda>j. ?P j \<or> j = i)" using subtree_of_folder [OF w r] by auto
    have single: "erase_items (\<lambda>j. j = i) (erase_items ?P w) = erase_items (subtree w i) w"
      by (simp add: erase_erase B disj_commute)
    have "\<not> is_file w i" using it False by (simp add: is_file_def)
    then have "charged w (subtree w i) = charged w ?P" unfolding B by (intro charged_same) simp
    with c have cB: "charged_state w (subtree w i) acc" by (simp add: charged_state_def charged_bytes_def)
    show thesis
      by (rule that [OF _ cB]) (use loop False okB single r in \<open>simp add: get_children_recursive_def erase_none run_bind run_then
          delete_by_item_def hard_delete_def run_flush_items erase_after_parts\<close>)
  qed
qed

section \<open>Trashing and restoring\<close>

lemma set_item_set_item:
  "(\<And>r. di_id (f r) = di_id r) \<Longrightarrow> set_item i g (set_item i f w) = set_item i (\<lambda>r. g (f r)) w"
  by (simp add: set_item_def row_update_def comp_def if_distrib cong: if_cong)

lemma set_item_cong:
  assumes "pk_items (items w)" "find_item w i = Some it" "f it = g it"
  shows "set_item i f w = set_item i g w"
proof -
  have "r \<in> set (items w) \<Longrightarrow> di_id r = i \<Longrightarrow> f r = g r" for r
    using assms find_item_mem by fastforce
  then have "row_update di_id i f (items w) = row_update di_id i g (items w)" by (simp add: row_update_def)
  then show ?thesis by (simp add: set_item_def)
qed

definition restored_as :: "uuid option \<Rightarrow> string \<Rightarrow> uuid option \<Rightarrow> time \<Rightarrow> drive_item \<Rightarrow> drive_item" where
  "restored_as parent name by t r = r\<lparr>di_is_deleted := False, di_deleted_at := None, di_parent_id := parent,
     di_name := name, di_updated_by := by, di_updated_at := t\<rparr>"

lemma restored_as_simps [simp]:
  "di_id (restored_as p n b t r) = di_id r" "di_owner_id (restored_as p n b t r) = di_owner_id r"
  "di_parent_id (restored_as p n b t r) = p" "di_name (restored_as p n b t r) = n"
  "di_is_deleted (restored_as p n b t r) = False" "di_item_type (restored_as p n b t r) = di_item_type r"
  by (simp_all add: restored_as_def)

definition restore_target :: "world \<Rightarrow> drive_item \<Rightarrow> uuid option" where
  "restore_target w item = (case di_parent_id item of
       None \<Rightarrow> None
     | Some p \<Rightarrow> (case find_item w p of
           None \<Rightarrow> None
         | Some parent \<Rightarrow> if di_is_deleted parent then None else Some p))"

lemma run_restore_parent: "restore_parent item w = (Inr (restore_target w item), w)"
  by (simp add: restore_parent_def restore_target_def run_bind split: option.splits)

lemma trash_log_InrE:
  assumes "trash_log cfg u a i w = (Inr x, w')"
  obtains "items w' = items w" "uuid_next w \<le> uuid_next w'" "db_lower w' = db_lower w" "clock w' = clock w"
proof (cases "tw_activity cfg")
  case True
  then obtain r where "log_activity u a (Some i) w = (r, w')"
    using assms by (auto simp: trash_log_def whenM_def elim!: then_InrE)
  from log_activity_frame [OF this] show thesis by (intro that)
next
  case False
  with assms that show thesis by (simp add: trash_log_def whenM_def)
qed

lemma mark_restored_InrE:
  assumes "mark_restored i w = (Inr r, w')"
  obtains old where "find_item w i = Some old" "r = old\<lparr>di_is_deleted := False, di_deleted_at := None, di_updated_at := clock w\<rparr>"
    "w' = set_item i (\<lambda>r. r\<lparr>di_is_deleted := False, di_deleted_at := None, di_updated_at := clock w\<rparr>) w" "items_ok w'"
proof -
  obtain x w1 where "trash_get i w = (Inr x, w1)"
    and u: "update_item i (\<lambda>t r. r\<lparr>di_is_deleted := False, di_deleted_at := None, di_updated_at := t\<rparr>) w1 = (Inr r, w')"
    using assms unfolding mark_restored_def by (rule then_InrE)
  then have "w1 = w" by (auto simp: trash_get_def run_bind split: option.splits)
  with update_item_InrE [OF u] that show thesis by metis
qed

text \<open>The three updates of a restore are one: the row is live, under its target and the name found.\<close>

lemma restore_updates:
  assumes pk: "pk_items (items w)" and it: "find_item w i = Some it" and m: "mark_restored i w = (Inr it1, w1)"
    and p: "(if p \<noteq> di_parent_id it1 then update_parent i p u else returnM it1) w1 = (Inr it2, w2)"
    and n: "(if n \<noteq> di_name it2 then update_name i n u else returnM it2) w2 = (Inr it3, w3)"
  obtains b where "w3 = set_item i (restored_as p n b (clock w)) w" "it3 = restored_as p n b (clock w) it" "items_ok w3"
proof -
  let ?f = "\<lambda>r. r\<lparr>di_is_deleted := False, di_deleted_at := None, di_updated_at := clock w\<rparr>"
  from mark_restored_InrE [OF m] it have 1: "it1 = ?f it" "w1 = set_item i ?f w" "items_ok w1" by (metis option.inject)+
  have clock: "clock (set_item i h v) = clock v" for h v by (simp add: set_item_def)
  define b2 where "b2 = (if p \<noteq> di_parent_id it1 then Some u else di_updated_by it)"
  let ?g = "\<lambda>r. r\<lparr>di_is_deleted := False, di_deleted_at := None, di_parent_id := p, di_updated_by := b2,
     di_updated_at := clock w\<rparr>"
  have 2: "it2 = ?g it \<and> w2 = set_item i ?g w \<and> items_ok w2"
  proof (cases "p = di_parent_id it1")
    case True
    then have same: "it2 = it1" "w2 = w1" using p by simp_all
    have "p = di_parent_id it" "b2 = di_updated_by it" using True by (simp_all add: 1(1) b2_def)
    then have eq: "?f it = ?g it" by (cases it) simp
    have "set_item i ?f w = set_item i ?g w" by (rule set_item_cong [where f = ?f and g = ?g, OF pk it eq])
    with 1 eq show ?thesis unfolding same by metis
  next
    case False
    then have "update_parent i p u w1 = (Inr it2, w2)" using p by simp
    from update_item_InrE [OF this [unfolded update_parent_def]] obtain old where
      a: "find_item w1 i = Some old" "it2 = old\<lparr>di_parent_id := p, di_updated_by := Some u, di_updated_at := clock w1\<rparr>"
      "w2 = set_item i (\<lambda>r. r\<lparr>di_parent_id := p, di_updated_by := Some u, di_updated_at := clock w1\<rparr>) w1" "items_ok w2" by metis
    have "old = ?f it" using a(1) it by (simp add: 1(2) find_item_set_item)
    then have "it2 = ?g it" using False by (simp add: a(2) 1(2) clock b2_def)
    moreover have "w2 = set_item i ?g w" using False by (simp add: a(3) 1(2) clock set_item_set_item b2_def)
    ultimately show ?thesis using a(4) by simp
  qed
  then have 2: "it2 = ?g it" "w2 = set_item i ?g w" "items_ok w2" by blast+
  define b3 where "b3 = (if n \<noteq> di_name it2 then Some u else b2)"
  have "it3 = restored_as p n b3 (clock w) it \<and> w3 = set_item i (restored_as p n b3 (clock w)) w \<and> items_ok w3"
  proof (cases "n = di_name it2")
    case True
    then have same: "it3 = it2" "w3 = w2" using n by simp_all
    have "n = di_name it" "b3 = b2" using True by (simp_all add: 2(1) b3_def)
    then have eq: "?g it = restored_as p n b3 (clock w) it" by (cases it) (simp add: restored_as_def)
    have "set_item i ?g w = set_item i (restored_as p n b3 (clock w)) w" by (rule set_item_cong [where f = ?g and g = "restored_as p n b3 (clock w)", OF pk it eq])
    with 2 eq show ?thesis unfolding same by metis
  next
    case False
    then have "update_name i n u w2 = (Inr it3, w3)" using n by simp
    from update_item_InrE [OF this [unfolded update_name_def]] obtain old where
      a: "find_item w2 i = Some old" "it3 = old\<lparr>di_name := n, di_updated_by := Some u, di_updated_at := clock w2\<rparr>"
      "w3 = set_item i (\<lambda>r. r\<lparr>di_name := n, di_updated_by := Some u, di_updated_at := clock w2\<rparr>) w2" "items_ok w3" by metis
    have "old = ?g it" using a(1) it by (simp add: 2(2) find_item_set_item)
    then have "it3 = restored_as p n b3 (clock w) it" using False by (simp add: a(2) 2(2) clock restored_as_def b3_def)
    moreover have "w3 = set_item i (restored_as p n b3 (clock w)) w"
      using False by (simp add: a(3) 2(2) clock set_item_set_item restored_as_def [abs_def] b3_def)
    ultimately show ?thesis using a(4) by simp
  qed
  then show thesis by (intro that [of b3]) blast+
qed

lemma trash_restore_InrE:
  assumes pk: "pk_items (items w)" and r: "restore cfg u i w = (Inr r, w')"
  obtains it k b where "find_item w i = Some it" "di_owner_id it = u" "di_is_deleted it"
    "candidate (di_name it) k \<notin> taken_names w (restore_target w it) u"
    "items w' = items (set_item i (restored_as (restore_target w it) (candidate (di_name it) k) b (clock w)) w)"
    "uuid_next w \<le> uuid_next w'" "items_ok w'"
proof -
  obtain it where it: "find_item w i = Some it" "di_owner_id it = u" "di_is_deleted it"
    using r by (auto simp: restore_def run_bind run_then run_guard split: option.splits if_splits)
  let ?p = "restore_target w it"
  obtain name it1 it2 it3 w1 w2 w3 w0 where un: "unique_name (di_name it) ?p u w = (Inr name, w0)"
    and m: "mark_restored i w0 = (Inr it1, w1)"
    and p: "(if ?p \<noteq> di_parent_id it1 then update_parent i ?p u else returnM it1) w1 = (Inr it2, w2)"
    and n: "(if name \<noteq> di_name it2 then update_name i name u else returnM it2) w2 = (Inr it3, w3)"
    and l: "thenM (trash_log cfg u RESTORE i) (returnM (to_response it3 False None)) w3 = (Inr r, w')"
    using r it by (auto simp: restore_def run_bind [where m = "items_get_by_id i"] run_then [where m = "guardM _ _"] run_guard
        run_bind [where m = "restore_parent it"] run_restore_parent elim!: bind_InrE)
  from unique_name_Inr [OF un] obtain k where k: "w0 = w" "name = candidate (di_name it) k" "name \<notin> taken_names w ?p u" by blast
  from restore_updates [OF pk it(1) m [unfolded k(1)] p n] obtain b where
    w3: "w3 = set_item i (restored_as ?p name b (clock w)) w" "items_ok w3" by metis
  obtain x where lg: "trash_log cfg u RESTORE i w3 = (Inr x, w')" using l by (auto elim!: then_InrE)
  from trash_log_InrE [OF this] have w': "items w' = items w3" "uuid_next w3 \<le> uuid_next w'" "db_lower w' = db_lower w3" by metis+
  show thesis
    by (rule that [OF it, of k b]) (use k w3 w' in \<open>simp_all add: items_ok_def set_item_def\<close>)
qed

lemma run_mark_deleted:
  assumes "items_ok w" "find_item w i = Some it"
  shows "mark_deleted i t w = (Inr (it\<lparr>di_is_deleted := True, di_deleted_at := Some t, di_updated_at := clock w\<rparr>),
     set_item i (\<lambda>r. r\<lparr>di_is_deleted := True, di_deleted_at := Some t, di_updated_at := clock w\<rparr>) w)"
    and "items_ok (set_item i (\<lambda>r. r\<lparr>di_is_deleted := True, di_deleted_at := Some t, di_updated_at := clock w\<rparr>) w)"
proof -
  let ?f = "\<lambda>r. r\<lparr>di_is_deleted := True, di_deleted_at := Some t, di_updated_at := clock w\<rparr>"
  have "filter indexed (row_update di_id i ?f rows) = filter (\<lambda>r. di_id r \<noteq> i) (filter indexed rows)" for rows
    by (induction rows) (auto simp: row_update_def indexed_def)
  moreover have "distinct (map (name_slot (db_lower w)) (filter (\<lambda>r. di_id r \<noteq> i) (filter indexed (items w))))"
    by (rule distinct_map_filter) (use assms(1) in \<open>simp add: items_ok_def uq_same_folder_name_def\<close>)
  ultimately have uq: "uq_same_folder_name (db_lower w) (items (set_item i ?f w))"
    unfolding uq_same_folder_name_def items_set_item by simp
  have "map di_id (items (set_item i ?f w)) = map di_id (items w)" by (simp add: items_set_item row_keys_update)
  moreover have "map di_parent_id (items (set_item i ?f w)) = map di_parent_id (items w)"
    by (simp add: items_set_item row_update_def)
  ultimately have "pk_items (items (set_item i ?f w))" "fk_parent (items (set_item i ?f w))"
    using assms(1) unfolding items_ok_def pk_items_def fk_parent_iff by (simp, metis (no_types, lifting) image_iff list.set_map)
  with uq show ok: "items_ok (set_item i ?f w)" by (simp add: items_ok_def) (simp add: set_item_def)
  with assms(2) show "mark_deleted i t w = (Inr (?f it), set_item i ?f w)"
    by (simp add: mark_deleted_def trash_get_def update_item_def run_simps)
qed

lemma trash_log_result:
  "\<exists>w'. trash_log cfg u a i w = (Inr (), w') \<and> items w' = items w \<and> clock w' = clock w \<and> db_lower w' = db_lower w"
proof (cases "tw_activity cfg")
  case True
  obtain r w' where l: "log_activity u a (Some i) w = (r, w')" by (cases "log_activity u a (Some i) w")
  from log_activity_frame [OF this] obtain y where "r = Inr y" "items w' = items w" "clock w' = clock w" "db_lower w' = db_lower w" by blast
  with l True show ?thesis by (simp add: trash_log_def whenM_def run_then)
qed (simp add: trash_log_def whenM_def)

text \<open>The columns that the constraints read.\<close>

definition live_slot :: "drive_item \<Rightarrow> uuid \<times> uuid \<times> uuid option \<times> string \<times> bool" where
  "live_slot r = (di_id r, di_owner_id r, di_parent_id r, di_name r, di_is_deleted r)"

lemma items_ok_slots:
  assumes "map live_slot (items w') = map live_slot (items w)" "items_ok w" "db_lower w' = db_lower w"
  shows "items_ok w'"
proof -
  let ?l = "db_lower w"
  have ids: "map di_id rows = map fst (map live_slot rows)" for rows by (simp add: live_slot_def)
  have parents: "map di_parent_id rows = map (fst \<circ> snd \<circ> snd) (map live_slot rows)" for rows by (simp add: live_slot_def)
  have slots: "map (name_slot l) (filter indexed rows) =
      map (\<lambda>(i, ow, p, n, d). (ow, p, l n)) (filter (\<lambda>(i, ow, p, n, d). \<not> d \<and> p \<noteq> None) (map live_slot rows))" for l rows
    by (induction rows) (auto simp: live_slot_def name_slot_def indexed_def)
  have "map di_id (items w') = map di_id (items w)" "map di_parent_id (items w') = map di_parent_id (items w)"
    unfolding ids parents assms(1) by (rule refl)+
  then have "pk_items (items w')" "fk_parent (items w')"
    using assms(2) unfolding items_ok_def pk_items_def fk_parent_iff by (simp, metis (no_types, lifting) image_iff list.set_map)
  moreover have "uq_same_folder_name ?l (items w')"
    using assms(2) by (simp add: items_ok_def uq_same_folder_name_def slots assms(1))
  ultimately show ?thesis by (simp add: items_ok_def assms(3))
qed

lemma only_row: "forest w \<Longrightarrow> find_item w i = Some it \<Longrightarrow> r \<in> set (items w) \<Longrightarrow> di_id r = i \<Longrightarrow> r = it"
  using forest_find by fastforce

end
