(* ===== verification/TrashProperties.thy ===== *)
theory TrashProperties
  imports TrashFacts Samples
begin

text \<open>The properties of the trash, with their instances.\<close>

section \<open>Permanent deletion\<close>

definition stored_versions :: "world \<Rightarrow> bool" where
  "stored_versions w = list_all (\<lambda>v. resolve_path (fv_storage_key v) = Inr (fv_storage_key v) \<and> 0 \<le> fv_size_bytes v) (versions w)"

lemma run_permanent_delete:
  assumes "forest w" "items_ok w" "users_ok w" "stored_versions w"
    and "find_item w i = Some it" "di_owner_id it = u" "di_is_deleted it"
  obtains t ks s where "charged_state w (subtree w i) (t, ks)" "s = snapshot_guard.sweep ks (erase_items (subtree w i) w)"
    "permanent_delete trash_router u i w = (Inr (), if t > 0 then ledger_dec u t s else s)"
proof -
  let ?e = "erase_items (subtree w i) w"
  obtain t ks where rows: "bindM (if di_item_type it = FILE then add_file it (0, [])
       else bindM (get_children_recursive i) (\<lambda>ds. foldM delete_child (rev ds) (0, []))) (\<lambda>acc.
     thenM (delete_by_item i) (thenM (hard_delete i) (returnM acc))) w = (Inr (t, ks), ?e)"
    and st: "charged_state w (subtree w i) (t, ks)"
    using run_delete_rows [OF assms(1,2,5)] by (metis prod.collapse)
  let ?s = "snapshot_guard.sweep ks ?e"
  have "\<forall>k \<in> set ks. resolve_path k = Inr k" "0 \<le> t"
    using assms(4) st by (auto intro!: sum_list_nonneg simp: charged_state_def charged_bytes_def charged_def stored_versions_def list_all_iff)
  from run_reclaim [OF this(1), of trash_router ?e] have sweep: "reclaim_blobs trash_router ks ?e = (Inr (), ?s)"
    by (simp add: trash_router_def)
  have us: "users_ok ?s" using assms(3) by (simp add: users_ok_def keeps_sweep)
  obtain v v' where gone: "(if di_item_type it = FILE then add_file it (0, [])
       else bindM (get_children_recursive i) (\<lambda>ds. foldM delete_child (rev ds) (0, []))) w = (Inr (t, ks), v)"
    "delete_by_item i v = (Inr (), v')" "hard_delete i v' = (Inr (), ?e)"
    by (rule bind_InrE [OF rows]) (auto elim!: then_InrE)
  have sub: "whenM (t > 0) (subtract_used_bytes u t) ?s = (Inr (), if t > 0 then ledger_dec u t ?s else ?s)"
    using run_subtract_used_bytes [OF us \<open>0 \<le> t\<close>, of u] by (simp add: run_when)
  have log: "trash_log trash_router u PERMANENT_DELETE i = returnM ()" by (simp add: trash_log_def trash_router_def whenM_def)
  have "permanent_delete trash_router u i w = (Inr (), if t > 0 then ledger_dec u t ?s else ?s)"
    by (simp only: permanent_delete_def run_bind run_then run_guard run_items_get_by_id assms(5-7) gone sweep sub log
        run_return sum.case prod.case option.case if_True simp_thms)
  with st show thesis by (rule that [OF _ refl])
qed

text \<open>C13: deleting an item of one's trash for good always succeeds: exactly its subtree disappears, with all versions
  of it, the forest stays intact, of the blobs exactly those of the subtree's files go that no snapshot holds,
  and the bytes of these files are taken off the account of the user who deletes.\<close>

theorem permanent_delete_erases_subtree:
  assumes "forest w" "items_ok w" "users_ok w" "stored_versions w"
    and "find_item w i = Some it" "di_owner_id it = u" "di_is_deleted it"
  shows "\<exists>w'. permanent_delete trash_router u i w = (Inr (), w') \<and> forest w'
    \<and> items w' = filter (\<lambda>r. \<not> subtree w i (di_id r)) (items w)
    \<and> versions w' = filter (\<lambda>v. \<not> subtree w i (fv_file_id v)) (versions w)
    \<and> (\<forall>k. blob_get w' k = (if k \<in> fv_storage_key ` set (charged w (subtree w i)) \<and> \<not> snapshot_refers w k
         then None else blob_get w k))
    \<and> (\<forall>j. used_of w' j = (if j = u \<and> charged_bytes w (subtree w i) > 0
         then map_option (\<lambda>b. max 0 (b - charged_bytes w (subtree w i))) (used_of w j) else used_of w j))"
proof -
  let ?B = "subtree w i"
  let ?e = "erase_items ?B w"
  obtain t ks s where st: "charged_state w ?B (t, ks)" and s: "s = snapshot_guard.sweep ks ?e"
    and run: "permanent_delete trash_router u i w = (Inr (), if t > 0 then ledger_dec u t s else s)"
    by (rule run_permanent_delete [OF assms])
  let ?w' = "if t > 0 then ledger_dec u t s else s"
  have t: "t = charged_bytes w ?B" and ks: "distinct ks" "set ks = fv_storage_key ` set (charged w ?B)"
    using st by (simp_all add: charged_state_def)
  have kept: "items ?w' = items ?e" "versions ?w' = versions ?e" "blobs ?w' = blobs s" "uuid_next ?w' = uuid_next ?e"
    by (simp_all add: ledger_dec_def set_user_def keeps_sweep s)
  have "closed_below w ?B" using assms(1) by (intro subtree_closed) (simp add: forest_def)
  from erase_forest [OF assms(1) this] have f: "forest ?e" .
  have "forest ?w'" by (rule forest_cong [OF kept(1) _ f]) (use kept(4) in simp)
  moreover have "blob_get ?w' k = (if k \<in> set ks \<and> \<not> snapshot_refers w k then None else blob_get w k)" for k
  proof -
    have "blob_get ?w' k = blob_get s k" using kept(3) by (simp add: blob_get_def)
    also have "\<dots> = (if k \<in> set ks \<and> \<not> snapshot_refers ?e k then None else blob_get ?e k)"
      unfolding s by (rule snapshot_guard.content_sweep [OF ks(1)])
    finally show ?thesis by (simp add: snapshot_refers_def entry_keys_def blob_get_def)
  qed
  moreover have "used_of ?w' j = (if j = u \<and> t > 0 then map_option (\<lambda>b. max 0 (b - t)) (used_of w j) else used_of w j)" for j
  proof -
    have "used_of s = used_of w" by (simp add: used_of_def find_user_def keeps_sweep s fun_eq_iff)
    then show ?thesis by (auto simp: quota.balance_dec)
  qed
  ultimately show ?thesis using run kept ks(2) t
    by (intro exI [of _ ?w']) (simp add: row_delete_def)
qed

text \<open>The folder \<open>docs\<close> of the sample world, in the trash.\<close>

definition trash_world :: world where
  "trash_world = set_item 10 (\<lambda>r. r\<lparr>di_is_deleted := True, di_deleted_at := Some 0\<rparr>) sample_world"

lemma trash_world_ok: "forest trash_world" "items_ok trash_world" "users_ok trash_world" "stored_versions trash_world"
  by (rule forest_check, code_simp) code_simp+

lemma permanent_delete_erases_subtree_witness:
  "\<exists>w'. permanent_delete trash_router 1 10 trash_world = (Inr (), w') \<and> forest w'"
proof -
  have "(case find_item trash_world 10 of None \<Rightarrow> False | Some it \<Rightarrow> di_owner_id it = 1 \<and> di_is_deleted it)" by code_simp
  then obtain it where "find_item trash_world 10 = Some it" "di_owner_id it = 1" "di_is_deleted it"
    by (auto split: option.splits)
  from permanent_delete_erases_subtree [OF trash_world_ok this] show ?thesis by blast
qed

section \<open>Restoring\<close>


text \<open>\<open>draft.txt\<close> of the sample world in the trash.\<close>

definition draft_trashed :: world where
  "draft_trashed = set_item 12 (\<lambda>r. r\<lparr>di_is_deleted := True, di_deleted_at := Some 0\<rparr>) sample_world"



text \<open>Restoring a file whose name has been taken again in its folder fails: the first flush writes the old name back
  before the free name that the search found is set, the unique index refuses the row, and the request ends
  in an integrity error although a free name is known.\<close>

theorem restore_of_taken_name_fails:
  "let w = draft_trashed\<lparr>items := items draft_trashed @ [sample_file 14 1 (Some 11) ''draft.txt'' ''k14'' 3]\<rparr> in
   items_ok w \<and> fst (unique_name ''draft.txt'' (Some 11) 1 w) = Inr ''draft (1).txt''
   \<and> fst (restore trash_router 1 12 w) = Inl IntegrityError"
  by code_simp

section \<open>Trashing\<close>

lemma unique_name_free:
  assumes "names_unique w" "pk_items (items w)" "n \<notin> taken_names w p u"
  shows "unique_name n p u w = (Inr n, w)"
proof (rule unique_name_finds [OF assms(1,2), of n p u])
  fix k assume k: "unique_name n p u w = (Inr (candidate n k), w)" "\<forall>j < k. candidate n j \<in> taken_names w p u"
  have c0: "candidate n 0 = n" by (simp add: candidate_def)
  with k(2) assms(3) have "k = 0" by (metis gr0I)
  with k(1) c0 show ?thesis by simp
qed

text \<open>C15: trashing an item and restoring it gives the drive back as it was, whenever the item's folder is live: the
  same row under the same name in the same place, and every other row untouched.\<close>

theorem trash_then_restore_gives_back:
  assumes "forest w" "items_ok w" "names_unique w"
    and "find_item w i = Some it" "di_owner_id it = u" "\<not> di_is_deleted it"
    and "\<And>p. di_parent_id it = Some p \<Longrightarrow> \<exists>f. find_item w p = Some f \<and> \<not> di_is_deleted f"
  shows "\<exists>r1 w1 r2 w2. trash_item cfg u i w = (Inr r1, w1) \<and> restore cfg u i w1 = (Inr r2, w2)
    \<and> (\<exists>it1. find_item w1 i = Some it1 \<and> di_is_deleted it1)
    \<and> find_item w2 i = Some (it\<lparr>di_deleted_at := None, di_updated_at := clock w\<rparr>)
    \<and> (\<forall>j. j \<noteq> i \<longrightarrow> find_item w1 j = find_item w j \<and> find_item w2 j = find_item w j)"
proof -
  let ?f = "\<lambda>r. r\<lparr>di_is_deleted := True, di_deleted_at := Some (clock w), di_updated_at := clock w\<rparr>"
  let ?g = "\<lambda>r. r\<lparr>di_is_deleted := False, di_deleted_at := None, di_updated_at := clock w\<rparr>"
  obtain w1 where l1: "trash_log cfg u TRASH i (set_item i ?f w) = (Inr (), w1)"
    and w1: "items w1 = items (set_item i ?f w)" "clock w1 = clock w" "db_lower w1 = db_lower w"
    using trash_log_result [of cfg u TRASH i "set_item i ?f w"] by (auto simp: set_item_def)
  have t: "trash_item cfg u i w = (Inr (to_response (?f it) False None), w1)"
    using run_mark_deleted(1) [OF assms(2,4), of "clock w"] assms(4-6) l1
    by (simp add: trash_item_def run_bind run_then run_guard)
  have found1: "find_item w1 j = (if j = i then Some (?f it) else find_item w j)" for j
    using find_item_set_item [of ?f i w j] assms(4) by (auto simp: find_item_def w1)
  have "p \<noteq> i" if "di_parent_id it = Some p" for p
    using assms(7) [OF that] that assms(1,4) drive_tree.not_own_ancestor [OF assms(1), of i]
    by (auto simp: up_rel_parent_rel parent_rel_def parent_of_def)
  then have target: "restore_target w1 (?f it) = di_parent_id it"
    using assms(7) by (auto simp: restore_target_def found1 split: option.splits)
  have pk1: "pk_items (items w1)" using run_mark_deleted(2) [OF assms(2,4), of "clock w"] by (simp add: items_ok_def w1)
  have rows1: "r' \<in> set (items w1) \<Longrightarrow> \<not> di_is_deleted r' \<Longrightarrow> r' \<in> set (items w) \<and> di_id r' \<noteq> i" for r'
    by (auto simp: w1 items_set_item set_row_update split: if_splits)
  then have nu1: "names_unique w1" using assms(3) unfolding names_unique_def by blast
  have item: "it \<in> set (items w)" "di_id it = i" using find_item_Some [OF assms(4)] by auto
  have "di_name it \<notin> taken_names w1 (di_parent_id it) u"
  proof
    assume "di_name it \<in> taken_names w1 (di_parent_id it) u"
    then obtain r' where r': "r' \<in> set (items w1)" "\<not> di_is_deleted r'" "di_owner_id r' = u" "di_parent_id r' = di_parent_id it" "di_name r' = di_name it"
      by (auto simp: taken_names_def)
    with names_uniqueD [OF assms(3), of r' it] rows1 item assms(5,6) show False by blast
  qed
  from unique_name_free [OF nu1 pk1 this] have un: "unique_name (di_name it) (di_parent_id it) u w1 = (Inr (di_name it), w1)" .
  have sig: "map live_slot (items (set_item i ?g w1)) = map live_slot (items w)"
    using item assms(6) by (auto simp: w1 items_set_item row_update_def live_slot_def assms(1) forest_find dest!: only_row [OF assms(1,4)])
  have "items_ok (set_item i ?g w1)"
    by (rule items_ok_slots [OF sig assms(2)]) (simp add: set_item_def w1)
  then have m: "mark_restored i w1 = (Inr (?g (?f it)), set_item i ?g w1)"
    by (simp add: mark_restored_def trash_get_def update_item_def run_simps found1 w1)
  obtain w2 where l2: "trash_log cfg u RESTORE i (set_item i ?g w1) = (Inr (), w2)" and w2: "items w2 = items (set_item i ?g w1)"
    using trash_log_result by blast
  have r: "restore cfg u i w1 = (Inr (to_response (?g (?f it)) False None), w2)"
    using assms(5) un m l2 by (simp add: restore_def run_bind run_then run_guard found1 run_restore_parent target)
  have "find_item w2 j = (if j = i then Some (?g (?f it)) else find_item w j)" for j
    using find_item_set_item [of ?g i w1 j] found1 [of j] by (auto simp: find_item_def w2)
  moreover have "?g (?f it) = it\<lparr>di_deleted_at := None, di_updated_at := clock w\<rparr>" using assms(6) by (cases it) simp
  ultimately show ?thesis using t r found1 by (intro exI conjI) auto
qed

lemma trash_then_restore_gives_back_witness:
  "\<exists>r1 w1 r2 w2. trash_item trash_router 1 12 sample_world = (Inr r1, w1) \<and> restore trash_router 1 12 w1 = (Inr r2, w2)
    \<and> (\<forall>j. j \<noteq> 12 \<longrightarrow> find_item w2 j = find_item sample_world j)"
proof -
  have ok: "items_ok sample_world" by code_simp
  have nu: "names_unique sample_world"
    by (simp add: names_unique_def sample_world_def sample_folder_def sample_file_def)
  have it: "find_item sample_world 12 = Some (sample_file 12 1 (Some 11) ''draft.txt'' ''k12'' 5)"
    "find_item sample_world 11 = Some (sample_folder 11 1 (Some 10) ''work'')"
    by (simp_all add: find_item_def sample_world_def sample_folder_def sample_file_def)
  show ?thesis
    using trash_then_restore_gives_back [OF sample_forest ok nu it(1), of 1 trash_router] it(2)
    by (auto simp: sample_file_def sample_folder_def)
qed

definition nested_trash :: world where
  "nested_trash = set_item 10 (\<lambda>r. r\<lparr>di_is_deleted := True, di_deleted_at := Some 0\<rparr>) draft_trashed"

text \<open>Emptying the trash fails on a file that was trashed on its own inside a live folder of a trashed one: it
  deletes the outer folder with everything below, then finds the file gone. The request is rolled back, so
  the rows come back, but the blob of the file is lost for good.\<close>

theorem empty_trash_loses_content:
  "let w' = snd (transact (empty_trash trash_router 1) nested_trash) in
   fst (transact (empty_trash trash_router 1) nested_trash) = Inl NotFoundError
   \<and> items w' = items nested_trash \<and> versions w' = versions nested_trash
   \<and> map fv_storage_key (versions w') = [''k12''] \<and> blob_get nested_trash ''k12'' = Some ''hello'' \<and> blob_get w' ''k12'' = None"
proof -
  have run: "fst (transact (empty_trash trash_router 1) nested_trash) = Inl NotFoundError" by code_simp
  then obtain e v where ev: "empty_trash trash_router 1 nested_trash = (Inl e, v)"
    by (auto simp: transact_def split: prod.splits sum.splits)
  then have rolled: "snd (transact (empty_trash trash_router 1) nested_trash) = rollback nested_trash v"
    by (simp add: transact_def)
  have "map fv_storage_key (versions nested_trash) = [''k12'']" "blob_get nested_trash ''k12'' = Some ''hello''"
    "blob_get (snd (transact (empty_trash trash_router 1) nested_trash)) ''k12'' = None" by code_simp+
  with run show ?thesis unfolding Let_def rolled by (simp add: rollback_def)
qed

end
