(* ===== verification/Snapshots.thy ===== *)
theory Snapshots
  imports SnapshotRepo Activity
begin

text \<open>
  \<open>app/snapshot/service.py\<close> and the passes of \<open>scheduler.py\<close>: capturing the drive, pruning old
  snapshots, restoring, and the garbage collection of blobs.
\<close>

section \<open>Settings\<close>

definition DEFAULT_RETENTION_N :: int where "DEFAULT_RETENTION_N = 50"

definition DEFAULT_SCHEDULE_INTERVAL_MINUTES :: int where "DEFAULT_SCHEDULE_INTERVAL_MINUTES = 60"

definition default_snapshot_settings :: "uuid \<Rightarrow> snapshot_settings" where
  "default_snapshot_settings user_id =
     \<lparr>ss_user_id = user_id, ss_retention_n = DEFAULT_RETENTION_N, ss_schedule_enabled = True,
      ss_schedule_interval_minutes = DEFAULT_SCHEDULE_INTERVAL_MINUTES, ss_quota_bytes = None\<rparr>"

definition get_settings :: "uuid \<Rightarrow> snapshot_settings M" where
  "get_settings user_id = bindM (repo_get_settings user_id) (\<lambda>s. returnM
     (case s of None \<Rightarrow> default_snapshot_settings user_id | Some s \<Rightarrow> s))"

definition settings_or_load :: "uuid \<Rightarrow> snapshot_settings option \<Rightarrow> snapshot_settings M" where
  "settings_or_load user_id given = (case given of None \<Rightarrow> get_settings user_id | Some s \<Rightarrow> returnM s)"

definition resolve_quota_bytes :: "uuid \<Rightarrow> snapshot_settings option \<Rightarrow> int M" where
  "resolve_quota_bytes user_id given =
     bindM (settings_or_load user_id given) (\<lambda>s. case ss_quota_bytes s of
         Some q \<Rightarrow> returnM q
       | None \<Rightarrow> bindM (get_user_quota_bytes user_id) (\<lambda>q. returnM (q div 2)))"

section \<open>Retention and quota\<close>

definition prune_exempt :: "snapshot \<Rightarrow> bool" where
  "prune_exempt s = (sn_pinned s \<or> sn_trigger s = PRE_RESTORE)"

text \<open>The loop over the snapshots, newest first: the identifiers kept, and how many were deleted.\<close>

fun retention_loop :: "int \<Rightarrow> int \<Rightarrow> snapshot list \<Rightarrow> uuid list \<Rightarrow> int \<Rightarrow> (uuid list \<times> int) M" where
  "retention_loop n i [] kept deleted = returnM (kept, deleted)"
| "retention_loop n i (s # ss) kept deleted =
     (if i < n \<or> prune_exempt s then retention_loop n (i + 1) ss (kept @ [sn_id s]) deleted
      else thenM (delete_snapshot (sn_id s)) (retention_loop n (i + 1) ss kept (deleted + 1)))"

text \<open>The loop over the survivors, oldest first, until the bytes fit the quota.\<close>

fun quota_loop :: "int \<Rightarrow> uuid \<Rightarrow> uuid \<Rightarrow> snapshot list \<Rightarrow> int \<Rightarrow> int M" where
  "quota_loop quota user_id newest_id [] deleted = returnM deleted"
| "quota_loop quota user_id newest_id (s # ss) deleted =
     (if sn_id s = newest_id \<or> prune_exempt s then quota_loop quota user_id newest_id ss deleted
      else bindM (used_snapshot_bytes user_id) (\<lambda>used.
        if used \<le> quota then returnM deleted
        else thenM (delete_snapshot (sn_id s)) (quota_loop quota user_id newest_id ss (deleted + 1))))"

definition prune :: "uuid \<Rightarrow> snapshot_settings option \<Rightarrow> int M" where
  "prune user_id given =
     bindM (settings_or_load user_id given) (\<lambda>settings.
     bindM (repo_list_snapshots user_id) (\<lambda>snaps.
     bindM (retention_loop (ss_retention_n settings) 0 snaps [] 0) (\<lambda>(kept_ids, deleted).
     bindM (resolve_quota_bytes user_id (Some settings)) (\<lambda>quota.
       if quota > 0 \<and> snaps \<noteq> [] then
         quota_loop quota user_id (sn_id (hd snaps)) (rev (filter (\<lambda>s. sn_id s \<in> set kept_ids) snaps)) deleted
       else returnM deleted))))"

definition update_settings :: "uuid \<Rightarrow> int \<Rightarrow> bool \<Rightarrow> int \<Rightarrow> int option \<Rightarrow> snapshot_settings M" where
  "update_settings user_id retention_n schedule_enabled schedule_interval_minutes quota_bytes =
     bindM (upsert_settings user_id (max 1 retention_n) schedule_enabled (max 1 schedule_interval_minutes)
         (map_option (max 0) quota_bytes)) (\<lambda>settings.
     thenM (prune user_id (Some settings)) (returnM settings))"

section \<open>Capturing\<close>

definition capture_entry :: "uuid set \<Rightarrow> drive_item \<Rightarrow> entry_data" where
  "capture_entry captured_ids item =
     (let is_file = (di_item_type item = FILE) in
      \<lparr>ed_item_id = di_id item,
       ed_parent_item_id = (case di_parent_id item of None \<Rightarrow> None | Some p \<Rightarrow> if p \<in> captured_ids then Some p else None),
       ed_name = di_name item, ed_item_type = di_item_type item,
       ed_storage_key = (if is_file then di_storage_key item else None),
       ed_checksum = (if is_file then di_checksum item else None),
       ed_size_bytes = (if is_file then di_size_bytes item else 0)\<rparr>)"

definition capture :: "drive_item list \<Rightarrow> entry_data list" where
  "capture rows = map (capture_entry (set (map di_id rows))) rows"

definition create :: "uuid \<Rightarrow> snapshot_trigger \<Rightarrow> string \<Rightarrow> bool \<Rightarrow> snapshot M" where
  "create user_id trigger label pinned =
     bindM (list_owner_items user_id) (\<lambda>rows.
     bindM (create_snapshot user_id trigger label (pinned \<or> trigger = PRE_RESTORE) (int (length rows))
         (sum_list (map di_size_bytes (filter (\<lambda>i. di_item_type i = FILE) rows))) (capture rows)) (\<lambda>snapshot.
     thenM (prune user_id None) (returnM snapshot)))"

definition list_snapshots :: "uuid \<Rightarrow> snapshot list M" where
  "list_snapshots user_id = repo_list_snapshots user_id"

definition used_bytes :: "uuid \<Rightarrow> int M" where
  "used_bytes user_id = used_snapshot_bytes user_id"

definition reclaimable_bytes :: "uuid \<Rightarrow> (uuid \<times> int) list M" where
  "reclaimable_bytes user_id = reclaimable_bytes_by_snapshot user_id"

definition browse :: "uuid \<Rightarrow> uuid \<Rightarrow> uuid option \<Rightarrow> snapshot_entry list option M" where
  "browse user_id snapshot_id parent_item_id =
     bindM (get_snapshot user_id snapshot_id) (\<lambda>s. case s of
         None \<Rightarrow> returnM None
       | Some _ \<Rightarrow> bindM (list_entries snapshot_id parent_item_id) (\<lambda>es. returnM (Some es)))"

section \<open>Scheduling\<close>

definition period_start :: "time \<Rightarrow> int \<Rightarrow> time" where
  "period_start t interval_minutes =
     (let interval = max 1 interval_minutes;
          midnight = t - t mod days 1;
          elapsed = (t - midnight) div minutes 1
      in midnight + minutes ((elapsed div interval) * interval))"

type_synonym item_sig = "uuid \<times> uuid option \<times> string \<times> item_type \<times> string"

definition items_signature :: "drive_item list \<Rightarrow> item_sig set" where
  "items_signature rows = set (map (\<lambda>i. (di_id i, di_parent_id i, di_name i, di_item_type i,
     case di_checksum i of None \<Rightarrow> [] | Some c \<Rightarrow> c)) rows)"

definition entries_signature :: "snapshot_entry list \<Rightarrow> item_sig set" where
  "entries_signature es = set (map (\<lambda>e. (se_item_id e, se_parent_item_id e, se_name e, se_item_type e,
     case se_checksum e of None \<Rightarrow> [] | Some c \<Rightarrow> c)) es)"

definition run_scheduled_snapshot :: "uuid \<Rightarrow> time \<Rightarrow> snapshot option M" where
  "run_scheduled_snapshot user_id t =
     bindM (get_settings user_id) (\<lambda>settings.
     if \<not> ss_schedule_enabled settings then returnM None
     else bindM (repo_list_snapshots user_id) (\<lambda>snaps.
     if snaps \<noteq> [] \<and> sn_created_at (hd snaps) \<ge> period_start t (ss_schedule_interval_minutes settings) then returnM None
     else bindM (list_owner_items user_id) (\<lambda>rows.
     if rows = [] then returnM None
     else bindM (if snaps = [] then returnM False
         else bindM (list_all_entries (sn_id (hd snaps))) (\<lambda>es. returnM (items_signature rows = entries_signature es))) (\<lambda>same.
     if same then returnM None
     else bindM (create user_id SCHEDULED ''Scheduled'' False) (\<lambda>s. returnM (Some s))))))"

section \<open>Garbage collection\<close>

record gc_outcome =
  gc_deleted :: int
  gc_freed_bytes :: int
  gc_skipped_recent :: int

fun gc_loop :: "string list \<Rightarrow> time \<Rightarrow> blob list \<Rightarrow> gc_outcome \<Rightarrow> gc_outcome M" where
  "gc_loop referenced cutoff [] out = returnM out"
| "gc_loop referenced cutoff (b # bs) out =
     (if bl_key b \<in> set referenced then gc_loop referenced cutoff bs out
      else if bl_modified_at b \<ge> cutoff then
        gc_loop referenced cutoff bs (out\<lparr>gc_skipped_recent := gc_skipped_recent out + 1\<rparr>)
      else thenM (storage_delete (bl_key b))
        (gc_loop referenced cutoff bs (out\<lparr>gc_deleted := gc_deleted out + 1,
           gc_freed_bytes := gc_freed_bytes out + int (length (bl_data b))\<rparr>)))"

definition collect_garbage :: "bool \<Rightarrow> int \<Rightarrow> time option \<Rightarrow> gc_outcome M" where
  "collect_garbage has_storage grace_minutes at =
     (if \<not> has_storage then raiseM RuntimeError
      else bindM referenced_storage_keys (\<lambda>referenced.
        bindM now (\<lambda>t.
        bindM list_objects (\<lambda>objs.
          gc_loop referenced ((case at of None \<Rightarrow> t | Some a \<Rightarrow> a) - minutes grace_minutes) objs
            \<lparr>gc_deleted = 0, gc_freed_bytes = 0, gc_skipped_recent = 0\<rparr>))))"

section \<open>Restoring\<close>

text \<open>The work list of \<open>_expand_with_descendants\<close>: each round takes one entry off the stack; an entry is expanded
  only the first time it is met.\<close>

function expand_loop :: "snapshot_entry list \<Rightarrow> snapshot_entry list \<Rightarrow> snapshot_entry list \<Rightarrow> snapshot_entry list" where
  "expand_loop es [] result = result"
| "expand_loop es (e # stack) result =
     (if se_item_id e \<in> set (map se_item_id result) \<or> e \<notin> set es then expand_loop es stack result
      else expand_loop es (rev (filter (\<lambda>x. se_parent_item_id x = Some (se_item_id e)) es) @ stack) (result @ [e]))"
  by pat_completeness auto
termination
proof (relation "measures [\<lambda>(es, stack, result). card (set (map se_item_id es) - set (map se_item_id result)),
    \<lambda>(es, stack, result). length stack]", goal_cases)
  case (3 es e stack result)
  then have "set (map se_item_id es) - set (map se_item_id (result @ [e])) \<subset> set (map se_item_id es) - set (map se_item_id result)"
    by auto
  then have "card (set (map se_item_id es) - set (map se_item_id (result @ [e]))) < card (set (map se_item_id es) - set (map se_item_id result))"
    by (rule psubset_card_mono [rotated]) simp
  then show ?case by simp
qed simp_all

definition expand_with_descendants :: "snapshot_entry list \<Rightarrow> uuid list \<Rightarrow> snapshot_entry list" where
  "expand_with_descendants es selected =
     expand_loop es (rev (filter (\<lambda>e. se_item_id e \<in> set selected) es)) []"

definition rehomed_to_root :: "snapshot_entry \<Rightarrow> snapshot_entry" where
  "rehomed_to_root e = e\<lparr>se_parent_item_id := None\<rparr>"

text \<open>The number of ancestors among the entries. A round marks one more entry as seen or is the last, so the bound
  is not reached.\<close>

fun depth_loop :: "nat \<Rightarrow> snapshot_entry list \<Rightarrow> snapshot_entry \<Rightarrow> uuid set \<Rightarrow> nat \<Rightarrow> nat" where
  "depth_loop 0 es cur seen d = d"
| "depth_loop (Suc n) es cur seen d =
     (case se_parent_item_id cur of
        None \<Rightarrow> d
      | Some p \<Rightarrow> (case row_get se_item_id p (rev es) of
          None \<Rightarrow> d
        | Some parent \<Rightarrow> if p \<in> seen then d
            else depth_loop n es parent (insert (se_item_id cur) seen) (d + 1)))"

definition parents_first :: "snapshot_entry list \<Rightarrow> snapshot_entry list" where
  "parents_first es = sort_key (\<lambda>e. depth_loop (length es + 2) es e {} 0) es"

datatype restore_scope = WHOLE | SELECTED "uuid list"

datatype subtree_mode = KEEP_NEW | EXACT_MIRROR

record restore_outcome =
  ro_pre_restore_snapshot_id :: uuid
  ro_restored :: int
  ro_trashed :: int

definition placed :: "uuid list \<Rightarrow> uuid list \<Rightarrow> snapshot_entry \<Rightarrow> snapshot_entry" where
  "placed restorable_ids live_ids e = (case se_parent_item_id e of
       None \<Rightarrow> e
     | Some p \<Rightarrow> if p \<notin> set restorable_ids \<and> p \<notin> set live_ids then rehomed_to_root e else e)"

text \<open>The items that an exact mirror trashes, in the order the loop meets them.\<close>

definition mirror_trashes :: "uuid list \<Rightarrow> uuid list option \<Rightarrow> drive_item \<Rightarrow> bool" where
  "mirror_trashes entry_ids scope_ids item =
     (\<not> (di_is_deleted item \<or> di_id item \<in> set entry_ids)
      \<and> (case scope_ids of None \<Rightarrow> True | Some ids \<Rightarrow> (case di_parent_id item of None \<Rightarrow> False | Some p \<Rightarrow> p \<in> set ids)))"

text \<open>\<open>label_of\<close> formats the date of the snapshot for the label of the safety snapshot.\<close>

definition restore ::
  "(time \<Rightarrow> string) \<Rightarrow> bool \<Rightarrow> uuid \<Rightarrow> uuid \<Rightarrow> restore_scope \<Rightarrow> subtree_mode \<Rightarrow> restore_outcome option M" where
  "restore label_of has_activity user_id snapshot_id scope mode =
     bindM (get_snapshot user_id snapshot_id) (\<lambda>s. case s of
         None \<Rightarrow> returnM None
       | Some snapshot \<Rightarrow>
           bindM (create user_id PRE_RESTORE (label_of (sn_created_at snapshot)) False) (\<lambda>pre.
           bindM (list_all_entries snapshot_id) (\<lambda>all_entries.
           let target = (case scope of WHOLE \<Rightarrow> all_entries | SELECTED ids \<Rightarrow> expand_with_descendants all_entries ids);
               restorable_ids = map se_item_id target in
           bindM (list_all_items user_id) (\<lambda>own.
           let live_ids = map di_id own; ordered = parents_first target in
           thenM (forM ordered (\<lambda>e. upsert_item user_id (placed restorable_ids live_ids e)))
           (bindM (case mode of
               KEEP_NEW \<Rightarrow> returnM 0
             | EXACT_MIRROR \<Rightarrow> bindM (list_all_items user_id) (\<lambda>present.
                 let doomed = filter (mirror_trashes (map se_item_id all_entries)
                       (case scope of WHOLE \<Rightarrow> None | SELECTED _ \<Rightarrow> Some restorable_ids)) present in
                 thenM (forM doomed (\<lambda>i. set_deleted (di_id i) True)) (returnM (int (length doomed))))) (\<lambda>trashed.
           thenM (whenM has_activity (thenM (log_activity user_id SNAPSHOT_RESTORE None) (returnM ())))
             (returnM (Some \<lparr>ro_pre_restore_snapshot_id = sn_id pre, ro_restored = int (length ordered),
                ro_trashed = trashed\<rparr>))))))))"

section \<open>The scheduler\<close>

text \<open>One user's turn: its own transaction, and an exception is logged away.\<close>

definition scheduled_turn :: "time \<Rightarrow> uuid \<Rightarrow> int M" where
  "scheduled_turn t user_id = catchM
     (bindM (transact (run_scheduled_snapshot user_id t)) (\<lambda>s. returnM (case s of None \<Rightarrow> 0 | Some _ \<Rightarrow> 1)))
     (\<lambda>_. returnM 0)"

definition run_scheduled :: "time \<Rightarrow> int M" where
  "run_scheduled t = bindM list_all_ids (\<lambda>ids.
     foldM (\<lambda>u created. bindM (scheduled_turn t u) (\<lambda>k. returnM (created + k))) ids 0)"

definition due_for_gc :: "time option \<Rightarrow> int \<Rightarrow> time \<Rightarrow> bool" where
  "due_for_gc last_gc gc_interval_minutes t =
     (case last_gc of None \<Rightarrow> True | Some l \<Rightarrow> t - l \<ge> minutes gc_interval_minutes)"

definition run_gc :: "int \<Rightarrow> time \<Rightarrow> gc_outcome option M" where
  "run_gc gc_grace_minutes t = catchM
     (bindM (transact (collect_garbage True gc_grace_minutes (Some t))) (\<lambda>out. returnM (Some out)))
     (\<lambda>_. returnM None)"

text \<open>One tick; the scheduler's memory of the last collection is threaded through.\<close>

definition scheduler_run_once ::
  "int \<Rightarrow> int \<Rightarrow> time option \<Rightarrow> time \<Rightarrow> ((int \<times> gc_outcome option) \<times> time option) M" where
  "scheduler_run_once gc_interval_minutes gc_grace_minutes last_gc t =
     bindM (run_scheduled t) (\<lambda>created.
       if due_for_gc last_gc gc_interval_minutes t
       then bindM (run_gc gc_grace_minutes t) (\<lambda>gc. returnM ((created, gc), Some t))
       else returnM ((created, None), last_gc))"

end
