(* ===== verification/SnapshotFacts.thy ===== *)
theory SnapshotFacts
  imports Snapshots "HOL-Library.Multiset"
begin

text \<open>
  What pruning, collecting and restoring do to the tables, as equations and invariants the properties use.
\<close>

section \<open>Pruning\<close>

definition drop_snapshots :: "uuid set \<Rightarrow> world \<Rightarrow> world" where
  "drop_snapshots D w = entries_update (row_delete (\<lambda>e. se_snapshot_id e \<in> D))
     (snapshots_update (row_delete (\<lambda>s. sn_id s \<in> D)) w)"

lemma drop_snapshot_set: "drop_snapshot i w = drop_snapshots {i} w"
  by (simp add: drop_snapshot_def drop_snapshots_def)

lemma drop_drop: "drop_snapshots D (drop_snapshots D' w) = drop_snapshots (D' \<union> D) w"
  by (simp add: drop_snapshots_def row_delete_delete disj_commute)

lemma drop_none: "drop_snapshots {} w = w"
  by (simp add: drop_snapshots_def row_delete_def)

lemma drop_fields [simp]:
  "snapshots (drop_snapshots D w) = row_delete (\<lambda>s. sn_id s \<in> D) (snapshots w)"
  "entries (drop_snapshots D w) = row_delete (\<lambda>e. se_snapshot_id e \<in> D) (entries w)"
  "items (drop_snapshots D w) = items w" "users (drop_snapshots D w) = users w" "blobs (drop_snapshots D w) = blobs w"
  "snap_settings (drop_snapshots D w) = snap_settings w" "uuid_next (drop_snapshots D w) = uuid_next w"
  "clock (drop_snapshots D w) = clock w" "versions (drop_snapshots D w) = versions w" "db_lower (drop_snapshots D w) = db_lower w"
  by (simp_all add: drop_snapshots_def)

text \<open>The snapshots that the retention loop lets go.\<close>

fun beyond_retention :: "int \<Rightarrow> int \<Rightarrow> snapshot list \<Rightarrow> snapshot list" where
  "beyond_retention n i [] = []"
| "beyond_retention n i (s # ss) =
     (if i < n \<or> prune_exempt s then beyond_retention n (i + 1) ss else s # beyond_retention n (i + 1) ss)"

lemma beyond_retention_iff:
  "s \<in> set (beyond_retention n i ss) \<longleftrightarrow> (\<exists>k < length ss. s = ss ! k \<and> n \<le> i + int k \<and> \<not> prune_exempt s)"
proof (induction ss arbitrary: i)
  case (Cons x ss)
  have "(\<exists>k < length (x # ss). s = (x # ss) ! k \<and> n \<le> i + int k \<and> \<not> prune_exempt s) \<longleftrightarrow>
      s = x \<and> n \<le> i \<and> \<not> prune_exempt s \<or> (\<exists>k < length ss. s = ss ! k \<and> n \<le> (i + 1) + int k \<and> \<not> prune_exempt s)"
    unfolding Ex_less_Suc2 length_Cons by (simp add: algebra_simps)
  with Cons show ?case by auto
qed simp

lemma run_retention_loop:
  "\<exists>kept' d'. retention_loop n i ss kept d w = (Inr (kept', d'), drop_snapshots (sn_id ` set (beyond_retention n i ss)) w)
    \<and> set kept' = set kept \<union> (sn_id ` {s \<in> set ss. s \<notin> set (beyond_retention n i ss)})
    \<or> \<not> distinct (map sn_id ss)"
proof (induction ss arbitrary: i kept d w)
  case Nil
  then show ?case by (simp add: drop_none)
next
  case (Cons s ss)
  show ?case
  proof (cases "distinct (map sn_id (s # ss))")
    case True
    then have dist: "distinct (map sn_id ss)" and new: "s \<notin> set ss" by auto
    have sub: "set (beyond_retention n (i + 1) ss) \<subseteq> set ss" by (auto simp: beyond_retention_iff)
    show ?thesis
    proof (cases "i < n \<or> prune_exempt s")
      case keep: True
      have "{x \<in> set (s # ss). x \<notin> set (beyond_retention n i (s # ss))} = insert s {x \<in> set ss. x \<notin> set (beyond_retention n (i + 1) ss)}"
        using keep new sub by auto
      with Cons.IH [of "i + 1" "kept @ [sn_id s]" d w] keep dist show ?thesis by auto
    next
      case False
      have "{x \<in> set (s # ss). x \<notin> set (beyond_retention n i (s # ss))} = {x \<in> set ss. x \<notin> set (beyond_retention n (i + 1) ss)}"
        using False new by auto
      with Cons.IH [of "i + 1" kept "d + 1" "drop_snapshot (sn_id s) w"] False dist show ?thesis
        by (auto simp: run_then delete_snapshot_def drop_snapshot_set drop_drop)
    qed
  qed simp
qed

lemma run_quota_loop:
  "\<exists>d' D. quota_loop q u newest ss d w = (Inr d', drop_snapshots D w)
    \<and> D \<subseteq> sn_id ` {s \<in> set ss. sn_id s \<noteq> newest \<and> \<not> prune_exempt s}
    \<and> (snapshot_bytes (drop_snapshots D w) u \<le> q \<or> sn_id ` {s \<in> set ss. sn_id s \<noteq> newest \<and> \<not> prune_exempt s} \<subseteq> D)"
proof (induction ss arbitrary: d w)
  case Nil
  have "quota_loop q u newest [] d w = (Inr d, drop_snapshots {} w)" by (simp add: drop_none)
  then show ?case by auto
next
  case (Cons s ss)
  consider (skip) "sn_id s = newest \<or> prune_exempt s" | (fits) "\<not> (sn_id s = newest \<or> prune_exempt s)" "snapshot_bytes w u \<le> q"
    | (drop) "\<not> (sn_id s = newest \<or> prune_exempt s)" "\<not> snapshot_bytes w u \<le> q" by blast
  then show ?case
  proof cases
    case skip
    then have "{x \<in> set (s # ss). sn_id x \<noteq> newest \<and> \<not> prune_exempt x} = {x \<in> set ss. sn_id x \<noteq> newest \<and> \<not> prune_exempt x}" by auto
    with Cons.IH [of d w] skip show ?thesis by simp
  next
    case fits
    then have "quota_loop q u newest (s # ss) d w = (Inr d, drop_snapshots {} w)"
      by (simp add: run_bind used_snapshot_bytes_def drop_none)
    then show ?thesis using fits by (auto simp: drop_none intro!: exI [of _ "{}"])
  next
    case drop
    obtain d' D where IH: "quota_loop q u newest ss (d + 1) (drop_snapshots {sn_id s} w) = (Inr d', drop_snapshots D (drop_snapshots {sn_id s} w))"
      "D \<subseteq> sn_id ` {x \<in> set ss. sn_id x \<noteq> newest \<and> \<not> prune_exempt x}"
      "snapshot_bytes (drop_snapshots D (drop_snapshots {sn_id s} w)) u \<le> q \<or> sn_id ` {x \<in> set ss. sn_id x \<noteq> newest \<and> \<not> prune_exempt x} \<subseteq> D"
      using Cons.IH [of "d + 1" "drop_snapshots {sn_id s} w"] by blast
    have "quota_loop q u newest (s # ss) d w = (Inr d', drop_snapshots (insert (sn_id s) D) w)"
      using drop IH(1) by (simp add: run_bind run_then used_snapshot_bytes_def delete_snapshot_def drop_snapshot_set drop_drop)
    moreover have "{x \<in> set (s # ss). sn_id x \<noteq> newest \<and> \<not> prune_exempt x} = insert s {x \<in> set ss. sn_id x \<noteq> newest \<and> \<not> prune_exempt x}"
      using drop by auto
    ultimately show ?thesis using IH(2,3) by (intro exI [of _ d'] exI [of _ "insert (sn_id s) D"]) (auto simp: drop_drop)
  qed
qed

definition settings_of :: "world \<Rightarrow> uuid \<Rightarrow> snapshot_settings" where
  "settings_of w u = (case row_get ss_user_id u (snap_settings w) of None \<Rightarrow> default_snapshot_settings u | Some s \<Rightarrow> s)"

definition quota_of :: "world \<Rightarrow> uuid \<Rightarrow> int" where
  "quota_of w u = (case ss_quota_bytes (settings_of w u) of Some q \<Rightarrow> q
     | None \<Rightarrow> (case find_user w u of None \<Rightarrow> 0 | Some r \<Rightarrow> u_quota_bytes r div 2))"

lemma run_settings_or_load: "settings_or_load u None w = (Inr (settings_of w u), w)"
  by (simp add: settings_or_load_def get_settings_def repo_get_settings_def run_bind settings_of_def)

lemma run_resolve_quota:
  "resolve_quota_bytes u (Some (settings_of w u)) (drop_snapshots D w) = (Inr (quota_of w u), drop_snapshots D w)"
  by (simp add: resolve_quota_bytes_def settings_or_load_def run_bind quota_of_def get_user_quota_bytes_def find_user_def
      split: option.splits)

text \<open>Pruning always returns, deletes snapshots of the user only, and what it spares.\<close>

text \<open>If the quota takes every survivor of the retention that may go, only the first snapshot and exempt ones are left.\<close>

lemma quota_takes_the_rest:
  assumes dist: "distinct (map sn_id ss)" and kept: "set kept = sn_id ` {s \<in> set ss. s \<notin> B}"
    and all: "sn_id ` {s \<in> set ss. sn_id s \<in> set kept \<and> sn_id s \<noteq> sn_id (hd ss) \<and> \<not> prune_exempt s} \<subseteq> D"
    and k: "k < length ss" "0 < k" "\<not> prune_exempt (ss ! k)"
  shows "sn_id (ss ! k) \<in> sn_id ` B \<union> D"
proof (cases "ss ! k \<in> B")
  case False
  have "hd ss = ss ! 0" "0 < length ss" using k(1) by (auto intro!: hd_conv_nth)
  then have "sn_id (ss ! k) \<noteq> sn_id (hd ss)"
    using dist k(1,2) nth_eq_iff_index_eq [of "map sn_id ss" k 0] by simp
  moreover from False have "sn_id (ss ! k) \<in> set kept" using k kept by auto
  ultimately have "ss ! k \<in> {s \<in> set ss. sn_id s \<in> set kept \<and> sn_id s \<noteq> sn_id (hd ss) \<and> \<not> prune_exempt s}"
    using k by simp
  with all show ?thesis by blast
qed simp

lemma prune_effect:
  assumes "distinct (map sn_id (snapshots w))"
  obtains d D where "prune u None w = (Inr d, drop_snapshots D w)"
    and "\<And>i. i \<in> D \<Longrightarrow> \<exists>k < length (snapshots_of w u). i = sn_id (snapshots_of w u ! k)
      \<and> \<not> prune_exempt (snapshots_of w u ! k) \<and> (0 < k \<or> ss_retention_n (settings_of w u) \<le> 0)"
    and "\<And>k. k < length (snapshots_of w u) \<Longrightarrow> ss_retention_n (settings_of w u) \<le> int k \<Longrightarrow>
      \<not> prune_exempt (snapshots_of w u ! k) \<Longrightarrow> sn_id (snapshots_of w u ! k) \<in> D"
    and "0 < quota_of w u \<Longrightarrow> snapshot_bytes (drop_snapshots D w) u \<le> quota_of w u
      \<or> (\<forall>k < length (snapshots_of w u). 0 < k \<longrightarrow> \<not> prune_exempt (snapshots_of w u ! k) \<longrightarrow> sn_id (snapshots_of w u ! k) \<in> D)"
proof -
  let ?ss = "snapshots_of w u"
  let ?n = "ss_retention_n (settings_of w u)"
  let ?B = "beyond_retention ?n 0 ?ss"
  have "mset ?ss = mset (filter (\<lambda>s. sn_user_id s = u) (snapshots w))" by (simp add: snapshots_of_def order_by_def)
  then have dist: "distinct (map sn_id ?ss)"
    by (metis assms distinct_map_filter mset_eq_imp_distinct_iff mset_map)
  obtain kept d where ret: "retention_loop ?n 0 ?ss [] 0 w = (Inr (kept, d), drop_snapshots (sn_id ` set ?B) w)"
    and kept: "set kept = sn_id ` {s \<in> set ?ss. s \<notin> set ?B}"
    using run_retention_loop [of ?n 0 ?ss "[]" 0 w] dist by auto
  have B: "i \<in> sn_id ` set ?B \<longleftrightarrow> (\<exists>k < length ?ss. i = sn_id (?ss ! k) \<and> ?n \<le> int k \<and> \<not> prune_exempt (?ss ! k))" for i
    unfolding image_iff Bex_def beyond_retention_iff by auto
  have run: "prune u None w = (if quota_of w u > 0 \<and> ?ss \<noteq> [] then
      quota_loop (quota_of w u) u (sn_id (hd ?ss)) (rev (filter (\<lambda>s. sn_id s \<in> set kept) ?ss)) d (drop_snapshots (sn_id ` set ?B) w)
      else (Inr d, drop_snapshots (sn_id ` set ?B) w))"
    by (simp add: prune_def run_bind run_settings_or_load repo_list_snapshots_def ret run_resolve_quota)
  show thesis
  proof (cases "quota_of w u > 0 \<and> ?ss \<noteq> []")
    case False
    show thesis
    proof (rule that)
      show "prune u None w = (Inr d, drop_snapshots (sn_id ` set ?B) w)" using run False by simp
    qed (use B False in \<open>auto intro: ccontr\<close>)
  next
    case True
    let ?surv = "rev (filter (\<lambda>s. sn_id s \<in> set kept) ?ss)"
    obtain d' D where q: "quota_loop (quota_of w u) u (sn_id (hd ?ss)) ?surv d (drop_snapshots (sn_id ` set ?B) w)
        = (Inr d', drop_snapshots D (drop_snapshots (sn_id ` set ?B) w))"
      and D: "D \<subseteq> sn_id ` {s \<in> set ?surv. sn_id s \<noteq> sn_id (hd ?ss) \<and> \<not> prune_exempt s}"
      and fits: "snapshot_bytes (drop_snapshots D (drop_snapshots (sn_id ` set ?B) w)) u \<le> quota_of w u
        \<or> sn_id ` {s \<in> set ?surv. sn_id s \<noteq> sn_id (hd ?ss) \<and> \<not> prune_exempt s} \<subseteq> D"
      using run_quota_loop by blast
    have hd: "hd ?ss = ?ss ! 0" using True by (simp add: hd_conv_nth)
    let ?D = "sn_id ` set ?B \<union> D"
    show thesis
    proof (rule that)
      show "prune u None w = (Inr d', drop_snapshots ?D w)" using run True q by (simp add: drop_drop)
      show "\<exists>k < length ?ss. i = sn_id (?ss ! k) \<and> \<not> prune_exempt (?ss ! k) \<and> (0 < k \<or> ?n \<le> 0)" if "i \<in> ?D" for i
        using that
      proof
        assume "i \<in> sn_id ` set ?B"
        then obtain k where "k < length ?ss" "i = sn_id (?ss ! k)" "?n \<le> int k" "\<not> prune_exempt (?ss ! k)" unfolding B by blast
        then show ?thesis by (intro exI [of _ k]) auto
      next
        assume "i \<in> D"
        with D obtain s where s: "s \<in> set ?ss" "i = sn_id s" "sn_id s \<noteq> sn_id (hd ?ss)" "\<not> prune_exempt s" by auto
        then obtain k where "k < length ?ss" "s = ?ss ! k" by (metis in_set_conv_nth)
        with s hd show ?thesis by (intro exI [of _ k]) (auto intro: gr0I)
      qed
      show "sn_id (?ss ! k) \<in> ?D" if "k < length ?ss" "?n \<le> int k" "\<not> prune_exempt (?ss ! k)" for k
        using that B by blast
      show "snapshot_bytes (drop_snapshots ?D w) u \<le> quota_of w u
        \<or> (\<forall>k < length ?ss. 0 < k \<longrightarrow> \<not> prune_exempt (?ss ! k) \<longrightarrow> sn_id (?ss ! k) \<in> ?D)"
      proof (cases "sn_id ` {s \<in> set ?surv. sn_id s \<noteq> sn_id (hd ?ss) \<and> \<not> prune_exempt s} \<subseteq> D")
        case all: True
        then have "\<forall>k < length ?ss. 0 < k \<longrightarrow> \<not> prune_exempt (?ss ! k) \<longrightarrow> sn_id (?ss ! k) \<in> ?D"
          by (intro allI impI quota_takes_the_rest [OF dist kept]) auto
        then show ?thesis by blast
      qed (use fits in \<open>simp add: drop_drop\<close>)
    qed
  qed
qed

text \<open>Pruning writes nothing but the deletion of snapshots.\<close>

lemma preserves_prune:
  assumes drop: "\<And>i. preserves I (delete_snapshot i)"
  shows "preserves I (prune u given)"
proof -
  have retention: "preserves I (retention_loop n i ss kept d)" for n i ss kept d
    by (induction ss arbitrary: i kept d) (auto intro: pres_rules drop)
  have quota: "preserves I (quota_loop q u newest ss d)" for q newest ss d
    by (induction ss arbitrary: d) (auto intro!: pres_rules drop preserves_read [OF keeps_snapshot_reads(11)])
  have settings: "preserves I (settings_or_load u g)" for g
    unfolding settings_or_load_def get_settings_def by (intro pres_rules preserves_read [OF keeps_snapshot_reads(7)])
  have bytes: "preserves I (resolve_quota_bytes u g)" for g
    unfolding resolve_quota_bytes_def by (intro pres_rules settings preserves_read [OF keeps_snapshot_reads(8)])
  have cont: "preserves I (case p of (kept, d) \<Rightarrow> bindM (resolve_quota_bytes u (Some se)) (\<lambda>q.
      if q > 0 \<and> ss \<noteq> [] then quota_loop q u (sn_id (hd ss)) (rev (filter (\<lambda>s. sn_id s \<in> set kept) ss)) d else returnM d))" for p se ss
    by (cases p) (simp, intro pres_rules bytes quota)
  show ?thesis unfolding prune_def
    by (intro pres_rules settings retention cont preserves_read [OF keeps_snapshot_reads(3)])
qed

section \<open>Capturing\<close>

fun new_entries :: "nat \<Rightarrow> uuid \<Rightarrow> entry_data list \<Rightarrow> snapshot_entry list" where
  "new_entries m sid [] = []"
| "new_entries m sid (e # es) = entry_row m sid e # new_entries (Suc m) sid es"

definition entry_data_of :: "snapshot_entry \<Rightarrow> entry_data" where
  "entry_data_of e = \<lparr>ed_item_id = se_item_id e, ed_parent_item_id = se_parent_item_id e, ed_name = se_name e,
     ed_item_type = se_item_type e, ed_storage_key = se_storage_key e, ed_checksum = se_checksum e,
     ed_size_bytes = se_size_bytes e\<rparr>"

lemma new_entries_facts: "map entry_data_of (new_entries m sid es) = es" "e \<in> set (new_entries m sid es) \<Longrightarrow> se_snapshot_id e = sid"
  by (induction es arbitrary: m) (auto simp: entry_row_def entry_data_of_def)

lemma run_add_entries:
  "forM es (\<lambda>e. bindM uuid4 (\<lambda>entry_id. modifyM (entries_update (\<lambda>rows. rows @ [entry_row entry_id sid e])))) w
    = (Inr (), w\<lparr>entries := entries w @ new_entries (uuid_next w) sid es, uuid_next := uuid_next w + length es\<rparr>)"
  by (induction es arbitrary: w) (simp_all add: run_then run_bind)

definition snapshot_row :: "world \<Rightarrow> uuid \<Rightarrow> snapshot_trigger \<Rightarrow> string \<Rightarrow> bool \<Rightarrow> snapshot" where
  "snapshot_row w u trg lab pinned = (let rows = filter (\<lambda>i. di_owner_id i = u \<and> \<not> di_is_deleted i) (items w) in
     \<lparr>sn_id = uuid_next w, sn_user_id = u, sn_trigger = trg, sn_label = lab, sn_item_count = int (length rows),
      sn_total_bytes = sum_list (map di_size_bytes (filter (\<lambda>i. di_item_type i = FILE) rows)),
      sn_pinned = (pinned \<or> trg = PRE_RESTORE), sn_created_at = clock w\<rparr>)"

definition captured :: "world \<Rightarrow> uuid \<Rightarrow> entry_data list" where
  "captured w u = capture (filter (\<lambda>i. di_owner_id i = u \<and> \<not> di_is_deleted i) (items w))"

definition with_snapshot :: "world \<Rightarrow> uuid \<Rightarrow> snapshot_trigger \<Rightarrow> string \<Rightarrow> bool \<Rightarrow> world" where
  "with_snapshot w u trg lab pinned = w\<lparr>snapshots := snapshots w @ [snapshot_row w u trg lab pinned],
     entries := entries w @ new_entries (Suc (uuid_next w)) (uuid_next w) (captured w u),
     uuid_next := Suc (uuid_next w) + length (captured w u)\<rparr>"

lemma run_create:
  "create u trg lab pinned w =
    (case prune u None (with_snapshot w u trg lab pinned) of
       (Inl e, w') \<Rightarrow> (Inl e, w') | (Inr d, w') \<Rightarrow> (Inr (snapshot_row w u trg lab pinned), w'))"
proof -
  let ?rows = "filter (\<lambda>i. di_owner_id i = u \<and> \<not> di_is_deleted i) (items w)"
  have "create_snapshot u trg lab (pinned \<or> trg = PRE_RESTORE) (int (length ?rows))
      (sum_list (map di_size_bytes (filter (\<lambda>i. di_item_type i = FILE) ?rows))) (capture ?rows) w
    = (Inr (snapshot_row w u trg lab pinned), with_snapshot w u trg lab pinned)"
    by (simp add: create_snapshot_def run_bind run_then run_add_entries Let_def with_snapshot_def snapshot_row_def captured_def)
  then show ?thesis by (simp only: create_def list_owner_items_def run_bind run_gets run_then run_return prod.case sum.case)
qed

text \<open>Every entry belongs to a snapshot, and no identifier of a snapshot is handed out again.\<close>

definition snapshots_ok :: "world \<Rightarrow> bool" where
  "snapshots_ok w \<longleftrightarrow> distinct (map sn_id (snapshots w)) \<and> (\<forall>s \<in> set (snapshots w). sn_id s < uuid_next w)
     \<and> (\<forall>e \<in> set (entries w). se_snapshot_id e \<in> sn_id ` set (snapshots w))"

lemma with_snapshot_distinct:
  "snapshots_ok w \<Longrightarrow> distinct (map sn_id (snapshots (with_snapshot w u trg lab pinned)))"
  by (auto simp: snapshots_ok_def with_snapshot_def snapshot_row_def Let_def)

lemma create_effect:
  assumes "snapshots_ok w"
  obtains D where "create u trg lab pinned w = (Inr (snapshot_row w u trg lab pinned), drop_snapshots D (with_snapshot w u trg lab pinned))"
    and "\<And>i. i \<in> D \<Longrightarrow> \<exists>k < length (snapshots_of (with_snapshot w u trg lab pinned) u).
      i = sn_id (snapshots_of (with_snapshot w u trg lab pinned) u ! k)
      \<and> \<not> prune_exempt (snapshots_of (with_snapshot w u trg lab pinned) u ! k)
      \<and> (0 < k \<or> ss_retention_n (settings_of w u) \<le> 0)"
proof -
  let ?v = "with_snapshot w u trg lab pinned"
  obtain d D where p: "prune u None ?v = (Inr d, drop_snapshots D ?v)"
    and D: "\<And>i. i \<in> D \<Longrightarrow> \<exists>k < length (snapshots_of ?v u). i = sn_id (snapshots_of ?v u ! k)
      \<and> \<not> prune_exempt (snapshots_of ?v u ! k) \<and> (0 < k \<or> ss_retention_n (settings_of ?v u) \<le> 0)"
    by (rule prune_effect [OF with_snapshot_distinct [OF assms]]) blast
  have "settings_of ?v u = settings_of w u" by (simp add: settings_of_def with_snapshot_def)
  with p D show thesis by (intro that) (simp_all add: run_create)
qed

lemma snapshots_of_set: "set (snapshots_of w u) = {s \<in> set (snapshots w). sn_user_id s = u}"
  by (auto simp: snapshots_of_def)

lemma snapshots_of_distinct: "distinct (map sn_id (snapshots w)) \<Longrightarrow> distinct (map sn_id (snapshots_of w u))"
proof -
  assume a: "distinct (map sn_id (snapshots w))"
  have "mset (snapshots_of w u) = mset (filter (\<lambda>s. sn_user_id s = u) (snapshots w))" by (simp add: snapshots_of_def order_by_def)
  then show ?thesis by (metis a distinct_map_filter mset_eq_imp_distinct_iff mset_map)
qed

text \<open>A snapshot younger than all others is the first of the list.\<close>

lemma newest_first:
  assumes "s \<in> set (snapshots_of w u)" "\<And>x. x \<in> set (snapshots_of w u) \<Longrightarrow> x \<noteq> s \<Longrightarrow> sn_created_at x < sn_created_at s"
  shows "hd (snapshots_of w u) = s"
proof (rule ccontr)
  let ?xs = "sort_key sn_created_at (rev (filter (\<lambda>s. sn_user_id s = u) (snapshots w)))"
  have ss: "snapshots_of w u = rev ?xs" by (simp add: snapshots_of_def order_by_def)
  have ne: "?xs \<noteq> []" using assms(1) unfolding ss by (metis empty_iff list.set(1) rev.simps(1))
  have h: "hd (snapshots_of w u) = last ?xs" unfolding ss by (rule hd_rev)
  assume "hd (snapshots_of w u) \<noteq> s"
  moreover have "last ?xs \<in> set (snapshots_of w u)" unfolding ss using ne by (metis last_in_set set_rev)
  ultimately have less: "sn_created_at (last ?xs) < sn_created_at s" using assms(2) h by metis
  have "sorted (map sn_created_at ?xs)" by simp
  moreover have "s \<in> set ?xs" using assms(1) unfolding ss by (simp only: set_rev)
  then obtain k where k: "k < length ?xs" "s = ?xs ! k" by (metis in_set_conv_nth)
  ultimately have "sn_created_at (?xs ! k) \<le> sn_created_at (?xs ! (length ?xs - 1))"
    using sorted_nth_mono [of "map sn_created_at ?xs" k "length ?xs - 1"] by simp
  with less k ne show False by (simp add: last_conv_nth)
qed

section \<open>Collecting\<close>

definition gc_protected :: "time \<Rightarrow> world \<Rightarrow> string \<Rightarrow> bool" where
  "gc_protected cutoff w k \<longleftrightarrow> k \<in> set (live_keys w) \<or> (\<exists>b \<in> set (blobs w). bl_key b = k \<and> cutoff \<le> bl_modified_at b)"

lemma live_keys_remove: "live_keys (blob_remove k w) = live_keys w"
  by (simp add: live_keys_def entry_keys_def blob_remove_def)

lemma blobs_remove: "blobs (blob_remove k w) = row_delete (\<lambda>b. bl_key b = k) (blobs w)"
  by (simp add: blob_remove_def)

interpretation gc_guard: blob_collector blob_get blob_put blob_remove "gc_protected cutoff" for cutoff
  by unfold_locales (auto simp: gc_protected_def live_keys_remove blobs_remove)

definition blobs_ok :: "world \<Rightarrow> bool" where
  "blobs_ok w \<longleftrightarrow> distinct (map bl_key (blobs w)) \<and> (\<forall>b \<in> set (blobs w). resolve_path (bl_key b) = Inr (bl_key b))"

lemma run_gc_loop:
  assumes "set refs = set (live_keys w)" "distinct (map bl_key (blobs w))" "set bs \<subseteq> set (blobs w)" "distinct (map bl_key bs)"
    and "\<forall>b \<in> set bs. resolve_path (bl_key b) = Inr (bl_key b)"
  shows "\<exists>out'. gc_loop refs cutoff bs out w = (Inr out', gc_guard.sweep cutoff (map bl_key bs) w)
    \<and> gc_deleted out' = gc_deleted out + int (length (filter (\<lambda>b. \<not> gc_protected cutoff w (bl_key b)) bs))"
  using assms
proof (induction bs arbitrary: out w)
  case Nil
  then show ?case by (simp add: gc_guard.sweep_def)
next
  case (Cons b bs)
  have only: "x \<in> set (blobs w) \<Longrightarrow> bl_key x = bl_key b \<Longrightarrow> x = b" for x
    using Cons.prems(2,3) by (auto simp: distinct_map dest: inj_onD)
  have prot: "gc_protected cutoff w (bl_key b) \<longleftrightarrow> bl_key b \<in> set refs \<or> cutoff \<le> bl_modified_at b"
    using only Cons.prems(1,3) unfolding gc_protected_def by auto
  show ?case
  proof (cases "gc_protected cutoff w (bl_key b)")
    case True
    then have sweep: "gc_guard.sweep cutoff (map bl_key (b # bs)) w = gc_guard.sweep cutoff (map bl_key bs) w"
      by (simp add: gc_guard.sweep_def)
    have IH: "\<exists>out'. gc_loop refs cutoff bs o1 w = (Inr out', gc_guard.sweep cutoff (map bl_key bs) w)
        \<and> gc_deleted out' = gc_deleted o1 + int (length (filter (\<lambda>b. \<not> gc_protected cutoff w (bl_key b)) bs))" for o1
      by (rule Cons.IH) (use Cons.prems in auto)
    show ?thesis
    proof (cases "bl_key b \<in> set refs")
      case True
      with IH [of out] \<open>gc_protected cutoff w (bl_key b)\<close> show ?thesis unfolding sweep by simp
    next
      case False
      with prot True have "cutoff \<le> bl_modified_at b" by blast
      with IH [of "out\<lparr>gc_skipped_recent := gc_skipped_recent out + 1\<rparr>"] False True show ?thesis unfolding sweep by simp
    qed
  next
    case False
    let ?v = "blob_remove (bl_key b) w"
    let ?o = "out\<lparr>gc_deleted := gc_deleted out + 1, gc_freed_bytes := gc_freed_bytes out + int (length (bl_data b))\<rparr>"
    have ne: "x \<in> set bs \<Longrightarrow> bl_key x \<noteq> bl_key b" for x
      using Cons.prems(4) by (metis distinct.simps(2) image_eqI list.set_map list.simps(9))
    have "\<exists>out'. gc_loop refs cutoff bs ?o ?v = (Inr out', gc_guard.sweep cutoff (map bl_key bs) ?v)
        \<and> gc_deleted out' = gc_deleted ?o + int (length (filter (\<lambda>b. \<not> gc_protected cutoff ?v (bl_key b)) bs))"
    proof (rule Cons.IH)
      show "distinct (map bl_key (blobs ?v))" using Cons.prems(2) by (simp add: blob_remove_def row_delete_distinct)
      show "set bs \<subseteq> set (blobs ?v)" using Cons.prems(3) ne by (auto simp: blobs_remove)
    qed (use Cons.prems in \<open>simp_all add: live_keys_remove\<close>)
    moreover have "filter (\<lambda>x. \<not> gc_protected cutoff ?v (bl_key x)) bs = filter (\<lambda>x. \<not> gc_protected cutoff w (bl_key x)) bs"
      by (rule filter_cong) (use ne gc_guard.protected_drop [of _ "bl_key b" cutoff w] in auto)
    moreover have "gc_guard.sweep cutoff (map bl_key (b # bs)) w = gc_guard.sweep cutoff (map bl_key bs) ?v"
      using False by (simp add: gc_guard.sweep_def)
    moreover have "storage_delete (bl_key b) w = (Inr (), ?v)" using Cons.prems(5) by (intro run_storage_delete) simp
    moreover have "bl_key b \<notin> set refs" "\<not> cutoff \<le> bl_modified_at b" using False prot by blast+
    ultimately show ?thesis using False by (auto simp: run_then)
  qed
qed

lemma keeps_gc_sweep:
  assumes "\<And>g w. f (blobs_update g w) = f w"
  shows "f (gc_guard.sweep cutoff ks v) = f v"
  unfolding gc_guard.sweep_def by (induction ks arbitrary: v) (simp_all add: keeps_put_blob [OF assms])

section \<open>Restoring\<close>

text \<open>What an upsert makes of the item of an entry.\<close>

definition as_captured :: "snapshot_entry \<Rightarrow> drive_item \<Rightarrow> bool" where
  "as_captured e r \<longleftrightarrow> di_name r = se_name e \<and> di_size_bytes r = se_size_bytes e \<and> di_storage_key r = se_storage_key e
     \<and> di_checksum r = se_checksum e \<and> \<not> di_is_deleted r"

definition item_matches :: "snapshot_entry \<Rightarrow> world \<Rightarrow> bool" where
  "item_matches e w \<longleftrightarrow> (\<exists>r. find_item w (se_item_id e) = Some r \<and> as_captured e r \<and> di_parent_id r = se_parent_item_id e)"

lemma upsert_effect:
  assumes "upsert_item u e w = (Inr x, w')"
  shows "item_matches e w'" "j \<noteq> se_item_id e \<Longrightarrow> find_item w' j = find_item w j"
    "snapshots w' = snapshots w" "entries w' = entries w"
proof -
  have w': "w' = (case find_item w (se_item_id e) of
      None \<Rightarrow> items_update (\<lambda>rows. rows @ [restored_row u e (clock w)]) w
    | Some _ \<Rightarrow> set_item (se_item_id e) (reverted e (clock w)) w)"
    using assms by (auto simp: upsert_item_def run_bind run_then run_flush_items split: option.splits if_splits)
  have "item_matches e w' \<and> (j \<noteq> se_item_id e \<longrightarrow> find_item w' j = find_item w j) \<and> snapshots w' = snapshots w \<and> entries w' = entries w" for j
  proof (cases "find_item w (se_item_id e)")
    case None
    then have row: "find_item w' i = (if i = se_item_id e then Some (restored_row u e (clock w)) else find_item w i)" for i
      by (auto simp: w' find_item_def row_get_append restored_row_def split: option.splits)
    with None show ?thesis by (simp add: item_matches_def w') (simp add: as_captured_def restored_row_def)
  next
    case (Some r)
    have row: "find_item w' i = (if i = se_item_id e then map_option (reverted e (clock w)) (find_item w i) else find_item w i)" for i
      using Some by (simp add: w' find_item_set_item reverted_def)
    with Some show ?thesis by (simp add: item_matches_def w') (simp add: as_captured_def reverted_def set_item_def)
  qed
  then show "item_matches e w'" "j \<noteq> se_item_id e \<Longrightarrow> find_item w' j = find_item w j"
    "snapshots w' = snapshots w" "entries w' = entries w" by blast+
qed

lemma keeps_upserts: "keeps snapshots (forM es (\<lambda>e. upsert_item u (f e)))"
  by (intro keeps_for) (simp add: keeps_def upsert_item_def run_bind run_then run_flush_items set_item_def split: option.splits)

lemma placed_simps [simp]: "se_item_id (placed a b e) = se_item_id e"
  by (auto simp: placed_def rehomed_to_root_def split: option.splits)

lemma upserts_effect:
  assumes "forM es (\<lambda>e. upsert_item u (f e)) w = (Inr x, w')" "distinct (map se_item_id es)" "\<And>e. se_item_id (f e) = se_item_id e"
  shows "e \<in> set es \<Longrightarrow> item_matches (f e) w'" "j \<notin> se_item_id ` set es \<Longrightarrow> find_item w' j = find_item w j"
    "snapshots w' = snapshots w" "entries w' = entries w"
proof -
  have "(\<forall>e \<in> set es. item_matches (f e) w') \<and> (\<forall>j. j \<notin> se_item_id ` set es \<longrightarrow> find_item w' j = find_item w j)
    \<and> snapshots w' = snapshots w \<and> entries w' = entries w"
    using assms(1,2)
  proof (induction es arbitrary: w)
    case (Cons d es)
    obtain y w1 where d: "upsert_item u (f d) w = (Inr y, w1)" and rest: "forM es (\<lambda>e. upsert_item u (f e)) w1 = (Inr x, w')"
      using Cons.prems(1) by (auto elim!: then_InrE)
    note up = upsert_effect [OF d]
    have IH: "(\<forall>e \<in> set es. item_matches (f e) w') \<and> (\<forall>j. j \<notin> se_item_id ` set es \<longrightarrow> find_item w' j = find_item w1 j)
      \<and> snapshots w' = snapshots w1 \<and> entries w' = entries w1"
      by (rule Cons.IH [OF rest]) (use Cons.prems(2) in simp)
    moreover have "se_item_id (f d) \<notin> se_item_id ` set es" using Cons.prems(2) assms(3) by simp
    ultimately have "item_matches (f d) w'" using up(1) unfolding item_matches_def by metis
    with IH up(2-4) assms(3) show ?case by auto
  qed simp
  then show "e \<in> set es \<Longrightarrow> item_matches (f e) w'" "j \<notin> se_item_id ` set es \<Longrightarrow> find_item w' j = find_item w j"
    "snapshots w' = snapshots w" "entries w' = entries w" by blast+
qed

lemma set_deleteds_effect:
  assumes "forM ds (\<lambda>i. set_deleted (di_id i) True) w = (Inr x, w')"
  shows "j \<notin> di_id ` set ds \<Longrightarrow> find_item w' j = find_item w j"
    and "j \<in> di_id ` set ds \<Longrightarrow> find_item w j \<noteq> None \<Longrightarrow> \<exists>r. find_item w' j = Some r \<and> di_is_deleted r"
    and "snapshots w' = snapshots w" "entries w' = entries w"
proof -
  have "(\<forall>j. j \<notin> di_id ` set ds \<longrightarrow> find_item w' j = find_item w j)
    \<and> (\<forall>j. (\<exists>r. find_item w j = Some r \<and> (j \<in> di_id ` set ds \<or> di_is_deleted r)) \<longrightarrow> (\<exists>r. find_item w' j = Some r \<and> di_is_deleted r))
    \<and> snapshots w' = snapshots w \<and> entries w' = entries w"
    using assms
  proof (induction ds arbitrary: w)
    case (Cons d ds)
    obtain y w1 where d: "set_deleted (di_id d) True w = (Inr y, w1)" and rest: "forM ds (\<lambda>i. set_deleted (di_id i) True) w1 = (Inr x, w')"
      using Cons.prems(1) by (auto elim!: then_InrE)
    have one: "find_item w1 j = (if j = di_id d then map_option (\<lambda>r. r\<lparr>di_is_deleted := True, di_deleted_at := Some (clock w)\<rparr>) (find_item w j)
        else find_item w j) \<and> snapshots w1 = snapshots w \<and> entries w1 = entries w" for j
      using d by (auto simp: set_deleted_def run_bind run_then run_flush_items find_item_set_item set_item_def find_item_def row_get_update
          split: option.splits if_splits)
    have "(\<exists>r. find_item w j = Some r \<and> (j \<in> di_id ` set (d # ds) \<or> di_is_deleted r)) \<Longrightarrow>
        (\<exists>r. find_item w1 j = Some r \<and> (j \<in> di_id ` set ds \<or> di_is_deleted r))" for j
      using one [of j] by auto
    with Cons.IH [OF rest] one show ?case by auto
  qed simp
  then show "j \<notin> di_id ` set ds \<Longrightarrow> find_item w' j = find_item w j"
    and "j \<in> di_id ` set ds \<Longrightarrow> find_item w j \<noteq> None \<Longrightarrow> \<exists>r. find_item w' j = Some r \<and> di_is_deleted r"
    and "snapshots w' = snapshots w" "entries w' = entries w" by blast+
qed

text \<open>The steps of a restore of the whole drive that returns.\<close>

definition mirrored :: "world \<Rightarrow> uuid \<Rightarrow> uuid list \<Rightarrow> drive_item list" where
  "mirrored w u ids = filter (mirror_trashes ids None) (filter (\<lambda>i. di_owner_id i = u) (items w))"

lemma bind_run: "m w = (Inr x, v) \<Longrightarrow> bindM m g w = g x v"
  by (simp add: run_bind)

lemma snapshot_restore_InrE:
  assumes ok: "snapshots_ok w" and r: "restore f a u sid WHOLE mode w = (Inr (Some out), w')"
  obtains D lab w1 w2 w3 where "w1 = drop_snapshots D (with_snapshot w u PRE_RESTORE lab False)"
    "forM (parents_first (entries_of w1 sid)) (\<lambda>e. upsert_item u (placed (map se_item_id (entries_of w1 sid))
       (map di_id (filter (\<lambda>i. di_owner_id i = u) (items w1))) e)) w1 = (Inr (), w2)"
    "mode = KEEP_NEW \<Longrightarrow> w3 = w2"
    "mode = EXACT_MIRROR \<Longrightarrow> forM (mirrored w2 u (map se_item_id (entries_of w1 sid))) (\<lambda>i. set_deleted (di_id i) True) w2 = (Inr (), w3)"
    "items w' = items w3" "snapshots w' = snapshots w3" "entries w' = entries w3"
proof -
  obtain snap where g: "find (\<lambda>s. sn_id s = sid \<and> sn_user_id s = u) (snapshots w) = Some snap"
    using r by (auto simp: restore_def run_bind get_snapshot_def split: option.splits)
  let ?lab = "f (sn_created_at snap)"
  obtain D where c: "create u PRE_RESTORE ?lab False w = (Inr (snapshot_row w u PRE_RESTORE ?lab False),
      drop_snapshots D (with_snapshot w u PRE_RESTORE ?lab False))"
    by (rule create_effect [OF ok])
  let ?w1 = "drop_snapshots D (with_snapshot w u PRE_RESTORE ?lab False)"
  let ?es = "entries_of ?w1 sid"
  let ?own = "filter (\<lambda>i. di_owner_id i = u) (items ?w1)"
  have g': "get_snapshot u sid w = (Inr (Some snap), w)" by (simp add: get_snapshot_def g)
  have le: "list_all_entries sid ?w1 = (Inr ?es, ?w1)" by (simp add: list_all_entries_def)
  have lo: "list_all_items u ?w1 = (Inr ?own, ?w1)" by (simp add: list_all_items_def)
  let ?mirror = "case mode of KEEP_NEW \<Rightarrow> returnM 0
     | EXACT_MIRROR \<Rightarrow> bindM (list_all_items u) (\<lambda>present.
         let doomed = filter (mirror_trashes (map se_item_id ?es) None) present in
         thenM (forM doomed (\<lambda>i. set_deleted (di_id i) True)) (returnM (int (length doomed))))"
  have "thenM (forM (parents_first ?es) (\<lambda>e. upsert_item u (placed (map se_item_id ?es) (map di_id ?own) e)))
      (bindM ?mirror (\<lambda>trashed. thenM (whenM a (thenM (log_activity u SNAPSHOT_RESTORE None) (returnM ())))
        (returnM (Some \<lparr>ro_pre_restore_snapshot_id = sn_id (snapshot_row w u PRE_RESTORE ?lab False),
           ro_restored = int (length (parents_first ?es)), ro_trashed = trashed\<rparr>)))) ?w1 = (Inr (Some out), w')"
    using r by (simp only: restore_def bind_run [where m = "get_snapshot u sid" and w = w, OF g'] option.case bind_run [where m = "create u PRE_RESTORE ?lab False" and w = w, OF c] 
      bind_run [where m = "list_all_entries sid" and w = ?w1, OF le] bind_run [where m = "list_all_items u" and w = ?w1, OF lo] Let_def restore_scope.case)
  then obtain w2 where up: "forM (parents_first ?es) (\<lambda>e. upsert_item u (placed (map se_item_id ?es) (map di_id ?own) e)) ?w1 = (Inr (), w2)"
    and rest: "bindM ?mirror (\<lambda>trashed. thenM (whenM a (thenM (log_activity u SNAPSHOT_RESTORE None) (returnM ())))
        (returnM (Some \<lparr>ro_pre_restore_snapshot_id = sn_id (snapshot_row w u PRE_RESTORE ?lab False),
           ro_restored = int (length (parents_first ?es)), ro_trashed = trashed\<rparr>))) w2 = (Inr (Some out), w')"
    by (rule then_InrE) simp
  from rest obtain k w3 where m: "?mirror w2 = (Inr k, w3)"
    and l: "thenM (whenM a (thenM (log_activity u SNAPSHOT_RESTORE None) (returnM ())))
        (returnM (Some \<lparr>ro_pre_restore_snapshot_id = sn_id (snapshot_row w u PRE_RESTORE ?lab False),
           ro_restored = int (length (parents_first ?es)), ro_trashed = k\<rparr>)) w3 = (Inr (Some out), w')"
    by (rule bind_InrE)
  have log: "items w' = items w3" "snapshots w' = snapshots w3" "entries w' = entries w3"
    using l by (auto elim!: then_InrE when_InrE dest: log_activity_frame)
  show thesis
    by (rule that [OF refl up _ _ log]) (use m in \<open>auto simp: list_all_items_def mirrored_def run_bind Let_def elim!: then_InrE\<close>)
qed

end
