(* ===== verification/SnapshotProperties.thy ===== *)
theory SnapshotProperties
  imports SnapshotFacts Samples
begin

text \<open>The properties of snapshots, with their instances.\<close>

text \<open>The sample drive with two snapshots of user 1, a day apart; the second one holds the file's blob.\<close>

definition sample_snapshot :: "uuid \<Rightarrow> time \<Rightarrow> bool \<Rightarrow> snapshot" where
  "sample_snapshot i t pinned = \<lparr>sn_id = i, sn_user_id = 1, sn_trigger = MANUAL, sn_label = [], sn_item_count = 0,
     sn_total_bytes = 0, sn_pinned = pinned, sn_created_at = t\<rparr>"

definition sample_entry :: "uuid \<Rightarrow> uuid \<Rightarrow> uuid \<Rightarrow> uuid option \<Rightarrow> string \<Rightarrow> item_type \<Rightarrow> string option \<Rightarrow> int \<Rightarrow> snapshot_entry" where
  "sample_entry i s item p n ty k z = \<lparr>se_id = i, se_snapshot_id = s, se_item_id = item, se_parent_item_id = p, se_name = n,
     se_item_type = ty, se_storage_key = k, se_checksum = None, se_size_bytes = z\<rparr>"

definition snap_world :: world where
  "snap_world = sample_world\<lparr>clock := days 5, uuid_next := 200,
     snapshots := [sample_snapshot 60 (days 1) False, sample_snapshot 61 (days 2) False],
     entries := [sample_entry 70 61 10 None ''papers'' FOLDER None 0,
       sample_entry 71 61 12 (Some 10) ''draft.txt'' FILE (Some ''k12'') 5]\<rparr>"

lemma snap_world_ok: "snapshots_ok snap_world"
  by (simp add: snapshots_ok_def snap_world_def sample_snapshot_def sample_entry_def)

section \<open>Capturing and pruning\<close>

lemma drop_keeps_entries: "i \<notin> D \<Longrightarrow> entries_of (drop_snapshots D w) i = entries_of w i"
  by (auto simp: entries_of_def row_delete_def intro!: filter_cong)

text \<open>What pruning drops is never protected: \<open>r\<close> is the number of snapshots to retain, \<open>D\<close> what is dropped.\<close>

lemma protected_not_dropped:
  assumes "distinct (map sn_id (snapshots w))" "1 \<le> (r :: int)"
    and D: "\<And>i. i \<in> D \<Longrightarrow> \<exists>k < length (snapshots_of w u). i = sn_id (snapshots_of w u ! k)
      \<and> \<not> prune_exempt (snapshots_of w u ! k) \<and> (0 < k \<or> r \<le> 0)"
    and s: "s \<in> set (snapshots w)" "sn_user_id s \<noteq> u \<or> prune_exempt s \<or> s = hd (snapshots_of w u)"
  shows "sn_id s \<notin> D"
proof
  assume "sn_id s \<in> D"
  with D [of "sn_id s"] assms(2) obtain k where k: "k < length (snapshots_of w u)" "sn_id s = sn_id (snapshots_of w u ! k)"
    "\<not> prune_exempt (snapshots_of w u ! k)" "0 < k" by fastforce
  have nth: "snapshots_of w u ! k \<in> set (snapshots w)" "sn_user_id (snapshots_of w u ! k) = u"
    using nth_mem [OF k(1)] by (simp_all add: snapshots_of_set)
  have "s = snapshots_of w u ! k" using assms(1) s(1) nth(1) k(2) by (auto simp: distinct_map dest: inj_onD)
  moreover have "snapshots_of w u ! k \<noteq> hd (snapshots_of w u)"
  proof -
    have "distinct (snapshots_of w u)" using snapshots_of_distinct [OF assms(1), of u] by (simp add: distinct_map)
    moreover have "hd (snapshots_of w u) = snapshots_of w u ! 0" "0 < length (snapshots_of w u)"
      using k(1) by (auto intro!: hd_conv_nth)
    ultimately show ?thesis using k(1,4) by (metis nth_eq_iff_index_eq less_irrefl)
  qed
  ultimately show False using s(2) k(3) nth by metis
qed





text \<open>C17: pruning always returns and deletes whole snapshots of the user only, never the newest, a pinned or a safety
  snapshot; afterwards every snapshot beyond the retention count is exempt, and the snapshot bytes fit the
  quota or there is nothing left that may go.\<close>

theorem prune_spares_the_protected:
  assumes "distinct (map sn_id (snapshots w))" "1 \<le> ss_retention_n (settings_of w u)"
  shows "\<exists>d w'. prune u None w = (Inr d, w')
    \<and> (\<forall>s \<in> set (snapshots w). sn_user_id s \<noteq> u \<or> prune_exempt s \<or> s = hd (snapshots_of w u) \<longrightarrow>
         s \<in> set (snapshots w') \<and> entries_of w' (sn_id s) = entries_of w (sn_id s))
    \<and> (\<forall>k < length (snapshots_of w u). ss_retention_n (settings_of w u) \<le> int k \<and> snapshots_of w u ! k \<in> set (snapshots w') \<longrightarrow>
         prune_exempt (snapshots_of w u ! k))
    \<and> (0 < quota_of w u \<longrightarrow> snapshot_bytes w' u \<le> quota_of w u
         \<or> (\<forall>s \<in> set (snapshots w'). sn_user_id s = u \<longrightarrow> prune_exempt s \<or> s = hd (snapshots_of w u)))
    \<and> items w' = items w \<and> blobs w' = blobs w"
proof (rule prune_effect [OF assms(1), of u])
  fix d D
  assume p: "prune u None w = (Inr d, drop_snapshots D w)"
    and D: "\<And>i. i \<in> D \<Longrightarrow> \<exists>k < length (snapshots_of w u). i = sn_id (snapshots_of w u ! k)
      \<and> \<not> prune_exempt (snapshots_of w u ! k) \<and> (0 < k \<or> ss_retention_n (settings_of w u) \<le> 0)"
    and gone: "\<And>k. k < length (snapshots_of w u) \<Longrightarrow> ss_retention_n (settings_of w u) \<le> int k \<Longrightarrow>
      \<not> prune_exempt (snapshots_of w u ! k) \<Longrightarrow> sn_id (snapshots_of w u ! k) \<in> D"
    and fits: "0 < quota_of w u \<Longrightarrow> snapshot_bytes (drop_snapshots D w) u \<le> quota_of w u
      \<or> (\<forall>k < length (snapshots_of w u). 0 < k \<longrightarrow> \<not> prune_exempt (snapshots_of w u ! k) \<longrightarrow> sn_id (snapshots_of w u ! k) \<in> D)"
  have first: "0 < length (snapshots_of w u) \<Longrightarrow> snapshots_of w u ! 0 = hd (snapshots_of w u)" by (simp add: hd_conv_nth)
  note spared = protected_not_dropped [OF assms D]
  have rest: "prune_exempt s \<or> s = hd (snapshots_of w u)"
    if all: "\<forall>k < length (snapshots_of w u). 0 < k \<longrightarrow> \<not> prune_exempt (snapshots_of w u ! k) \<longrightarrow> sn_id (snapshots_of w u ! k) \<in> D"
      and s: "s \<in> set (snapshots (drop_snapshots D w))" "sn_user_id s = u" for s
  proof -
    from s obtain k where k: "k < length (snapshots_of w u)" "s = snapshots_of w u ! k" "sn_id s \<notin> D"
      by (auto simp: in_set_conv_nth snapshots_of_set [symmetric] dest: iffD2 [OF in_set_conv_nth])
        (metis (mono_tags, lifting) in_set_conv_nth mem_Collect_eq snapshots_of_set)
    with all first show ?thesis by (cases "k = 0") auto
  qed
  have fits': "0 < quota_of w u \<Longrightarrow> snapshot_bytes (drop_snapshots D w) u \<le> quota_of w u
      \<or> (\<forall>s \<in> set (snapshots (drop_snapshots D w)). sn_user_id s = u \<longrightarrow> prune_exempt s \<or> s = hd (snapshots_of w u))"
    using fits rest by blast
  have over: "\<forall>k < length (snapshots_of w u). ss_retention_n (settings_of w u) \<le> int k
      \<and> snapshots_of w u ! k \<in> set (snapshots (drop_snapshots D w)) \<longrightarrow> prune_exempt (snapshots_of w u ! k)"
    using gone by (auto simp: row_delete_def)
  show ?thesis using spared over fits'
    by (intro exI [of _ d] exI [of _ "drop_snapshots D w"] conjI) (auto simp: p drop_keeps_entries)
qed

lemma prune_spares_the_protected_witness:
  "\<exists>d w'. prune 1 None snap_world = (Inr d, w') \<and> hd (snapshots_of snap_world 1) \<in> set (snapshots w')"
proof -
  have "distinct (map sn_id (snapshots snap_world))" "1 \<le> ss_retention_n (settings_of snap_world 1)" by code_simp+
  note p = prune_spares_the_protected [OF this]
  have "hd (snapshots_of snap_world 1) \<in> set (snapshots snap_world)"
  proof -
    have "length (snapshots_of snap_world 1) = 2" by code_simp
    then have "snapshots_of snap_world 1 \<noteq> []" by auto
    then show ?thesis using snapshots_of_set [of snap_world 1] using hd_in_set by blast
  qed
  with p show ?thesis by blast
qed

section \<open>Restoring\<close>

lemma parents_first_facts [simp]: "set (parents_first es) = set es"
  "distinct (map se_item_id (parents_first es)) = distinct (map se_item_id es)"
proof -
  have m: "mset (parents_first es) = mset es" by (simp add: parents_first_def)
  then show "set (parents_first es) = set es" by (metis set_mset_mset)
  from m show "distinct (map se_item_id (parents_first es)) = distinct (map se_item_id es)"
    by (metis mset_eq_imp_distinct_iff mset_map)
qed

lemma placed_row:
  assumes "item_matches (placed ids live e) w"
  obtains r where "find_item w (se_item_id e) = Some r" "as_captured e r"
    "di_parent_id r = se_parent_item_id e \<or> di_parent_id r = None \<and> se_parent_item_id e \<notin> Some ` set ids"
proof -
  from assms obtain r where r: "find_item w (se_item_id e) = Some r" "as_captured (placed ids live e) r"
      "di_parent_id r = se_parent_item_id (placed ids live e)"
    by (auto simp: item_matches_def)
  have "as_captured e r" using r(2) by (auto simp: as_captured_def placed_def rehomed_to_root_def split: option.splits if_splits)
  moreover have "di_parent_id r = se_parent_item_id e \<or> di_parent_id r = None \<and> se_parent_item_id e \<notin> Some ` set ids"
    using r(3) by (auto simp: placed_def rehomed_to_root_def split: option.splits if_splits)
  ultimately show thesis using that r(1) by blast
qed

lemma mirror_trashes_the_rest:
  assumes run: "forM (mirrored w u ids) (\<lambda>i. set_deleted (di_id i) True) w = (Inr (), w')"
    and j: "j \<notin> set ids" and r: "find_item w j = Some r" "di_owner_id r = u"
  shows "\<exists>r'. find_item w' j = Some r' \<and> di_is_deleted r'"
proof (cases "j \<in> di_id ` set (mirrored w u ids)")
  case True
  with set_deleteds_effect(2) [OF run True] r(1) show ?thesis by simp
next
  case False
  with r(2) j find_item_Some [OF r(1)] have "di_is_deleted r" by (auto simp: mirrored_def mirror_trashes_def)
  with set_deleteds_effect(1) [OF run False] r(1) show ?thesis by simp
qed

text \<open>C18: a restore of the whole drive that returns, and whose pruning spared the snapshot, brings back every entry: the
  item of the entry is live under the captured name, parent and content, a parent that is nowhere else being
  replaced by the root. Items that are not in the snapshot stay as they are, or are trashed when the restore
  is an exact mirror and they are live and the user's own.\<close>

theorem restore_brings_back_the_entries:
  assumes "snapshots_ok w" "restore f a u sid WHOLE mode w = (Inr (Some out), w')"
    and "sid \<in> sn_id ` set (snapshots w')" "sid < uuid_next w" "distinct (map se_item_id (entries_of w sid))"
  shows "(\<forall>e \<in> set (entries_of w sid). \<exists>r. find_item w' (se_item_id e) = Some r \<and> as_captured e r
      \<and> (di_parent_id r = se_parent_item_id e \<or> di_parent_id r = None \<and> se_parent_item_id e \<notin> Some ` se_item_id ` set (entries_of w sid)))
    \<and> (\<forall>j. j \<notin> se_item_id ` set (entries_of w sid) \<longrightarrow> (mode = KEEP_NEW \<longrightarrow> find_item w' j = find_item w j)
      \<and> (mode = EXACT_MIRROR \<longrightarrow> (\<forall>r. find_item w j = Some r \<longrightarrow> di_owner_id r = u \<longrightarrow> (\<exists>r'. find_item w' j = Some r' \<and> di_is_deleted r'))))"
proof (rule snapshot_restore_InrE [OF assms(1,2)])
  fix D lab w1 w2 w3
  assume w1: "w1 = drop_snapshots D (with_snapshot w u PRE_RESTORE lab False)"
    and up: "forM (parents_first (entries_of w1 sid)) (\<lambda>e. upsert_item u (placed (map se_item_id (entries_of w1 sid))
       (map di_id (filter (\<lambda>i. di_owner_id i = u) (items w1))) e)) w1 = (Inr (), w2)"
    and keep: "mode = KEEP_NEW \<Longrightarrow> w3 = w2"
    and mirror: "mode = EXACT_MIRROR \<Longrightarrow> forM (mirrored w2 u (map se_item_id (entries_of w1 sid))) (\<lambda>i. set_deleted (di_id i) True) w2 = (Inr (), w3)"
    and last: "items w' = items w3" "snapshots w' = snapshots w3" "entries w' = entries w3"
  let ?es = "entries_of w sid" and ?ids = "map se_item_id (entries_of w1 sid)"
  let ?live = "map di_id (filter (\<lambda>i. di_owner_id i = u) (items w1))"
  have "snapshots w3 = snapshots w1"
    using keepsD [OF keeps_upserts up] set_deleteds_effect(3) [OF mirror] keep by (cases mode) simp_all
  then have "sid \<notin> D" using assms(3) last(2) by (auto simp: w1)
  then have es: "entries_of w1 sid = ?es"
    using assms(4) new_entries_facts(2) [of _ "Suc (uuid_next w)" "uuid_next w" "captured w u"]
    unfolding w1 by (subst drop_keeps_entries) (auto simp: with_snapshot_def entries_of_def filter_empty_conv)
  have items1: "items w1 = items w" by (simp add: w1 with_snapshot_def)
  have dist: "distinct (map se_item_id (parents_first (entries_of w1 sid)))" using assms(5) by (simp add: es)
  note ups = upserts_effect [OF up dist placed_simps]
  have out: "find_item w3 j = find_item w2 j" if "j \<in> set ?ids" for j
  proof (cases mode)
    case EXACT_MIRROR
    then show ?thesis using set_deleteds_effect(1) [OF mirror] that by (force simp: mirrored_def mirror_trashes_def)
  qed (use keep in simp)
  have found: "find_item w' j = find_item w3 j" for j by (simp add: find_item_def last(1))
  have returned: "\<exists>r. find_item w' (se_item_id e) = Some r \<and> as_captured e r
      \<and> (di_parent_id r = se_parent_item_id e \<or> di_parent_id r = None \<and> se_parent_item_id e \<notin> Some ` se_item_id ` set ?es)"
    if e: "e \<in> set ?es" for e
  proof -
    have "item_matches (placed ?ids ?live e) w2" by (rule ups(1)) (simp add: es e)
    then show ?thesis by (rule placed_row) (use out [of "se_item_id e"] e in \<open>auto simp: found es\<close>)
  qed
  have stay: "find_item w2 j = find_item w j" if "j \<notin> se_item_id ` set ?es" for j
    using ups(2) [of j] that by (simp add: es) (simp add: find_item_def items1)
  have gone: "\<exists>r'. find_item w' j = Some r' \<and> di_is_deleted r'"
    if j: "j \<notin> se_item_id ` set ?es" "mode = EXACT_MIRROR" and r: "find_item w j = Some r" "di_owner_id r = u" for j r
    using mirror_trashes_the_rest [OF mirror [OF j(2)]] stay [OF j(1)] j(1) r by (simp add: es found)
  show ?thesis
  proof (intro conjI ballI allI impI)
    fix j assume "j \<notin> se_item_id ` set ?es" "mode = KEEP_NEW"
    then show "find_item w' j = find_item w j" using stay keep by (simp add: found)
  qed (use returned gone in blast)+
qed

lemma restore_brings_back_the_entries_witness:
  "\<exists>out w'. restore (\<lambda>_. []) False 1 61 WHOLE KEEP_NEW snap_world = (Inr (Some out), w')
    \<and> (\<exists>r. find_item w' 10 = Some r \<and> di_name r = ''papers'')"
proof -
  let ?r = "restore (\<lambda>_. []) False 1 61 WHOLE KEEP_NEW snap_world"
  have c: "(case fst ?r of Inl e \<Rightarrow> False | Inr x \<Rightarrow> x \<noteq> None) \<and> 61 \<in> sn_id ` set (snapshots (snd ?r))" by code_simp
  then obtain out where r: "?r = (Inr (Some out), snd ?r)"
    by (cases ?r) (auto split: sum.splits)
  have e: "sample_entry 70 61 10 None ''papers'' FOLDER None 0 \<in> set (entries_of snap_world 61)"
    "distinct (map se_item_id (entries_of snap_world 61))" "61 < uuid_next snap_world"
    by (simp_all add: entries_of_def snap_world_def sample_entry_def)
  from restore_brings_back_the_entries [OF snap_world_ok r _ e(3,2)] c
  have "\<forall>e \<in> set (entries_of snap_world 61). \<exists>x. find_item (snd ?r) (se_item_id e) = Some x \<and> as_captured e x" by blast
  with e(1) have "\<exists>x. find_item (snd ?r) 10 = Some x \<and> di_name x = ''papers''"
    by (auto simp: as_captured_def sample_entry_def dest!: bspec)
  with r show ?thesis by blast
qed

definition full_retention :: world where
  "full_retention = snap_world\<lparr>
     snap_settings := [\<lparr>ss_user_id = 1, ss_retention_n = 2, ss_schedule_enabled = True, ss_schedule_interval_minutes = 60, ss_quota_bytes = None\<rparr>],
     entries := [sample_entry 70 60 10 None ''docs'' FOLDER None 0, sample_entry 71 60 12 (Some 10) ''draft.txt'' FILE (Some ''k12'') 5]\<rparr>"

text \<open>Restoring may destroy what it is to restore: the safety snapshot taken first is pruned like any other, and at
  full retention the snapshot to restore is the one that goes. The restore then works on no entries, and as
  an exact mirror it moves every item of the drive to the trash.\<close>

theorem restore_at_full_retention_trashes_the_drive:
  "let w' = snd (restore (\<lambda>_. []) False 1 60 WHOLE EXACT_MIRROR full_retention) in
   map sn_id (snapshots full_retention) = [60, 61] \<and> length (entries_of full_retention 60) = 2
   \<and> map di_is_deleted (items full_retention) = [False, False, False, False]
   \<and> (case fst (restore (\<lambda>_. []) False 1 60 WHOLE EXACT_MIRROR full_retention) of Inr (Some out) \<Rightarrow> ro_restored out = 0 \<and> ro_trashed out = 4 | _ \<Rightarrow> False)
   \<and> map sn_id (snapshots w') = [61, 200] \<and> map di_is_deleted (items w') = [True, True, True, True]"
  by code_simp

definition swapped_folders :: world where
  "swapped_folders = empty_world\<lparr>users := [sample_user 1 ''a@x'', sample_user 2 ''b@x''], clock := days 5, uuid_next := 200,
     items := [sample_folder 10 1 None ''b'', sample_folder 11 1 (Some 10) ''a''],
     snapshots := [sample_snapshot 60 (days 1) True],
     entries := [sample_entry 70 60 11 None ''a'' FOLDER None 0, sample_entry 71 60 10 (Some 11) ''b'' FOLDER None 0]\<rparr>"

lemma walk_in_cycle:
  assumes "find_item w a = Some ra" "find_item w b = Some rb" "di_parent_id ra = Some b" "di_parent_id rb = Some a"
    and "di_owner_id ra \<noteq> u" "di_owner_id rb \<noteq> u"
  shows "permission_walk n w u ra best = Inl Diverges \<and> permission_walk n w u rb best = Inl Diverges"
proof (induction n arbitrary: best)
  case (Suc n)
  then show ?case using assms by (simp add: Let_def)
qed simp

text \<open>Restoring only some items can tie folders into a cycle: the entry gets its old parent back although that folder
  now lies below it. The permission walk of anyone but the owner then runs for ever.\<close>

theorem selective_restore_makes_a_cycle:
  "let w' = snd (restore (\<lambda>_. []) False 1 60 (SELECTED [10]) KEEP_NEW swapped_folders) in
   forest swapped_folders \<and> map (\<lambda>i. (di_id i, di_parent_id i)) (items w') = [(10, Some 11), (11, Some 10)]
   \<and> list_all (\<lambda>i. (\<lambda>n. permission_walk n w' 2 i None) = (\<lambda>n. Inl Diverges)) (items w')"
proof -
  let ?w = "snd (restore (\<lambda>_. []) False 1 60 (SELECTED [10]) KEEP_NEW swapped_folders)"
  have rows: "map (\<lambda>i. (di_id i, di_parent_id i, di_owner_id i)) (items ?w) = [(10, Some 11, 1), (11, Some 10, 1)]" by code_simp
  then obtain a b where ab: "items ?w = [a, b]" "di_id a = 10" "di_parent_id a = Some 11" "di_owner_id a = 1"
    "di_id b = 11" "di_parent_id b = Some 10" "di_owner_id b = 1" by (auto simp: map_eq_Cons_conv)
  then have "find_item ?w 10 = Some a" "find_item ?w 11 = Some b" by (simp_all add: find_item_def)
  from walk_in_cycle [OF this] ab have "\<forall>n. permission_walk n ?w 2 a None = Inl Diverges \<and> permission_walk n ?w 2 b None = Inl Diverges" by simp
  moreover have "forest swapped_folders" by (rule forest_check) code_simp
  ultimately show ?thesis using ab unfolding Let_def by (simp add: fun_eq_iff)
qed

section \<open>Garbage collection\<close>

text \<open>C19: the garbage collection always returns and deletes exactly the blobs that no item, version or snapshot entry holds,
  that are older than the grace period, and that are not parts of unfinished uploads; no table changes.\<close>

theorem gc_deletes_exactly_the_orphans:
  assumes "blobs_ok w"
  shows "\<exists>out w'. collect_garbage True grace at w = (Inr out, w')
    \<and> (\<forall>k. blob_get w' k = (if skipped_key k \<or> k \<in> set (live_keys w)
          \<or> (\<exists>b \<in> set (blobs w). bl_key b = k \<and> (case at of None \<Rightarrow> clock w | Some a \<Rightarrow> a) - minutes grace \<le> bl_modified_at b)
        then blob_get w k else None))
    \<and> items w' = items w \<and> versions w' = versions w \<and> entries w' = entries w \<and> snapshots w' = snapshots w"
proof -
  let ?c = "(case at of None \<Rightarrow> clock w | Some a \<Rightarrow> a) - minutes grace"
  let ?bs = "filter (\<lambda>b. \<not> skipped_key (bl_key b)) (blobs w)"
  let ?zero = "\<lparr>gc_deleted = 0, gc_freed_bytes = 0, gc_skipped_recent = 0\<rparr>"
  let ?w' = "gc_guard.sweep ?c (map bl_key ?bs) w"
  have dist: "distinct (map bl_key ?bs)" using assms by (simp add: blobs_ok_def distinct_map_filter)
  have "\<exists>out. gc_loop (live_keys w) ?c ?bs ?zero w = (Inr out, ?w')
      \<and> gc_deleted out = gc_deleted ?zero + int (length (filter (\<lambda>b. \<not> gc_protected ?c w (bl_key b)) ?bs))"
    by (rule run_gc_loop [OF refl _ _ dist]) (use assms in \<open>auto simp: blobs_ok_def\<close>)
  then obtain out where out: "gc_loop (live_keys w) ?c ?bs ?zero w = (Inr out, ?w')" by blast
  have run: "collect_garbage True grace at w = (Inr out, ?w')"
    by (simp add: collect_garbage_def referenced_storage_keys_def list_objects_def run_bind out)
  have "blob_get ?w' k = (if skipped_key k \<or> k \<in> set (live_keys w) \<or> (\<exists>b \<in> set (blobs w). bl_key b = k \<and> ?c \<le> bl_modified_at b)
        then blob_get w k else None)" for k
  proof (cases "k \<in> set (map bl_key (blobs w))")
    case True
    then have "k \<in> set (map bl_key ?bs) \<longleftrightarrow> \<not> skipped_key k" by auto
    then show ?thesis unfolding gc_guard.content_sweep [OF dist] gc_protected_def by auto
  next
    case False
    then have "blob_get w k = None" by (auto simp: blob_get_def row_get_None)
    then show ?thesis unfolding gc_guard.content_sweep [OF dist] by simp
  qed
  then show ?thesis using run by (intro exI [of _ out] exI [of _ ?w']) (simp add: keeps_gc_sweep)
qed

lemma gc_deletes_exactly_the_orphans_witness:
  "\<exists>out w'. collect_garbage True 60 (Some (days 5)) (snap_world\<lparr>blobs := [sample_blob ''k12'' ''hello'', sample_blob ''stray'' ''x'']\<rparr>) = (Inr out, w')
    \<and> blob_get w' ''k12'' = Some ''hello'' \<and> blob_get w' ''stray'' = None"
proof -
  let ?w = "snap_world\<lparr>blobs := [sample_blob ''k12'' ''hello'', sample_blob ''stray'' ''x'']\<rparr>"
  have ok: "blobs_ok ?w"
    by (simp add: blobs_ok_def sample_blob_def resolve_path_def canonical_key_def starts_with_def)
  have c: "''k12'' \<in> set (live_keys ?w)" "''stray'' \<notin> set (live_keys ?w)" "\<not> skipped_key ''stray''"
    "\<not> (\<exists>b \<in> set (blobs ?w). bl_key b = ''stray'' \<and> days 5 - minutes 60 \<le> bl_modified_at b)"
    "blob_get ?w ''k12'' = Some ''hello''" by code_simp+
  from gc_deletes_exactly_the_orphans [OF ok, of 60 "Some (days 5)"] c show ?thesis by (auto simp del: set_simps)
qed

section \<open>Scheduling\<close>

text \<open>The scheduler takes no snapshot of a drive that has not changed since the last one, and then changes nothing at
  all, whenever every live item of the user lies at the root or in a live folder of the user.\<close>

theorem unchanged_drive_is_not_snapshotted:
  assumes "snapshots_of w u \<noteq> []"
    and "map entry_data_of (entries_of w (sn_id (hd (snapshots_of w u)))) = captured w u"
    and "\<forall>i \<in> set (items w). di_owner_id i = u \<longrightarrow> \<not> di_is_deleted i \<longrightarrow>
      (di_item_type i = FOLDER \<longrightarrow> di_checksum i = None) \<and> (\<forall>p. di_parent_id i = Some p \<longrightarrow>
        (\<exists>f \<in> set (items w). di_id f = p \<and> di_owner_id f = u \<and> \<not> di_is_deleted f))"
  shows "run_scheduled_snapshot u t w = (Inr None, w)"
proof -
  let ?rows = "filter (\<lambda>i. di_owner_id i = u \<and> \<not> di_is_deleted i) (items w)"
  let ?es = "entries_of w (sn_id (hd (snapshots_of w u)))"
  define ids where "ids = set (map di_id ?rows)"
  let ?sig = "\<lambda>d. (ed_item_id d, ed_parent_item_id d, ed_name d, ed_item_type d, case ed_checksum d of None \<Rightarrow> [] | Some c \<Rightarrow> c)"
  have "entries_signature ?es = ?sig ` set (map entry_data_of ?es)"
    by (force simp: entries_signature_def entry_data_of_def)
  also have "\<dots> = (\<lambda>i. ?sig (capture_entry ids i)) ` set ?rows"
    unfolding assms(2) captured_def capture_def ids_def by (simp add: image_image)
  also have "\<dots> = items_signature ?rows"
    unfolding items_signature_def set_map
  proof (rule image_cong [OF refl])
    fix i assume "i \<in> set ?rows"
    then have i: "i \<in> set (items w)" "di_owner_id i = u" "\<not> di_is_deleted i" by auto
    have "di_parent_id i = Some p \<Longrightarrow> p \<in> ids" for p using assms(3) i unfolding ids_def by force
    moreover have "di_item_type i \<noteq> FILE \<Longrightarrow> di_checksum i = None" using assms(3) i by (cases "di_item_type i") auto
    ultimately show "?sig (capture_entry ids i) = (di_id i, di_parent_id i, di_name i, di_item_type i, case di_checksum i of None \<Rightarrow> [] | Some c \<Rightarrow> c)"
      by (auto simp: capture_entry_def Let_def split: option.splits)
  qed
  finally show ?thesis using assms(1)
    by (simp add: run_scheduled_snapshot_def get_settings_def repo_get_settings_def run_bind repo_list_snapshots_def
        list_owner_items_def list_all_entries_def)
qed

lemma unchanged_drive_is_not_snapshotted_witness:
  "\<exists>w. run_scheduled_snapshot 1 (days 9) w = (Inr None, w) \<and> length (snapshots w) = 3"
proof -
  let ?w = "snd (create 1 MANUAL [] False snap_world)"
  have c: "snapshots_of ?w 1 \<noteq> [] \<and> map entry_data_of (entries_of ?w (sn_id (hd (snapshots_of ?w 1)))) = captured ?w 1 \<and> length (snapshots ?w) = 3"
    by code_simp
  have "list_all (\<lambda>i. (di_item_type i = FOLDER \<longrightarrow> di_checksum i = None) \<and> (case di_parent_id i of None \<Rightarrow> True | Some p \<Rightarrow>
        list_ex (\<lambda>f. di_id f = p \<and> di_owner_id f = 1 \<and> \<not> di_is_deleted f) (items ?w))) (items ?w)" by code_simp
  then have "\<forall>i \<in> set (items ?w). di_owner_id i = 1 \<longrightarrow> \<not> di_is_deleted i \<longrightarrow>
      (di_item_type i = FOLDER \<longrightarrow> di_checksum i = None) \<and> (\<forall>p. di_parent_id i = Some p \<longrightarrow>
        (\<exists>f \<in> set (items ?w). di_id f = p \<and> di_owner_id f = 1 \<and> \<not> di_is_deleted f))"
    by (force simp: list_all_iff list_ex_iff split: option.splits)
  from unchanged_drive_is_not_snapshotted [OF _ _ this, of "days 9"] c show ?thesis by blast
qed

text \<open>An item left alone in a trashed folder is captured at the root, so the signatures of drive and snapshot
  never agree again: the scheduler takes a snapshot of the unchanged drive in every period.\<close>

theorem orphan_keeps_the_scheduler_busy:
  "let w0 = set_item 10 (\<lambda>r. r\<lparr>di_is_deleted := True\<rparr>) (sample_world\<lparr>clock := days 5, uuid_next := 200\<rparr>);
       w1 = snd (run_scheduled_snapshot 1 (days 5) w0);
       w2 = snd (run_scheduled_snapshot 1 (days 6) (w1\<lparr>clock := days 6\<rparr>));
       w3 = snd (run_scheduled_snapshot 1 (days 7) (w2\<lparr>clock := days 7\<rparr>))
   in items w3 = items w0 \<and> length (snapshots w1) = 1 \<and> length (snapshots w2) = 2 \<and> length (snapshots w3) = 3"
  by code_simp

end
