(* ===== verification/Share.thy ===== *)
theory Share
  imports ShareRepo Activity Security
begin

text \<open>
  \<open>app/share/service.py\<close>: \<open>ShareService\<close>, by which an owner shares an item with another user, and
  \<open>ShareLinkService\<close>, which creates, checks and revokes public links. The text of a link's token is drawn by
  \<open>secrets.token_urlsafe\<close>: \<open>url_token\<close> of the parameter \<open>crypto\<close>, applied to a fresh number. Only its digest is
  stored.
\<close>

section \<open>Responses\<close>

record share_link_response =
  lr_id :: uuid
  lr_item_id :: uuid
  lr_token :: "string option"
  lr_permission :: link_permission
  lr_expires_at :: "time option"
  lr_is_active :: bool
  lr_created_by :: uuid
  lr_created_at :: time

definition link_to_response :: "share_link \<Rightarrow> string option \<Rightarrow> share_link_response" where
  "link_to_response l tok =
     \<lparr>lr_id = sl_id l, lr_item_id = sl_item_id l, lr_token = tok, lr_permission = sl_permission l,
      lr_expires_at = sl_expires_at l, lr_is_active = sl_is_active l, lr_created_by = sl_created_by l,
      lr_created_at = sl_created_at l\<rparr>"

record shared_user =
  su_target_user_id :: uuid
  su_email :: string
  su_username :: string
  su_permission :: permission
  su_created_at :: time

record shared_link =
  sk_link_id :: uuid
  sk_permission :: link_permission
  sk_has_password :: bool
  sk_expires_at :: "time option"
  sk_is_active :: bool
  sk_created_at :: time

record shared_by_me_entry =
  sb_item :: item_response
  sb_user_shares :: "shared_user list"
  sb_links :: "shared_link list"

definition hash_token :: "'tok crypto \<Rightarrow> string \<Rightarrow> string" where
  "hash_token c token = text_digest c token"

definition shared_by_me_entry_of :: "time \<Rightarrow> shared_by_me_row \<Rightarrow> shared_by_me_entry" where
  "shared_by_me_entry_of t row =
     \<lparr>sb_item = to_response (sbm_item row) False
        (Some \<lparr>bd_shared_with_users = (sbm_shares row \<noteq> []), bd_public_link = list_ex (link_live_at t) (sbm_links row)\<rparr>),
      sb_user_shares = map (\<lambda>(s, u). \<lparr>su_target_user_id = sh_target_user_id s, su_email = u_email u,
        su_username = u_username u, su_permission = sh_permission s, su_created_at = sh_created_at s\<rparr>) (sbm_shares row),
      sb_links = map (\<lambda>l. \<lparr>sk_link_id = sl_id l, sk_permission = sl_permission l,
        sk_has_password = (sl_password_hash l \<noteq> None), sk_expires_at = sl_expires_at l,
        sk_is_active = link_live_at t l, sk_created_at = sl_created_at l\<rparr>) (sbm_links row)\<rparr>"

section \<open>ShareService\<close>

definition share_assert_owner :: "uuid \<Rightarrow> uuid \<Rightarrow> unit M" where
  "share_assert_owner user_id item_id =
     bindM (items_get_by_id item_id) (\<lambda>r. case r of
         None \<Rightarrow> raiseM NotFoundError
       | Some item \<Rightarrow> guardM (di_owner_id item = user_id) ForbiddenError)"

definition share_log :: "bool \<Rightarrow> uuid \<Rightarrow> activity_action \<Rightarrow> uuid \<Rightarrow> unit M" where
  "share_log has_activity_svc actor action item_id =
     whenM has_activity_svc (thenM (log_activity actor action (Some item_id)) (returnM ()))"

definition share_item :: "bool \<Rightarrow> uuid \<Rightarrow> uuid \<Rightarrow> string \<Rightarrow> permission \<Rightarrow> share M" where
  "share_item has_activity_svc actor_id item_id target_email perm =
     thenM (share_assert_owner actor_id item_id)
     (bindM (user_svc_get_by_email target_email) (\<lambda>target.
     thenM (guardM (u_id target \<noteq> actor_id) BadOperation)
     (bindM (get_by_item_and_user item_id (u_id target)) (\<lambda>existing.
     bindM (case existing of
         Some s \<Rightarrow> update_permission (sh_id s) perm
       | None \<Rightarrow> shares_create item_id actor_id (u_id target) perm) (\<lambda>s.
     thenM (share_log has_activity_svc actor_id SHARE item_id) (returnM s)))))) "

definition remove_share :: "bool \<Rightarrow> uuid \<Rightarrow> uuid \<Rightarrow> uuid \<Rightarrow> unit M" where
  "remove_share has_activity_svc actor_id item_id target_user_id =
     thenM (share_assert_owner actor_id item_id)
     (bindM (get_by_item_and_user item_id target_user_id) (\<lambda>r. case r of
         None \<Rightarrow> raiseM NotFoundError
       | Some s \<Rightarrow> thenM (shares_delete (sh_id s)) (share_log has_activity_svc actor_id UNSHARE item_id)))"

definition list_shared_by_me :: "uuid \<Rightarrow> int \<Rightarrow> int \<Rightarrow> shared_by_me_entry page M" where
  "list_shared_by_me user_id page page_size =
     bindM (list_shared_by_me_rows user_id ((page - 1) * page_size) page_size) (\<lambda>(rows, count).
     bindM now (\<lambda>t.
       returnM (page_create (map (shared_by_me_entry_of t) rows) (int count) page page_size)))"

definition list_shared_with_me :: "uuid \<Rightarrow> int \<Rightarrow> int \<Rightarrow> share page M" where
  "list_shared_with_me user_id page page_size =
     bindM (list_shared_with_me_rows user_id ((page - 1) * page_size) page_size) (\<lambda>(rows, count).
       returnM (page_create rows (int count) page page_size))"

section \<open>ShareLinkService\<close>

definition create_link ::
  "'tok crypto \<Rightarrow> uuid \<Rightarrow> uuid \<Rightarrow> link_permission \<Rightarrow> string option \<Rightarrow> time option \<Rightarrow> share_link_response M" where
  "create_link c actor_id item_id perm password expires_at =
     bindM (items_get_by_id item_id) (\<lambda>r. case r of
         None \<Rightarrow> raiseM NotFoundError
       | Some item \<Rightarrow>
           thenM (guardM (di_owner_id item = actor_id) ForbiddenError)
           (thenM (guardM (\<not> (perm = LINK_EDITOR \<and> expires_at = None)) InvalidOperationError)
           (bindM uuid4 (\<lambda>random.
            let token = url_token c random in
            bindM (case password of
                None \<Rightarrow> returnM None
              | Some p \<Rightarrow> if p = [] then returnM None
                          else bindM (hash_password c p) (\<lambda>h. returnM (Some h))) (\<lambda>password_hash.
            bindM (links_create item_id (hash_token c token) perm password_hash expires_at actor_id) (\<lambda>l.
              returnM (link_to_response l (Some token))))))))"

definition validate_access :: "'tok crypto \<Rightarrow> string \<Rightarrow> string option \<Rightarrow> share_link M" where
  "validate_access c token password =
     bindM (links_get_by_token_hash (hash_token c token)) (\<lambda>r. case r of
         None \<Rightarrow> raiseM NotFoundError
       | Some l \<Rightarrow>
           thenM (guardM (sl_is_active l) BadOperation)
           (bindM now (\<lambda>t.
            thenM (guardM (\<not> (case sl_expires_at l of None \<Rightarrow> False | Some e \<Rightarrow> e < t)) BadOperation)
            (thenM (guardM (\<not> (case sl_password_hash l of
                  None \<Rightarrow> False
                | Some h \<Rightarrow> (case password of None \<Rightarrow> True | Some p \<Rightarrow> \<not> verify_password c p h))) ForbiddenError)
              (returnM l)))))"

definition owned_link :: "uuid \<Rightarrow> uuid \<Rightarrow> share_link M" where
  "owned_link actor_id link_id =
     bindM (links_get_by_id link_id) (\<lambda>r. case r of
         None \<Rightarrow> raiseM NotFoundError
       | Some l \<Rightarrow> bindM (items_get_by_id (sl_item_id l)) (\<lambda>item.
           thenM (guardM (case item of None \<Rightarrow> False | Some i \<Rightarrow> di_owner_id i = actor_id) ForbiddenError)
             (returnM l)))"

definition delete_link_record :: "uuid \<Rightarrow> uuid \<Rightarrow> unit M" where
  "delete_link_record actor_id link_id = thenM (owned_link actor_id link_id) (links_delete link_id)"

definition deactivate_link :: "uuid \<Rightarrow> uuid \<Rightarrow> unit M" where
  "deactivate_link actor_id link_id = thenM (owned_link actor_id link_id) (links_deactivate link_id)"

section \<open>Facts\<close>

lemma owned_link_InrE:
  assumes "owned_link a l w = (Inr r, w')"
  obtains i where "find_link w l = Some r" "find_item w (sl_item_id r) = Some i" "di_owner_id i = a" "w' = w"
proof (cases "find_link w l")
  case None
  with assms show thesis by (simp add: owned_link_def links_get_by_id_def run_bind)
next
  case (Some k)
  show thesis
  proof (cases "\<exists>i. find_item w (sl_item_id k) = Some i \<and> di_owner_id i = a")
    case True
    then obtain i where i: "find_item w (sl_item_id k) = Some i" "di_owner_id i = a" by blast
    have "owned_link a l w = (Inr k, w)"
      by (simp add: owned_link_def links_get_by_id_def run_bind run_then run_guard Some i)
    with assms have "k = r" "w' = w" by simp_all
    then show thesis using that Some i by simp
  next
    case False
    then have "owned_link a l w = (Inl ForbiddenError, w)"
      by (simp add: owned_link_def links_get_by_id_def run_bind run_then run_guard Some split: option.splits)
    with assms show thesis by simp
  qed
qed

lemma keeps_share_services [keeps_rules]:
  assumes "\<And>w n. f (w\<lparr>uuid_next := n\<rparr>) = f w" "\<And>g w. f (links_update g w) = f w"
  shows "keeps f (create_link c a i p pw e)" "keeps f (delete_link_record a l)" "keeps f (deactivate_link a l)"
  unfolding create_link_def delete_link_record_def deactivate_link_def owned_link_def Let_def
  by (intro keeps_rules keeps_uuid4 assms)+

text \<open>A revoked link: the owner deleted its row or switched it off. Every other link keeps its row.\<close>

lemma revoked:
  assumes "delete_link_record a l w = (Inr u, w') \<or> deactivate_link a l w = (Inr u, w')"
  shows "case find_link w' l of None \<Rightarrow> True | Some r \<Rightarrow> \<not> sl_is_active r"
    and "k \<noteq> l \<Longrightarrow> find_link w' k = find_link w k" and "items w' = items w"
proof -
  have *: "w' = links_update (row_delete (\<lambda>r. sl_id r = l)) w
      \<or> w' = set_link l (\<lambda>r. r\<lparr>sl_is_active := False\<rparr>) w"
    using assms
    by (elim disjE; simp only: delete_link_record_def deactivate_link_def; elim then_InrE owned_link_InrE)
      (auto simp: links_delete_def links_deactivate_def links_get_by_id_def run_bind)
  then show "case find_link w' l of None \<Rightarrow> True | Some r \<Rightarrow> \<not> sl_is_active r"
    by (auto simp: find_link_deleted find_link_set_link split: option.splits)
  show "k \<noteq> l \<Longrightarrow> find_link w' k = find_link w k"
    using * by (auto simp: find_link_set_link) (simp add: find_link_def row_get_delete_other)
  show "items w' = items w" using * by (auto simp: set_link_def)
qed

end
