(* ===== verification/Download.thy ===== *)
theory Download
  imports Naming
begin

text \<open>
  \<open>app/core/mime.py\<close> and \<open>app/download/service.py\<close>: the type a file is served with, the download of one file,
  and the archive of a selection. The bytes of the zip container belong to \<open>zipfile\<close>; the model gives its
  members, each with its name and content. The archive's file name is kept as its label and, for several items, their
  number (the code joins them with a Chinese phrase).
\<close>

section \<open>File types\<close>

definition EXT_MIME :: "(string \<times> string) list" where
  "EXT_MIME = [(''pdf'', ''application/pdf''), (''png'', ''image/png''), (''jpg'', ''image/jpeg''),
     (''jpeg'', ''image/jpeg''), (''gif'', ''image/gif''), (''webp'', ''image/webp''), (''bmp'', ''image/bmp''),
     (''svg'', ''image/svg+xml''), (''txt'', ''text/plain''), (''log'', ''text/plain''), (''md'', ''text/markdown''),
     (''markdown'', ''text/markdown''), (''json'', ''application/json''), (''xml'', ''text/xml''),
     (''yaml'', ''text/yaml''), (''yml'', ''text/yaml''), (''csv'', ''text/csv''), (''mp4'', ''video/mp4''),
     (''webm'', ''video/webm''), (''mov'', ''video/quicktime''), (''mp3'', ''audio/mpeg''), (''wav'', ''audio/wav''),
     (''ogg'', ''audio/ogg''), (''m4a'', ''audio/mp4'')]"

text \<open>A column that is null or empty counts as missing.\<close>

definition filled :: "string option \<Rightarrow> bool" where
  "filled s = (case s of None \<Rightarrow> False | Some x \<Rightarrow> x \<noteq> [])"

definition effective_extension :: "string option \<Rightarrow> string option \<Rightarrow> string option" where
  "effective_extension name extension =
     (if filled extension then extension
      else (case py_rpartition (CHR ''.'') (case name of None \<Rightarrow> [] | Some n \<Rightarrow> n) of
        (stem, dot, ext) \<Rightarrow> if dot \<noteq> [] \<and> ext \<noteq> [] then Some ext else None))"

definition resolve_mime :: "string option \<Rightarrow> string option \<Rightarrow> string option \<Rightarrow> string option" where
  "resolve_mime mime name extension =
     (if filled mime then mime
      else map_of EXT_MIME (py_lstrip_char (CHR ''.'')
        (py_lower (case effective_extension name extension of None \<Rightarrow> [] | Some e \<Rightarrow> e))))"

definition served_mime :: "drive_item \<Rightarrow> string" where
  "served_mime item = (case resolve_mime (di_mime_type item) (Some (di_name item)) (di_extension item) of
       None \<Rightarrow> ''application/octet-stream'' | Some m \<Rightarrow> m)"

section \<open>One file\<close>

record download_file_result =
  df_filename :: string
  df_mime_type :: string
  df_size_bytes :: int
  df_stream_key :: string

text \<open>What both the download and the guests' download do once access is granted: the blob must be there.\<close>

definition stored_key :: "drive_item \<Rightarrow> string M" where
  "stored_key item = (case di_storage_key item of
       None \<Rightarrow> raiseM (AppError ITEM_CONTENT_NOT_FOUND 404)
     | Some key \<Rightarrow>
         if key = [] then raiseM (AppError ITEM_CONTENT_NOT_FOUND 404)
         else bindM (storage_exists key) (\<lambda>there.
           thenM (guardM there (AppError ITEM_CONTENT_NOT_FOUND 404)) (returnM key)))"

definition file_result :: "drive_item \<Rightarrow> download_file_result M" where
  "file_result item = bindM (stored_key item) (\<lambda>key. returnM
     \<lparr>df_filename = di_name item, df_mime_type = served_mime item, df_size_bytes = di_size_bytes item,
      df_stream_key = key\<rparr>)"

definition download :: "uuid \<Rightarrow> uuid \<Rightarrow> download_file_result M" where
  "download user_id item_id =
     bindM (get_live item_id) (\<lambda>item.
     thenM (guardM (di_item_type item = FILE) BadOperation)
     (thenM (assert_can_download user_id item) (file_result item)))"

section \<open>Archives\<close>

definition strip_ext :: "string \<Rightarrow> string" where
  "strip_ext name = (case py_rpartition (CHR ''.'') name of (stem, dot, ext) \<Rightarrow> if dot \<noteq> [] then stem else name)"

text \<open>The candidates of \<open>_dedupe\<close>: the name, then the numbered names. The loop runs over a set of used names.\<close>

definition top_candidate :: "string \<Rightarrow> nat \<Rightarrow> string" where
  "top_candidate name i =
     (if i = 0 then name
      else (case py_rpartition (CHR ''.'') name of (stem, dot, ext) \<Rightarrow>
        if dot \<noteq> [] then numbered stem i (''.'' @ ext) else numbered name i []))"

definition dedupe :: "string list \<Rightarrow> string \<Rightarrow> error + string" where
  "dedupe used name = first_free (Suc (length used)) (\<lambda>n. Inr (n \<in> set used)) (top_candidate name) 0"

type_synonym zip_files = "(string \<times> string) list"

definition maybe_add :: "zip_files \<Rightarrow> string \<Rightarrow> drive_item \<Rightarrow> zip_files M" where
  "maybe_add files arcname item = (case di_storage_key item of
       None \<Rightarrow> returnM files
     | Some key \<Rightarrow>
         if key = [] then returnM files
         else bindM (storage_exists key) (\<lambda>there. returnM (if there then files @ [(arcname, key)] else files)))"

definition FOLDER_PAGE :: int where "FOLDER_PAGE = 500"

text \<open>
  \<open>_collect_folder\<close>: its \<open>while\<close> loop over the pages of a folder, and the recursion into the child folders. The
  number bounds the nesting of both; \<open>Diverges\<close> means it was reached.
\<close>

primrec collect_pages :: "nat \<Rightarrow> uuid \<Rightarrow> drive_item \<Rightarrow> string \<Rightarrow> int \<Rightarrow> zip_files \<Rightarrow> zip_files M" where
  "collect_pages 0 = (\<lambda>user_id folder prefix offset files. raiseM Diverges)"
| "collect_pages (Suc n) = (\<lambda>user_id folder prefix offset files.
     bindM (list_children (Some (di_id folder)) (di_owner_id folder) BY_NAME ASC offset FOLDER_PAGE) (\<lambda>(cs, count).
     if cs = [] then returnM files
     else bindM (foldM (\<lambda>child files.
          let path = prefix @ ''/'' @ di_name child in
          if di_item_type child = FILE
          then thenM (assert_can_download user_id child) (maybe_add files path child)
          else collect_pages n user_id child path 0 files) cs files) (\<lambda>files.
        if offset + int (length cs) \<ge> int count then returnM files
        else collect_pages n user_id folder prefix (offset + int (length cs)) files)))"

definition collect_folder :: "uuid \<Rightarrow> drive_item \<Rightarrow> string \<Rightarrow> zip_files \<Rightarrow> zip_files M" where
  "collect_folder user_id folder prefix files =
     bindM (getsM (\<lambda>w. Suc (length (items w)))) (\<lambda>n. collect_pages n user_id folder prefix 0 files)"

record archive_state =
  as_files :: zip_files
  as_used_top :: "string list"
  as_first_name :: "string option"

definition archive_one :: "uuid \<Rightarrow> uuid \<Rightarrow> archive_state \<Rightarrow> archive_state M" where
  "archive_one user_id item_id st =
     bindM (get_live item_id) (\<lambda>item.
     thenM (assert_can_download user_id item)
     (let first = (case as_first_name st of
           None \<Rightarrow> Some (if di_item_type item = FOLDER then di_name item else strip_ext (di_name item))
         | Some f \<Rightarrow> Some f) in
      bindM (liftM (\<lambda>_. dedupe (as_used_top st) (di_name item))) (\<lambda>top_name.
      bindM (if di_item_type item = FILE then maybe_add (as_files st) top_name item
             else collect_folder user_id item top_name (as_files st)) (\<lambda>files.
        returnM \<lparr>as_files = files, as_used_top = as_used_top st @ [top_name], as_first_name = first\<rparr>))))"

record archive_result =
  ar_label :: string
  ar_count :: "nat option"
  ar_files :: zip_files

definition archive :: "uuid \<Rightarrow> uuid list \<Rightarrow> archive_result M" where
  "archive user_id ids =
     thenM (guardM (ids \<noteq> []) BadOperation)
     (bindM (foldM (archive_one user_id) ids \<lparr>as_files = [], as_used_top = [], as_first_name = None\<rparr>) (\<lambda>st.
      thenM (guardM (as_files st \<noteq> []) BadOperation)
      (let label = (case as_first_name st of None \<Rightarrow> ''download'' | Some f \<Rightarrow> if f = [] then ''download'' else f) in
       returnM \<lparr>ar_label = label, ar_count = (if length ids > 1 then Some (length ids) else None),
         ar_files = as_files st\<rparr>)))"

text \<open>\<open>_build_zip\<close> runs when the response is streamed: each member is read whole from the store.\<close>

definition build_zip :: "zip_files \<Rightarrow> (string \<times> bytes) list M" where
  "build_zip files = foldM (\<lambda>(arcname, key) members.
     bindM (open_read key) (\<lambda>cs. returnM (members @ [(arcname, concat cs)]))) files []"

section \<open>Names at the top of an archive\<close>

lemma py_rpartition_append: "py_rpartition c s = (stem, dot, ext) \<Longrightarrow> dot \<noteq> [] \<Longrightarrow> stem @ [c] @ ext = s"
proof -
  assume a: "py_rpartition c s = (stem, dot, ext)" "dot \<noteq> []"
  then have i: "\<not> py_rfind c s < 0" by (auto simp: py_rpartition_def Let_def split: if_splits)
  then have "c \<in> set s" using py_rfind_found [of c s] by simp
  then have r: "py_rfind c s = int (length s) - 1 - int (length (takeWhile (\<lambda>x. x \<noteq> c) (rev s)))" by (simp add: py_rfind_def)
  let ?t = "takeWhile (\<lambda>x. x \<noteq> c) (rev s)"
  have lt: "length ?t < length s" using takeWhile_shorter [of c "rev s" "\<lambda>x. x \<noteq> c"] \<open>c \<in> set s\<close> by simp
  have "rev s ! length ?t = c"
    using nth_length_takeWhile [of "\<lambda>x. x \<noteq> c" "rev s"] lt by simp
  then have "s ! (length s - Suc (length ?t)) = c" using lt by (simp add: rev_nth)
  moreover have "nat (py_rfind c s) = length s - Suc (length ?t)" using r lt by linarith
  moreover have "nat (py_rfind c s) < length s" using r lt by linarith
  ultimately have "take (nat (py_rfind c s)) s @ c # drop (Suc (nat (py_rfind c s))) s = s"
    by (metis id_take_nth_drop)
  with a i show ?thesis by (auto simp: py_rpartition_def Let_def)
qed

interpretation archive_names: name_supply "top_candidate name" for name
proof
  fix i j assume eq: "top_candidate name i = top_candidate name j"
  obtain stem dot ext where s: "py_rpartition (CHR ''.'') name = (stem, dot, ext)"
    by (metis prod_cases3)
  have "numbered stem k (''.'' @ ext) \<noteq> name" if "dot \<noteq> []" for k
    using numbered_longer [of stem "''.'' @ ext" k] py_rpartition_append [OF s that] by auto
  moreover have "numbered name k [] \<noteq> name" for k using numbered_longer [of name "[]" k] by auto
  ultimately show "i = j" using eq s
    by (auto simp: top_candidate_def split: if_splits dest: numbered_inject) metis+
qed

lemma dedupe_fresh: "\<exists>n. dedupe used name = Inr n \<and> n \<notin> set used"
proof -
  obtain k where k: "top_candidate name k \<notin> set used" "\<forall>j < k. top_candidate name j \<in> set used" "k \<le> card (set used)"
    by (rule archive_names.least_free [of "set used"]) simp
  have "first_free (Suc (length used)) (\<lambda>n. Inr (n \<in> set used)) (top_candidate name) 0 = Inr (top_candidate name k)"
    by (rule first_free_finds [OF refl k(1,2)]) (use k(3) card_length [of used] in linarith)+
  with k show ?thesis by (simp add: dedupe_def)
qed

end
