(* ===== verification/Preview.thy ===== *)
theory Preview
  imports Download
begin

text \<open>
  \<open>app/preview/service.py\<close>: how an item is shown in the browser. LibreOffice belongs to the environment:
  \<open>office\<close> says whether it is installed, and \<open>convert\<close> is its conversion of a document with a given suffix, which may
  fail. Streams are the lists of their chunks.
\<close>

section \<open>The kind of a preview\<close>

datatype preview_type = P_IMAGE | P_PDF | P_DOCUMENT | P_TEXT | P_MARKDOWN | P_VIDEO | P_AUDIO | P_UNSUPPORTED

definition TEXT_MAX_BYTES :: nat where "TEXT_MAX_BYTES = 65536"

definition OFFICE_EXTS :: "string list" where
  "OFFICE_EXTS = [''docx'', ''xlsx'', ''pptx'', ''doc'', ''xls'', ''ppt'', ''csv'', ''odt'', ''ods'', ''odp'']"

definition OFFICE_MIMES :: "string list" where
  "OFFICE_MIMES = [
     ''application/vnd.openxmlformats-officedocument.wordprocessingml.document'',
     ''application/vnd.openxmlformats-officedocument.spreadsheetml.sheet'',
     ''application/vnd.openxmlformats-officedocument.presentationml.presentation'',
     ''application/msword'', ''application/vnd.ms-excel'', ''application/vnd.ms-powerpoint'',
     ''application/vnd.oasis.opendocument.text'', ''application/vnd.oasis.opendocument.spreadsheet'',
     ''application/vnd.oasis.opendocument.presentation'', ''text/csv'']"

definition MARKDOWN_EXTS :: "string list" where "MARKDOWN_EXTS = [''md'', ''markdown'']"

definition preview_type_of :: "bool \<Rightarrow> string option \<Rightarrow> string option \<Rightarrow> preview_type" where
  "preview_type_of office mime extension =
     (let ext = py_lstrip_char (CHR ''.'') (py_lower (case extension of None \<Rightarrow> [] | Some e \<Rightarrow> e));
          low = py_lower (case mime of None \<Rightarrow> [] | Some m \<Rightarrow> m);
          m = (if low \<noteq> [] then low else (case map_of EXT_MIME ext of None \<Rightarrow> [] | Some x \<Rightarrow> x)) in
      if ext \<in> set MARKDOWN_EXTS \<or> m = ''text/markdown'' then P_MARKDOWN
      else if office \<and> (ext \<in> set OFFICE_EXTS \<or> m \<in> set OFFICE_MIMES) then P_DOCUMENT
      else if starts_with ''image/'' m then P_IMAGE
      else if m = ''application/pdf'' then P_PDF
      else if starts_with ''text/'' m \<or> m = ''application/json'' then P_TEXT
      else if starts_with ''video/'' m then P_VIDEO
      else if starts_with ''audio/'' m then P_AUDIO
      else P_UNSUPPORTED)"

definition resolve_preview_type :: "bool \<Rightarrow> drive_item \<Rightarrow> preview_type" where
  "resolve_preview_type office item =
     preview_type_of office (di_mime_type item) (effective_extension (Some (di_name item)) (di_extension item))"

definition resolve_item_mime :: "drive_item \<Rightarrow> string option" where
  "resolve_item_mime item = resolve_mime (di_mime_type item) (Some (di_name item)) (di_extension item)"

definition mime_or :: "drive_item \<Rightarrow> string \<Rightarrow> string" where
  "mime_or item fallback = (case resolve_item_mime item of None \<Rightarrow> fallback | Some m \<Rightarrow> m)"

section \<open>Information and content\<close>

record preview_info =
  pi_item_id :: uuid
  pi_preview_type :: preview_type
  pi_mime_type :: "string option"
  pi_size_bytes :: int
  pi_filename :: string

definition preview_get_file :: "uuid \<Rightarrow> uuid \<Rightarrow> drive_item M" where
  "preview_get_file user_id item_id =
     bindM (get_live item_id) (\<lambda>item.
     thenM (guardM (di_item_type item = FILE) BadOperation)
     (thenM (assert_can_view user_id item) (returnM item)))"

definition preview_get_info :: "bool \<Rightarrow> uuid \<Rightarrow> uuid \<Rightarrow> preview_info M" where
  "preview_get_info office user_id item_id =
     bindM (preview_get_file user_id item_id) (\<lambda>item.
     let ptype = resolve_preview_type office item in
     returnM \<lparr>pi_item_id = di_id item, pi_preview_type = ptype,
       pi_mime_type = (if ptype = P_DOCUMENT then Some ''application/pdf'' else resolve_item_mime item),
       pi_size_bytes = di_size_bytes item, pi_filename = di_name item\<rparr>)"

text \<open>\<open>_limited_text_stream\<close>: the chunks until the limit is reached; the last one is cut.\<close>

fun limited_text :: "nat \<Rightarrow> bytes list \<Rightarrow> bytes list" where
  "limited_text total_read [] = []"
| "limited_text total_read (chunk # rest) =
     (if TEXT_MAX_BYTES \<le> total_read then []
      else let remaining = TEXT_MAX_BYTES - total_read; chunk = take remaining chunk in
        chunk # limited_text (total_read + length chunk) rest)"

definition preview_cache_key :: "drive_item \<Rightarrow> string option" where
  "preview_cache_key item = (if filled (di_checksum item)
     then Some (''preview-cache/'' @ (case di_checksum item of None \<Rightarrow> [] | Some s \<Rightarrow> s) @ ''.pdf'') else None)"

definition convert_and_cache ::
  "(bytes \<Rightarrow> string \<Rightarrow> bytes option) \<Rightarrow> drive_item \<Rightarrow> string \<Rightarrow> bytes list M" where
  "convert_and_cache convert item key =
     bindM (open_read key) (\<lambda>cs.
     let ext = py_lstrip_char (CHR ''.'') (case di_extension item of None \<Rightarrow> [] | Some e \<Rightarrow> e) in
     case convert (concat cs) (if ext \<noteq> [] then ''.'' @ ext else ''.bin'') of
       None \<Rightarrow> raiseM BadOperation
     | Some pdf \<Rightarrow> thenM (case preview_cache_key item of None \<Rightarrow> returnM () | Some k \<Rightarrow> save k pdf) (returnM [pdf]))"

definition document_pdf_stream ::
  "(bytes \<Rightarrow> string \<Rightarrow> bytes option) \<Rightarrow> drive_item \<Rightarrow> string \<Rightarrow> bytes list M" where
  "document_pdf_stream convert item key =
     bindM (case preview_cache_key item of None \<Rightarrow> returnM False | Some k \<Rightarrow> storage_exists k) (\<lambda>cached.
       if cached then open_read (case preview_cache_key item of None \<Rightarrow> [] | Some k \<Rightarrow> k)
       else convert_and_cache convert item key)"

definition content_for_item ::
  "bool \<Rightarrow> (bytes \<Rightarrow> string \<Rightarrow> bytes option) \<Rightarrow> drive_item \<Rightarrow> (preview_type \<times> string \<times> bytes list) M" where
  "content_for_item office convert item =
     bindM (stored_key item) (\<lambda>key.
     let ptype = resolve_preview_type office item in
     if ptype = P_UNSUPPORTED then raiseM BadOperation
     else if ptype = P_DOCUMENT then
       bindM (document_pdf_stream convert item key) (\<lambda>s. returnM (P_DOCUMENT, ''application/pdf'', s))
     else bindM (open_read key) (\<lambda>s.
       if ptype = P_MARKDOWN then returnM (P_MARKDOWN, ''text/markdown'', limited_text 0 s)
       else if ptype = P_TEXT then returnM (ptype, mime_or item ''text/plain'', limited_text 0 s)
       else returnM (ptype, mime_or item ''application/octet-stream'', s)))"

definition preview_get_content ::
  "bool \<Rightarrow> (bytes \<Rightarrow> string \<Rightarrow> bytes option) \<Rightarrow> uuid \<Rightarrow> uuid \<Rightarrow> (preview_type \<times> string \<times> bytes list) M" where
  "preview_get_content office convert user_id item_id =
     bindM (preview_get_file user_id item_id) (content_for_item office convert)"

section \<open>Facts\<close>

text \<open>A text preview is a prefix of the file, and at most 64 KiB of it.\<close>

lemma limited_text_prefix:
  "concat (limited_text n cs) = take (TEXT_MAX_BYTES - n) (concat cs)"
proof (induction cs arbitrary: n)
  case (Cons c cs)
  show ?case
  proof (cases "TEXT_MAX_BYTES \<le> n")
    case False
    have "TEXT_MAX_BYTES - (n + length (take (TEXT_MAX_BYTES - n) c)) = TEXT_MAX_BYTES - n - length c" by simp
    with False Cons show ?thesis by (simp add: Let_def)
  qed simp
qed simp

lemma keeps_preview [keeps_rules]:
  assumes "\<And>g w. f (blobs_update g w) = f w"
  shows "keeps f (content_for_item office cv i)"
  unfolding content_for_item_def document_pdf_stream_def convert_and_cache_def stored_key_def Let_def
  by (intro keeps_rules keeps_storage assms)+

end
