(* ===== verification/PublicShare.thy ===== *)
theory PublicShare
  imports Share Preview Upload Trash
begin

text \<open>
  \<open>app/public_share/service.py\<close> and the commits of its router: what a visitor without an account may do through
  a public link. A session is opened with the link's token (and its password); the credential it returns is checked
  against the link on every request, and every write runs as the owner of the shared item.
\<close>

section \<open>Answers\<close>

definition invalid_link :: error where "invalid_link = AppError SHARE_LINK_INVALID 404"
definition password_required :: error where "password_required = AppError SHARE_LINK_PASSWORD_REQUIRED 401"

record public_item =
  pb_id :: uuid
  pb_name :: string
  pb_item_type :: item_type
  pb_mime_type :: "string option"
  pb_size_bytes :: int
  pb_extension :: "string option"
  pb_preview_type :: preview_type
  pb_updated_at :: time

definition to_public_item :: "bool \<Rightarrow> drive_item \<Rightarrow> public_item" where
  "to_public_item office item =
     \<lparr>pb_id = di_id item, pb_name = di_name item, pb_item_type = di_item_type item, pb_mime_type = di_mime_type item,
      pb_size_bytes = di_size_bytes item, pb_extension = di_extension item,
      pb_preview_type = resolve_preview_type office item, pb_updated_at = di_updated_at item\<rparr>"

record 'tok public_session =
  ps_access_token :: 'tok
  ps_expires_in :: int
  ps_permission :: string
  ps_item :: public_item

record authorized =
  au_claims :: share_claims
  au_root :: drive_item
  au_permission :: link_permission

definition link_permission_str :: "link_permission \<Rightarrow> string" where
  "link_permission_str p =
     (case p of LINK_VIEWER \<Rightarrow> ''viewer'' | LINK_DOWNLOADER \<Rightarrow> ''downloader'' | LINK_EDITOR \<Rightarrow> ''editor'')"

section \<open>Sessions\<close>

definition register_attempt :: "settings \<Rightarrow> uuid \<Rightarrow> time option \<Rightarrow> int \<Rightarrow> unit M" where
  "register_attempt cfg link_id window_start count =
     bindM now (\<lambda>t.
     let (ws, n) = (case window_start of
           None \<Rightarrow> (t, 0)
         | Some s \<Rightarrow> if t - s \<ge> minutes 1 then (t, 0) else (s, count));
         n = n + 1;
         locked_until = (if n > share_link_attempt_limit cfg
           then Some (t + minutes (share_link_lockout_minutes cfg)) else None) in
     thenM (update_attempt_state link_id (Some ws) n locked_until)
       (guardM (locked_until = None) invalid_link))"

definition open_session ::
  "'tok crypto \<Rightarrow> settings \<Rightarrow> bool \<Rightarrow> string \<Rightarrow> string option \<Rightarrow> 'tok public_session M" where
  "open_session c cfg office token password =
     bindM now (\<lambda>t.
     bindM (links_get_by_token_hash (hash_token c token)) (\<lambda>r. case r of
         None \<Rightarrow> raiseM invalid_link
       | Some l \<Rightarrow>
           thenM (guardM (\<not> (case sl_locked_until l of None \<Rightarrow> False | Some u \<Rightarrow> u > t)) invalid_link)
           (thenM (guardM (\<not> (\<not> sl_is_active l \<or> (case sl_expires_at l of None \<Rightarrow> False | Some e \<Rightarrow> e < t))) invalid_link)
           (thenM (case sl_password_hash l of
               None \<Rightarrow> returnM ()
             | Some h \<Rightarrow> (case password of
                   None \<Rightarrow> raiseM password_required
                 | Some p \<Rightarrow>
                     thenM (register_attempt cfg (sl_id l) (sl_attempt_window_start l) (sl_attempt_count l))
                       (guardM (verify_password c p h) invalid_link)))
           (bindM (create_share_access_token c cfg (sl_id l) (sl_item_id l) (link_permission_str (sl_permission l)) None) (\<lambda>access_token.
            bindM (items_get_by_id (sl_item_id l)) (\<lambda>root. case root of
                None \<Rightarrow> raiseM invalid_link
              | Some root \<Rightarrow>
                  thenM (guardM (\<not> di_is_deleted root) invalid_link)
                  (returnM \<lparr>ps_access_token = access_token,
                     ps_expires_in = share_access_token_expire_minutes cfg * 60,
                     ps_permission = link_permission_str (sl_permission l),
                     ps_item = to_public_item office root\<rparr>)))))))) "

text \<open>The route commits in a \<open>finally\<close> block, so a failed attempt is counted: the world of the failed call stays.\<close>

definition open_session_route ::
  "'tok crypto \<Rightarrow> settings \<Rightarrow> bool \<Rightarrow> string \<Rightarrow> string option \<Rightarrow> 'tok public_session M" where
  "open_session_route c cfg office token password = open_session c cfg office token password"

section \<open>Authorisation\<close>

definition authorize :: "'tok crypto \<Rightarrow> 'tok \<Rightarrow> authorized M" where
  "authorize c access_token =
     bindM now (\<lambda>t.
     bindM (liftM (\<lambda>_. case decode_share_access_token c t access_token of
         Inl _ \<Rightarrow> Inl invalid_link | Inr claims \<Rightarrow> Inr claims)) (\<lambda>claims.
     bindM (links_get_by_id (sc_link_id claims)) (\<lambda>r. case r of
         None \<Rightarrow> raiseM invalid_link
       | Some l \<Rightarrow>
           thenM (guardM (sl_is_active l) invalid_link)
           (thenM (guardM (\<not> (case sl_expires_at l of None \<Rightarrow> False | Some e \<Rightarrow> e < t)) invalid_link)
           (bindM (items_get_by_id (sl_item_id l)) (\<lambda>root. case root of
               None \<Rightarrow> raiseM invalid_link
             | Some root \<Rightarrow>
                 thenM (guardM (\<not> di_is_deleted root) invalid_link)
                 (returnM \<lparr>au_claims = claims, au_root = root, au_permission = sl_permission l\<rparr>)))))))"

definition refresh_session :: "'tok crypto \<Rightarrow> settings \<Rightarrow> bool \<Rightarrow> 'tok \<Rightarrow> 'tok public_session M" where
  "refresh_session c cfg office access_token =
     bindM (authorize c access_token) (\<lambda>auth.
     let claims = au_claims auth;
         cap = sc_chain_started_at claims + minutes (share_access_token_max_lifetime_minutes cfg) in
     bindM now (\<lambda>t.
     thenM (guardM (\<not> t \<ge> cap) invalid_link)
     (bindM (create_share_access_token c cfg (sc_link_id claims) (sc_root_item_id claims) (sc_permission claims)
          (Some (sc_chain_started_at claims))) (\<lambda>token.
        returnM \<lparr>ps_access_token = token, ps_expires_in = share_access_token_expire_minutes cfg * 60,
          ps_permission = sc_permission claims, ps_item = to_public_item office (au_root auth)\<rparr>))))"

definition MAX_DEPTH :: nat where "MAX_DEPTH = 64"

text \<open>The loop \<open>for _ in range(_MAX_DEPTH)\<close>: whether the walk up from the item meets the root of the link.\<close>

fun meets_root :: "nat \<Rightarrow> world \<Rightarrow> uuid \<Rightarrow> drive_item option \<Rightarrow> bool" where
  "meets_root 0 w root_id current = False"
| "meets_root (Suc n) w root_id current = (case current of
       None \<Rightarrow> False
     | Some item \<Rightarrow>
         if di_id item = root_id then True
         else (case di_parent_id item of
             None \<Rightarrow> False
           | Some p \<Rightarrow> meets_root n w root_id (find_item w p)))"

definition resolve_in_subtree :: "authorized \<Rightarrow> uuid \<Rightarrow> drive_item M" where
  "resolve_in_subtree auth item_id =
     bindM (items_get_by_id item_id) (\<lambda>r. case r of
         None \<Rightarrow> raiseM invalid_link
       | Some item \<Rightarrow>
           thenM (guardM (\<not> di_is_deleted item) invalid_link)
           (bindM (getsM (\<lambda>w. meets_root MAX_DEPTH w (di_id (au_root auth)) (Some item))) (\<lambda>inside.
            thenM (guardM inside invalid_link) (returnM item))))"

definition link_can_download :: "authorized \<Rightarrow> unit M" where
  "link_can_download auth = guardM (au_permission auth \<noteq> LINK_VIEWER) ForbiddenError"

definition link_can_edit :: "authorized \<Rightarrow> unit M" where
  "link_can_edit auth = guardM (au_permission auth = LINK_EDITOR) ForbiddenError"

section \<open>Reading\<close>

definition public_get_root :: "'tok crypto \<Rightarrow> bool \<Rightarrow> 'tok \<Rightarrow> public_item M" where
  "public_get_root c office access_token =
     bindM (authorize c access_token) (\<lambda>auth. returnM (to_public_item office (au_root auth)))"

definition public_list_children :: "'tok crypto \<Rightarrow> bool \<Rightarrow> 'tok \<Rightarrow> uuid \<Rightarrow> int \<Rightarrow> int \<Rightarrow> public_item page M" where
  "public_list_children c office access_token item_id page page_size =
     bindM (authorize c access_token) (\<lambda>auth.
     bindM (resolve_in_subtree auth item_id) (\<lambda>folder.
     thenM (guardM (di_item_type folder = FOLDER) BadOperation)
     (bindM (list_children (Some (di_id folder)) (di_owner_id (au_root auth)) BY_NAME ASC ((page - 1) * page_size) page_size)
        (\<lambda>(cs, count). returnM (page_create (map (to_public_item office) cs) (int count) page page_size)))))"

definition public_preview ::
  "'tok crypto \<Rightarrow> bool \<Rightarrow> (bytes \<Rightarrow> string \<Rightarrow> bytes option) \<Rightarrow> 'tok \<Rightarrow> uuid \<Rightarrow> (string \<times> bytes list) M" where
  "public_preview c office convert access_token item_id =
     bindM (authorize c access_token) (\<lambda>auth.
     bindM (resolve_in_subtree auth item_id) (\<lambda>item.
     thenM (guardM (di_item_type item = FILE) BadOperation)
     (bindM (content_for_item office convert item) (\<lambda>(ptype, mime, s). returnM (mime, s)))))"

definition public_download :: "'tok crypto \<Rightarrow> 'tok \<Rightarrow> uuid \<Rightarrow> download_file_result M" where
  "public_download c access_token item_id =
     bindM (authorize c access_token) (\<lambda>auth.
     thenM (link_can_download auth)
     (bindM (resolve_in_subtree auth item_id) (\<lambda>item.
      thenM (guardM (di_item_type item = FILE) BadOperation) (file_result item))))"

definition public_archive :: "'tok crypto \<Rightarrow> 'tok \<Rightarrow> uuid list option \<Rightarrow> archive_result M" where
  "public_archive c access_token chosen =
     bindM (authorize c access_token) (\<lambda>auth.
     thenM (link_can_download auth)
     (case chosen of
        None \<Rightarrow> archive (di_owner_id (au_root auth)) [di_id (au_root auth)]
      | Some ids \<Rightarrow>
          thenM (guardM (ids \<noteq> []) BadOperation)
          (thenM (forM ids (\<lambda>i. thenM (resolve_in_subtree auth i) (returnM ())))
             (archive (di_owner_id (au_root auth)) ids))))"

section \<open>Writing\<close>

text \<open>The router builds the drive service without the share rows, and the trash service as the trash router does.\<close>

definition guest_drive :: wiring where
  "guest_drive = \<lparr>has_perm = True, has_activity = True, has_share_repo = False\<rparr>"

definition public_reload :: "uuid \<Rightarrow> drive_item M" where
  "public_reload item_id = bindM (items_get_by_id item_id)
     (\<lambda>r. case r of None \<Rightarrow> raiseM invalid_link | Some item \<Rightarrow> returnM item)"

definition public_create_folder :: "'tok crypto \<Rightarrow> 'tok \<Rightarrow> uuid \<Rightarrow> string \<Rightarrow> drive_item M" where
  "public_create_folder c access_token parent_id name =
     bindM (authorize c access_token) (\<lambda>auth.
     thenM (link_can_edit auth)
     (bindM (resolve_in_subtree auth parent_id) (\<lambda>parent.
      thenM (guardM (di_item_type parent = FOLDER) BadOperation)
      (bindM (create_folder guest_drive (di_owner_id (au_root auth)) (Some (di_id parent)) name) (\<lambda>created.
         public_reload (ir_id created))))))"

definition public_rename :: "'tok crypto \<Rightarrow> 'tok \<Rightarrow> uuid \<Rightarrow> string \<Rightarrow> drive_item M" where
  "public_rename c access_token item_id new_name =
     bindM (authorize c access_token) (\<lambda>auth.
     thenM (link_can_edit auth)
     (bindM (resolve_in_subtree auth item_id) (\<lambda>item.
      thenM (rename guest_drive (di_owner_id (au_root auth)) (di_id item) new_name)
        (public_reload (di_id item)))))"

definition public_move :: "'tok crypto \<Rightarrow> 'tok \<Rightarrow> uuid \<Rightarrow> uuid \<Rightarrow> drive_item M" where
  "public_move c access_token item_id new_parent_id =
     bindM (authorize c access_token) (\<lambda>auth.
     thenM (link_can_edit auth)
     (bindM (resolve_in_subtree auth item_id) (\<lambda>item.
      bindM (resolve_in_subtree auth new_parent_id) (\<lambda>parent.
      thenM (guardM (di_item_type parent = FOLDER) BadOperation)
      (thenM (move guest_drive (di_owner_id (au_root auth)) (di_id item) (Some (di_id parent)))
        (public_reload (di_id item)))))))"

definition public_trash :: "'tok crypto \<Rightarrow> 'tok \<Rightarrow> uuid \<Rightarrow> unit M" where
  "public_trash c access_token item_id =
     bindM (authorize c access_token) (\<lambda>auth.
     thenM (link_can_edit auth)
     (bindM (resolve_in_subtree auth item_id) (\<lambda>item.
      thenM (guardM (di_id item \<noteq> di_id (au_root auth)) BadOperation)
      (thenM (trash_item trash_router (di_owner_id (au_root auth)) (di_id item)) (returnM ())))))"

definition public_upload ::
  "'tok crypto \<Rightarrow> 'tok \<Rightarrow> uuid \<Rightarrow> string \<Rightarrow> stream \<Rightarrow> int \<Rightarrow> string option \<Rightarrow> drive_item M" where
  "public_upload c access_token parent_id filename s size_bytes mime_type =
     bindM (authorize c access_token) (\<lambda>auth.
     thenM (link_can_edit auth)
     (bindM (resolve_in_subtree auth parent_id) (\<lambda>parent.
      thenM (guardM (di_item_type parent = FOLDER) BadOperation)
      (bindM (upload_simple c (di_owner_id (au_root auth)) (Some (di_id parent)) filename s size_bytes mime_type) (\<lambda>created.
         public_reload (ir_id created))))))"

definition audit_context :: "'tok crypto \<Rightarrow> 'tok \<Rightarrow> (uuid \<times> uuid) M" where
  "audit_context c access_token = bindM (authorize c access_token)
     (\<lambda>auth. returnM (di_owner_id (au_root auth), sc_link_id (au_claims auth)))"

text \<open>
  \<open>_audit_guest_write\<close>: the row names the owner as the actor and the link in its metadata. The log never stops the
  request; \<open>audit_context\<close> may, since it checks the credential once more.
\<close>

definition audit_guest_write :: "'tok crypto \<Rightarrow> 'tok \<Rightarrow> activity_action \<Rightarrow> uuid \<Rightarrow> unit M" where
  "audit_guest_write c access_token action item_id =
     bindM (audit_context c access_token) (\<lambda>(owner, link_id).
     bindM (log_activity owner action (Some item_id)) (\<lambda>r. case r of
         None \<Rightarrow> returnM ()
       | Some row \<Rightarrow> modifyM (logs_update (row_update al_id (al_id row) (\<lambda>x. x\<lparr>al_via_link := Some link_id\<rparr>)))))"

text \<open>The routes of the writes: the service's call, the audit row, the commit.\<close>

definition guest_write :: "'tok crypto \<Rightarrow> 'tok \<Rightarrow> activity_action \<Rightarrow> drive_item M \<Rightarrow> drive_item M" where
  "guest_write c access_token action m =
     transact (bindM m (\<lambda>item. thenM (audit_guest_write c access_token action (di_id item)) (returnM item)))"

definition guest_trash_route :: "'tok crypto \<Rightarrow> 'tok \<Rightarrow> uuid \<Rightarrow> unit M" where
  "guest_trash_route c access_token item_id =
     transact (thenM (public_trash c access_token item_id) (audit_guest_write c access_token TRASH item_id))"

text \<open>The five write routes, and a session: any requests at any later times, with one credential.\<close>

datatype guest_request =
    G_CREATE uuid string
  | G_UPLOAD uuid string stream int "string option"
  | G_RENAME uuid string
  | G_MOVE uuid uuid
  | G_TRASH uuid

definition void :: "'a M \<Rightarrow> unit M" where
  "void m = thenM m (returnM ())"

fun guest_route :: "'tok crypto \<Rightarrow> 'tok \<Rightarrow> guest_request \<Rightarrow> unit M" where
  "guest_route c tok (G_CREATE parent_id name) = void (guest_write c tok CREATE (public_create_folder c tok parent_id name))"
| "guest_route c tok (G_UPLOAD parent_id filename s size_bytes mime_type) =
     void (guest_write c tok UPLOAD (public_upload c tok parent_id filename s size_bytes mime_type))"
| "guest_route c tok (G_RENAME item_id name) = void (guest_write c tok RENAME (public_rename c tok item_id name))"
| "guest_route c tok (G_MOVE item_id parent_id) = void (guest_write c tok MOVE (public_move c tok item_id parent_id))"
| "guest_route c tok (G_TRASH item_id) = guest_trash_route c tok item_id"

inductive guest_steps :: "'tok crypto \<Rightarrow> 'tok \<Rightarrow> world \<Rightarrow> world \<Rightarrow> bool" for c tok w where
  stay: "guest_steps c tok w w"
| request: "guest_steps c tok w w1 \<Longrightarrow> clock w1 \<le> t \<Longrightarrow> guest_route c tok req (w1\<lparr>clock := t\<rparr>) = (r, w2) \<Longrightarrow>
    guest_steps c tok w w2"

end
