(* ===== verification/DownloadFacts.thy ===== *)
theory DownloadFacts
  imports Download
begin

text \<open>
  What walking folders for an archive does: it only reads, it ends on every forest, and it collects live files
  below the selected items that the user may download.
\<close>

section \<open>The walk reads only\<close>

lemma keeps_collect [keeps_rules]:
  "keeps f (maybe_add fs a i)" "keeps f (collect_pages n u fo p off fs)" "keeps f (stored_key i)"
proof -
  show add: "keeps f (maybe_add fs a i)" for fs a i
    unfolding maybe_add_def by (intro keeps_rules)
  show "keeps f (collect_pages n u fo p off fs)"
  proof (induction n arbitrary: fo p off fs)
    case (Suc n)
    then show ?case
      by (auto intro!: keeps_rules add keeps_fold simp: Let_def split: prod.splits)
  qed (simp add: keeps_raise)
  show "keeps f (stored_key i)" unfolding stored_key_def by (intro keeps_rules)
qed

section \<open>What is packed\<close>

definition stored :: "world \<Rightarrow> string \<Rightarrow> bool" where
  "stored w key = (storage_exists key w = (Inr True, w))"

definition under :: "string \<Rightarrow> string \<Rightarrow> bool" where
  "under prefix name = (\<exists>rest. name = prefix @ rest)"

definition packed :: "world \<Rightarrow> uuid \<Rightarrow> uuid \<Rightarrow> string \<Rightarrow> string \<times> string \<Rightarrow> bool" where
  "packed w u root prefix m \<longleftrightarrow> (\<exists>i \<in> set (items w). (di_id i, root) \<in> (parent_rel w)\<^sup>*
     \<and> di_item_type i = FILE \<and> \<not> di_is_deleted i \<and> di_storage_key i = Some (snd m) \<and> stored w (snd m)
     \<and> 2 \<le> access_level w u (di_id i) \<and> (fst m = prefix \<or> under (prefix @ ''/'') (fst m)))"

lemma packed_below:
  assumes "packed w u c (prefix @ ''/'' @ name) m" "(c, root) \<in> (parent_rel w)\<^sup>*"
  shows "packed w u root prefix m"
  using assms unfolding packed_def under_def by (fastforce intro: rtrancl_trans)

lemma maybe_add_result:
  assumes "maybe_add fs a i w = (r, w')"
  shows "w' = w \<and> (case r of Inl e \<Rightarrow> e \<noteq> Diverges
    | Inr fs' \<Rightarrow> fs' = fs \<or> (\<exists>key. di_storage_key i = Some key \<and> stored w key \<and> fs' = fs @ [(a, key)]))"
proof (cases "filled (di_storage_key i)")
  case False
  with assms show ?thesis by (auto simp: maybe_add_def filled_def split: option.splits if_splits)
next
  case True
  then obtain key where key: "di_storage_key i = Some key" "key \<noteq> []" by (auto simp: filled_def split: option.splits)
  have "storage_exists key w = (case resolve_path key of Inl e \<Rightarrow> Inl e | Inr p \<Rightarrow> Inr (blob_get w p \<noteq> None), w)"
    by (simp add: storage_exists_def run_bind split: sum.split)
  moreover have "resolve_path key \<noteq> Inl Diverges" by (simp add: resolve_path_def)
  ultimately show ?thesis using assms
    by (auto simp: maybe_add_def key run_bind stored_def split: sum.splits if_splits)
qed

section \<open>The descendants of a folder\<close>

definition descs :: "world \<Rightarrow> uuid \<Rightarrow> uuid set" where
  "descs w i = {j. (j, i) \<in> (parent_rel w)\<^sup>+}"

lemma descs_finite: "forest w \<Longrightarrow> descs w i \<subseteq> item_ids w \<and> finite (descs w i)"
proof -
  assume "forest w"
  then have pk: "pk_items (items w)" by (simp add: forest_def)
  have "j \<in> item_ids w" if "(j, i) \<in> (parent_rel w)\<^sup>+" for j
    using that by (induction rule: converse_trancl_induct) (auto simp: parent_rel_def parent_of_iff [OF pk] item_ids_def)
  then have "descs w i \<subseteq> item_ids w" by (auto simp: descs_def)
  then show ?thesis by (auto simp: item_ids_def intro: finite_subset)
qed

text \<open>The rows that one page after another lists.\<close>

definition listed :: "world \<Rightarrow> drive_item \<Rightarrow> drive_item list" where
  "listed w folder = sort_items w BY_NAME ASC (children w (Some (di_id folder)) (di_owner_id folder))"

lemma listed_child:
  assumes "forest w" "c \<in> set (listed w folder)"
  shows "c \<in> set (items w)" "(di_id c, di_id folder) \<in> parent_rel w" "\<not> di_is_deleted c"
  using assms by (auto simp: listed_def children_iff is_child_def parent_rel_def parent_of_iff forest_def)

lemma listed_distinct: "forest w \<Longrightarrow> distinct (map di_id (listed w folder))"
  by (auto simp: listed_def sort_items_def children_def forest_def pk_items_def distinct_map inj_on_def)

lemma descs_child:
  assumes "forest w" "c \<in> set (listed w folder)"
  shows "card (descs w (di_id c)) + length (listed w folder) \<le> card (descs w (di_id folder))"
proof -
  let ?L = "set (map di_id (listed w folder))"
  have ac: "acyclic (parent_rel w)" using assms(1) by (simp add: forest_def)
  have sub: "?L \<subseteq> descs w (di_id folder)" using listed_child [OF assms(1)] by (auto simp: descs_def)
  have "descs w (di_id c) \<subseteq> descs w (di_id folder)"
    using listed_child(2) [OF assms] by (auto simp: descs_def)
  moreover have "descs w (di_id c) \<inter> ?L = {}"
  proof (rule ccontr)
    assume "descs w (di_id c) \<inter> ?L \<noteq> {}"
    then obtain d where d: "d \<in> set (listed w folder)" "(di_id d, di_id c) \<in> (parent_rel w)\<^sup>+" by (auto simp: descs_def)
    have single: "(x, y) \<in> parent_rel w \<Longrightarrow> (x, z) \<in> parent_rel w \<Longrightarrow> y = z" for x y z by (simp add: parent_rel_def)
    from d(2) obtain y where y: "(di_id d, y) \<in> parent_rel w" "(y, di_id c) \<in> (parent_rel w)\<^sup>*" by (meson tranclD)
    with single listed_child(2) [OF assms(1) d(1)] have "(di_id folder, di_id c) \<in> (parent_rel w)\<^sup>*" by blast
    with listed_child(2) [OF assms] have "(di_id c, di_id c) \<in> (parent_rel w)\<^sup>+" by (rule rtrancl_into_trancl2)
    with ac show False by (simp add: acyclic_def)
  qed
  ultimately have "card (descs w (di_id c)) + card ?L = card (descs w (di_id c) \<union> ?L)"
    using descs_finite [OF assms(1)] by (subst card_Un_disjoint) auto
  also have "\<dots> \<le> card (descs w (di_id folder))"
    using descs_finite [OF assms(1), of "di_id folder"] sub \<open>descs w (di_id c) \<subseteq> descs w (di_id folder)\<close>
    by (intro card_mono) auto
  also have "card ?L = length (listed w folder)"
    using listed_distinct [OF assms(1)] by (simp only: distinct_card length_map)
  finally show ?thesis .
qed

section \<open>The walk\<close>

lemma run_list_page:
  "0 \<le> off \<Longrightarrow> list_children (Some (di_id folder)) (di_owner_id folder) BY_NAME ASC off FOLDER_PAGE w =
    (Inr (take 500 (drop (nat off) (listed w folder)), length (listed w folder)), w)"
  by (simp add: list_children_def listed_def select_page_def FOLDER_PAGE_def Let_def)

definition collected :: "world \<Rightarrow> uuid \<Rightarrow> uuid \<Rightarrow> string \<Rightarrow> zip_files \<Rightarrow> zip_files \<Rightarrow> bool" where
  "collected w u root prefix files fs \<longleftrightarrow> (\<exists>more. fs = files @ more \<and> (\<forall>m \<in> set more. packed w u root prefix m))"

lemma collected_trans: "collected w u r p a b \<Longrightarrow> collected w u r p b c \<Longrightarrow> collected w u r p a c"
  unfolding collected_def by (metis Un_iff append.assoc set_append)

lemma collected_refl [simp]: "collected w u r p a a"
  by (simp add: collected_def)

lemma collected_file:
  assumes "forest w" "c \<in> set (items w)" "(di_id c, root) \<in> (parent_rel w)\<^sup>*" "di_item_type c = FILE" "\<not> di_is_deleted c"
    and "name = prefix \<or> under (prefix @ ''/'') name" "maybe_add fs name c w = (r, w')" "2 \<le> access_level w u (di_id c)"
  shows "w' = w \<and> (case r of Inl e \<Rightarrow> e \<noteq> Diverges | Inr fs' \<Rightarrow> collected w u root prefix fs fs')"
  using maybe_add_result [OF assms(7)] assms(2-6,8)
  by (auto simp: collected_def packed_def split: sum.splits)

lemma collected_below:
  "collected w u c (prefix @ ''/'' @ name) a b \<Longrightarrow> (c, root) \<in> (parent_rel w)\<^sup>* \<Longrightarrow> collected w u root prefix a b"
  unfolding collected_def by (blast intro: packed_below)

text \<open>One child of a folder, given what the walk of a smaller folder does.\<close>

definition walk_ends :: "world \<Rightarrow> uuid \<Rightarrow> drive_item \<Rightarrow> string \<Rightarrow> zip_files \<Rightarrow> (error + zip_files) \<times> world \<Rightarrow> bool" where
  "walk_ends w u folder prefix files out \<longleftrightarrow> snd out = w
     \<and> (case fst out of Inl e \<Rightarrow> e \<noteq> Diverges | Inr fs \<Rightarrow> collected w u (di_id folder) prefix files fs)"

lemma walk_ends_below:
  assumes "walk_ends w u c (prefix @ ''/'' @ name) files out" "(di_id c, di_id folder) \<in> (parent_rel w)\<^sup>*"
  shows "walk_ends w u folder prefix files out"
proof (cases "fst out")
  case (Inr fs)
  with assms(1) have "collected w u (di_id c) (prefix @ ''/'' @ name) files fs" by (simp add: walk_ends_def)
  from collected_below [OF this assms(2)] show ?thesis using assms(1) Inr by (simp add: walk_ends_def)
qed (use assms(1) in \<open>simp add: walk_ends_def\<close>)

lemma collect_child:
  assumes "forest w" "c \<in> set (listed w folder)"
    and "di_item_type c \<noteq> FILE \<Longrightarrow> walk_ends w u c (prefix @ ''/'' @ di_name c) files (walk (prefix @ ''/'' @ di_name c) files w)"
  shows "walk_ends w u folder prefix files ((let path = prefix @ ''/'' @ di_name c in
      if di_item_type c = FILE then thenM (assert_can_download u c) (maybe_add files path c)
      else walk path files) w)"
proof -
  note child = listed_child [OF assms(1,2)]
  have up: "(di_id c, di_id folder) \<in> (parent_rel w)\<^sup>*" using child(2) by blast
  show ?thesis
  proof (cases "di_item_type c = FILE \<and> 2 \<le> access_level w u (di_id c)")
    case True
    obtain r w1 where run: "maybe_add files (prefix @ ''/'' @ di_name c) c w = (r, w1)" by fastforce
    have "w1 = w \<and> (case r of Inl e \<Rightarrow> e \<noteq> Diverges | Inr fs' \<Rightarrow> collected w u (di_id folder) prefix files fs')"
      using True by (intro collected_file [OF assms(1) child(1) up _ child(3) _ run]) (simp_all add: under_def)
    with True run show ?thesis by (simp add: walk_ends_def run_then assert_can_download_iff [OF assms(1) child(1)])
  next
    case False
    show ?thesis
    proof (cases "di_item_type c = FILE")
      case True
      with False show ?thesis
        by (simp add: walk_ends_def run_then assert_can_download_iff [OF assms(1) child(1)] ForbiddenError_def)
    next
      case False
      with walk_ends_below [OF assms(3) up] show ?thesis by (simp add: Let_def)
    qed
  qed
qed

lemma walk_ends_trans:
  assumes "collected w u (di_id folder) prefix a b" "walk_ends w u folder prefix b out"
  shows "walk_ends w u folder prefix a out"
  using assms by (auto simp: walk_ends_def dest: collected_trans split: sum.splits)

lemma collect_fold:
  assumes "forest w" "set cs \<subseteq> set (listed w folder)"
    and "\<And>c files. c \<in> set cs \<Longrightarrow> di_item_type c \<noteq> FILE \<Longrightarrow>
      walk_ends w u c (prefix @ ''/'' @ di_name c) files (walk c (prefix @ ''/'' @ di_name c) files w)"
  shows "walk_ends w u folder prefix files (foldM (\<lambda>child files. let path = prefix @ ''/'' @ di_name child in
      if di_item_type child = FILE then thenM (assert_can_download u child) (maybe_add files path child)
      else walk child path files) cs files w)"
  using assms(2,3)
proof (induction cs arbitrary: files)
  case (Cons c cs)
  let ?one = "\<lambda>child files. let path = prefix @ ''/'' @ di_name child in
      if di_item_type child = FILE then thenM (assert_can_download u child) (maybe_add files path child)
      else walk child path files"
  have "walk_ends w u folder prefix files (?one c files w)"
    by (rule collect_child [OF assms(1)]) (use Cons.prems in auto)
  then obtain r where one: "?one c files w = (r, w)"
    and r: "case r of Inl e \<Rightarrow> e \<noteq> Diverges | Inr fs \<Rightarrow> collected w u (di_id folder) prefix files fs"
    by (cases "?one c files w") (auto simp: walk_ends_def)
  have run: "foldM ?one (c # cs) files w = (case r of Inl e \<Rightarrow> (Inl e, w) | Inr fs \<Rightarrow> foldM ?one cs fs w)"
    by (simp only: foldM.simps run_bind one prod.case)
  show ?case
  proof (cases r)
    case (Inl e)
    with r show ?thesis unfolding run by (simp add: walk_ends_def)
  next
    case (Inr fs)
    have "walk_ends w u folder prefix fs (foldM ?one cs fs w)" by (rule Cons.IH) (use Cons.prems in auto)
    with Inr r show ?thesis unfolding run by (auto intro: walk_ends_trans)
  qed
qed (simp add: walk_ends_def)

lemma collect_pages_result:
  assumes "forest w"
  shows "0 \<le> off \<Longrightarrow> nat off \<le> length (listed w folder) \<Longrightarrow> card (descs w (di_id folder)) < n + nat off \<Longrightarrow>
    walk_ends w u folder prefix files (collect_pages n u folder prefix off files w)"
proof (induction n arbitrary: folder prefix off files)
  case 0
  have "length (listed w folder) \<le> card (descs w (di_id folder))"
  proof (cases "listed w folder")
    case (Cons c cs)
    then have "c \<in> set (listed w folder)" by simp
    from descs_child [OF assms this] show ?thesis by simp
  qed simp
  with 0 show ?case by simp
next
  case (Suc n)
  let ?cs = "take 500 (drop (nat off) (listed w folder))" let ?off = "off + int (length ?cs)"
  let ?loop = "foldM (\<lambda>child files. let path = prefix @ ''/'' @ di_name child in
      if di_item_type child = FILE then thenM (assert_can_download u child) (maybe_add files path child)
      else collect_pages n u child path 0 files) ?cs files w"
  have run: "collect_pages (Suc n) u folder prefix off files w = (if ?cs = [] then (Inr files, w)
     else (case ?loop of (Inl e, w1) \<Rightarrow> (Inl e, w1) | (Inr fs, w1) \<Rightarrow>
       if ?off \<ge> int (length (listed w folder)) then (Inr fs, w1) else collect_pages n u folder prefix ?off fs w1))"
    unfolding collect_pages.simps run_bind run_list_page [OF Suc.prems(1)] prod.case sum.case
    by (simp add: Suc.prems(1) split: sum.split prod.split)
  have loop: "walk_ends w u folder prefix files ?loop"
  proof (rule collect_fold [OF assms])
    fix c fs assume c: "c \<in> set ?cs"
    then have cL: "c \<in> set (listed w folder)" by (rule in_set_dropD [OF in_set_takeD])
    have "nat off < length (listed w folder)" using c by (cases "nat off < length (listed w folder)") auto
    with descs_child [OF assms cL] Suc.prems(3) have "card (descs w (di_id c)) < n + nat 0" by linarith
    then show "walk_ends w u c (prefix @ ''/'' @ di_name c) fs (collect_pages n u c (prefix @ ''/'' @ di_name c) 0 fs w)"
      by (intro Suc.IH) simp_all
  qed (auto dest: in_set_dropD in_set_takeD)
  have rest: "walk_ends w u folder prefix fs (collect_pages n u folder prefix ?off fs w)"
    if "?cs \<noteq> []" "\<not> ?off \<ge> int (length (listed w folder))" for fs
  proof (rule Suc.IH)
    have "0 < length ?cs" using that(1) by blast
    then show "card (descs w (di_id folder)) < n + nat ?off" using Suc.prems(1,3) by linarith
    show "0 \<le> ?off" "nat ?off \<le> length (listed w folder)" using Suc.prems(1) that(2) by linarith+
  qed
  show ?case
  proof (cases "?cs = []")
    case True
    then show ?thesis unfolding run by (simp add: walk_ends_def)
  next
    case False
    with loop rest walk_ends_trans [of w u folder prefix files] show ?thesis unfolding run
      by (cases ?loop; cases "fst ?loop") (auto simp: walk_ends_def split: if_splits)
  qed
qed

lemma collect_folder_result:
  assumes "forest w"
  shows "walk_ends w u folder prefix files (collect_folder u folder prefix files w)"
proof -
  have "card (descs w (di_id folder)) < Suc (length (items w)) + nat 0"
    using descs_finite [OF assms, of "di_id folder"] card_item_ids [of w]
      card_mono [of "item_ids w" "descs w (di_id folder)"] by (simp add: item_ids_def)
  from collect_pages_result [OF assms _ _ this, of u prefix files] show ?thesis
    by (simp add: collect_folder_def run_bind)
qed

section \<open>The selection\<close>

text \<open>After some items the state holds one name per item, all different, and members below these items.\<close>

definition archive_inv :: "world \<Rightarrow> uuid \<Rightarrow> uuid list \<Rightarrow> archive_state \<Rightarrow> bool" where
  "archive_inv w u done st \<longleftrightarrow> length (as_used_top st) = length done \<and> distinct (as_used_top st)
     \<and> (\<forall>m \<in> set (as_files st). \<exists>j < length done. packed w u (done ! j) (as_used_top st ! j) m)"

lemma archive_inv_add:
  assumes "archive_inv w u done st" "name \<notin> set (as_used_top st)" "collected w u i name (as_files st) fs"
  shows "archive_inv w u (done @ [i]) \<lparr>as_files = fs, as_used_top = as_used_top st @ [name], as_first_name = first\<rparr>"
proof -
  have old: "packed w u ((done @ [i]) ! j) ((as_used_top st @ [name]) ! j) m"
    if "j < length done" "packed w u (done ! j) (as_used_top st ! j) m" for j m
    using that assms(1) by (simp add: nth_append archive_inv_def)
  have new: "packed w u ((done @ [i]) ! length done) ((as_used_top st @ [name]) ! length done) m" if "packed w u i name m" for m
    using that assms(1) unfolding archive_inv_def by (metis nth_append_length)
  from assms(3) obtain more where more: "fs = as_files st @ more" "\<forall>m \<in> set more. packed w u i name m"
    by (auto simp: collected_def)
  have "\<exists>j < length (done @ [i]). packed w u ((done @ [i]) ! j) ((as_used_top st @ [name]) ! j) m" if "m \<in> set fs" for m
  proof (cases "m \<in> set more")
    case True
    with more(2) new show ?thesis by (intro exI [of _ "length done"]) simp
  next
    case False
    with that more(1) have "m \<in> set (as_files st)" by simp
    with assms(1) obtain j where "j < length done" "packed w u (done ! j) (as_used_top st ! j) m"
      unfolding archive_inv_def by blast
    with old show ?thesis by (intro exI [of _ j]) simp
  qed
  with assms(1,2) show ?thesis by (simp add: archive_inv_def)
qed

lemma archive_one_result:
  assumes "forest w" "archive_inv w u done st"
  shows "snd (archive_one u i st w) = w \<and> (case fst (archive_one u i st w) of
      Inl e \<Rightarrow> e \<noteq> Diverges | Inr st' \<Rightarrow> archive_inv w u (done @ [i]) st')"
proof -
  let ?out = "archive_one u i st w"
  show ?thesis
  proof (cases "\<exists>item. find_item w i = Some item \<and> \<not> di_is_deleted item \<and> 2 \<le> access_level w u i")
    case False
    show ?thesis
    proof (cases "find_item w i")
      case None
      then show ?thesis by (simp add: archive_one_def get_live_def run_bind NotFoundError_def)
    next
      case (Some item)
      then have "item \<in> set (items w)" "di_id item = i" using find_item_Some by blast+
      moreover have "di_is_deleted item \<or> \<not> 2 \<le> access_level w u i" using False Some by blast
      ultimately show ?thesis using Some
        by (auto simp add: archive_one_def get_live_def run_bind run_then assert_can_download_iff [OF assms(1)]
          NotFoundError_def ForbiddenError_def)
    qed
  next
    case True
    then obtain item where item: "find_item w i = Some item" "\<not> di_is_deleted item" "2 \<le> access_level w u i" by blast
    then have row: "item \<in> set (items w)" "di_id item = i" using find_item_Some by blast+
    obtain top where top: "dedupe (as_used_top st) (di_name item) = Inr top" "top \<notin> set (as_used_top st)"
      using dedupe_fresh by blast
    let ?pack = "(if di_item_type item = FILE then maybe_add (as_files st) top item else collect_folder u item top (as_files st)) w"
    have "walk_ends w u item top (as_files st) ?pack"
    proof (cases "di_item_type item = FILE")
      case True
      obtain r w1 where run: "maybe_add (as_files st) top item w = (r, w1)" by fastforce
      have "w1 = w \<and> (case r of Inl e \<Rightarrow> e \<noteq> Diverges | Inr fs \<Rightarrow> collected w u (di_id item) top (as_files st) fs)"
        by (rule collected_file [OF assms(1) row(1) _ True item(2) _ run]) (use row item(3) in simp_all)
      with run True show ?thesis by (simp only: walk_ends_def if_True fst_conv snd_conv simp_thms)
    qed (simp add: collect_folder_result [OF assms(1)])
    then obtain r where pack: "?pack = (r, w)"
      and r: "case r of Inl e \<Rightarrow> e \<noteq> Diverges | Inr fs \<Rightarrow> collected w u i top (as_files st) fs"
      using row by (cases ?pack) (auto simp: walk_ends_def)
    have can: "assert_can_download u item w = (Inr (), w)"
      using assert_can_download_iff [OF assms(1) row(1)] row(2) item(3) by simp
    define first where "first = (case as_first_name st of
        None \<Rightarrow> Some (if di_item_type item = FOLDER then di_name item else strip_ext (di_name item)) | Some f \<Rightarrow> Some f)"
    have run: "?out = (case r of Inl e \<Rightarrow> (Inl e, w)
        | Inr fs \<Rightarrow> (Inr \<lparr>as_files = fs, as_used_top = as_used_top st @ [top], as_first_name = first\<rparr>, w))"
      unfolding archive_one_def get_live_def first_def Let_def
      by (simp only: run_bind run_then run_lift can item run_items_get_by_id option.case prod.case sum.case if_False run_return top(1) pack)
    show ?thesis
    proof (cases r)
      case (Inr fs)
      with archive_inv_add [OF assms(2) top(2)] r show ?thesis by (simp add: run)
    qed (use r in \<open>simp add: run\<close>)
  qed
qed

lemma archive_fold_result:
  assumes "forest w" "archive_inv w u done st"
  shows "snd (foldM (archive_one u) ids st w) = w \<and> (case fst (foldM (archive_one u) ids st w) of
      Inl e \<Rightarrow> e \<noteq> Diverges | Inr st' \<Rightarrow> archive_inv w u (done @ ids) st')"
  using assms(2)
proof (induction ids arbitrary: st "done")
  case (Cons i ids)
  from archive_one_result [OF assms(1) Cons.prems, of i] obtain r where r: "archive_one u i st w = (r, w)"
    "case r of Inl e \<Rightarrow> e \<noteq> Diverges | Inr st' \<Rightarrow> archive_inv w u (done @ [i]) st'"
    by (cases "archive_one u i st w") auto
  show ?case
  proof (cases r)
    case (Inr st')
    with r Cons.IH [of "done @ [i]" st'] show ?thesis by (simp add: run_bind split: sum.splits)
  qed (use r in \<open>simp add: run_bind\<close>)
qed simp

lemma archive_result:
  assumes "forest w"
  shows "snd (archive u ids w) = w" "fst (archive u ids w) \<noteq> Inl Diverges"
    and "fst (archive u ids w) = Inr res \<Longrightarrow> \<exists>tops. length tops = length ids \<and> distinct tops \<and> ar_files res \<noteq> []
      \<and> (\<forall>m \<in> set (ar_files res). \<exists>j < length ids. packed w u (ids ! j) (tops ! j) m)"
proof -
  let ?start = "\<lparr>as_files = [], as_used_top = [], as_first_name = None\<rparr>"
  have "archive_inv w u [] ?start" by (simp add: archive_inv_def)
  note fold = archive_fold_result [OF assms this, of ids, unfolded append_Nil]
  define r where "r = fst (foldM (archive_one u) ids ?start w)"
  have r: "foldM (archive_one u) ids ?start w = (r, w)"
    "case r of Inl e \<Rightarrow> e \<noteq> Diverges | Inr st \<Rightarrow> archive_inv w u ids st"
    using fold by (simp_all add: r_def prod_eq_iff)
  have run: "archive u ids w = (if ids = [] then (Inl BadOperation, w) else (case r of Inl e \<Rightarrow> (Inl e, w)
      | Inr st \<Rightarrow> if as_files st = [] then (Inl BadOperation, w) else
          (Inr \<lparr>ar_label = (case as_first_name st of None \<Rightarrow> ''download'' | Some f \<Rightarrow> if f = [] then ''download'' else f),
             ar_count = (if length ids > 1 then Some (length ids) else None), ar_files = as_files st\<rparr>, w)))"
    by (simp add: archive_def run_then run_bind run_guard r(1) Let_def split: sum.split)
  show "snd (archive u ids w) = w" by (simp add: run split: sum.split)
  show "fst (archive u ids w) \<noteq> Inl Diverges" using r(2) by (auto simp: run BadOperation_def split: sum.split)
  show "\<exists>tops. length tops = length ids \<and> distinct tops \<and> ar_files res \<noteq> []
      \<and> (\<forall>m \<in> set (ar_files res). \<exists>j < length ids. packed w u (ids ! j) (tops ! j) m)" if "fst (archive u ids w) = Inr res"
    using that r(2) unfolding run archive_inv_def by (auto split: if_splits sum.splits)
qed

end
