(* ===== verification/PublicShareFacts.thy ===== *)
theory PublicShareFacts
  imports PublicShare DownloadFacts TrashFacts
begin

text \<open>
  What a credential grants, what lies inside a shared folder, and how the three kinds of change that guests can
  cause - a new leaf, new columns, a new parent - keep to the inside.
\<close>

section \<open>The inside of a shared folder\<close>

definition inside :: "world \<Rightarrow> uuid \<Rightarrow> uuid \<Rightarrow> bool" where
  "inside w root j = ((j, root) \<in> (parent_rel w)\<^sup>*)"

definition confined :: "uuid \<Rightarrow> world \<Rightarrow> world \<Rightarrow> bool" where
  "confined root w w' \<longleftrightarrow> item_ids w \<subseteq> item_ids w'
     \<and> (\<forall>j. find_item w' j \<noteq> find_item w j \<longrightarrow> (j \<in> item_ids w \<longrightarrow> inside w root j) \<and> inside w' root j)
     \<and> (\<forall>j \<in> item_ids w. inside w root j \<longleftrightarrow> inside w' root j)"

lemma confined_same: "items w' = items w \<Longrightarrow> confined root w w'"
  by (simp add: confined_def inside_def item_ids_def parent_rel_def parent_of_def find_item_def)

lemma find_item_ids: "find_item w j \<noteq> None \<longleftrightarrow> j \<in> item_ids w"
  by (simp add: find_item_None item_ids_def)

lemma confined_trans: "confined root w w1 \<Longrightarrow> confined root w1 w2 \<Longrightarrow> confined root w w2"
  unfolding confined_def by (metis find_item_ids subset_iff)

text \<open>The walk \<open>_resolve_in_subtree\<close> finds only items inside.\<close>

lemma meets_root_inside:
  "meets_root n w root (Some item) \<Longrightarrow> find_item w (di_id item) = Some item \<Longrightarrow> inside w root (di_id item)"
proof (induction n arbitrary: item)
  case (Suc n)
  show ?case
  proof (cases "di_id item = root")
    case False
    with Suc.prems obtain p where p: "di_parent_id item = Some p" "meets_root n w root (find_item w p)"
      by (auto split: option.splits)
    then obtain q where q: "find_item w p = Some q" by (cases n) (auto split: option.splits)
    then have id: "di_id q = p" using find_item_Some by blast
    with Suc.IH [of q] p q have "inside w root p" by simp
    moreover have "(di_id item, p) \<in> parent_rel w" using Suc.prems(2) p(1) by (simp add: parent_rel_def parent_of_def)
    ultimately show ?thesis unfolding inside_def by (rule converse_rtrancl_into_rtrancl [rotated])
  qed (simp add: inside_def)
qed simp

section \<open>Changes that stay inside\<close>

lemma inside_cong:
  assumes "(x, root) \<in> R\<^sup>*" "\<And>x y. (x, y) \<in> R \<Longrightarrow> (y, root) \<in> S\<^sup>* \<Longrightarrow> (x, root) \<in> S\<^sup>*"
  shows "(x, root) \<in> S\<^sup>*"
  using assms(1) by (induction rule: converse_rtrancl_induct) (auto intro: assms(2))

lemma confined_add:
  assumes w: "forest w" and w': "items w' = items w @ [item]" and new: "di_id item \<notin> item_ids w"
    and p: "di_parent_id item = Some p" "inside w root p"
  shows "confined root w w'"
proof -
  have find: "find_item w' j = (if j = di_id item then Some item else find_item w j)" for j
  proof -
    have "row_get di_id (di_id item) (items w) = None" using new unfolding row_get_None item_ids_def by (metis imageI)
    with w' show ?thesis by (simp add: find_item_def row_get_append split: option.split)
  qed
  have par: "parent_of w' j = (if j = di_id item then Some p else parent_of w j)" for j
    by (simp add: parent_of_def find p(1))
  have sub: "parent_rel w \<subseteq> parent_rel w'"
  proof
    fix e assume e: "e \<in> parent_rel w"
    then obtain x y where xy: "e = (x, y)" "parent_of w x = Some y" by (auto simp: parent_rel_def)
    then have "x \<in> item_ids w" using find_item_ids [of w x] by (auto simp: parent_of_def)
    with xy new show "e \<in> parent_rel w'" by (auto simp: parent_rel_def par)
  qed
  have "(di_id item, p) \<in> parent_rel w'" by (simp add: parent_rel_def par)
  moreover have "inside w' root p" using p(2) rtrancl_mono [OF sub] by (auto simp: inside_def)
  ultimately have "inside w' root (di_id item)" unfolding inside_def by (rule converse_rtrancl_into_rtrancl)
  moreover have "inside w root j" if "inside w' root j" "j \<in> item_ids w" for j
    using that unfolding inside_def
  proof (induction rule: converse_rtrancl_induct)
    case (step x y)
    then have "(x, y) \<in> parent_rel w" using new by (auto simp: parent_rel_def par split: if_splits)
    moreover from this have "y \<in> item_ids w" using drive_tree.up_node [OF w] by (auto simp: parent_rel_def)
    ultimately show ?case using step.IH by (meson converse_rtrancl_into_rtrancl)
  qed simp
  moreover have "inside w' root j" if "inside w root j" for j
    using that rtrancl_mono [OF sub] by (auto simp: inside_def)
  ultimately show ?thesis using new w' by (auto simp: confined_def find item_ids_def)
qed

lemma confined_columns:
  assumes "items w' = items (set_item i f w)" "inside w root i"
    and "\<And>r. di_id (f r) = di_id r" "\<And>r. di_parent_id (f r) = di_parent_id r"
  shows "confined root w w'"
proof -
  have find: "find_item w' j = (if j = i then map_option f (find_item w j) else find_item w j)" for j
    using find_item_set_item [where f = f, OF assms(3)] assms(1) by (simp add: find_item_def)
  have "parent_of w' j = parent_of w j" for j by (simp add: parent_of_def find assms(4) split: option.split)
  then have "inside w' root = inside w root" by (simp add: inside_def parent_rel_def fun_eq_iff)
  moreover have "item_ids w' = item_ids w" using item_ids_set_item [where f = f, OF assms(3)] assms(1) by (simp add: item_ids_def)
  ultimately show ?thesis using assms(2) by (simp add: confined_def find)
qed

lemma confined_reparent:
  assumes w': "items w' = items (set_item i f w)" and i: "inside w root i" "i \<in> item_ids w"
    and f: "\<And>r. di_id (f r) = di_id r" "\<And>r. di_parent_id (f r) = Some p"
    and p: "inside w root p" "(p, i) \<notin> (parent_rel w)\<^sup>*"
  shows "confined root w w'"
proof -
  have find: "find_item w' j = (if j = i then map_option f (find_item w j) else find_item w j)" for j
    using find_item_set_item [where f = f, OF f(1)] w' by (simp add: find_item_def)
  have par: "(x, y) \<in> parent_rel w' \<longleftrightarrow> (if x = i then y = p else (x, y) \<in> parent_rel w)" for x y
    using i(2) find_item_ids [of w i] by (auto simp: parent_rel_def parent_of_def find f(2) split: option.splits)
  have "(p, root) \<in> (parent_rel w')\<^sup>*"
    using p unfolding inside_def
  proof (induction rule: converse_rtrancl_induct)
    case (step x y)
    from step.hyps(1) step.prems have "(y, i) \<notin> (parent_rel w)\<^sup>*" "x \<noteq> i" by (auto intro: converse_rtrancl_into_rtrancl)
    with step.hyps(1) step.IH show ?case by (meson converse_rtrancl_into_rtrancl par)
  qed simp
  then have "inside w' root j" if "inside w root j" for j
    using that unfolding inside_def
    by (elim inside_cong) (metis converse_rtrancl_into_rtrancl par)
  moreover have "inside w root j" if "inside w' root j" for j
    using that i(1) unfolding inside_def
    by (elim inside_cong) (metis converse_rtrancl_into_rtrancl par)
  moreover have "item_ids w' = item_ids w" using item_ids_set_item [where f = f, OF f(1)] w' by (simp add: item_ids_def)
  ultimately show ?thesis using i(1) by (auto simp: confined_def find)
qed

section \<open>What a credential grants\<close>

definition link_grants :: "'tok crypto \<Rightarrow> world \<Rightarrow> 'tok \<Rightarrow> share_link \<Rightarrow> drive_item \<Rightarrow> bool" where
  "link_grants c w tok l root \<longleftrightarrow>
     (\<exists>claims. decode_share_access_token c (clock w) tok = Inr claims \<and> find_link w (sc_link_id claims) = Some l)
     \<and> sl_is_active l \<and> (case sl_expires_at l of None \<Rightarrow> True | Some e \<Rightarrow> clock w \<le> e)
     \<and> find_item w (sl_item_id l) = Some root \<and> \<not> di_is_deleted root"

lemma run_authorize:
  "authorize c tok w = (case decode_share_access_token c (clock w) tok of
     Inl _ \<Rightarrow> (Inl invalid_link, w)
   | Inr claims \<Rightarrow> (case find_link w (sc_link_id claims) of
        None \<Rightarrow> (Inl invalid_link, w)
      | Some l \<Rightarrow> if \<not> sl_is_active l \<or> (case sl_expires_at l of None \<Rightarrow> False | Some e \<Rightarrow> e < clock w) then (Inl invalid_link, w)
          else (case find_item w (sl_item_id l) of
             None \<Rightarrow> (Inl invalid_link, w)
           | Some root \<Rightarrow> if di_is_deleted root then (Inl invalid_link, w)
               else (Inr \<lparr>au_claims = claims, au_root = root, au_permission = sl_permission l\<rparr>, w))))"
  by (simp add: authorize_def run_bind run_then run_guard links_get_by_id_def split: sum.split option.split)

lemma authorize_InrE:
  assumes "authorize c tok w = (Inr a, w')"
  obtains l where "link_grants c w tok l (au_root a)" "au_permission a = sl_permission l" "w' = w"
    "decode_share_access_token c (clock w) tok = Inr (au_claims a)" "find_link w (sc_link_id (au_claims a)) = Some l"
proof -
  from assms obtain claims l where l: "decode_share_access_token c (clock w) tok = Inr claims" "find_link w (sc_link_id claims) = Some l"
    unfolding run_authorize by (auto split: sum.splits option.splits)
  with assms have ok: "sl_is_active l" "\<not> (case sl_expires_at l of None \<Rightarrow> False | Some e \<Rightarrow> e < clock w)"
    unfolding run_authorize by (simp_all split: if_splits)
  from l ok assms obtain root where "find_item w (sl_item_id l) = Some root" "\<not> di_is_deleted root"
    "a = \<lparr>au_claims = claims, au_root = root, au_permission = sl_permission l\<rparr>" "w' = w"
    unfolding run_authorize by (auto split: option.splits if_splits)
  with l ok show thesis by (intro that [of l]) (auto simp: link_grants_def not_less split: option.splits)
qed

lemma resolve_InrE:
  assumes "resolve_in_subtree a i w = (Inr item, w')"
  obtains "find_item w i = Some item" "di_id item = i" "\<not> di_is_deleted item" "inside w (di_id (au_root a)) i" "w' = w"
proof (cases "find_item w i")
  case (Some j)
  with find_item_Some [OF this] meets_root_inside [of MAX_DEPTH w "di_id (au_root a)" j] assms show thesis
    by (intro that) (auto simp: resolve_in_subtree_def run_bind run_then run_guard split: if_splits)
qed (use assms in \<open>simp add: resolve_in_subtree_def run_bind\<close>)

section \<open>What a guest's write does\<close>

text \<open>A write that got through: its link is live and grants editing, and it changed items only inside.\<close>

definition guest_effect :: "'tok crypto \<Rightarrow> 'tok \<Rightarrow> world \<Rightarrow> world \<Rightarrow> bool" where
  "guest_effect c tok w w' \<longleftrightarrow> (\<exists>l root. link_grants c w tok l root \<and> sl_permission l = LINK_EDITOR
     \<and> confined (di_id root) w w') \<and> forest w' \<and> links w' = links w"

lemma keeps_links_services:
  "keeps links (create_folder cfg u p s)" "keeps links (rename cfg u i s)" "keeps links (move cfg u i np)"
  "keeps links (trash_item tw u i)" "keeps links (upload_simple c u p fn st n mime)"
  unfolding create_folder_def rename_def move_def trash_item_def upload_simple_def record_file_def items_create_def
    update_name_def update_parent_def update_item_def drive_log_def trash_log_def mark_deleted_def trash_get_def Let_def
  by (intro keeps_rules keeps_uuid4 keeps_modify keeps_storage keeps_log_activity keeps_version_writes keeps_user_writes; simp add: set_item_def)+

lemma links_after: "keeps links m \<Longrightarrow> m w = (r, w') \<Longrightarrow> links w' = links w"
  by (rule keepsD)

text \<open>Each write of the service, as far as it returns.\<close>

lemma forest_columns_after:
  assumes "forest w" "items w' = items (set_item i f w)" "uuid_next w \<le> uuid_next w'"
    and "\<And>r. di_id (f r) = di_id r" "\<And>r. di_parent_id (f r) = di_parent_id r" "\<And>r. di_item_type (f r) = di_item_type r"
  shows "forest w'"
  using assms by (rule forest_set_item_cong)

lemma create_folder_confined:
  assumes w: "forest w" and c: "create_folder cfg u (Some p) s w = (Inr r, w')" and p: "inside w root p"
  shows "confined root w w' \<and> forest w' \<and> links w' = links w"
proof -
  from c obtain n item where item: "item = new_item (uuid_next w) (clock w) u (Some p) FOLDER n u" "items w' = items w @ [item]"
    by (rule create_folder_InrE) blast
  have "di_id item \<notin> item_ids w" using w item(1) by (auto simp: forest_def ids_issued_def)
  from confined_add [OF w item(2) this _ p] item(1) have "confined root w w'" by simp
  moreover have "forest w'" using forest_create_folder [of cfg u "Some p" s] w c unfolding okay_def by blast
  ultimately show ?thesis using links_after [OF keeps_links_services(1) c] by blast
qed

lemma upload_confined:
  assumes w: "forest w" and c: "upload_simple k u (Some p) fn st n mime w = (Inr r, w')" and p: "inside w root p"
  shows "confined root w w' \<and> forest w' \<and> links w' = links w"
proof -
  from w c obtain name item key j where item: "item = file_row (w\<lparr>uuid_next := Suc (uuid_next w)\<rparr>) u (Some p) (candidate name j)
      (int (length (stream_bytes st))) mime (snd (split_name name)) (blob_digest k (stream_bytes st)) key"
    "items w' = items w @ [item]" "forest w'"
    by (rule upload_simple_InrE) blast
  have "di_id item \<notin> item_ids w" using w item(1) by (auto simp: forest_def ids_issued_def file_row_def)
  from confined_add [OF w item(2) this _ p] item(1) have "confined root w w'" by (simp add: file_row_def)
  with item(3) links_after [OF keeps_links_services(5) c] show ?thesis by blast
qed

lemma rename_confined:
  assumes w: "forest w" and c: "rename cfg u i s w = (Inr r, w')" and i: "inside w root i"
  shows "confined root w w' \<and> forest w' \<and> links w' = links w"
proof -
  have "confined root w w'"
    using c
  proof (rule rename_InrE)
    fix n old
    assume "items w' = items (set_item i (\<lambda>r. r\<lparr>di_name := n, di_updated_by := Some u, di_updated_at := clock w\<rparr>) w)"
    then show ?thesis using i by (rule confined_columns) simp_all
  qed (simp add: confined_same)
  moreover have "forest w'" using forest_rename [of cfg u i s] w c unfolding okay_def by blast
  ultimately show ?thesis using links_after [OF keeps_links_services(2) c] by blast
qed

lemma move_confined:
  assumes w: "forest w" and c: "move cfg u i (Some p) w = (Inr r, w')" and ip: "inside w root i" "inside w root p"
  shows "confined root w w' \<and> forest w' \<and> links w' = links w"
proof -
  have "confined root w w'"
    using w c
  proof (rule move_InrE)
    fix old assume old: "find_item w i = Some old"
      and q: "\<And>q. Some p = Some q \<Longrightarrow> \<exists>f. find_item w q = Some f \<and> \<not> di_is_deleted f \<and> di_item_type f = FOLDER
        \<and> drive_assert_can_edit cfg f u w = (Inr (), w) \<and> (q, i) \<notin> (parent_rel w)\<^sup>*"
      and rows: "items w' = items (set_item i (\<lambda>r. r\<lparr>di_parent_id := Some p, di_updated_by := Some u, di_updated_at := clock w\<rparr>) w)"
    have "i \<in> item_ids w" using old find_item_ids [of w i] by simp
    moreover have "(p, i) \<notin> (parent_rel w)\<^sup>*" using q by blast
    ultimately show ?thesis by (intro confined_reparent [OF rows ip(1) _ _ _ ip(2)]) simp_all
  qed
  moreover have "forest w'" using forest_move [of cfg u i "Some p"] w c unfolding okay_def by blast
  ultimately show ?thesis using links_after [OF keeps_links_services(3) c] by blast
qed

lemma trash_confined:
  assumes w: "forest w" and c: "trash_item tw u i w = (Inr r, w')" and i: "inside w root i"
  shows "confined root w w' \<and> forest w' \<and> links w' = links w"
proof -
  let ?f = "\<lambda>r. r\<lparr>di_is_deleted := True, di_deleted_at := Some (clock w), di_updated_at := clock w\<rparr>"
  from c obtain it where it: "find_item w i = Some it" by (cases "find_item w i") (auto simp: trash_item_def run_bind)
  obtain x w1 y w2 where m: "mark_deleted i (clock w) w = (Inr x, w1)" and l: "trash_log tw u TRASH i w1 = (Inr y, w2)" and w': "w' = w2"
    using c unfolding trash_item_def
    by (auto simp: run_bind run_then run_guard it split: prod.splits sum.splits if_splits)
  have "w1 = set_item i ?f w"
    using m by (auto simp: mark_deleted_def trash_get_def run_then run_bind it update_item_def run_flush_items Let_def split: if_splits)
  with l w' have rows: "items w' = items (set_item i ?f w)" "uuid_next w \<le> uuid_next w'"
    by (auto elim!: trash_log_InrE simp: set_item_def)
  from confined_columns [OF rows(1) i] forest_columns_after [OF w rows] links_after [OF keeps_links_services(4) c]
  show ?thesis by simp
qed

section \<open>The routes\<close>

lemma link_can_edit_InrE:
  "link_can_edit a w = (Inr x, w') \<Longrightarrow> au_permission a = LINK_EDITOR \<and> w' = w"
  by (auto simp: link_can_edit_def run_guard split: if_splits)

text \<open>The common head of all writes: the credential is checked, then the right to edit.\<close>

lemma guest_head:
  assumes "bindM (authorize c tok) (\<lambda>auth. thenM (link_can_edit auth) (m auth)) w = (Inr r, w')"
  obtains a l where "link_grants c w tok l (au_root a)" "sl_permission l = LINK_EDITOR" "m a w = (Inr r, w')"
  using assms by (auto elim!: bind_InrE then_InrE authorize_InrE dest!: link_can_edit_InrE)

lemma guest_effectI:
  assumes "link_grants c w tok l (au_root a)" "sl_permission l = LINK_EDITOR"
    and "confined (di_id (au_root a)) w w' \<and> forest w' \<and> links w' = links w"
  shows "guest_effect c tok w w'"
  using assms unfolding guest_effect_def by blast

lemma public_reload_same: "public_reload i w = (r, w') \<Longrightarrow> w' = w"
  by (auto simp: public_reload_def run_bind split: option.splits)

lemma public_writes:
  assumes w: "forest w"
  shows "public_create_folder c tok p name w = (Inr r, w') \<Longrightarrow> guest_effect c tok w w'"
    and "public_upload c tok p fn st n mime w = (Inr r, w') \<Longrightarrow> guest_effect c tok w w'"
    and "public_rename c tok i name w = (Inr r, w') \<Longrightarrow> guest_effect c tok w w'"
    and "public_move c tok i p w = (Inr r, w') \<Longrightarrow> guest_effect c tok w w'"
    and "public_trash c tok i w = (Inr u, w') \<Longrightarrow> guest_effect c tok w w'"
proof -
  assume "public_create_folder c tok p name w = (Inr r, w')"
  then show "guest_effect c tok w w'" unfolding public_create_folder_def
    by (elim guest_head bind_InrE then_InrE resolve_InrE guard_InrE)
      (auto dest!: public_reload_same intro: guest_effectI [OF _ _ create_folder_confined [OF w]])
next
  assume "public_upload c tok p fn st n mime w = (Inr r, w')"
  then show "guest_effect c tok w w'" unfolding public_upload_def
    by (elim guest_head bind_InrE then_InrE resolve_InrE guard_InrE)
      (auto dest!: public_reload_same intro: guest_effectI [OF _ _ upload_confined [OF w]])
next
  assume "public_rename c tok i name w = (Inr r, w')"
  then show "guest_effect c tok w w'" unfolding public_rename_def
    by (elim guest_head bind_InrE then_InrE resolve_InrE guard_InrE)
      (auto dest!: public_reload_same intro: guest_effectI [OF _ _ rename_confined [OF w]])
next
  assume "public_move c tok i p w = (Inr r, w')"
  then show "guest_effect c tok w w'" unfolding public_move_def
    by (elim guest_head bind_InrE then_InrE resolve_InrE guard_InrE)
      (auto dest!: public_reload_same intro: guest_effectI [OF _ _ move_confined [OF w]])
next
  assume "public_trash c tok i w = (Inr u, w')"
  then show "guest_effect c tok w w'" unfolding public_trash_def
    by (elim guest_head bind_InrE then_InrE resolve_InrE guard_InrE)
      (auto intro: guest_effectI [OF _ _ trash_confined [OF w]])
qed

lemma audit_frame:
  assumes "audit_guest_write c tok act i w = (Inr x, w')"
  shows "items w' = items w \<and> links w' = links w \<and> uuid_next w \<le> uuid_next w'"
proof -
  obtain a w0 where auth: "authorize c tok w = (Inr a, w0)"
    using assms by (auto simp: audit_guest_write_def audit_context_def elim!: bind_InrE)
  then have w0: "w0 = w" by (rule authorize_InrE)
  obtain r w1 where l: "log_activity (di_owner_id (au_root a)) act (Some i) w = (r, w1)" by fastforce
  note f = log_activity_frame [OF l]
  then obtain y where "r = Inr y" by blast
  with assms auth w0 l f show ?thesis
    by (cases y) (auto simp: audit_guest_write_def audit_context_def run_bind)
qed

lemma guest_effect_cong:
  assumes "guest_effect c tok w w1" "items w2 = items w1 \<and> links w2 = links w1 \<and> uuid_next w1 \<le> uuid_next w2"
  shows "guest_effect c tok w w2"
proof -
  have "confined root w w2" if "confined root w w1" for root
    using confined_trans [OF that confined_same] assms(2) by blast
  moreover have "forest w2" using assms forest_cong [of w2 w1] by (simp add: guest_effect_def)
  ultimately show ?thesis using assms unfolding guest_effect_def by metis
qed

definition guest_outcome :: "'tok crypto \<Rightarrow> 'tok \<Rightarrow> world \<Rightarrow> world \<Rightarrow> bool" where
  "guest_outcome c tok w w' \<longleftrightarrow> (items w' = items w \<and> links w' = links w \<and> forest w') \<or> guest_effect c tok w w'"

lemma transact_outcome:
  assumes "forest w" "transact m w = (r, w')" "\<And>x w1. m w = (Inr x, w1) \<Longrightarrow> guest_effect c tok w w1"
  shows "guest_outcome c tok w w'"
proof (cases "m w")
  case (Pair q w1)
  show ?thesis
  proof (cases q)
    case (Inl e)
    with Pair assms(2) have "w' = rollback w w1" by (simp add: transact_def)
    with forest_rollback [OF assms(1)] show ?thesis by (simp add: guest_outcome_def rollback_def)
  next
    case (Inr x)
    with Pair assms(2) have "w' = w1" by (simp add: transact_def)
    with assms(3) Pair Inr show ?thesis by (simp add: guest_outcome_def)
  qed
qed

lemma guest_write_outcome:
  assumes "forest w" "guest_write c tok act m w = (r, w')" "\<And>x w1. m w = (Inr x, w1) \<Longrightarrow> guest_effect c tok w w1"
  shows "guest_outcome c tok w w'"
  using assms(1,2) unfolding guest_write_def
proof (rule transact_outcome)
  fix x w1 assume "bindM m (\<lambda>item. thenM (audit_guest_write c tok act (di_id item)) (returnM item)) w = (Inr x, w1)"
  then show "guest_effect c tok w w1"
    by (elim bind_InrE then_InrE) (auto dest!: audit_frame assms(3) intro: guest_effect_cong)
qed

lemma void_result: "void m w = (r, w') \<Longrightarrow> \<exists>q. m w = (q, w')"
  by (auto simp: void_def run_then split: prod.splits sum.splits)

lemma guest_route_outcome:
  assumes w: "forest w" and run: "guest_route c tok req w = (r, w')"
  shows "guest_outcome c tok w w'"
proof (cases req)
  case (G_TRASH i)
  with run have t: "transact (thenM (public_trash c tok i) (audit_guest_write c tok TRASH i)) w = (r, w')"
    by (simp add: guest_trash_route_def)
  show ?thesis
    by (rule transact_outcome [OF w t]) (elim then_InrE, auto dest!: audit_frame public_writes(5) [OF w] intro: guest_effect_cong)
qed (use run in \<open>auto dest!: void_result intro: guest_write_outcome [OF w] public_writes [OF w]\<close>)

section \<open>Guessing passwords\<close>

text \<open>The sessions that a list of guesses, each at its time, opens.\<close>

fun opened :: "'tok crypto \<Rightarrow> settings \<Rightarrow> string \<Rightarrow> (time \<times> string) list \<Rightarrow> world \<Rightarrow> int" where
  "opened c cfg token [] w = 0"
| "opened c cfg token ((t, p) # guesses) w =
     (case open_session_route c cfg False token (Some p) (w\<lparr>clock := t\<rparr>) of
        (r, w') \<Rightarrow> (if isl r then 0 else 1) + opened c cfg token guesses w')"

lemma find_link_by_hash_set_link:
  assumes "\<And>l. sl_token_hash (f l) = sl_token_hash l"
  shows "find_link_by_hash (set_link i f w) h = map_option (\<lambda>l. if sl_id l = i then f l else l) (find_link_by_hash w h)"
proof -
  have "row_get sl_token_hash h (row_update sl_id i f rows)
      = map_option (\<lambda>l. if sl_id l = i then f l else l) (row_get sl_token_hash h rows)" for rows
    using assms by (induction rows) (auto simp: row_update_def)
  then show ?thesis by (simp add: find_link_by_hash_def set_link_def)
qed

text \<open>The guesses a link still allows within the minute from \<open>T\<close>: those of a window begun before count separately.\<close>

definition guesses_left :: "time \<Rightarrow> int \<Rightarrow> share_link \<Rightarrow> int" where
  "guesses_left T limit l = max 0 (limit - sl_attempt_count l)
     + (case sl_attempt_window_start l of None \<Rightarrow> max 0 limit | Some s \<Rightarrow> if T \<le> s then 0 else max 0 limit)"

definition attempted :: "settings \<Rightarrow> time \<Rightarrow> share_link \<Rightarrow> share_link" where
  "attempted cfg t l =
     (let (ws, n) = (case sl_attempt_window_start l of
           None \<Rightarrow> (t, 0)
         | Some s \<Rightarrow> if t - s \<ge> minutes 1 then (t, 0) else (s, sl_attempt_count l)) in
      l\<lparr>sl_attempt_window_start := Some ws, sl_attempt_count := n + 1,
        sl_locked_until := (if n + 1 > share_link_attempt_limit cfg
          then Some (t + minutes (share_link_lockout_minutes cfg)) else None)\<rparr>)"

lemma run_register_attempt:
  assumes "find_link_by_hash w h = Some l"
  obtains w' where "register_attempt cfg (sl_id l) (sl_attempt_window_start l) (sl_attempt_count l) w
      = (if sl_locked_until (attempted cfg (clock w) l) = None then Inr () else Inl invalid_link, w')"
    "find_link_by_hash w' h = Some (attempted cfg (clock w) l)" "items w' = items w" "clock w' = clock w"
proof -
  obtain ws n where wn: "(case sl_attempt_window_start l of None \<Rightarrow> (clock w, 0)
      | Some s \<Rightarrow> if clock w - s \<ge> minutes 1 then (clock w, 0) else (s, sl_attempt_count l)) = (ws, n)" by fastforce
  let ?u = "if n + 1 > share_link_attempt_limit cfg then Some (clock w + minutes (share_link_lockout_minutes cfg)) else None"
  let ?f = "\<lambda>l. l\<lparr>sl_attempt_window_start := Some ws, sl_attempt_count := n + 1, sl_locked_until := ?u\<rparr>"
  have "register_attempt cfg (sl_id l) (sl_attempt_window_start l) (sl_attempt_count l) w
      = (if ?u = None then Inr () else Inl invalid_link, set_link (sl_id l) ?f w)"
    by (simp add: register_attempt_def run_bind run_then run_guard update_attempt_state_def wn)
  moreover have "attempted cfg (clock w) l = ?f l" by (simp add: attempted_def wn)
  moreover have "find_link_by_hash (set_link (sl_id l) ?f w) h = Some (?f l)"
    by (simp add: find_link_by_hash_set_link assms)
  ultimately show thesis by (intro that [of "set_link (sl_id l) ?f w"]) (simp_all add: set_link_def)
qed

lemma hash_after_token:
  assumes "create_share_access_token c cfg l i q s w = (r, w')"
  shows "find_link_by_hash w' h = find_link_by_hash w h \<and> items w' = items w"
  using assms by (auto simp: run_create_share_token find_link_by_hash_def)

text \<open>One guess: refused without a trace, or counted; and the session opens only if the count is within the limit.\<close>

lemma one_guess:
  assumes l: "find_link_by_hash w (hash_token c token) = Some l" "sl_password_hash l = Some h"
    and run: "open_session c cfg office token (Some p) w = (r, w')"
  shows "(isl r \<and> find_link_by_hash w' (hash_token c token) = Some l)
    \<or> (find_link_by_hash w' (hash_token c token) = Some (attempted cfg (clock w) l)
       \<and> (isl r \<or> sl_locked_until (attempted cfg (clock w) l) = None))"
proof (cases "(case sl_locked_until l of None \<Rightarrow> False | Some u \<Rightarrow> u > clock w)
    \<or> \<not> sl_is_active l \<or> (case sl_expires_at l of None \<Rightarrow> False | Some e \<Rightarrow> e < clock w)")
  case True
  then have "open_session c cfg office token (Some p) w = (Inl invalid_link, w)"
    by (auto simp: open_session_def run_bind run_then run_guard links_get_by_token_hash_def l)
  with run l show ?thesis by (auto simp: isl_def)
next
  case False
  obtain w1 where w1: "register_attempt cfg (sl_id l) (sl_attempt_window_start l) (sl_attempt_count l) w
      = (if sl_locked_until (attempted cfg (clock w) l) = None then Inr () else Inl invalid_link, w1)"
    "find_link_by_hash w1 (hash_token c token) = Some (attempted cfg (clock w) l)"
    by (rule run_register_attempt [OF l(1)])
  let ?rest = "bindM (create_share_access_token c cfg (sl_id l) (sl_item_id l) (link_permission_str (sl_permission l)) None) (\<lambda>access_token.
            bindM (items_get_by_id (sl_item_id l)) (\<lambda>root. case root of
                None \<Rightarrow> raiseM invalid_link
              | Some root \<Rightarrow>
                  thenM (guardM (\<not> di_is_deleted root) invalid_link)
                  (returnM \<lparr>ps_access_token = access_token,
                     ps_expires_in = share_access_token_expire_minutes cfg * 60,
                     ps_permission = link_permission_str (sl_permission l),
                     ps_item = to_public_item office root\<rparr>)))"
  have rest: "find_link_by_hash (snd (?rest w1)) (hash_token c token) = find_link_by_hash w1 (hash_token c token)"
    by (simp add: run_bind run_create_share_token run_then run_guard find_link_by_hash_def split: option.split)
  have "open_session c cfg office token (Some p) w
    = (if sl_locked_until (attempted cfg (clock w) l) \<noteq> None then (Inl invalid_link, w1)
       else if verify_password c p h then ?rest w1 else (Inl invalid_link, w1))"
    using False by (simp add: open_session_def run_bind run_then run_guard links_get_by_token_hash_def l w1(1))
  with run w1(2) rest show ?thesis by (auto split: if_splits)
qed

lemma guesses_left_attempted:
  assumes "T \<le> t" "t < T + minutes 1"
  shows "guesses_left T (share_link_attempt_limit cfg) (attempted cfg t l)
      + (if sl_locked_until (attempted cfg t l) = None then 1 else 0) \<le> guesses_left T (share_link_attempt_limit cfg) l"
    and "guesses_left T (share_link_attempt_limit cfg) (attempted cfg t l) \<le> guesses_left T (share_link_attempt_limit cfg) l"
  using assms by (auto simp: guesses_left_def attempted_def split: option.splits)

lemma opened_bound:
  assumes "\<forall>(t, p) \<in> set guesses. T \<le> t \<and> t < T + minutes 1"
  shows "find_link_by_hash w (hash_token c token) = Some l \<Longrightarrow> sl_password_hash l = Some h \<Longrightarrow>
    opened c cfg token guesses w \<le> guesses_left T (share_link_attempt_limit cfg) l"
  using assms
proof (induction guesses arbitrary: w l)
  case Nil
  show ?case by (simp add: guesses_left_def split: option.split)
next
  case (Cons g guesses)
  obtain t p where g: "g = (t, p)" by (cases g)
  let ?w = "w\<lparr>clock := t\<rparr>"
  obtain r w' where run: "open_session c cfg False token (Some p) ?w = (r, w')" by fastforce
  have l: "find_link_by_hash ?w (hash_token c token) = Some l" using Cons.prems(1) by (simp add: find_link_by_hash_def)
  have t: "T \<le> t" "t < T + minutes 1" using Cons.prems(3) g by auto
  have pw: "sl_password_hash (attempted cfg t l) = Some h"
    using Cons.prems(2) by (simp add: attempted_def split: option.split)
  note left = guesses_left_attempted [OF t, where cfg = cfg and l = l]
  have rest: "\<forall>(t, p) \<in> set guesses. T \<le> t \<and> t < T + minutes 1" using Cons.prems(3) by simp
  have step: "opened c cfg token (g # guesses) w = (if isl r then 0 else 1) + opened c cfg token guesses w'"
    by (simp add: g open_session_route_def run)
  from one_guess [OF l Cons.prems(2) run] show ?case
  proof (elim disjE conjE)
    assume "isl r" "find_link_by_hash w' (hash_token c token) = Some l"
    with Cons.IH [OF _ Cons.prems(2) rest] show ?thesis by (simp add: step)
  next
    assume a: "find_link_by_hash w' (hash_token c token) = Some (attempted cfg (clock ?w) l)"
      and "isl r"
    then have "opened c cfg token guesses w' \<le> guesses_left T (share_link_attempt_limit cfg) (attempted cfg t l)"
      by (intro Cons.IH [OF _ pw rest]) simp
    with left(2) \<open>isl r\<close> show ?thesis by (simp add: step)
  next
    assume a: "find_link_by_hash w' (hash_token c token) = Some (attempted cfg (clock ?w) l)"
      and n: "sl_locked_until (attempted cfg (clock ?w) l) = None"
    then have "opened c cfg token guesses w' \<le> guesses_left T (share_link_attempt_limit cfg) (attempted cfg t l)"
      by (intro Cons.IH [OF _ pw rest]) simp
    with left(1) n show ?thesis by (auto simp: step)
  qed
qed

section \<open>Chains of credentials\<close>

text \<open>The credentials that come from one opened session by refreshing, with the time the session was opened.\<close>

inductive credential :: "'tok crypto \<Rightarrow> settings \<Rightarrow> 'tok \<Rightarrow> uuid \<Rightarrow> time \<Rightarrow> bool" for c cfg where
  opened_by: "open_session c cfg office token password w = (Inr s, w') \<Longrightarrow>
    find_link_by_hash w (hash_token c token) = Some l \<Longrightarrow> credential c cfg (ps_access_token s) (sl_id l) (clock w)"
| refreshed: "credential c cfg tok k t0 \<Longrightarrow> refresh_session c cfg office tok w = (Inr s, w') \<Longrightarrow>
    credential c cfg (ps_access_token s) k t0"

text \<open>What every credential of a chain decodes to: its link, the start of its chain, and an expiry within the bound.\<close>

definition decodes_until :: "'tok crypto \<Rightarrow> 'tok \<Rightarrow> uuid \<Rightarrow> time \<Rightarrow> time \<Rightarrow> bool" where
  "decodes_until c tok k t0 e \<longleftrightarrow> (\<forall>t. case decode_share_access_token c t tok of
     Inl _ \<Rightarrow> e \<le> t | Inr claims \<Rightarrow> t < e \<and> sc_link_id claims = k \<and> sc_chain_started_at claims = t0)"

lemma created_decodes:
  assumes "jwt_ok c" "create_share_access_token c cfg k i q s w = (Inr tok, w')"
  shows "decodes_until c tok k (case s of None \<Rightarrow> clock w | Some s \<Rightarrow> s) (clock w + minutes (share_access_token_expire_minutes cfg))"
  using decode_share_created(1) [OF assms] by (simp add: decodes_until_def)

lemma open_session_token:
  assumes "open_session c cfg office token password w = (Inr s, w')" "find_link_by_hash w (hash_token c token) = Some l"
  obtains w1 w2 where "create_share_access_token c cfg (sl_id l) (sl_item_id l) (link_permission_str (sl_permission l)) None w1
      = (Inr (ps_access_token s), w2)" "clock w1 = clock w"
proof -
  let ?pw = "case sl_password_hash l of
               None \<Rightarrow> returnM ()
             | Some h \<Rightarrow> (case password of
                   None \<Rightarrow> raiseM password_required
                 | Some p \<Rightarrow>
                     thenM (register_attempt cfg (sl_id l) (sl_attempt_window_start l) (sl_attempt_count l))
                       (guardM (verify_password c p h) invalid_link))"
  let ?tok = "create_share_access_token c cfg (sl_id l) (sl_item_id l) (link_permission_str (sl_permission l)) None"
  let ?rest = "\<lambda>access_token. bindM (items_get_by_id (sl_item_id l)) (\<lambda>root. case root of
                None \<Rightarrow> raiseM invalid_link
              | Some root \<Rightarrow>
                  thenM (guardM (\<not> di_is_deleted root) invalid_link)
                  (returnM \<lparr>ps_access_token = access_token,
                     ps_expires_in = share_access_token_expire_minutes cfg * 60,
                     ps_permission = link_permission_str (sl_permission l),
                     ps_item = to_public_item office root\<rparr>))"
  have pwk: "keeps clock ?pw"
    unfolding register_attempt_def update_attempt_state_def Let_def case_prod_beta
    by (intro keeps_rules keeps_modify) (simp add: set_link_def)
  obtain x w1 where pw: "?pw w = (Inr x, w1)" and rest: "bindM ?tok ?rest w1 = (Inr s, w')"
  proof -
    have "thenM (guardM (\<not> (case sl_locked_until l of None \<Rightarrow> False | Some u \<Rightarrow> u > clock w)) invalid_link)
       (thenM (guardM (\<not> (\<not> sl_is_active l \<or> (case sl_expires_at l of None \<Rightarrow> False | Some e \<Rightarrow> e < clock w))) invalid_link)
       (thenM ?pw (bindM ?tok ?rest))) w = (Inr s, w')"
      using assms(1) unfolding open_session_def links_get_by_token_hash_def
      by (simp only: run_bind [of now] run_bind [of "getsM _"] run_now run_gets assms(2) prod.case sum.case option.case)
    then show thesis by (elim then_InrE guard_InrE) (hypsubst, erule (1) that)
  qed
  have "clock w1 = clock w" by (rule keepsD [OF pwk pw])
  moreover obtain tok w2 where t: "?tok w1 = (Inr tok, w2)" and r: "?rest tok w2 = (Inr s, w')" using rest by (rule bind_InrE)
  moreover have "ps_access_token s = tok"
    using r by (auto simp: run_bind run_then run_guard split: option.splits if_splits)
  ultimately show thesis using that by blast
qed

lemma refresh_session_token:
  assumes "refresh_session c cfg office tok w = (Inr s, w')"
  obtains a w2 where "authorize c tok w = (Inr a, w)"
    "clock w < sc_chain_started_at (au_claims a) + minutes (share_access_token_max_lifetime_minutes cfg)"
    "create_share_access_token c cfg (sc_link_id (au_claims a)) (sc_root_item_id (au_claims a)) (sc_permission (au_claims a))
      (Some (sc_chain_started_at (au_claims a))) w = (Inr (ps_access_token s), w2)"
proof -
  from assms obtain a w0 where a: "authorize c tok w = (Inr a, w0)" by (auto simp: refresh_session_def elim!: bind_InrE)
  then have "w0 = w" by (rule authorize_InrE)
  with a assms show thesis
    by (intro that [of a "w\<lparr>uuid_next := Suc (uuid_next w)\<rparr>"])
      (auto simp: refresh_session_def Let_def run_bind run_then run_guard run_create_share_token split: if_splits)
qed

lemma authorize_decodes:
  "decodes_until c tok k t0 e \<Longrightarrow> authorize c tok w = (Inr a, w') \<Longrightarrow>
    clock w < e \<and> sc_link_id (au_claims a) = k \<and> sc_chain_started_at (au_claims a) = t0"
  by (erule authorize_InrE) (auto simp: decodes_until_def split: sum.splits dest: spec [of _ "clock w"])

lemma credential_decodes:
  assumes "jwt_ok c" "0 \<le> share_access_token_max_lifetime_minutes cfg" "credential c cfg tok k t0"
  shows "\<exists>e \<le> t0 + minutes (share_access_token_max_lifetime_minutes cfg) + minutes (share_access_token_expire_minutes cfg).
    decodes_until c tok k t0 e"
  using assms(3)
proof induction
  case (opened_by office token password w s w' l)
  then obtain w1 w2 where "create_share_access_token c cfg (sl_id l) (sl_item_id l) (link_permission_str (sl_permission l)) None w1
      = (Inr (ps_access_token s), w2)" "clock w1 = clock w" by (rule open_session_token)
  from created_decodes [OF assms(1) this(1)] this(2) assms(2) show ?case
    by (intro exI [of _ "clock w + minutes (share_access_token_expire_minutes cfg)"]) (simp add: minutes_def usec_per_second_def)
next
  case (refreshed tok k t0 office w s w')
  from refreshed.hyps(2) obtain a w2 where a: "authorize c tok w = (Inr a, w)"
    and cap: "clock w < sc_chain_started_at (au_claims a) + minutes (share_access_token_max_lifetime_minutes cfg)"
    and tok: "create_share_access_token c cfg (sc_link_id (au_claims a)) (sc_root_item_id (au_claims a)) (sc_permission (au_claims a))
      (Some (sc_chain_started_at (au_claims a))) w = (Inr (ps_access_token s), w2)"
    by (rule refresh_session_token)
  from refreshed.IH obtain e where "decodes_until c tok k t0 e" by blast
  from authorize_decodes [OF this a] have "sc_link_id (au_claims a) = k" "sc_chain_started_at (au_claims a) = t0" by auto
  with created_decodes [OF assms(1) tok] cap show ?case
    by (intro exI [of _ "clock w + minutes (share_access_token_expire_minutes cfg)"]) simp
qed

section \<open>What guests read\<close>

lemma read_head:
  assumes "bindM (authorize c tok) (\<lambda>auth. bindM (resolve_in_subtree auth i) (m auth)) w = (Inr r, w')"
  obtains a l it where "link_grants c w tok l (au_root a)" "find_item w i = Some it" "di_id it = i"
    "inside w (di_id (au_root a)) i" "m a it w = (Inr r, w')"
proof -
  from assms obtain a w1 where a: "authorize c tok w = (Inr a, w1)"
    and rest: "bindM (resolve_in_subtree a i) (m a) w1 = (Inr r, w')" by (rule bind_InrE)
  from a obtain l where l: "link_grants c w tok l (au_root a)" "w1 = w" by (rule authorize_InrE)
  from rest obtain it w2 where "resolve_in_subtree a i w1 = (Inr it, w2)" and m: "m a it w2 = (Inr r, w')" by (rule bind_InrE)
  from this(1) l m show thesis by (elim resolve_InrE) (auto intro: that)
qed

lemma link_can_download_InrE:
  "link_can_download a w = (Inr x, w') \<Longrightarrow> au_permission a \<noteq> LINK_VIEWER \<and> w' = w"
  by (auto simp: link_can_download_def run_guard split: if_splits)

lemma download_head:
  assumes "bindM (authorize c tok) (\<lambda>auth. thenM (link_can_download auth) (m auth)) w = (Inr r, w')"
  obtains a l where "link_grants c w tok l (au_root a)" "sl_permission l \<noteq> LINK_VIEWER" "m a w = (Inr r, w')"
proof -
  from assms obtain a w1 where a: "authorize c tok w = (Inr a, w1)"
    and rest: "thenM (link_can_download a) (m a) w1 = (Inr r, w')" by (rule bind_InrE)
  from a obtain l where l: "link_grants c w tok l (au_root a)" "au_permission a = sl_permission l" "w1 = w" by (rule authorize_InrE)
  from rest l(3) have "au_permission a \<noteq> LINK_VIEWER \<and> m a w = (Inr r, w')"
    by (elim then_InrE) (auto dest!: link_can_download_InrE)
  with l that show thesis by auto
qed

lemma list_inside:
  assumes "forest w" "public_list_children c office tok i page n w = (Inr pg, w')"
  shows "\<exists>l root. link_grants c w tok l root \<and> w' = w \<and> (\<forall>b \<in> set (pg_items pg). inside w (di_id root) (pb_id b))"
proof -
  from assms(2)[unfolded public_list_children_def] obtain a :: authorized and l folder where g: "link_grants c w tok l (au_root a)"
      "find_item w i = Some folder" "di_id folder = i" "inside w (di_id (au_root a)) i"
    and guarded: "thenM (guardM (di_item_type folder = FOLDER) BadOperation)
      (bindM (list_children (Some (di_id folder)) (di_owner_id (au_root a)) BY_NAME ASC ((page - 1) * n) n)
        (\<lambda>(cs, count). returnM (page_create (map (to_public_item office) cs) (int count) page n))) w = (Inr pg, w')"
    by (rule read_head) blast
  have list: "bindM (list_children (Some (di_id folder)) (di_owner_id (au_root a)) BY_NAME ASC ((page - 1) * n) n)
        (\<lambda>(cs, count). returnM (page_create (map (to_public_item office) cs) (int count) page n)) w = (Inr pg, w')"
    using guarded by (elim then_InrE guard_InrE) simp
  let ?all = "sort_items w BY_NAME ASC (children w (Some i) (di_owner_id (au_root a)))"
  let ?rows = "take (nat n) (drop (nat ((page - 1) * n)) ?all)"
  have sub: "set ?rows \<subseteq> set (children w (Some i) (di_owner_id (au_root a)))"
    using set_take_subset [of "nat n" "drop (nat ((page - 1) * n)) ?all"] set_drop_subset [of "nat ((page - 1) * n)" ?all] by auto
  have "w' = w \<and> pg_items pg = map (to_public_item office) ?rows"
    using list g(3) by (auto simp: run_bind list_children_def select_page_def Let_def page_create_def split: if_splits)
  then obtain rows where rows: "w' = w" "set rows \<subseteq> set (children w (Some i) (di_owner_id (au_root a)))"
      "pg_items pg = map (to_public_item office) rows" using sub by blast
  have "inside w (di_id (au_root a)) (di_id r)" if "r \<in> set rows" for r
  proof -
    have "(di_id r, i) \<in> parent_rel w"
    proof -
      have "r \<in> set (children w (Some i) (di_owner_id (au_root a)))" using that rows(2) by blast
      then have "r \<in> set (items w)" "di_parent_id r = Some i" by (auto simp: children_iff is_child_def)
      then show ?thesis using forest_find [OF assms(1)] by (simp add: parent_rel_def parent_of_def)
    qed
    with g(4) show ?thesis unfolding inside_def by (meson converse_rtrancl_into_rtrancl)
  qed
  then show ?thesis using g(1) rows by (auto simp: to_public_item_def)
qed

lemma preview_inside:
  assumes "public_preview c office cv tok i w = (Inr content, w')"
  shows "\<exists>l root it. link_grants c w tok l root \<and> items w' = items w \<and> find_item w i = Some it \<and> inside w (di_id root) i"
proof -
  from assms[unfolded public_preview_def] obtain a :: authorized and l it where g: "link_grants c w tok l (au_root a)"
      "find_item w i = Some it" "di_id it = i" "inside w (di_id (au_root a)) i"
    and guarded: "thenM (guardM (di_item_type it = FILE) BadOperation)
      (bindM (content_for_item office cv it) (\<lambda>(ptype, mime, s). returnM (mime, s))) w = (Inr content, w')"
    by (rule read_head) blast
  obtain x where run: "content_for_item office cv it w = (Inr x, w')"
    using guarded by (elim then_InrE guard_InrE bind_InrE) (auto split: prod.splits)
  have "items w' = items w" by (rule keepsD [OF keeps_preview run]) simp
  with g show ?thesis by blast
qed

lemma download_inside:
  assumes "public_download c tok i w = (Inr file, w')"
  shows "\<exists>l root it. link_grants c w tok l root \<and> sl_permission l \<noteq> LINK_VIEWER \<and> w' = w
    \<and> find_item w i = Some it \<and> inside w (di_id root) i \<and> di_storage_key it = Some (df_stream_key file)"
proof -
  from assms[unfolded public_download_def] obtain a l where l: "link_grants c w tok l (au_root a)" "sl_permission l \<noteq> LINK_VIEWER"
    and found: "bindM (resolve_in_subtree a i) (\<lambda>item. thenM (guardM (di_item_type item = FILE) BadOperation) (file_result item)) w
      = (Inr file, w')" by (rule download_head) blast
  from found obtain it w1 where "resolve_in_subtree a i w = (Inr it, w1)"
    and guarded: "thenM (guardM (di_item_type it = FILE) BadOperation) (file_result it) w1 = (Inr file, w')" by (rule bind_InrE)
  then have "inside w (di_id (au_root a)) i \<and> find_item w i = Some it \<and> w1 = w" by (elim resolve_InrE) simp
  moreover have "file_result it w1 = (Inr file, w')" using guarded by (elim then_InrE guard_InrE) simp
  ultimately have g: "inside w (di_id (au_root a)) i" "find_item w i = Some it" and run: "file_result it w = (Inr file, w')" by auto
  have "keeps (\<lambda>v. v) (file_result it)" unfolding file_result_def by (intro keeps_rules)
  from same_world [OF this] run have "w' = w" by blast
  moreover have "di_storage_key it = Some (df_stream_key file)"
    using run by (auto simp: file_result_def stored_key_def elim!: bind_InrE then_InrE split: option.splits if_splits)
  ultimately show ?thesis using l g by blast
qed

lemma resolve_all_inside:
  "forM ids (\<lambda>i. thenM (resolve_in_subtree a i) (returnM ())) w = (Inr x, w') \<Longrightarrow>
    w' = w \<and> (\<forall>i \<in> set ids. inside w (di_id (au_root a)) i)"
proof (induction ids)
  case (Cons i ids)
  then show ?case by (auto elim!: then_InrE resolve_InrE)
qed simp

lemma archive_inside:
  assumes "forest w" "public_archive c tok chosen w = (Inr zipped, w')"
  shows "\<exists>l root. link_grants c w tok l root \<and> sl_permission l \<noteq> LINK_VIEWER \<and> w' = w
    \<and> (\<forall>m \<in> set (ar_files zipped). \<exists>it \<in> set (items w). inside w (di_id root) (di_id it) \<and> di_storage_key it = Some (snd m))"
proof -
  from assms(2)[unfolded public_archive_def] obtain a l where g: "link_grants c w tok l (au_root a)" "sl_permission l \<noteq> LINK_VIEWER"
    and zip: "(case chosen of None \<Rightarrow> archive (di_owner_id (au_root a)) [di_id (au_root a)]
      | Some ids \<Rightarrow> thenM (guardM (ids \<noteq> []) BadOperation)
          (thenM (forM ids (\<lambda>i. thenM (resolve_in_subtree a i) (returnM ()))) (archive (di_owner_id (au_root a)) ids))) w
      = (Inr zipped, w')" by (rule download_head) blast
  obtain ids where ids: "\<forall>i \<in> set ids. inside w (di_id (au_root a)) i"
      and run: "archive (di_owner_id (au_root a)) ids w = (Inr zipped, w')"
  proof (cases chosen)
    case None
    with zip show thesis by (intro that [of "[di_id (au_root a)]"]) (simp_all add: inside_def)
  next
    case (Some ids)
    with zip have "(\<forall>i \<in> set ids. inside w (di_id (au_root a)) i) \<and> archive (di_owner_id (au_root a)) ids w = (Inr zipped, w')"
      by (auto elim!: then_InrE guard_InrE dest!: resolve_all_inside)
    with that show thesis by blast
  qed
  from archive_result [OF assms(1), of "di_owner_id (au_root a)" ids] run have w': "w' = w"
    and m: "\<forall>m \<in> set (ar_files zipped). \<exists>j < length ids. \<exists>t. packed w (di_owner_id (au_root a)) (ids ! j) t m" by auto blast
  have "\<exists>it \<in> set (items w). inside w (di_id (au_root a)) (di_id it) \<and> di_storage_key it = Some (snd m)" if "m \<in> set (ar_files zipped)" for m
  proof -
    from m that obtain j t it where j: "j < length ids" and it: "it \<in> set (items w)" "(di_id it, ids ! j) \<in> (parent_rel w)\<^sup>*"
      "di_storage_key it = Some (snd m)" unfolding packed_def by blast
    from ids j have "inside w (di_id (au_root a)) (ids ! j)" by simp
    with it show ?thesis unfolding inside_def by (meson rtrancl_trans)
  qed
  with g w' show ?thesis by blast
qed

end
