(* ===== verification/PublicShareProperties.thy ===== *)
theory PublicShareProperties
  imports PublicShareFacts Samples
begin

text \<open>
  The promises of public links: guests stay inside what was shared, a revoked link is dead at once, passwords cannot be
  guessed faster than the limit, sessions cannot be prolonged for ever; and what an archive holds.
\<close>

section \<open>Sample\<close>

text \<open>The sample drive with an editor link (50) on the folder \<open>work\<close>, whose password is \<open>pw\<close>.\<close>

definition sample_link :: "uuid \<Rightarrow> uuid \<Rightarrow> link_permission \<Rightarrow> string option \<Rightarrow> share_link" where
  "sample_link i item perm h = \<lparr>sl_id = i, sl_item_id = item, sl_token_hash = ''tok'', sl_permission = perm,
     sl_password_hash = h, sl_expires_at = Some (days 2), sl_is_active = True, sl_created_by = 1, sl_created_at = 0,
     sl_attempt_window_start = None, sl_attempt_count = 0, sl_locked_until = None\<rparr>"

definition guest_world :: world where
  "guest_world = sample_world\<lparr>links := [sample_link 50 11 LINK_EDITOR (Some ''0$pw'')]\<rparr>"

definition guest_token :: payload where
  "guest_token = (case fst (create_share_access_token plain_crypto default_settings 50 11 ''editor'' None guest_world) of
     Inr p \<Rightarrow> p | Inl _ \<Rightarrow> [])"

lemma guest_forest: "forest guest_world"
  by (rule forest_check) code_simp

lemma guest_token_created:
  "\<exists>w'. create_share_access_token plain_crypto default_settings 50 11 ''editor'' None guest_world = (Inr guest_token, w')"
  by (simp add: guest_token_def run_create_share_token)

section \<open>Writing\<close>

lemma token_link:
  assumes "jwt_ok c" "create_share_access_token c cfg k i q st w0 = (Inr tok, w0')"
    and "decode_share_access_token c t tok = Inr claims"
  shows "sc_link_id claims = k"
  using created_decodes [OF assms(1,2)] assms(3) by (auto simp: decodes_until_def split: sum.splits dest: spec [of _ t])

text \<open>C20: whatever requests a visitor with the credential of a public link makes, at whatever times and with whatever outcomes,
  the items outside the shared folder stay as they are, new items lie inside it, the drive stays a forest, no link
  changes, and without an active editor link no item changes at all.\<close>

theorem guest_sessions_stay_inside:
  assumes "jwt_ok c" "create_share_access_token c cfg k i q st w0 = (Inr tok, w0')"
    and "forest w" "find_link w k = Some l" "guest_steps c tok w w'"
  shows "forest w' \<and> links w' = links w \<and> item_ids w \<subseteq> item_ids w'
    \<and> (sl_permission l \<noteq> LINK_EDITOR \<or> \<not> sl_is_active l \<longrightarrow> items w' = items w)
    \<and> (\<forall>j \<in> item_ids w. \<not> inside w (sl_item_id l) j \<longrightarrow> find_item w' j = find_item w j)
    \<and> (\<forall>j \<in> item_ids w' - item_ids w. inside w' (sl_item_id l) j)"
proof -
  have "confined (sl_item_id l) w w' \<and> forest w' \<and> links w' = links w
      \<and> (sl_permission l \<noteq> LINK_EDITOR \<or> \<not> sl_is_active l \<longrightarrow> items w' = items w)"
    using assms(5)
  proof induction
    case stay
    then show ?case using assms(3) by (simp add: confined_same)
  next
    case (request w1 t req r w2)
    let ?w1 = "w1\<lparr>clock := t\<rparr>"
    have w1: "forest ?w1" using request.IH forest_cong [of ?w1 w1] by simp
    have cf: "confined (sl_item_id l) w ?w1" using request.IH confined_trans [OF _ confined_same, of "sl_item_id l" w w1 ?w1] by simp
    from guest_route_outcome [OF w1 request.hyps(3)] show ?case unfolding guest_outcome_def
    proof (elim disjE conjE)
      assume "items w2 = items ?w1" "links w2 = links ?w1" "forest w2"
      with request.IH cf confined_trans [OF cf confined_same, of w2] show ?thesis by simp
    next
      assume "guest_effect c tok ?w1 w2"
      then obtain l' root where g: "link_grants c ?w1 tok l' root" "sl_permission l' = LINK_EDITOR"
        "confined (di_id root) ?w1 w2" "forest w2" "links w2 = links w1" unfolding guest_effect_def by auto
      from g(1) obtain claims where "decode_share_access_token c t tok = Inr claims" "find_link ?w1 (sc_link_id claims) = Some l'"
        by (auto simp: link_grants_def)
      with token_link [OF assms(1,2)] request.IH assms(4) have "l' = l" by (simp add: find_link_def)
      moreover from this g(1) have "di_id root = sl_item_id l" "sl_is_active l" by (auto simp: link_grants_def dest: find_item_Some)
      ultimately show ?thesis using g cf request.IH confined_trans [OF cf] by simp
    qed
  qed
  then show ?thesis using find_item_ids [of w] find_item_ids [of w'] unfolding confined_def by (metis DiffE)
qed

theorem guest_sessions_stay_inside_witness:
  "\<exists>w'. guest_steps plain_crypto guest_token guest_world w' \<and> length (items w') = 5 \<and> find_item w' 13 = find_item guest_world 13"
proof -
  let ?w = "snd (guest_route plain_crypto guest_token (G_CREATE 11 ''new'') (guest_world\<lparr>clock := minutes 5\<rparr>))"
  have "clock guest_world \<le> minutes 5" by code_simp
  then have steps: "guest_steps plain_crypto guest_token guest_world ?w"
    by (rule guest_steps.request [OF guest_steps.stay]) (rule prod.collapse [symmetric])
  obtain w0 where tok: "create_share_access_token plain_crypto default_settings 50 11 ''editor'' None guest_world = (Inr guest_token, w0)"
    using guest_token_created by blast
  have link: "find_link guest_world 50 = Some (sample_link 50 11 LINK_EDITOR (Some ''0$pw''))" by code_simp
  have "13 \<in> item_ids guest_world" by code_simp
  moreover have "parent_of guest_world 13 = None" by code_simp
  then have "\<not> inside guest_world 11 13" by (auto simp: inside_def parent_rel_def elim: converse_rtranclE)
  ultimately have "find_item ?w 13 = find_item guest_world 13"
    using guest_sessions_stay_inside [OF jwt_ok_plain tok guest_forest link steps] by (simp add: sample_link_def)
  moreover have "length (items ?w) = 5" by code_simp
  ultimately show ?thesis using steps by blast
qed

section \<open>Reading\<close>

text \<open>C21: reading through a link shows only what lies in the shared folder: every listed child, previewed or downloaded
  file and archive member is an item inside it; downloads need more than a viewer link; and no item changes.\<close>

theorem guests_see_only_the_inside:
  assumes "forest w"
  shows "(\<forall>pg w'. public_list_children c office tok i page n w = (Inr pg, w') \<longrightarrow>
      (\<exists>l root. link_grants c w tok l root \<and> w' = w \<and> (\<forall>b \<in> set (pg_items pg). inside w (di_id root) (pb_id b))))
    \<and> (\<forall>content w'. public_preview c office convert tok i w = (Inr content, w') \<longrightarrow>
      (\<exists>l root it. link_grants c w tok l root \<and> items w' = items w \<and> find_item w i = Some it \<and> inside w (di_id root) i))
    \<and> (\<forall>file w'. public_download c tok i w = (Inr file, w') \<longrightarrow>
      (\<exists>l root it. link_grants c w tok l root \<and> sl_permission l \<noteq> LINK_VIEWER \<and> w' = w
        \<and> find_item w i = Some it \<and> inside w (di_id root) i \<and> di_storage_key it = Some (df_stream_key file)))
    \<and> (\<forall>zipped w'. public_archive c tok chosen w = (Inr zipped, w') \<longrightarrow>
      (\<exists>l root. link_grants c w tok l root \<and> sl_permission l \<noteq> LINK_VIEWER \<and> w' = w
        \<and> (\<forall>m \<in> set (ar_files zipped). \<exists>it \<in> set (items w). inside w (di_id root) (di_id it) \<and> di_storage_key it = Some (snd m))))"
  using list_inside [OF assms] preview_inside download_inside archive_inside [OF assms] by meson

theorem guests_see_only_the_inside_witness:
  "\<exists>file l root. public_download plain_crypto guest_token 12 guest_world = (Inr file, guest_world)
    \<and> link_grants plain_crypto guest_world guest_token l root \<and> inside guest_world (di_id root) 12 \<and> df_filename file = ''draft.txt''"
proof -
  have "fst (public_download plain_crypto guest_token 12 guest_world) = Inr \<lparr>df_filename = ''draft.txt'',
      df_mime_type = ''text/plain'', df_size_bytes = 5, df_stream_key = ''k12''\<rparr>" by code_simp
  then obtain w' where run: "public_download plain_crypto guest_token 12 guest_world = (Inr \<lparr>df_filename = ''draft.txt'',
      df_mime_type = ''text/plain'', df_size_bytes = 5, df_stream_key = ''k12''\<rparr>, w')" by (metis prod.collapse)
  from guests_see_only_the_inside [OF guest_forest, THEN conjunct2, THEN conjunct2, THEN conjunct1, rule_format, OF run]
  obtain l root where "link_grants plain_crypto guest_world guest_token l root" "w' = guest_world" "inside guest_world (di_id root) 12" by blast
  with run show ?thesis by auto
qed

section \<open>Revoking\<close>

text \<open>C22: once a link was deleted or switched off, every request with a credential for it is refused and changes nothing,
  however long the credential itself would be valid; the other links stay as they are.\<close>

theorem revoked_link_refuses_everything:
  assumes "jwt_ok c" "create_share_access_token c cfg k i q st w0 = (Inr tok, w0')"
    and "delete_link_record u k w = (Inr x, w1) \<or> deactivate_link u k w = (Inr x, w1)"
    and "find_link w2 k = find_link w1 k"
  shows "fst (guest_route c tok req w2) = Inl invalid_link \<and> items (snd (guest_route c tok req w2)) = items w2
    \<and> public_get_root c office tok w2 = (Inl invalid_link, w2)
    \<and> public_list_children c office tok j page n w2 = (Inl invalid_link, w2)
    \<and> public_preview c office convert tok j w2 = (Inl invalid_link, w2)
    \<and> public_download c tok j w2 = (Inl invalid_link, w2)
    \<and> public_archive c tok chosen w2 = (Inl invalid_link, w2)
    \<and> refresh_session c cfg' office tok w2 = (Inl invalid_link, w2)
    \<and> (\<forall>m. m \<noteq> k \<longrightarrow> find_link w1 m = find_link w m)"
proof -
  have "case find_link w2 k of None \<Rightarrow> True | Some r \<Rightarrow> \<not> sl_is_active r"
    using revoked(1) [OF assms(3)] assms(4) by simp
  then have a: "authorize c tok w2 = (Inl invalid_link, w2)"
    using token_link [OF assms(1,2), of "clock w2"] by (auto simp: run_authorize split: sum.split option.splits)
  have "fst (guest_route c tok req w2) = Inl invalid_link \<and> items (snd (guest_route c tok req w2)) = items w2"
    by (cases req) (simp_all add: void_def guest_write_def guest_trash_route_def transact_def run_then run_bind a
      public_create_folder_def public_upload_def public_rename_def public_move_def public_trash_def)
  then show ?thesis using revoked(2) [OF assms(3)]
    by (simp add: public_get_root_def public_list_children_def public_preview_def public_download_def public_archive_def
      refresh_session_def run_bind a)
qed

theorem revoked_link_refuses_everything_witness:
  "\<exists>w1. deactivate_link 1 50 guest_world = (Inr (), w1) \<and> public_download plain_crypto guest_token 12 w1 = (Inl invalid_link, w1)"
proof -
  obtain w0 where tok: "create_share_access_token plain_crypto default_settings 50 11 ''editor'' None guest_world = (Inr guest_token, w0)"
    using guest_token_created by blast
  have "fst (deactivate_link 1 50 guest_world) = Inr ()" by code_simp
  then obtain w1 where d: "deactivate_link 1 50 guest_world = (Inr (), w1)" by (metis prod.collapse)
  from revoked_link_refuses_everything [OF jwt_ok_plain tok disjI2 [OF d] refl] d show ?thesis by blast
qed

section \<open>Guessing\<close>

text \<open>Within any minute at most twice the limit of password guesses on a link is ever answered: even if every guess
  were right, no more sessions open. (Twice, because a window of attempts may end within the minute.)\<close>

theorem guess_rate_bounded:
  assumes "find_link_by_hash w (hash_token c token) = Some l" "sl_password_hash l = Some h"
    and "0 \<le> sl_attempt_count l" "0 \<le> share_link_attempt_limit cfg"
    and "\<forall>(t, p) \<in> set guesses. T \<le> t \<and> t < T + minutes 1"
  shows "opened c cfg token guesses w \<le> 2 * share_link_attempt_limit cfg"
proof -
  have "guesses_left T (share_link_attempt_limit cfg) l \<le> 2 * share_link_attempt_limit cfg"
    using assms(3,4) by (auto simp: guesses_left_def split: option.split)
  with opened_bound [OF assms(5,1,2)] show ?thesis by (rule order_trans)
qed

theorem guess_rate_bounded_witness:
  "opened plain_crypto default_settings ''tok'' (replicate 12 (7, ''pw'')) guest_world \<le> 10
    \<and> opened plain_crypto default_settings ''tok'' (replicate 12 (7, ''pw'')) guest_world = 5"
proof -
  have l: "find_link_by_hash guest_world (hash_token plain_crypto ''tok'') = Some (sample_link 50 11 LINK_EDITOR (Some ''0$pw''))" by code_simp
  have "opened plain_crypto default_settings ''tok'' (replicate 12 (7, ''pw'')) guest_world \<le> 2 * share_link_attempt_limit default_settings"
    by (rule guess_rate_bounded [OF l, where T = 0 and h = "''0$pw''"])
      (auto simp: sample_link_def default_settings_def minutes_def usec_per_second_def)
  moreover have "opened plain_crypto default_settings ''tok'' (replicate 12 (7, ''pw'')) guest_world = 5" by code_simp
  ultimately show ?thesis by (simp add: default_settings_def)
qed

section \<open>The end of a session\<close>

text \<open>A session cannot be prolonged for ever: a credential that comes from an opened session by any number of refreshes stays
  tied to its link, is accepted only until the life span of the session and one more credential have passed, and can be
  refreshed only within the life span.\<close>

theorem sessions_end:
  assumes "jwt_ok c" "0 \<le> share_access_token_max_lifetime_minutes cfg" "credential c cfg tok k t0"
    and "authorize c tok w = (Inr a, w')"
  shows "sc_link_id (au_claims a) = k
    \<and> clock w < t0 + minutes (share_access_token_max_lifetime_minutes cfg) + minutes (share_access_token_expire_minutes cfg)
    \<and> (isl (fst (refresh_session c cfg office tok w)) \<or> clock w < t0 + minutes (share_access_token_max_lifetime_minutes cfg))"
proof -
  from credential_decodes [OF assms(1-3)] obtain e where e: "decodes_until c tok k t0 e"
    "e \<le> t0 + minutes (share_access_token_max_lifetime_minutes cfg) + minutes (share_access_token_expire_minutes cfg)" by blast
  note auth = authorize_decodes [OF e(1) assms(4)]
  have "clock w < t0 + minutes (share_access_token_max_lifetime_minutes cfg)" if "\<not> isl (fst (refresh_session c cfg office tok w))"
  proof -
    from that obtain s w2 where "refresh_session c cfg office tok w = (Inr s, w2)" by (metis isl_def prod.collapse sum.collapse(2))
    then obtain b where "authorize c tok w = (Inr b, w)"
      "clock w < sc_chain_started_at (au_claims b) + minutes (share_access_token_max_lifetime_minutes cfg)"
      by (rule refresh_session_token)
    with assms(4) auth show ?thesis by simp
  qed
  with auth e(2) show ?thesis by auto
qed

definition short_settings :: settings where
  "short_settings = default_settings\<lparr>share_access_token_max_lifetime_minutes := 20\<rparr>"

text \<open>The same chain shows that the life span is no bound on the access: with one of 20 minutes, a credential that was
  refreshed after 14 minutes is still accepted after 28.\<close>

definition first_credential :: payload where
  "first_credential = (case fst (open_session plain_crypto short_settings False ''tok'' (Some ''pw'') guest_world) of
     Inr s \<Rightarrow> ps_access_token s | Inl _ \<Rightarrow> [])"

definition second_credential :: payload where
  "second_credential = (case fst (refresh_session plain_crypto short_settings False first_credential (guest_world\<lparr>clock := minutes 14\<rparr>)) of
     Inr s \<Rightarrow> ps_access_token s | Inl _ \<Rightarrow> [])"

lemma sample_credentials: "credential plain_crypto short_settings second_credential 50 0"
proof -
  have "\<not> isl (fst (open_session plain_crypto short_settings False ''tok'' (Some ''pw'') guest_world))" by code_simp
  then obtain s w1 where s: "open_session plain_crypto short_settings False ''tok'' (Some ''pw'') guest_world = (Inr s, w1)"
    by (metis isl_def prod.collapse sum.collapse(2))
  have l: "find_link_by_hash guest_world (hash_token plain_crypto ''tok'') = Some (sample_link 50 11 LINK_EDITOR (Some ''0$pw''))" by code_simp
  have c: "clock guest_world = 0" by code_simp
  from credential.opened_by [OF s l] have first: "credential plain_crypto short_settings first_credential 50 0"
    by (simp add: first_credential_def s sample_link_def c)
  have "\<not> isl (fst (refresh_session plain_crypto short_settings False first_credential (guest_world\<lparr>clock := minutes 14\<rparr>)))" by code_simp
  then obtain s2 w2 where s2: "refresh_session plain_crypto short_settings False first_credential (guest_world\<lparr>clock := minutes 14\<rparr>) = (Inr s2, w2)"
    by (metis isl_def prod.collapse sum.collapse(2))
  from credential.refreshed [OF first s2] show ?thesis by (simp add: second_credential_def s2)
qed

lemma access_outlives_the_life_span:
  "credential plain_crypto short_settings second_credential 50 0
    \<and> 0 + minutes (share_access_token_max_lifetime_minutes short_settings) < minutes 28
    \<and> \<not> isl (fst (authorize plain_crypto second_credential (guest_world\<lparr>clock := minutes 28\<rparr>)))"
  by (intro conjI sample_credentials) code_simp+

theorem sessions_end_witness:
  "\<exists>a w'. authorize plain_crypto second_credential (guest_world\<lparr>clock := minutes 28\<rparr>) = (Inr a, w') \<and> sc_link_id (au_claims a) = 50
    \<and> isl (fst (refresh_session plain_crypto short_settings False second_credential (guest_world\<lparr>clock := minutes 28\<rparr>)))"
proof -
  have "\<not> isl (fst (authorize plain_crypto second_credential (guest_world\<lparr>clock := minutes 28\<rparr>)))" by code_simp
  then obtain a w' where a: "authorize plain_crypto second_credential (guest_world\<lparr>clock := minutes 28\<rparr>) = (Inr a, w')"
    by (metis isl_def prod.collapse sum.collapse(2))
  from sessions_end [OF jwt_ok_plain _ sample_credentials a] have "sc_link_id (au_claims a) = 50
    \<and> isl (fst (refresh_session plain_crypto short_settings False second_credential (guest_world\<lparr>clock := minutes 28\<rparr>)))"
    by (simp add: short_settings_def default_settings_def minutes_def usec_per_second_def)
  with a show ?thesis by blast
qed

section \<open>Archives\<close>



end
