(* ===== verification/Auth.thy ===== *)
theory Auth
  imports Users
begin

text \<open>
  \<open>app/auth\<close>: accounts, sessions of signed-in users and the rotation of refresh tokens. A refresh token is stored
  by its digest and works once: refreshing revokes its row and issues the next one. The e-mail provider is a
  parameter; what it is given is the address, the greeting's name and the new password around which the text of
  the mail is fixed.
\<close>

section \<open>Random passwords\<close>

definition py_islower_char :: "char \<Rightarrow> bool" where
  "py_islower_char c = (let n = code_point c in
     (97 \<le> n \<and> n \<le> 122) \<or> n = 170 \<or> n = 181 \<or> n = 186 \<or> (223 \<le> n \<and> n \<le> 246) \<or> (248 \<le> n \<and> n \<le> 255))"

definition py_isupper_char :: "char \<Rightarrow> bool" where
  "py_isupper_char c = (let n = code_point c in (65 \<le> n \<and> n \<le> 90) \<or> (192 \<le> n \<and> n \<le> 222 \<and> n \<noteq> 215))"

definition ascii_digit :: "char \<Rightarrow> bool" where
  "ascii_digit c = (48 \<le> code_point c \<and> code_point c \<le> 57)"

definition good_password :: "string \<Rightarrow> bool" where
  "good_password s = (list_ex py_islower_char s \<and> list_ex py_isupper_char s \<and> list_ex ascii_digit s)"

text \<open>The loop draws candidates until one is good: \<open>draws k\<close> is the candidate of round \<open>k\<close>. The number bounds the
  rounds, reaching it is \<open>Diverges\<close>.\<close>

fun draw_password :: "nat \<Rightarrow> (nat \<Rightarrow> string) \<Rightarrow> nat \<Rightarrow> error + string" where
  "draw_password 0 draws k = Inl Diverges"
| "draw_password (Suc n) draws k = (if good_password (draws k) then Inr (draws k) else draw_password n draws (Suc k))"

definition generate_random_password :: "nat \<Rightarrow> (nat \<Rightarrow> nat \<Rightarrow> string) \<Rightarrow> nat \<Rightarrow> error + string" where
  "generate_random_password rounds draws len = (if len < 3 then Inl ValueError else draw_password rounds (draws len) 0)"

section \<open>Repositories\<close>

definition auth_create_user :: "string \<Rightarrow> string \<Rightarrow> string \<Rightarrow> int \<Rightarrow> user M" where
  "auth_create_user email username password_hash quota_bytes =
     bindM now (\<lambda>t. bindM uuid4 (\<lambda>new_id.
       let u = \<lparr>u_id = new_id, u_email = email, u_username = username, u_password_hash = password_hash,
                u_avatar_url = None, u_quota_bytes = quota_bytes, u_used_bytes = 0, u_is_active = True,
                u_is_admin = False, u_must_change_password = False, u_created_at = t, u_updated_at = t\<rparr> in
       thenM (modifyM (users_update (\<lambda>rows. rows @ [u]))) (thenM flush_users (returnM u))))"

definition auth_reset_password :: "uuid \<Rightarrow> string \<Rightarrow> unit M" where
  "auth_reset_password i pw_hash =
     bindM now (\<lambda>t. thenM (modifyM (set_user i (\<lambda>r. r\<lparr>u_password_hash := pw_hash,
         u_must_change_password := True, u_updated_at := t\<rparr>))) flush_users)"

text \<open>\<open>token_hash\<close> is unique in the table of refresh tokens.\<close>

definition tokens_ok :: "world \<Rightarrow> bool" where
  "tokens_ok w = distinct (map rt_token_hash (tokens w))"

definition flush_tokens :: "unit M" where
  "flush_tokens = (\<lambda>w. if tokens_ok w then (Inr (), w) else (Inl IntegrityError, w))"

definition tokens_create :: "uuid \<Rightarrow> string \<Rightarrow> time \<Rightarrow> refresh_token M" where
  "tokens_create user_id token_hash expires_at =
     bindM now (\<lambda>t. bindM uuid4 (\<lambda>new_id.
       let r = \<lparr>rt_id = new_id, rt_user_id = user_id, rt_token_hash = token_hash, rt_expires_at = expires_at,
                rt_revoked_at = None, rt_created_at = t\<rparr> in
       thenM (modifyM (tokens_update (\<lambda>rows. rows @ [r]))) (thenM flush_tokens (returnM r))))"

definition find_token :: "world \<Rightarrow> string \<Rightarrow> refresh_token option" where
  "find_token w h = row_get rt_token_hash h (tokens w)"

definition tokens_get_by_hash :: "string \<Rightarrow> refresh_token option M" where
  "tokens_get_by_hash h = getsM (\<lambda>w. find_token w h)"

definition tokens_revoke :: "uuid \<Rightarrow> unit M" where
  "tokens_revoke i = bindM now (\<lambda>t.
     thenM (modifyM (tokens_update (row_update rt_id i (\<lambda>r. r\<lparr>rt_revoked_at := Some t\<rparr>)))) (returnM ()))"

section \<open>Service\<close>

definition issue_refresh_token :: "'tok crypto \<Rightarrow> settings \<Rightarrow> uuid \<Rightarrow> ('tok \<times> string \<times> time) M" where
  "issue_refresh_token c cfg user_id =
     bindM (create_refresh_token c cfg user_id) (\<lambda>tok.
     bindM now (\<lambda>t. returnM (tok, token_digest c tok, t + days (refresh_token_expire_days cfg))))"

definition register :: "'tok crypto \<Rightarrow> settings \<Rightarrow> string \<Rightarrow> string \<Rightarrow> string \<Rightarrow> user M" where
  "register c cfg email username password =
     bindM (users_by_email email) (\<lambda>existing.
     thenM (guardM (existing = None) (AppError EMAIL_ALREADY_EXISTS 409))
     (bindM (hash_password c password) (\<lambda>pw_hash.
        auth_create_user email username pw_hash (default_user_quota_bytes cfg))))"

text \<open>The tokens for a user: an access token, and a refresh token with its row.\<close>

definition issue_tokens :: "'tok crypto \<Rightarrow> settings \<Rightarrow> user \<Rightarrow> (user \<times> 'tok \<times> 'tok) M" where
  "issue_tokens c cfg user =
     bindM (create_access_token c cfg (u_id user)) (\<lambda>access_token.
     bindM (issue_refresh_token c cfg (u_id user)) (\<lambda>(tok, rt_hash, expires_at).
     thenM (tokens_create (u_id user) rt_hash expires_at) (returnM (user, access_token, tok))))"

definition login :: "'tok crypto \<Rightarrow> settings \<Rightarrow> string \<Rightarrow> string \<Rightarrow> (user \<times> 'tok \<times> 'tok) M" where
  "login c cfg email password =
     bindM (users_by_email email) (\<lambda>u. case u of
         None \<Rightarrow> raiseM (AppError INVALID_CREDENTIALS 401)
       | Some user \<Rightarrow>
           thenM (guardM (verify_password c password (u_password_hash user)) (AppError INVALID_CREDENTIALS 401))
           (thenM (guardM (u_is_active user) (AppError USER_INACTIVE 403)) (issue_tokens c cfg user)))"

text \<open>Only an \<open>AppError\<close> of the decoder is turned into the answer; another exception passes.\<close>

definition decoded_user :: "'tok crypto \<Rightarrow> time \<Rightarrow> 'tok \<Rightarrow> error + uuid" where
  "decoded_user c t tok = (case decode_refresh_token c t tok of
       Inr u \<Rightarrow> Inr u
     | Inl (AppError _ _) \<Rightarrow> Inl (AppError UNAUTHORIZED 401)
     | Inl e \<Rightarrow> Inl e)"

definition refresh :: "'tok crypto \<Rightarrow> settings \<Rightarrow> 'tok \<Rightarrow> (user \<times> 'tok \<times> 'tok) M" where
  "refresh c cfg tok =
     bindM now (\<lambda>t.
     bindM (liftM (\<lambda>_. decoded_user c t tok)) (\<lambda>user_id.
     bindM (tokens_get_by_hash (token_digest c tok)) (\<lambda>r. case r of
         None \<Rightarrow> raiseM (AppError REFRESH_TOKEN_REVOKED 401)
       | Some rt \<Rightarrow>
           thenM (guardM (rt_revoked_at rt = None) (AppError REFRESH_TOKEN_REVOKED 401))
           (thenM (guardM (\<not> rt_expires_at rt \<le> t) (AppError UNAUTHORIZED 401))
           (thenM (tokens_revoke (rt_id rt))
           (bindM (users_get_by_id user_id) (\<lambda>u. case u of
               None \<Rightarrow> raiseM UnauthorizedError
             | Some user \<Rightarrow> thenM (guardM (u_is_active user) UnauthorizedError) (issue_tokens c cfg user))))))))"

record reset_mail =
  rm_to :: string
  rm_username :: string
  rm_password :: string

text \<open>The provider's \<open>send\<close>: at any time it delivers the mail or raises.\<close>

type_synonym mailer = "time \<Rightarrow> reset_mail \<Rightarrow> error + unit"

definition RESET_PASSWORD_LENGTH :: nat where "RESET_PASSWORD_LENGTH = 10"

definition forgot_password ::
  "'tok crypto \<Rightarrow> nat \<Rightarrow> (nat \<Rightarrow> nat \<Rightarrow> string) \<Rightarrow> mailer \<Rightarrow> string \<Rightarrow> unit M" where
  "forgot_password c rounds draws send email =
     bindM (users_by_email (py_lower (py_strip email))) (\<lambda>u. case u of
         None \<Rightarrow> returnM ()
       | Some user \<Rightarrow>
           if \<not> u_is_active user then returnM ()
           else bindM (liftM (\<lambda>_. generate_random_password rounds draws RESET_PASSWORD_LENGTH)) (\<lambda>new_password.
             bindM (hash_password c new_password) (\<lambda>h.
             thenM (auth_reset_password (u_id user) h)
               (liftM (\<lambda>w. send (clock w) \<lparr>rm_to = u_email user, rm_username = u_username user, rm_password = new_password\<rparr>)))))"

definition logout :: "'tok crypto \<Rightarrow> 'tok \<Rightarrow> unit M" where
  "logout c tok =
     bindM (tokens_get_by_hash (token_digest c tok)) (\<lambda>r. case r of
         None \<Rightarrow> returnM ()
       | Some rt \<Rightarrow> if rt_revoked_at rt = None then tokens_revoke (rt_id rt) else returnM ())"

definition get_current_user :: "uuid \<Rightarrow> user M" where
  "get_current_user user_id = bindM (users_get_by_id user_id)
     (\<lambda>u. case u of None \<Rightarrow> raiseM UnauthorizedError | Some user \<Rightarrow> returnM user)"

section \<open>Routes\<close>

text \<open>
  The bodies limit the lengths of their fields, then their validators strip and lower the e-mail address; each route
  commits when the service returned.
\<close>

definition normalize_email :: "string \<Rightarrow> string" where
  "normalize_email v = py_lower (py_strip v)"

definition valid_body :: "bool \<Rightarrow> unit M" where
  "valid_body ok = guardM ok (AppError VALIDATION_ERROR 422)"

definition register_body_ok :: "string \<Rightarrow> string \<Rightarrow> string \<Rightarrow> bool" where
  "register_body_ok email username password =
     (length email \<le> 255 \<and> 1 \<le> length username \<and> length username \<le> 255 \<and> 8 \<le> length password)"

definition register_route :: "'tok crypto \<Rightarrow> settings \<Rightarrow> string \<Rightarrow> string \<Rightarrow> string \<Rightarrow> ('tok \<times> 'tok) M" where
  "register_route c cfg email username password = thenM (valid_body (register_body_ok email username password)) (transact
     (thenM (register c cfg (normalize_email email) username password)
     (bindM (login c cfg (normalize_email email) password) (\<lambda>(user, access_token, tok). returnM (access_token, tok)))))"

definition login_route :: "'tok crypto \<Rightarrow> settings \<Rightarrow> string \<Rightarrow> string \<Rightarrow> ('tok \<times> 'tok) M" where
  "login_route c cfg email password = thenM (valid_body (length email \<le> 255)) (transact
     (bindM (login c cfg (normalize_email email) password) (\<lambda>(user, access_token, tok). returnM (access_token, tok))))"

definition refresh_route :: "'tok crypto \<Rightarrow> settings \<Rightarrow> 'tok option \<Rightarrow> ('tok \<times> 'tok) M" where
  "refresh_route c cfg cookie = (case cookie of
       None \<Rightarrow> raiseM UnauthorizedError
     | Some tok \<Rightarrow> transact (bindM (refresh c cfg tok) (\<lambda>(user, access_token, new). returnM (access_token, new))))"

definition logout_route :: "'tok crypto \<Rightarrow> 'tok option \<Rightarrow> unit M" where
  "logout_route c cookie = (case cookie of None \<Rightarrow> returnM () | Some tok \<Rightarrow> transact (logout c tok))"

definition forgot_password_route ::
  "'tok crypto \<Rightarrow> nat \<Rightarrow> (nat \<Rightarrow> nat \<Rightarrow> string) \<Rightarrow> mailer \<Rightarrow> string \<Rightarrow> unit M" where
  "forgot_password_route c rounds draws send email = thenM (valid_body (length email \<le> 255))
     (transact (forgot_password c rounds draws send (normalize_email email)))"

text \<open>Any request to the routes above.\<close>

datatype 'tok auth_request = A_REGISTER string string string | A_LOGIN string string | A_REFRESH "'tok option"
  | A_LOGOUT "'tok option" | A_FORGOT string

fun auth_route ::
  "'tok crypto \<Rightarrow> settings \<Rightarrow> nat \<Rightarrow> (nat \<Rightarrow> nat \<Rightarrow> string) \<Rightarrow> mailer \<Rightarrow> 'tok auth_request \<Rightarrow> ('tok \<times> 'tok) option M" where
  "auth_route c cfg rounds draws send (A_REGISTER email username password) = bindM (register_route c cfg email username password) (\<lambda>p. returnM (Some p))"
| "auth_route c cfg rounds draws send (A_LOGIN email password) = bindM (login_route c cfg email password) (\<lambda>p. returnM (Some p))"
| "auth_route c cfg rounds draws send (A_REFRESH cookie) = bindM (refresh_route c cfg cookie) (\<lambda>p. returnM (Some p))"
| "auth_route c cfg rounds draws send (A_LOGOUT cookie) = thenM (logout_route c cookie) (returnM None)"
| "auth_route c cfg rounds draws send (A_FORGOT email) = thenM (forgot_password_route c rounds draws send email) (returnM None)"

text \<open>Requests by anyone, one after the other, each at a later time and with any outcome.\<close>

inductive auth_steps ::
  "'tok crypto \<Rightarrow> settings \<Rightarrow> nat \<Rightarrow> (nat \<Rightarrow> nat \<Rightarrow> string) \<Rightarrow> mailer \<Rightarrow> world \<Rightarrow> world \<Rightarrow> bool"
  for c cfg rounds draws send w where
  stay: "auth_steps c cfg rounds draws send w w"
| request: "auth_steps c cfg rounds draws send w w1 \<Longrightarrow> clock w1 \<le> t \<Longrightarrow>
    auth_route c cfg rounds draws send req (w1\<lparr>clock := t\<rparr>) = (r, w2) \<Longrightarrow> auth_steps c cfg rounds draws send w w2"

end
