(* ===== verification/AuthFacts.thy ===== *)
theory AuthFacts
  imports Auth
begin

text \<open>
  Spent refresh tokens stay spent, what signing in writes, and what resetting a password changes.
\<close>

section \<open>Spent tokens\<close>

definition spent :: "string \<Rightarrow> world \<Rightarrow> bool" where
  "spent h w \<longleftrightarrow> (\<exists>r. find_token w h = Some r \<and> rt_revoked_at r \<noteq> None)"

lemma spent_transact: "preserves (spent h) m \<Longrightarrow> preserves (spent h) (transact m)"
  by (rule preserves_transact [OF _ okay_of_preserves]) (simp_all add: spent_def find_token_def rollback_def)

lemma spent_of_keeps: "keeps tokens m \<Longrightarrow> preserves (spent h) m"
  by (simp add: preserves_def keeps_def spent_def find_token_def)

lemma find_revoked:
  "row_get rt_token_hash h (row_update rt_id i (\<lambda>r. r\<lparr>rt_revoked_at := Some t\<rparr>) rows)
    = map_option (\<lambda>r. if rt_id r = i then r\<lparr>rt_revoked_at := Some t\<rparr> else r) (row_get rt_token_hash h rows)"
  by (induction rows) (auto simp: row_update_def)

lemma run_tokens_revoke:
  "tokens_revoke i w = (Inr (), w\<lparr>tokens := row_update rt_id i (\<lambda>r. r\<lparr>rt_revoked_at := Some (clock w)\<rparr>) (tokens w)\<rparr>)"
  by (simp add: tokens_revoke_def run_bind run_then)

lemma spent_revoke: "preserves (spent h) (tokens_revoke i)"
  unfolding preserves_def spent_def find_token_def run_tokens_revoke
  by (auto simp: find_revoked) (metis option.distinct(1) refresh_token.select_convs(5) refresh_token.surjective refresh_token.update_convs(5))

lemma revoke_spends: "find_token w h = Some r \<Longrightarrow> tokens_revoke (rt_id r) w = (x, w') \<Longrightarrow> spent h w'"
  by (auto simp: run_tokens_revoke spent_def find_token_def find_revoked)

lemma spent_create: "preserves (spent h) (tokens_create u k e)"
proof -
  have "preserves (spent h) (modifyM (tokens_update (\<lambda>rows. rows @ [r])))" for r
    by (rule preserves_modify) (auto simp: spent_def find_token_def row_get_append)
  moreover have "preserves (spent h) flush_tokens" "preserves (spent h) uuid4"
    by (simp_all add: preserves_def flush_tokens_def spent_def find_token_def)
  ultimately show ?thesis unfolding tokens_create_def Let_def by (intro pres_rules)
qed

lemma keeps_auth_rows [keeps_rules]:
  assumes "\<And>g w. f (users_update g w) = f w" "\<And>w n. f (w\<lparr>uuid_next := n\<rparr>) = f w"
  shows "keeps f (auth_create_user e u p q)" "keeps f (auth_reset_password i p)"
  unfolding auth_create_user_def auth_reset_password_def Let_def
  by (intro keeps_rules keeps_modify keeps_uuid4; simp add: assms set_user_def)+

lemma spent_issue: "preserves (spent h) (issue_tokens c cfg user)"
  unfolding issue_tokens_def issue_refresh_token_def split_def
  by (intro pres_rules spent_create spent_of_keeps keeps_create_token; simp)

lemma spent_login: "preserves (spent h) (login c cfg email password)"
  unfolding login_def by (intro pres_rules spent_issue)

lemma spent_register: "preserves (spent h) (register c cfg email username password)"
  unfolding register_def by (intro pres_rules spent_of_keeps keeps_auth_rows keeps_create_token; simp)

lemma spent_refresh: "preserves (spent h) (refresh c cfg tok)"
  unfolding refresh_def tokens_get_by_hash_def by (intro pres_rules spent_issue spent_revoke)

lemma spent_logout: "preserves (spent h) (logout c tok)"
  unfolding logout_def tokens_get_by_hash_def by (intro pres_rules spent_revoke)

lemma spent_forgot: "preserves (spent h) (forgot_password c rounds draws send email)"
  unfolding forgot_password_def by (intro pres_rules spent_of_keeps keeps_auth_rows keeps_create_token; simp)

lemma spent_route: "preserves (spent h) (auth_route c cfg rounds draws send req)"
proof (cases req)
  case (A_REGISTER email username password)
  show ?thesis unfolding A_REGISTER auth_route.simps register_route_def valid_body_def split_def
    by (intro pres_rules spent_transact spent_register spent_login)
next
  case (A_LOGIN email password)
  show ?thesis unfolding A_LOGIN auth_route.simps login_route_def valid_body_def split_def
    by (intro pres_rules spent_transact spent_login)
next
  case (A_REFRESH cookie)
  show ?thesis unfolding A_REFRESH auth_route.simps refresh_route_def split_def
    by (intro pres_rules spent_transact spent_refresh)
next
  case (A_LOGOUT cookie)
  show ?thesis unfolding A_LOGOUT auth_route.simps logout_route_def
    by (intro pres_rules spent_transact spent_logout)
next
  case (A_FORGOT email)
  show ?thesis unfolding A_FORGOT auth_route.simps forgot_password_route_def valid_body_def
    by (intro pres_rules spent_transact spent_forgot)
qed

lemma spent_for_ever: "auth_steps c cfg rounds draws send w w' \<Longrightarrow> spent h w \<Longrightarrow> spent h w'"
proof (induction rule: auth_steps.induct)
  case (request w1 t req r w2)
  then have "spent h (w1\<lparr>clock := t\<rparr>)" by (simp add: spent_def find_token_def)
  with request.hyps(3) show ?case by (meson preservesD spent_route)
qed

text \<open>Refreshing with a spent token fails, and a token that refreshed or logged out is spent.\<close>

lemma refresh_spent:
  assumes "spent (token_digest c tok) w"
  shows "\<exists>e. refresh_route c cfg (Some tok) w = (Inl e, w)"
proof -
  have "\<exists>e. refresh c cfg tok w = (Inl e, w)"
    using assms by (auto simp: refresh_def run_bind run_then run_guard tokens_get_by_hash_def spent_def split: sum.split)
  then show ?thesis by (auto simp: refresh_route_def transact_def run_bind rollback_def)
qed

lemma refresh_InrE:
  assumes "refresh c cfg tok w = (Inr x, w')"
  obtains u r user where "decoded_user c (clock w) tok = Inr u" "find_token w (token_digest c tok) = Some r"
    "rt_revoked_at r = None" "clock w < rt_expires_at r" "find_user w u = Some user" "u_is_active user"
    "issue_tokens c cfg user (snd (tokens_revoke (rt_id r) w)) = (Inr x, w')"
proof -
  from assms obtain u where u: "decoded_user c (clock w) tok = Inr u"
    by (auto simp: refresh_def run_bind split: sum.splits)
  with assms obtain r where r: "find_token w (token_digest c tok) = Some r"
    by (auto simp: refresh_def run_bind tokens_get_by_hash_def split: option.splits)
  with assms u have ok: "rt_revoked_at r = None" "clock w < rt_expires_at r"
    by (auto simp: refresh_def run_bind run_then run_guard tokens_get_by_hash_def split: if_splits)
  with assms u r obtain user where user: "find_user w u = Some user" "u_is_active user"
    by (auto simp: refresh_def run_bind run_then run_guard tokens_get_by_hash_def run_tokens_revoke users_get_by_id_def
        find_user_def split: option.splits if_splits)
  with assms u r ok have "issue_tokens c cfg user (snd (tokens_revoke (rt_id r) w)) = (Inr x, w')"
    by (simp add: refresh_def run_bind run_then run_guard tokens_get_by_hash_def run_tokens_revoke users_get_by_id_def find_user_def)
  with u r ok user show thesis by (rule that)
qed

lemma refresh_spends:
  fixes c :: "'tok crypto"
  assumes "refresh_route c cfg (Some tok) w = (Inr s, w')"
  shows "spent (token_digest c tok) w'"
proof -
  from assms obtain x where "refresh c cfg tok w = (Inr x, w')"
    by (auto simp: refresh_route_def run_bind split: prod.splits sum.splits)
  then obtain r user where r: "find_token w (token_digest c tok) = Some r"
    and iss: "issue_tokens c cfg user (snd (tokens_revoke (rt_id r) w)) = (Inr x, w')" by (rule refresh_InrE)
  have "spent (token_digest c tok) (snd (tokens_revoke (rt_id r) w))" using revoke_spends [OF r] by (metis prod.collapse)
  with iss show ?thesis using spent_issue unfolding preserves_def by (metis snd_conv)
qed

lemma logout_spends:
  assumes "logout_route c (Some tok) w = (x, w')" "find_token w (token_digest c tok) \<noteq> None"
  shows "spent (token_digest c tok) w'"
proof -
  from assms(2) obtain r where r: "find_token w (token_digest c tok) = Some r" by auto
  show ?thesis
  proof (cases "rt_revoked_at r")
    case None
    with assms(1) r have "tokens_revoke (rt_id r) w = (Inr (), w')"
      by (simp add: logout_route_def transact_def logout_def run_bind tokens_get_by_hash_def run_tokens_revoke)
    with r show ?thesis by (rule revoke_spends)
  next
    case (Some t)
    with assms(1) r show ?thesis
      by (simp add: logout_route_def transact_def logout_def run_bind tokens_get_by_hash_def spent_def)
  qed
qed

section \<open>Signing in\<close>

lemma issue_tokens_result:
  assumes "issue_tokens c cfg user w = (Inr (u, atok, rtok), w')"
  shows "u = user \<and> (\<exists>w0 w1. create_access_token c cfg (u_id user) w = (Inr atok, w0)
      \<and> create_refresh_token c cfg (u_id user) w0 = (Inr rtok, w1)) \<and> clock w' = clock w
    \<and> (\<exists>r. tokens w' = tokens w @ [r] \<and> rt_user_id r = u_id user \<and> rt_token_hash r = token_digest c rtok
        \<and> rt_expires_at r = clock w + days (refresh_token_expire_days cfg) \<and> rt_revoked_at r = None)
    \<and> tokens_ok w' \<and> users w' = users w"
  using assms
  by (auto simp: issue_tokens_def issue_refresh_token_def create_access_token_def create_refresh_token_def run_bind run_create_token
      run_then tokens_create_def flush_tokens_def Let_def split: if_splits)

lemma token_on_record:
  "tokens_ok w \<Longrightarrow> r \<in> set (tokens w) \<Longrightarrow> find_token w (rt_token_hash r) = Some r"
  unfolding tokens_ok_def find_token_def by (rule row_get_mem)

lemma run_users_by_email:
  "users_by_email e w = (scalar_one_or_none (filter (\<lambda>u. u_email u = e) (users w)), w)"
  by (simp add: users_by_email_def)

lemma login_InrE:
  assumes "login c cfg email password w = (Inr x, w')"
  obtains u where "u \<in> set (users w)" "u_email u = email" "verify_password c password (u_password_hash u)" "u_is_active u"
    "issue_tokens c cfg u w = (Inr x, w')"
proof -
  from assms obtain u where u: "scalar_one_or_none (filter (\<lambda>u. u_email u = email) (users w)) = Inr (Some u)"
    by (auto simp: login_def run_bind run_users_by_email split: sum.splits option.splits)
  from scalar_Some [OF this] have "u \<in> set (filter (\<lambda>u. u_email u = email) (users w))" by simp
  moreover from assms u have "verify_password c password (u_password_hash u)" "u_is_active u"
    by (simp_all add: login_def run_bind run_then run_guard run_users_by_email split: if_splits)
  moreover from this assms u have "issue_tokens c cfg u w = (Inr x, w')"
    by (simp add: login_def run_bind run_then run_guard run_users_by_email)
  ultimately show thesis by (intro that) auto
qed

section \<open>Forgotten passwords\<close>

lemma draw_ends: "good_password (draws (j + k)) \<Longrightarrow> k < n \<Longrightarrow> \<exists>pw. draw_password n draws j = Inr pw \<and> good_password pw"
proof (induction n arbitrary: j k)
  case (Suc n)
  show ?case
  proof (cases "good_password (draws j)")
    case False
    with Suc.prems obtain m where "k = Suc m" "m < n" by (cases k) auto
    with Suc.IH [of "Suc j" m] Suc.prems False show ?thesis by simp
  qed auto
qed simp

lemma one_by_email: "distinct (map key rows) \<Longrightarrow> scalar_one_or_none (filter (\<lambda>u. key u = e) rows) = Inr (row_get key e rows)"
proof (induction rows)
  case (Cons u rows)
  show ?case
  proof (cases "key u = e")
    case True
    with Cons.prems have "filter (\<lambda>u. key u = e) rows = []" by (simp add: filter_empty_conv) (metis image_eqI)
    with True show ?thesis by simp
  qed (use Cons in simp)
qed simp

lemma update_by_email:
  assumes "distinct (map u_id us)" "distinct (map u_email us)" "u \<in> set us"
  shows "row_update u_id (u_id u) f us = map (\<lambda>v. if u_email v = u_email u then f v else v) us"
  unfolding row_update_def by (rule map_cong [OF refl]) (use assms in \<open>metis row_get_mem option.inject\<close>)

lemma run_reset_password:
  assumes "users_ok w"
  shows "auth_reset_password i h w = (Inr (), set_user i (\<lambda>r. r\<lparr>u_password_hash := h, u_must_change_password := True,
      u_updated_at := clock w\<rparr>) w)"
  using users_ok_update [OF assms, of "\<lambda>r. r\<lparr>u_password_hash := h, u_must_change_password := True, u_updated_at := clock w\<rparr>"]
  by (simp add: auth_reset_password_def flush_users_def run_simps)

lemma run_forgot_password:
  fixes c :: "'tok crypto" and w :: world
  assumes "users_ok w" "\<forall>t m. send t m = Inr ()" "generate_random_password rounds draws RESET_PASSWORD_LENGTH = Inr pw"
  defines "reset \<equiv> \<lambda>u. u\<lparr>u_password_hash := hash_pw c pw (uuid_next w), u_must_change_password := True, u_updated_at := clock w\<rparr>"
  shows "\<exists>w'. forgot_password c rounds draws send email w = (Inr (), w') \<and> tokens w' = tokens w
    \<and> users w' = map (\<lambda>u. if u_email u = normalize_email email \<and> u_is_active u then reset u else u) (users w)"
proof (cases "row_get u_email (normalize_email email) (users w)")
  case None
  then have "\<forall>u \<in> set (users w). u_email u \<noteq> normalize_email email" by (simp add: row_get_None)
  then have "map (\<lambda>u. if u_email u = normalize_email email \<and> u_is_active u then reset u else u) (users w) = users w"
    by (simp add: map_idI)
  with None assms(1) one_by_email [of u_email "users w"] show ?thesis
    by (simp add: forgot_password_def run_bind run_users_by_email users_ok_def normalize_email_def)
next
  case (Some u)
  have ok: "distinct (map u_id (users w))" "distinct (map u_email (users w))" using assms(1) by (simp_all add: users_ok_def)
  have u: "u \<in> set (users w)" "u_email u = normalize_email email" using row_get_Some [OF Some] by simp_all
  have only: "v = u" if "v \<in> set (users w)" "u_email v = normalize_email email" for v
    using row_get_mem [OF ok(2) that(1)] that(2) Some by simp
  show ?thesis
  proof (cases "u_is_active u")
    case False
    with only have "map (\<lambda>u. if u_email u = normalize_email email \<and> u_is_active u then reset u else u) (users w) = users w"
      by (intro map_idI) auto
    with False Some ok(2) one_by_email [of u_email "users w"] show ?thesis
      by (simp add: forgot_password_def run_bind run_users_by_email normalize_email_def)
  next
    case True
    let ?w = "w\<lparr>uuid_next := Suc (uuid_next w)\<rparr>"
    have "users_ok ?w" using assms(1) by (simp add: users_ok_def)
    with True Some ok(2) one_by_email [of u_email "users w"] assms(2,3)
    have "forgot_password c rounds draws send email w = (Inr (), set_user (u_id u) reset ?w)"
      by (simp add: forgot_password_def run_bind run_then run_users_by_email normalize_email_def hash_password_def
          run_reset_password reset_def)
    moreover have "map (\<lambda>v. if u_email v = u_email u then reset v else v) (users w)
        = map (\<lambda>v. if u_email v = normalize_email email \<and> u_is_active v then reset v else v) (users w)"
      by (rule map_cong [OF refl]) (use only u(2) True in auto)
    ultimately show ?thesis using update_by_email [OF ok u(1), of reset] by (simp add: set_user_def)
  qed
qed

end
