(* ===== verification/AuthProperties.thy ===== *)
theory AuthProperties
  imports AuthFacts Samples
begin

text \<open>
  What accounts promise: a refresh token works once, signing in hands out tokens of the right user, and asking for a
  new password answers everybody alike.
\<close>

section \<open>Refresh tokens\<close>

text \<open>C24: a refresh token that was used, or that its owner logged out with, is refused for ever, whatever requests come in
  between, and the refusal changes nothing.\<close>

theorem refresh_tokens_work_once:
  assumes "(\<exists>s. refresh_route c cfg (Some tok) w = (Inr s, w1))
      \<or> find_token w (token_digest c tok) \<noteq> None \<and> logout_route c (Some tok) w = (Inr (), w1)"
    and "auth_steps c cfg rounds draws send w1 w2"
  shows "\<exists>e. refresh_route c cfg (Some tok) w2 = (Inl e, w2)"
proof -
  have "spent (token_digest c tok) w1"
    using assms(1)
  proof
    assume "\<exists>s. refresh_route c cfg (Some tok) w = (Inr s, w1)"
    then show ?thesis by (elim exE) (rule refresh_spends)
  next
    assume "find_token w (token_digest c tok) \<noteq> None \<and> logout_route c (Some tok) w = (Inr (), w1)"
    then show ?thesis using logout_spends [of c tok w "Inr ()" w1] by simp
  qed
  then show ?thesis by (rule refresh_spent [OF spent_for_ever [OF assms(2)]])
qed

text \<open>User 1 of the sample drive signs in; the cookie it gets is then used.\<close>

definition signed_in :: "(payload \<times> payload) \<times> world" where
  "signed_in = (case login_route plain_crypto default_settings ''A@x'' ''pw'' sample_world of
     (Inr p, w) \<Rightarrow> (p, w) | (Inl e, w) \<Rightarrow> (([], []), w))"

definition cookie :: payload where "cookie = snd (fst signed_in)"

lemma signed_in_ok: "login_route plain_crypto default_settings ''A@x'' ''pw'' sample_world = (Inr (fst (fst signed_in), cookie), snd signed_in)"
proof -
  have "\<not> isl (fst (login_route plain_crypto default_settings ''A@x'' ''pw'' sample_world))" by code_simp
  then show ?thesis by (auto simp: signed_in_def cookie_def split: prod.split sum.split)
qed

theorem refresh_tokens_work_once_witness:
  "\<exists>w2. find_token (snd signed_in) (token_digest plain_crypto cookie) \<noteq> None
    \<and> auth_steps plain_crypto default_settings 1 (\<lambda>n k. ''aA0'') (\<lambda>t m. Inr ()) (snd (logout_route plain_crypto (Some cookie) (snd signed_in))) w2
    \<and> length (tokens w2) = 2 \<and> (\<exists>e. refresh_route plain_crypto default_settings (Some cookie) w2 = (Inl e, w2))"
proof -
  let ?w1 = "snd (logout_route plain_crypto (Some cookie) (snd signed_in))"
  let ?again = "auth_route plain_crypto default_settings 1 (\<lambda>n k. ''aA0'') (\<lambda>t m. Inr ()) (A_LOGIN ''a@x'' ''pw'') (?w1\<lparr>clock := minutes 1\<rparr>)"
  have out: "logout_route plain_crypto (Some cookie) (snd signed_in) = (Inr (), ?w1)"
    by (rule returned_unit) code_simp
  have row: "find_token (snd signed_in) (token_digest plain_crypto cookie) \<noteq> None" by code_simp
  have "clock ?w1 \<le> minutes 1" by code_simp
  then have steps: "auth_steps plain_crypto default_settings 1 (\<lambda>n k. ''aA0'') (\<lambda>t m. Inr ()) ?w1 (snd ?again)"
    by (rule auth_steps.request [OF auth_steps.stay]) (rule prod.collapse [symmetric])
  have "\<exists>e. refresh_route plain_crypto default_settings (Some cookie) (snd ?again) = (Inl e, snd ?again)"
    by (rule refresh_tokens_work_once [OF disjI2 [OF conjI [OF row out]] steps])
  moreover have "length (tokens (snd ?again)) = 2" by code_simp
  ultimately show ?thesis by (intro exI [of _ "snd ?again"] conjI row steps)
qed

section \<open>Signing in\<close>

text \<open>C25: signing in succeeds only for an active user of the address, with the right password; the access token then
  names this user until it expires and is no refresh token; the refresh token names the user too and is on record, unrevoked.\<close>

theorem login_issues_own_tokens:
  assumes "jwt_ok c" "login_route c cfg email password w = (Inr (atok, rtok), w')"
  shows "\<exists>u \<in> set (users w). u_email u = normalize_email email \<and> verify_password c password (u_password_hash u) \<and> u_is_active u
    \<and> (\<forall>t. decode_access_token c t atok = (if t < clock w + minutes (access_token_expire_minutes cfg) then Inr (u_id u) else Inl UnauthorizedError))
    \<and> (\<forall>t. decode_refresh_token c t atok = Inl UnauthorizedError)
    \<and> (\<forall>t. decode_refresh_token c t rtok = (if t < clock w + days (refresh_token_expire_days cfg) then Inr (u_id u) else Inl UnauthorizedError))
    \<and> (\<exists>r. find_token w' (token_digest c rtok) = Some r \<and> rt_user_id r = u_id u \<and> rt_revoked_at r = None)"
proof -
  from assms(2) obtain who where run: "login c cfg (normalize_email email) password w = (Inr (who, atok, rtok), w')"
    by (auto simp: login_route_def valid_body_def run_bind run_then run_guard split: prod.splits sum.splits if_splits)
  then obtain u where u: "u \<in> set (users w)" "u_email u = normalize_email email" "verify_password c password (u_password_hash u)"
      "u_is_active u" and iss: "issue_tokens c cfg u w = (Inr (who, atok, rtok), w')" by (rule login_InrE)
  from issue_tokens_result [OF iss] obtain w0 w2 r where acc: "create_access_token c cfg (u_id u) w = (Inr atok, w0)"
      and ref: "create_refresh_token c cfg (u_id u) w0 = (Inr rtok, w2)" and ok: "tokens_ok w'"
      and r: "tokens w' = tokens w @ [r]" "rt_user_id r = u_id u" "rt_token_hash r = token_digest c rtok" "rt_revoked_at r = None"
    by blast
  have "clock w0 = clock w" using acc by (auto simp: create_access_token_def run_create_token)
  with decode_created [OF assms(1) acc [unfolded create_access_token_def]] decode_created [OF assms(1) ref [unfolded create_refresh_token_def]]
  have "decode_access_token c t atok = (if t < clock w + minutes (access_token_expire_minutes cfg) then Inr (u_id u) else Inl UnauthorizedError)"
    "decode_refresh_token c t atok = Inl UnauthorizedError"
    "decode_refresh_token c t rtok = (if t < clock w + days (refresh_token_expire_days cfg) then Inr (u_id u) else Inl UnauthorizedError)" for t
    using token_types_distinct by (simp_all add: decode_access_token_def decode_refresh_token_def)
  moreover have "find_token w' (token_digest c rtok) = Some r" using token_on_record [OF ok, of r] r by simp
  ultimately show ?thesis using u r by blast
qed

theorem login_issues_own_tokens_witness:
  "decode_access_token plain_crypto (minutes 29) (fst (fst signed_in)) = Inr 1
    \<and> decode_refresh_token plain_crypto (minutes 29) cookie = Inr 1"
proof -
  from login_issues_own_tokens [OF jwt_ok_plain signed_in_ok] obtain u where u: "u \<in> set (users sample_world)"
      "u_email u = normalize_email ''A@x''"
    and a: "decode_access_token plain_crypto (minutes 29) (fst (fst signed_in)) = (if minutes 29 < clock sample_world
      + minutes (access_token_expire_minutes default_settings) then Inr (u_id u) else Inl UnauthorizedError)"
    and r: "decode_refresh_token plain_crypto (minutes 29) cookie = (if minutes 29 < clock sample_world
      + days (refresh_token_expire_days default_settings) then Inr (u_id u) else Inl UnauthorizedError)" by blast
  have "normalize_email ''A@x'' = ''a@x''" by code_simp
  with u have "u_id u = 1" by (auto simp: sample_world_def sample_user_def)
  moreover have "minutes 29 < clock sample_world + minutes (access_token_expire_minutes default_settings)"
    "minutes 29 < clock sample_world + days (refresh_token_expire_days default_settings)" by code_simp+
  ultimately show ?thesis using a r by simp
qed

section \<open>Forgotten passwords\<close>



end
