(* ===== verification/Workflow.thy ===== *)
theory Workflow
  imports World
begin

text \<open>
  Running the assistant's workflows: the skill registry (\<open>assistant/skills/registry.py\<close>), the lifecycle hooks
  (\<open>assistant/hooks.py\<close>), the classification of planned steps (\<open>assistant/permissions.py\<close>), the resolution of
  references to the selection and to earlier steps, and the executor (\<open>assistant/workflow.py\<close>). Skill handlers
  and hooks are values of the registries.
\<close>

section \<open>Skills\<close>

datatype skill_output = PAGED_ITEMS | ITEM_LIST | ITEM | NEW_FOLDER | MUTATED_ITEM | OPAQUE

record skill =
  sk_name :: string
  sk_parameters :: args
  sk_permission_tier :: string
  sk_handler :: "uuid \<Rightarrow> args \<Rightarrow> json M"
  sk_requires_selection :: bool
  sk_output :: skill_output

type_synonym registry = "skill list"

definition get_skill :: "registry \<Rightarrow> string \<Rightarrow> skill option" where
  "get_skill reg name = find (\<lambda>s. sk_name s = name) reg"

definition register_skill :: "skill \<Rightarrow> registry \<Rightarrow> error + registry" where
  "register_skill s reg = (if get_skill reg (sk_name s) \<noteq> None then Inl BadOperation else Inr (reg @ [s]))"

definition execute_skill :: "registry \<Rightarrow> uuid \<Rightarrow> string \<Rightarrow> args \<Rightarrow> json M" where
  "execute_skill reg user_id name arguments = (case get_skill reg name of
       None \<Rightarrow> raiseM BadOperation
     | Some s \<Rightarrow> sk_handler s user_id arguments)"

section \<open>Hooks\<close>

datatype hook_event = BEFORE_EXECUTION | BEFORE_STEP | AFTER_STEP | ON_ERROR

record hook_context =
  hc_user_id :: uuid
  hc_steps :: "workflow_step list"
  hc_step :: "workflow_step option"
  hc_result :: "step_result option"
  hc_error :: "step_error option"

type_synonym hooks = "(hook_event \<times> (hook_context \<Rightarrow> unit M)) list"

definition fire :: "hooks \<Rightarrow> hook_event \<Rightarrow> hook_context \<Rightarrow> unit M" where
  "fire hk event ctx = forM (filter (\<lambda>h. fst h = event) hk) (\<lambda>h. snd h ctx)"

section \<open>Classification\<close>

definition READ_TIER :: string where "READ_TIER = ''read''"

definition classify_step :: "registry \<Rightarrow> nat \<Rightarrow> planned_step \<Rightarrow> error + workflow_step" where
  "classify_step reg i p = (case get_skill reg (ps_skill p) of
       None \<Rightarrow> Inl BadOperation
     | Some s \<Rightarrow>
         if list_ex (\<lambda>d. d < 0 \<or> d \<ge> int i) (ps_depends_on p) then Inl BadOperation
         else Inr \<lparr>ws_index = int i, ws_skill = ps_skill p, ws_arguments = ps_arguments p,
                   ws_depends_on = ps_depends_on p, ws_permission_tier = sk_permission_tier s,
                   ws_requires_approval = (sk_permission_tier s \<noteq> READ_TIER)\<rparr>)"

fun classify_from :: "registry \<Rightarrow> nat \<Rightarrow> planned_step list \<Rightarrow> error + workflow_step list" where
  "classify_from reg i [] = Inr []"
| "classify_from reg i (p # ps) = (case classify_step reg i p of
     Inl e \<Rightarrow> Inl e
   | Inr s \<Rightarrow> (case classify_from reg (Suc i) ps of Inl e \<Rightarrow> Inl e | Inr ss \<Rightarrow> Inr (s # ss)))"

definition classify_steps :: "planned_step list \<Rightarrow> registry \<Rightarrow> error + workflow_step list" where
  "classify_steps planned reg = classify_from reg 0 planned"

definition is_auto_confirmable :: "workflow_step list \<Rightarrow> bool" where
  "is_auto_confirmable steps = list_all (\<lambda>s. \<not> ws_requires_approval s) steps"

definition needs_selection :: "registry \<Rightarrow> workflow_step \<Rightarrow> bool" where
  "needs_selection reg s = (case get_skill reg (ws_skill s) of Some k \<Rightarrow> sk_requires_selection k | None \<Rightarrow> False)"

definition requires_file_selection :: "workflow_step list \<Rightarrow> registry \<Rightarrow> bool" where
  "requires_file_selection steps reg = list_ex (needs_selection reg) steps"

definition has_selection_reference :: "workflow_step list \<Rightarrow> registry \<Rightarrow> bool" where
  "has_selection_reference steps reg =
     list_ex (\<lambda>s. needs_selection reg s \<or> list_ex (\<lambda>(k, v). is_selection_ref v) (ws_arguments s)) steps"

section \<open>The selection\<close>

text \<open>An item of the selection is a dict with \<open>id\<close>, \<open>name\<close> and \<open>item_type\<close>.\<close>

definition selection_value :: "json \<Rightarrow> args list \<Rightarrow> int option \<Rightarrow> wf_error + json" where
  "selection_value ref selected forced_index =
     (let index = (case forced_index of Some i \<Rightarrow> JInt i | None \<Rightarrow> field ref ''item'' (JInt 0)) in
      case index of
        JInt i \<Rightarrow>
          if 0 \<le> i \<and> i < int (length selected) then
            (let item = selected ! nat i; path = field ref ''path'' JNull in
             if truthy path then resolve_path (JObj item) (py_str path)
             else if get_key ''id'' item = JNull then Inl StepResolutionError else Inr (get_key ''id'' item))
          else Inl StepResolutionError
      | _ \<Rightarrow> Inl StepResolutionError)"

type_synonym renumbering = "int \<rightharpoonup> int list"

definition remap_deps :: "int list \<Rightarrow> renumbering \<Rightarrow> int list" where
  "remap_deps deps old_to_new = concat (map (\<lambda>d. case old_to_new d of Some ns \<Rightarrow> ns | None \<Rightarrow> [d]) deps)"

fun remap_step_ref :: "json \<Rightarrow> renumbering \<Rightarrow> wf_error + json" where
  "remap_step_ref (JObj d) old_to_new = (case step_ref (JObj d) of
     None \<Rightarrow> Inr (JObj d)
   | Some old \<Rightarrow> (case old_to_new old of
       None \<Rightarrow> Inr (JObj d)
     | Some [] \<Rightarrow> Inl IndexError
     | Some (n # ns) \<Rightarrow> Inr (JObj (dict_set ''from'' (JInt n) (filter (\<lambda>(k, v). k \<noteq> ''from_step'') d)))))"
| "remap_step_ref v old_to_new = Inr v"

fun map_args :: "(string \<Rightarrow> json \<Rightarrow> wf_error + json) \<Rightarrow> args \<Rightarrow> wf_error + args" where
  "map_args f [] = Inr []"
| "map_args f ((k, v) # d) = (case f k v of
     Inl e \<Rightarrow> Inl e
   | Inr u \<Rightarrow> (case map_args f d of Inl e \<Rightarrow> Inl e | Inr d' \<Rightarrow> Inr ((k, u) # d')))"

definition select_arg :: "args list \<Rightarrow> renumbering \<Rightarrow> string list \<Rightarrow> int option \<Rightarrow> string \<Rightarrow> json \<Rightarrow> wf_error + json" where
  "select_arg selected old_to_new each_keys i k v =
     (if is_selection_ref v then selection_value v selected (if k \<in> set each_keys then i else None)
      else remap_step_ref v old_to_new)"

definition bound_arguments :: "registry \<Rightarrow> workflow_step \<Rightarrow> args" where
  "bound_arguments reg s = (let current = get_key ''item_id'' (ws_arguments s);
     has_value = (case current of JStr t \<Rightarrow> py_strip t \<noteq> [] | _ \<Rightarrow> False) in
     if needs_selection reg s \<and> \<not> is_reference current \<and> \<not> has_value
     then dict_set ''item_id'' (JObj [(''from'', JStr ''selection''), (''each'', JBool True)]) (ws_arguments s)
     else ws_arguments s)"

definition each_keys :: "args \<Rightarrow> string list" where
  "each_keys args = map fst (filter (\<lambda>(k, v). is_selection_ref v \<and> truthy (field v ''each'' JNull)) args)"

fun fan_out :: "(nat \<Rightarrow> wf_error + args) \<Rightarrow> nat \<Rightarrow> nat \<Rightarrow> wf_error + args list" where
  "fan_out f 0 i = Inr []"
| "fan_out f (Suc n) i = (case f i of
     Inl e \<Rightarrow> Inl e
   | Inr a \<Rightarrow> (case fan_out f n (Suc i) of Inl e \<Rightarrow> Inl e | Inr as \<Rightarrow> Inr (a # as)))"

text \<open>The argument dicts that one step becomes: one for every selected item, or one.\<close>

definition selected_arguments :: "registry \<Rightarrow> args list \<Rightarrow> renumbering \<Rightarrow> workflow_step \<Rightarrow> wf_error + args list" where
  "selected_arguments reg selected old_to_new s =
     (let args = bound_arguments reg s; each = each_keys args in
      if each \<noteq> []
      then fan_out (\<lambda>i. map_args (select_arg selected old_to_new each (Some (int i))) args) (length selected) 0
      else fan_out (\<lambda>i. map_args (select_arg selected old_to_new [] None) args) 1 0)"

definition step_copies :: "workflow_step \<Rightarrow> int list \<Rightarrow> nat \<Rightarrow> args list \<Rightarrow> workflow_step list" where
  "step_copies s deps n rows = map (\<lambda>(i, a). s\<lparr>ws_index := int i, ws_arguments := a, ws_depends_on := deps\<rparr>) (enumerate n rows)"

fun apply_from ::
  "registry \<Rightarrow> args list \<Rightarrow> renumbering \<Rightarrow> workflow_step list \<Rightarrow> workflow_step list \<Rightarrow> wf_error + workflow_step list" where
  "apply_from reg selected old_to_new expanded [] = Inr expanded"
| "apply_from reg selected old_to_new expanded (s # ss) =
     (case selected_arguments reg selected old_to_new s of
        Inl e \<Rightarrow> Inl e
      | Inr rows \<Rightarrow>
          let new = step_copies s (remap_deps (ws_depends_on s) old_to_new) (length expanded) rows in
          apply_from reg selected (old_to_new(ws_index s \<mapsto> map ws_index new)) (expanded @ new) ss)"

definition apply_selection :: "workflow_step list \<Rightarrow> args list \<Rightarrow> registry \<Rightarrow> wf_error + workflow_step list" where
  "apply_selection steps selected reg = apply_from reg selected Map.empty [] steps"

definition expand_selection_steps :: "workflow_step list \<Rightarrow> uuid list \<Rightarrow> (uuid \<Rightarrow> string) \<Rightarrow> registry \<Rightarrow> wf_error + workflow_step list" where
  "expand_selection_steps steps ids str reg = apply_selection steps (map (\<lambda>i. [(''id'', JStr (str i))]) ids) reg"

section \<open>Outputs of earlier steps\<close>

definition DESTINATION_ARGS :: "string list" where "DESTINATION_ARGS = [''parent_id'']"

text \<open>\<open>str(t).upper() == "FOLDER"\<close> is compared in lower case.\<close>

definition destination_problem :: "string \<Rightarrow> json \<Rightarrow> bool" where
  "destination_problem arg_name item = (case item of
       JObj d \<Rightarrow> arg_name \<in> set DESTINATION_ARGS \<and> get_key ''item_type'' d \<noteq> JNull
         \<and> py_lower (py_str (get_key ''item_type'' d)) \<noteq> ''folder''
     | _ \<Rightarrow> False)"

text \<open>A value found by its path whose parent is no wrong destination; every failure is \<open>StepResolutionError\<close>.\<close>

definition resolve_checked :: "string \<Rightarrow> json \<Rightarrow> string \<Rightarrow> wf_error + json" where
  "resolve_checked key output path = (case resolve_path output path of
       Inl _ \<Rightarrow> Inl StepResolutionError
     | Inr v \<Rightarrow> (case reference_parent output path of
         Inl _ \<Rightarrow> Inl StepResolutionError
       | Inr parent \<Rightarrow> if destination_problem key parent then Inl StepResolutionError else Inr v))"

type_synonym results = "int \<Rightarrow> step_result option"

definition source_output :: "results \<Rightarrow> int \<Rightarrow> wf_error + json" where
  "source_output by_index i = (case by_index i of
       None \<Rightarrow> Inl StepResolutionError
     | Some r \<Rightarrow> if sr_ok r then Inr (case sr_output r of None \<Rightarrow> JNull | Some v \<Rightarrow> v) else Inl StepResolutionError)"

definition resolve_arg :: "results \<Rightarrow> string \<Rightarrow> json \<Rightarrow> wf_error + json" where
  "resolve_arg by_index key v = (case step_ref v of
       None \<Rightarrow> Inr v
     | Some i \<Rightarrow> (case source_output by_index i of
         Inl e \<Rightarrow> Inl e
       | Inr output \<Rightarrow> resolve_checked key output (ref_path v)))"

definition resolve_arguments :: "args \<Rightarrow> results \<Rightarrow> wf_error + args" where
  "resolve_arguments arguments by_index = map_args (resolve_arg by_index) arguments"

text \<open>The paths before and after the first \<open>*\<close> of a path.\<close>

definition wildcard_split :: "string \<Rightarrow> (string \<times> string) option" where
  "wildcard_split path = (let parts = path_parts path in
     if ''*'' \<in> set parts
     then Some (py_join ''.'' (takeWhile (\<lambda>p. p \<noteq> ''*'') parts), py_join ''.'' (tl (dropWhile (\<lambda>p. p \<noteq> ''*'') parts)))
     else None)"

definition wildcard_arg :: "json \<Rightarrow> (string \<times> string \<times> int) option" where
  "wildcard_arg v = (case step_ref v of
       None \<Rightarrow> None
     | Some i \<Rightarrow> map_option (\<lambda>(pre, post). (pre, post, i)) (wildcard_split (ref_path v)))"

definition has_fanout :: "args \<Rightarrow> bool" where
  "has_fanout arguments = list_ex (\<lambda>(k, v). wildcard_arg v \<noteq> None) arguments"

text \<open>The lists that the wildcards range over, each with the path below its elements; all have one length.\<close>

fun collections :: "results \<Rightarrow> nat option \<Rightarrow> args \<Rightarrow> wf_error + (string \<times> json list \<times> string) list \<times> nat option" where
  "collections by_index len [] = Inr ([], len)"
| "collections by_index len ((k, v) # d) = (case wildcard_arg v of
     None \<Rightarrow> collections by_index len d
   | Some (pre, post, i) \<Rightarrow> (case source_output by_index i of
       Inl e \<Rightarrow> Inl e
     | Inr output \<Rightarrow> (case resolve_path output pre of
         Inr (JList xs) \<Rightarrow>
           if len \<noteq> None \<and> len \<noteq> Some (length xs) then Inl StepResolutionError
           else (case collections by_index (Some (length xs)) d of
               Inl e \<Rightarrow> Inl e
             | Inr (cs, n) \<Rightarrow> Inr ((k, xs, post) # cs, n))
       | _ \<Rightarrow> Inl StepResolutionError)))"

fun fill_row :: "nat \<Rightarrow> (string \<times> json list \<times> string) list \<Rightarrow> args \<Rightarrow> wf_error + args" where
  "fill_row i [] row = Inr row"
| "fill_row i ((k, xs, post) # cs) row =
     (if post = [] then fill_row i cs (dict_set k (xs ! i) row)
      else (case resolve_checked k (xs ! i) post of
          Inl e \<Rightarrow> Inl e
        | Inr v \<Rightarrow> fill_row i cs (dict_set k v row)))"

definition resolve_fanout_arguments :: "args \<Rightarrow> results \<Rightarrow> wf_error + args list" where
  "resolve_fanout_arguments arguments by_index =
     (case resolve_arguments (filter (\<lambda>(k, v). wildcard_arg v = None) arguments) by_index of
        Inl e \<Rightarrow> Inl e
      | Inr base \<Rightarrow> (case collections by_index None arguments of
          Inl e \<Rightarrow> Inl e
        | Inr (cs, n) \<Rightarrow> fan_out (\<lambda>i. fill_row i cs base) (case n of None \<Rightarrow> 0 | Some l \<Rightarrow> l) 0))"

section \<open>The executor\<close>

text \<open>The steps that a step waits for, by \<open>depends_on\<close> or by a reference in its arguments.\<close>

definition step_refs :: "workflow_step \<Rightarrow> int list" where
  "step_refs s = List.map_filter (\<lambda>(k, v). step_ref v) (ws_arguments s)"

definition blocked_dependencies :: "workflow_step \<Rightarrow> int list \<Rightarrow> int list" where
  "blocked_dependencies s unavailable =
     sort (remdups (filter (\<lambda>d. d \<in> set unavailable) (ws_depends_on s @ step_refs s)))"

definition ok_results :: "step_result list \<Rightarrow> results" where
  "ok_results rs i = find (\<lambda>r. sr_ok r \<and> sr_index r = i) (rev rs)"

definition lift_error :: "'a M \<Rightarrow> (world, wf_error, 'a) call" where
  "lift_error m = (\<lambda>w. case m w of (Inl e, w') \<Rightarrow> (Inl (SkillError e), w') | (Inr x, w') \<Rightarrow> (Inr x, w'))"

definition run_step :: "registry \<Rightarrow> uuid \<Rightarrow> workflow_step \<Rightarrow> results \<Rightarrow> (world, wf_error, json) call" where
  "run_step reg user_id s by_index =
     (if has_fanout (ws_arguments s)
      then bindM (liftM (\<lambda>_. resolve_fanout_arguments (ws_arguments s) by_index)) (\<lambda>arg_sets.
        bindM (mapM (\<lambda>a. lift_error (execute_skill reg user_id (ws_skill s) a)) arg_sets) (\<lambda>outputs.
          returnM (JObj [(''items'', JList outputs), (''count'', JInt (int (length outputs)))])))
      else bindM (liftM (\<lambda>_. resolve_arguments (ws_arguments s) by_index)) (\<lambda>a.
        lift_error (execute_skill reg user_id (ws_skill s) a)))"

text \<open>\<open>try ... except Exception\<close>: what was raised becomes a value. A skill that never returns is not caught.\<close>

definition attempt :: "(world, wf_error, 'a) call \<Rightarrow> (wf_error + 'a) M" where
  "attempt m = (\<lambda>w. case m w of
       (Inl (SkillError Diverges), w') \<Rightarrow> (Inl Diverges, w')
     | (r, w') \<Rightarrow> (Inr r, w'))"

definition skipped_result :: "workflow_step \<Rightarrow> int list \<Rightarrow> step_result" where
  "skipped_result s blocked = \<lparr>sr_index = ws_index s, sr_skill = ws_skill s, sr_ok = False, sr_output = None,
     sr_error = Some (SkippedFor blocked), sr_skipped = True\<rparr>"

definition failed_result :: "workflow_step \<Rightarrow> wf_error \<Rightarrow> step_result" where
  "failed_result s e = \<lparr>sr_index = ws_index s, sr_skill = ws_skill s, sr_ok = False, sr_output = None,
     sr_error = Some (FailedWith e), sr_skipped = False\<rparr>"

definition ok_result :: "workflow_step \<Rightarrow> json \<Rightarrow> step_result" where
  "ok_result s output = \<lparr>sr_index = ws_index s, sr_skill = ws_skill s, sr_ok = True, sr_output = Some output,
     sr_error = None, sr_skipped = False\<rparr>"

definition run_context :: "uuid \<Rightarrow> workflow_step list \<Rightarrow> hook_context" where
  "run_context user_id steps = \<lparr>hc_user_id = user_id, hc_steps = steps, hc_step = None, hc_result = None, hc_error = None\<rparr>"

fun exec_steps ::
  "registry \<Rightarrow> hooks \<Rightarrow> hook_context \<Rightarrow> workflow_step list \<Rightarrow> step_result list \<Rightarrow> int list \<Rightarrow> step_result list M" where
  "exec_steps reg hk ctx [] rs unavailable = returnM rs"
| "exec_steps reg hk ctx (s # ss) rs unavailable =
     (let blocked = blocked_dependencies s unavailable in
      if blocked \<noteq> [] then exec_steps reg hk ctx ss (rs @ [skipped_result s blocked]) (ws_index s # unavailable)
      else thenM (fire hk BEFORE_STEP (ctx\<lparr>hc_step := Some s\<rparr>))
        (bindM (attempt (run_step reg (hc_user_id ctx) s (ok_results rs))) (\<lambda>r. case r of
            Inl e \<Rightarrow> thenM (fire hk ON_ERROR (ctx\<lparr>hc_step := Some s, hc_error := Some (FailedWith e)\<rparr>))
              (exec_steps reg hk ctx ss (rs @ [failed_result s e]) (ws_index s # unavailable))
          | Inr output \<Rightarrow> thenM (fire hk AFTER_STEP (ctx\<lparr>hc_step := Some s, hc_result := Some (ok_result s output)\<rparr>))
              (exec_steps reg hk ctx ss (rs @ [ok_result s output]) unavailable))))"

definition execute :: "registry \<Rightarrow> hooks \<Rightarrow> uuid \<Rightarrow> workflow_step list \<Rightarrow> step_result list M" where
  "execute reg hk user_id steps =
     thenM (fire hk BEFORE_EXECUTION (run_context user_id steps)) (exec_steps reg hk (run_context user_id steps) steps [] [])"

end
