(* ===== verification/Planner.thy ===== *)
theory Planner
  imports Workflow
begin

text \<open>
  The planner of the assistant (\<open>assistant/planner.py\<close>, \<open>assistant/context.py\<close>): it asks a language model for a plan,
  repairs what the model's decoding left in it, checks the plan against the skills and asks again with the problems it
  found. The language model, \<open>json.loads\<close>, the validation of pydantic and the wording of the prompts are
  parameters.
\<close>

section \<open>Messages\<close>

datatype llm_role = SYSTEM_ROLE | USER_ROLE | ASSISTANT_ROLE | TOOL_ROLE

record llm_message =
  lm_role :: llm_role
  lm_content :: string

fun trim_from :: "int \<Rightarrow> int \<Rightarrow> llm_message list \<Rightarrow> llm_message list \<Rightarrow> llm_message list" where
  "trim_from max_chars used selected [] = selected"
| "trim_from max_chars used selected (m # ms) =
     (if selected \<noteq> [] \<and> used + int (length (lm_content m)) > max_chars then selected
      else trim_from max_chars (used + int (length (lm_content m))) (m # selected) ms)"

definition max_chars :: "int \<Rightarrow> int" where "max_chars num_ctx = max 1024 (num_ctx * 4)"

definition trim_messages :: "int \<Rightarrow> llm_message list \<Rightarrow> llm_message list" where
  "trim_messages num_ctx messages =
     (let sys = filter (\<lambda>m. lm_role m = SYSTEM_ROLE) messages; rest = filter (\<lambda>m. lm_role m \<noteq> SYSTEM_ROLE) messages in
      sys @ trim_from (max_chars num_ctx) (sum_list (map (\<lambda>m. int (length (lm_content m))) sys)) [] (rev rest))"

section \<open>Cleaning what the model wrote\<close>

definition is_hex :: "char \<Rightarrow> bool" where
  "is_hex c = (let n = code_point c in (48 \<le> n \<and> n \<le> 57) \<or> (65 \<le> n \<and> n \<le> 70) \<or> (97 \<le> n \<and> n \<le> 102))"

text \<open>\<open><0x..>\<close> with two hexadecimal digits at the start of a string.\<close>

definition byte_token_here :: "string \<Rightarrow> bool" where
  "byte_token_here s = (starts_with ''<0x'' s \<and> 6 \<le> length s \<and> is_hex (s ! 3) \<and> is_hex (s ! 4) \<and> s ! 5 = CHR ''>'')"

fun tails :: "string \<Rightarrow> string list" where
  "tails [] = [[]]"
| "tails (c # s) = (c # s) # tails s"

fun has_byte_tokens :: "json \<Rightarrow> bool" where
  "has_byte_tokens (JStr s) = list_ex byte_token_here (tails s)"
| "has_byte_tokens v = False"

function strip_byte_tokens :: "string \<Rightarrow> string" where
  "strip_byte_tokens s = (case s of
       [] \<Rightarrow> []
     | c # t \<Rightarrow> if byte_token_here s then strip_byte_tokens (drop 6 s) else c # strip_byte_tokens t)"
  by pat_completeness auto
termination by (relation "measure length") (auto simp: byte_token_here_def)

declare strip_byte_tokens.simps [simp del]

text \<open>\<open>s.find(t)\<close>.\<close>

fun find_str :: "string \<Rightarrow> string \<Rightarrow> nat option" where
  "find_str t [] = (if t = [] then Some 0 else None)"
| "find_str t (c # s) = (if starts_with t (c # s) then Some 0 else map_option Suc (find_str t s))"

definition DECODING_ARTIFACTS :: "string list" where
  "DECODING_ARTIFACTS = [''<tool_call'', ''<|'', ''<end_of_turn>'', ''<start_of_turn>'']"

text \<open>The regular expression of the closing debris: a quote, spaces, a closing bracket.\<close>

definition closure_here :: "string \<Rightarrow> bool" where
  "closure_here s = (case s of
       [] \<Rightarrow> False
     | c # t \<Rightarrow> (c = CHR 0x27 \<or> c = CHR 0x22) \<and> (case dropWhile py_isspace t of [] \<Rightarrow> False | d # u \<Rightarrow> d = CHR ''}'' \<or> d = CHR '']''))"

fun find_closure :: "string \<Rightarrow> nat option" where
  "find_closure [] = None"
| "find_closure (c # s) = (if closure_here (c # s) then Some 0 else map_option Suc (find_closure s))"

definition ARTIFACT_TAIL :: "char list" where
  "ARTIFACT_TAIL = [CHR 0x27, CHR 0x22, CHR 0x60, CHR ''}'', CHR '']'', CHR ''{'', CHR ''['', CHR '' '', CHR 0x09, CHR 0x0D, CHR 0x0A]"

definition artifact_cuts :: "string \<Rightarrow> nat list" where
  "artifact_cuts s = List.map_filter (\<lambda>t. find_str t s) DECODING_ARTIFACTS @ (case find_closure s of None \<Rightarrow> [] | Some i \<Rightarrow> [i])"

definition strip_decoding_artifacts :: "string \<Rightarrow> string" where
  "strip_decoding_artifacts s = (case artifact_cuts s of
       [] \<Rightarrow> s
     | i # is \<Rightarrow> rev (dropWhile (\<lambda>c. c \<in> set ARTIFACT_TAIL) (rev (take (foldr min is i) s))))"

fun clean_artifacts :: "json \<Rightarrow> json" where
  "clean_artifacts (JStr s) = JStr (strip_decoding_artifacts s)"
| "clean_artifacts (JList xs) = JList (map clean_artifacts xs)"
| "clean_artifacts (JObj d) = JObj (map (\<lambda>(k, v). (k, clean_artifacts v)) d)"
| "clean_artifacts v = v"

text \<open>The text between the first opening and the last closing brace, without a code fence.\<close>

definition unfenced :: "string \<Rightarrow> string" where
  "unfenced text = (if starts_with [CHR 0x60, CHR 0x60, CHR 0x60] text
     then (let t = rev (dropWhile (\<lambda>c. c = CHR 0x60) (rev (dropWhile (\<lambda>c. c = CHR 0x60) text))) in
       py_strip (if py_lower (take 4 t) = ''json'' then drop 4 t else t))
     else text)"

definition extract_json :: "string \<Rightarrow> string" where
  "extract_json content = (let text = unfenced (py_strip content); end = py_rfind CHR ''}'' text in
     case find_str ''{'' text of
       None \<Rightarrow> text
     | Some start \<Rightarrow> if end > int start then take (nat (end + 1) - start) (drop start text) else text)"

section \<open>Plans\<close>

record plan_result =
  pr_reply :: string
  pr_steps :: "planned_step list"
  pr_needs_followup :: bool

definition parse_plan :: "(string \<Rightarrow> json option) \<Rightarrow> (json \<Rightarrow> plan_result option) \<Rightarrow> string \<Rightarrow> plan_result option" where
  "parse_plan loads validated content = (case loads (extract_json content) of
       None \<Rightarrow> None
     | Some data \<Rightarrow> map_option (\<lambda>r. if has_byte_tokens (JStr (pr_reply r))
         then r\<lparr>pr_reply := strip_byte_tokens (pr_reply r)\<rparr> else r) (validated (clean_artifacts data)))"

section \<open>Checking a plan\<close>

datatype problem =
    UnknownSkill int string
  | BadDependsOn int int
  | CorruptedText int string
  | ForwardReference int int
  | WrongPath int string int
  | NotADestination int string int
  | MissingArgument int string

definition path_head :: "string \<Rightarrow> string" where
  "path_head path = (case path_parts path of [] \<Rightarrow> [] | p # ps \<Rightarrow> p)"

definition wrong_path :: "skill_output \<Rightarrow> string \<Rightarrow> bool" where
  "wrong_path out head = (case out of
       OPAQUE \<Rightarrow> False
     | PAGED_ITEMS \<Rightarrow> head \<noteq> ''items''
     | ITEM_LIST \<Rightarrow> \<not> py_isdigit head \<and> head \<noteq> ''*''
     | _ \<Rightarrow> head = ''items'' \<or> head = ''*'' \<or> py_isdigit head)"

definition reference_problems :: "int \<Rightarrow> string \<Rightarrow> string \<Rightarrow> skill option \<Rightarrow> int \<Rightarrow> problem list" where
  "reference_problems index arg_name path source from_step = (case source of
       None \<Rightarrow> []
     | Some k \<Rightarrow>
         (if wrong_path (sk_output k) (path_head path) then [WrongPath index arg_name from_step] else [])
         @ (if arg_name \<in> set DESTINATION_ARGS \<and> sk_output k = MUTATED_ITEM then [NotADestination index arg_name from_step] else []))"

definition argument_problems :: "registry \<Rightarrow> planned_step list \<Rightarrow> int \<Rightarrow> string \<Rightarrow> json \<Rightarrow> problem list" where
  "argument_problems reg all_steps index k v =
     (if has_byte_tokens v then [CorruptedText index k]
      else case step_ref v of
          None \<Rightarrow> []
        | Some i \<Rightarrow>
            if i < 0 \<or> i \<ge> index then [ForwardReference index i]
            else reference_problems index k (ref_path v) (get_skill reg (ps_skill (all_steps ! nat i))) i)"

text \<open>A required argument is named by a string; the value of another entry counts as absent.\<close>

definition missing_argument :: "args \<Rightarrow> json \<Rightarrow> bool" where
  "missing_argument arguments name = (let v = (case name of JStr s \<Rightarrow> get_key s arguments | _ \<Rightarrow> JNull) in
     (case v of JNull \<Rightarrow> True | JStr s \<Rightarrow> py_strip s = [] | _ \<Rightarrow> False) \<and> \<not> is_reference v)"

definition required_problems :: "int \<Rightarrow> skill \<Rightarrow> args \<Rightarrow> problem list" where
  "required_problems index k arguments = (case get_or (JList []) ''required'' (sk_parameters k) of
       JList names \<Rightarrow> map (\<lambda>n. MissingArgument index (py_str n)) (filter (missing_argument arguments) names)
     | _ \<Rightarrow> [])"

definition step_problems :: "registry \<Rightarrow> planned_step list \<Rightarrow> int \<Rightarrow> planned_step \<Rightarrow> problem list" where
  "step_problems reg all_steps index s = (case get_skill reg (ps_skill s) of
       None \<Rightarrow> [UnknownSkill index (ps_skill s)]
     | Some k \<Rightarrow>
         map (BadDependsOn index) (filter (\<lambda>d. d < 0 \<or> d \<ge> index) (ps_depends_on s))
         @ concat (map (\<lambda>(a, v). argument_problems reg all_steps index a v) (ps_arguments s))
         @ required_problems index k (ps_arguments s))"

definition validate_plan :: "planned_step list \<Rightarrow> registry \<Rightarrow> planned_step list \<Rightarrow> problem list" where
  "validate_plan steps reg preceding =
     concat (map (\<lambda>(i, s). step_problems reg (preceding @ steps) (int i) s) (enumerate (length preceding) steps))"

section \<open>Asking for a plan\<close>

text \<open>The texts the planner sends: their wording is a parameter.\<close>

datatype prompt_text =
    PlannerPrompt bool
  | SelectionListing "string list"
  | NothingSelected
  | RepairMessage "problem list"

record planner =
  pl_text :: "prompt_text \<Rightarrow> string"
  pl_chat :: "llm_message list \<Rightarrow> world \<Rightarrow> error + string"
  pl_loads :: "string \<Rightarrow> json option"
  pl_validated :: "json \<Rightarrow> plan_result option"
  pl_num_ctx :: int
  pl_max_repair :: int
  pl_two_phase :: bool

definition DEFAULT_REPLY :: string where "DEFAULT_REPLY = ''I could not plan that request.''"

definition EXHAUSTED_REPLY :: string where
  "EXHAUSTED_REPLY = ''I couldn't turn that into a valid action with the tools I have. Could you rephrase or be more specific?''"

definition conversational :: "string \<Rightarrow> plan_result" where
  "conversational reply = \<lparr>pr_reply = reply, pr_steps = [], pr_needs_followup = False\<rparr>"

text \<open>\<open>n\<close> attempts are left.\<close>

fun plan_attempts :: "planner \<Rightarrow> registry \<Rightarrow> planned_step list \<Rightarrow> nat \<Rightarrow> llm_message list \<Rightarrow> string \<Rightarrow> plan_result M" where
  "plan_attempts pl reg preceding 0 messages last_reply =
     returnM (conversational (if last_reply \<noteq> DEFAULT_REPLY then last_reply else EXHAUSTED_REPLY))"
| "plan_attempts pl reg preceding (Suc n) messages last_reply =
     bindM (liftM (pl_chat pl (trim_messages (pl_num_ctx pl) messages))) (\<lambda>content.
       case parse_plan (pl_loads pl) (pl_validated pl) content of
         None \<Rightarrow> returnM (conversational (if py_strip content \<noteq> [] then py_strip content else last_reply))
       | Some result \<Rightarrow>
           let last_reply = (if pr_reply result \<noteq> [] then pr_reply result else last_reply);
               problems = validate_plan (pr_steps result) reg preceding in
           if problems = [] then returnM result
           else plan_attempts pl reg preceding n
             (if n = 0 then messages else messages @ [\<lparr>lm_role = ASSISTANT_ROLE, lm_content = content\<rparr>,
                \<lparr>lm_role = USER_ROLE, lm_content = pl_text pl (RepairMessage problems)\<rparr>]) last_reply)"

definition selection_message :: "planner \<Rightarrow> args list \<Rightarrow> llm_message" where
  "selection_message pl selected = \<lparr>lm_role = SYSTEM_ROLE, lm_content = pl_text pl
     (if selected = [] then NothingSelected
      else SelectionListing (map (\<lambda>item. py_str (get_or (JStr ''?'') ''name'' item)) selected))\<rparr>"

definition plan :: "planner \<Rightarrow> registry \<Rightarrow> string \<Rightarrow> args list \<Rightarrow> llm_message list \<Rightarrow> planned_step list \<Rightarrow> plan_result M" where
  "plan pl reg message selected history preceding =
     plan_attempts pl reg preceding (Suc (nat (max 0 (pl_max_repair pl))))
       ([\<lparr>lm_role = SYSTEM_ROLE, lm_content = pl_text pl (PlannerPrompt (pl_two_phase pl))\<rparr>, selection_message pl selected]
        @ history @ [\<lparr>lm_role = USER_ROLE, lm_content = message\<rparr>]) DEFAULT_REPLY"

section \<open>What a plan that passed the checks is\<close>

lemma keeps_plan: "keeps f (plan_attempts pl reg pre n ms reply)"
  by (induction n arbitrary: ms reply) (auto simp: Let_def intro!: keeps_rules split: option.split)

lemma plan_attempts_valid:
  "plan_attempts pl reg pre n ms reply w = (Inr r, w') \<Longrightarrow> w' = w \<and> (pr_steps r = [] \<or> validate_plan (pr_steps r) reg pre = [])"
proof (induction n arbitrary: ms reply)
  case (Suc n)
  then obtain content where c: "pl_chat pl (trim_messages (pl_num_ctx pl) ms) w = Inr content"
    by (auto simp: run_bind split: sum.splits)
  show ?case
  proof (cases "parse_plan (pl_loads pl) (pl_validated pl) content")
    case None
    with Suc.prems c show ?thesis by (auto simp: run_bind conversational_def)
  next
    case (Some p)
    show ?thesis
    proof (cases "validate_plan (pr_steps p) reg pre = []")
      case True
      with Suc.prems c Some show ?thesis by (auto simp: run_bind Let_def)
    next
      case False
      with Suc.prems c Some show ?thesis by (auto simp: run_bind Let_def dest!: Suc.IH)
    qed
  qed
qed (auto simp: conversational_def)

lemma validate_append:
  "validate_plan (s # ss) reg pre = step_problems reg (pre @ s # ss) (int (length pre)) s @ validate_plan ss reg (pre @ [s])"
  by (simp add: validate_plan_def)

lemma step_ref_no_bytes: "step_ref v \<noteq> None \<Longrightarrow> \<not> has_byte_tokens v"
  by (cases v) (auto simp: step_ref_def)

lemma argument_fine:
  "argument_problems reg all index k v = [] \<Longrightarrow> step_ref v = Some d \<Longrightarrow> 0 \<le> d \<and> d < index"
  using step_ref_no_bytes [of v] by (auto simp: argument_problems_def split: if_splits)

end
