(* ===== verification/Memory.thy ===== *)
theory Memory
  imports Planner
begin

text \<open>
  The memory of conversations: \<open>assistant/memory.py\<close>, which turns what a workflow did into a line of text and stored messages
  into the context of the next request, and the conversation tables of \<open>assistant/repository.py\<close>.
\<close>

section \<open>What a run did, in a line\<close>

text \<open>The arrow, the ellipsis and the texts of errors, which have characters beyond those of the model or texts it leaves out.\<close>

record memory_texts =
  mt_arrow :: string
  mt_ellipsis :: string
  mt_error :: "step_error \<Rightarrow> string"

definition MAX_OUTPUT_CHARS :: nat where "MAX_OUTPUT_CHARS = 200"

definition MAX_ITEMS :: nat where "MAX_ITEMS = 15"

definition truncate_text :: "memory_texts \<Rightarrow> string \<Rightarrow> string" where
  "truncate_text tx text = (let t = py_strip text in
     if length t \<le> MAX_OUTPUT_CHARS then t else take MAX_OUTPUT_CHARS t @ mt_ellipsis tx)"

fun item_name :: "json \<Rightarrow> string option" where
  "item_name (JObj d) = (case get_key ''name'' d of JStr s \<Rightarrow> Some s | _ \<Rightarrow> None)"
| "item_name v = None"

definition summarise_items :: "memory_texts \<Rightarrow> json list \<Rightarrow> string" where
  "summarise_items tx its =
     (let names = List.map_filter item_name its in
      if names = [] then truncate_text tx (py_str (JList its))
      else let shown = take MAX_ITEMS names;
               more = (if length names > length shown
                 then '' '' @ mt_ellipsis tx @ ''(+'' @ nat_str (length names - length shown) @ '' more)'' else []) in
        truncate_text tx (nat_str (length names) @ '' items: '' @ py_join '', '' shown @ more))"

definition summarise_output :: "memory_texts \<Rightarrow> json \<Rightarrow> string" where
  "summarise_output tx output = (case output of
       JList its \<Rightarrow> summarise_items tx its
     | JObj d \<Rightarrow> (case get_key ''items'' d of
           JList its \<Rightarrow> summarise_items tx its
         | _ \<Rightarrow> (case get_key ''name'' d of
               JStr name \<Rightarrow> if name \<noteq> [] then name else truncate_text tx (py_str output)
             | _ \<Rightarrow> truncate_text tx (py_str output)))
     | _ \<Rightarrow> truncate_text tx (py_str output))"

definition result_line :: "memory_texts \<Rightarrow> step_result \<Rightarrow> string" where
  "result_line tx r =
     (let status = (if sr_skipped r then ''skipped'' else if sr_ok r then ''ok'' else ''failed'');
          problem = (case sr_error r of None \<Rightarrow> [] | Some e \<Rightarrow> mt_error tx e);
          detail = (if problem \<noteq> [] then '' error='' @ truncate_text tx problem
            else case sr_output r of None \<Rightarrow> [] | Some JNull \<Rightarrow> []
              | Some output \<Rightarrow> '' '' @ mt_arrow tx @ '' '' @ summarise_output tx output) in
      sr_skill r @ '': '' @ status @ detail)"

definition summarise_results :: "memory_texts \<Rightarrow> step_result list \<Rightarrow> string" where
  "summarise_results tx results =
     (if results = [] then [] else ''[executed] '' @ py_join ''; '' (map (result_line tx) results))"

definition append_result_summary :: "memory_texts \<Rightarrow> string \<Rightarrow> step_result list \<Rightarrow> string" where
  "append_result_summary tx reply results =
     (let summary = summarise_results tx results in
      if summary = [] then reply
      else if reply \<noteq> [] then reply @ [CHR 0x0A, CHR 0x0A] @ summary else summary)"

section \<open>Stored messages as context\<close>

definition replayed :: "assistant_message \<Rightarrow> llm_message option" where
  "replayed m =
     (if am_content m = [] then None
      else if am_role m = ''user'' then Some \<lparr>lm_role = USER_ROLE, lm_content = am_content m\<rparr>
      else if am_role m = ''assistant'' then Some \<lparr>lm_role = ASSISTANT_ROLE, lm_content = am_content m\<rparr>
      else None)"

definition history_to_messages :: "assistant_message list \<Rightarrow> int \<Rightarrow> llm_message list" where
  "history_to_messages messages max_messages =
     (if max_messages \<le> 0 then []
      else let history = List.map_filter replayed messages in drop (length history - nat max_messages) history)"

section \<open>The conversation tables\<close>

definition session_of :: "uuid \<Rightarrow> uuid \<Rightarrow> assistant_session option M" where
  "session_of user_id session_id =
     liftM (\<lambda>w. scalar_one_or_none (filter (\<lambda>r. as_id r = session_id \<and> as_user_id r = user_id) (talks w)))"

text \<open>A new row under an identifier that another user's session has violates the primary key.\<close>

definition ensure_session :: "uuid \<Rightarrow> uuid \<Rightarrow> string \<Rightarrow> unit M" where
  "ensure_session user_id session_id title =
     bindM now (\<lambda>t. bindM (session_of user_id session_id) (\<lambda>r. case r of
         Some existing \<Rightarrow> modifyM (talks_update (row_update as_id session_id (\<lambda>x. x\<lparr>as_updated_at := t,
           as_title := (if title \<noteq> [] \<and> as_title existing = [] then take 200 title else as_title x)\<rparr>)))
       | None \<Rightarrow> bindM (getsM (\<lambda>w. session_id \<in> as_id ` set (talks w))) (\<lambda>taken.
           thenM (guardM (\<not> taken) IntegrityError)
             (modifyM (talks_update (\<lambda>rows. rows @ [\<lparr>as_id = session_id, as_user_id = user_id, as_title = take 200 title,
                as_created_at = t, as_updated_at = t\<rparr>]))))))"

text \<open>A message refers to a session that exists.\<close>

definition add_message :: "uuid \<Rightarrow> string \<Rightarrow> string \<Rightarrow> unit M" where
  "add_message session_id role content =
     bindM (getsM (\<lambda>w. session_id \<in> as_id ` set (talks w))) (\<lambda>known.
     thenM (guardM known IntegrityError)
     (bindM uuid4 (\<lambda>i. bindM now (\<lambda>t. modifyM (turns_update (\<lambda>rows. rows @
       [\<lparr>am_id = i, am_session_id = session_id, am_role = role, am_content = content, am_created_at = t\<rparr>]))))))"

definition list_sessions :: "uuid \<Rightarrow> assistant_session list M" where
  "list_sessions user_id = getsM (\<lambda>w. rev (sort_key as_updated_at (rev (filter (\<lambda>r. as_user_id r = user_id) (talks w)))))"

definition list_messages :: "uuid \<Rightarrow> uuid \<Rightarrow> assistant_message list M" where
  "list_messages user_id session_id =
     bindM (session_of user_id session_id) (\<lambda>r. case r of
         None \<Rightarrow> returnM []
       | Some _ \<Rightarrow> getsM (\<lambda>w. sort_key am_created_at (filter (\<lambda>m. am_session_id m = session_id) (turns w))))"

section \<open>Frames\<close>

lemma keeps_session_reads [keeps_rules]:
  "keeps f (session_of u s)" "keeps f (list_sessions u)" "keeps f (list_messages u s)"
  unfolding session_of_def list_sessions_def list_messages_def
  by (auto intro!: keeps_bind keeps_lift keeps_gets keeps_return split: option.split)

lemma keeps_conversation [keeps_rules]:
  assumes "\<And>g w. f (talks_update g w) = f w" "\<And>g w. f (turns_update g w) = f w" "\<And>w n. f (w\<lparr>uuid_next := n\<rparr>) = f w"
  shows "keeps f (ensure_session u s t)" "keeps f (add_message s r c)"
  unfolding ensure_session_def add_message_def
  by (auto intro!: keeps_rules keeps_modify simp: assms split: option.split)

end
