(* ===== verification/Assistant.thy ===== *)
theory Assistant
  imports Memory Snapshots Drive
begin

text \<open>
  The assistant (\<open>assistant/service.py\<close>, the workflow repository of \<open>assistant/repository.py\<close>, the snapshot hook of
  \<open>assistant/hooks.py\<close>): a request becomes a plan; a plan that only reads runs at once, any other is stored
  and waits for the user's confirmation. The texts of the answers are not modelled, only what they report.
\<close>

section \<open>Hooks\<close>

definition assistant_snapshot_label :: "workflow_step list \<Rightarrow> string" where
  "assistant_snapshot_label write_steps =
     (let names = rev (remdups (rev (map ws_skill write_steps))) in
      if names = [] then ''Before assistant action''
      else ''Before assistant action: '' @ py_join '', '' (take 3 names)
        @ (if length names > 3 then '', +'' @ nat_str (length names - 3) @ '' more'' else []))"

definition snapshot_before_write_hook :: "hook_context \<Rightarrow> unit M" where
  "snapshot_before_write_hook ctx =
     (let write_steps = filter ws_requires_approval (hc_steps ctx) in
      if write_steps = [] then returnM ()
      else catchM (thenM (create (hc_user_id ctx) snapshot_trigger.ASSISTANT (assistant_snapshot_label write_steps) False) (returnM ()))
        (\<lambda>_. returnM ()))"

text \<open>The audit hook writes to the log file only.\<close>

definition audit_hook :: "hook_context \<Rightarrow> unit M" where
  "audit_hook ctx = returnM ()"

definition default_hooks :: hooks where
  "default_hooks = [(BEFORE_EXECUTION, audit_hook), (AFTER_STEP, audit_hook), (ON_ERROR, audit_hook)]"

definition service_hooks :: hooks where
  "service_hooks = default_hooks @ [(BEFORE_EXECUTION, snapshot_before_write_hook)]"

section \<open>Repository\<close>

definition add_workflow :: "assistant_workflow \<Rightarrow> world \<Rightarrow> world" where
  "add_workflow r = workflows_update (\<lambda>rows. rows @ [r])"

definition create_pending :: "uuid \<Rightarrow> uuid \<Rightarrow> string \<Rightarrow> workflow_step list \<Rightarrow> assistant_workflow M" where
  "create_pending user_id session_id source_nl steps =
     bindM now (\<lambda>t. bindM uuid4 (\<lambda>i.
       let r = \<lparr>aw_id = i, aw_user_id = user_id, aw_session_id = session_id, aw_source_nl = source_nl, aw_steps = steps,
                aw_status = WORKFLOW_PENDING, aw_name = None, aw_created_at = t, aw_updated_at = t\<rparr> in
       thenM (modifyM (add_workflow r)) (returnM r)))"

definition workflow_of :: "uuid \<Rightarrow> uuid \<Rightarrow> workflow_status \<Rightarrow> assistant_workflow option M" where
  "workflow_of user_id workflow_id status = liftM (\<lambda>w. scalar_one_or_none
     (filter (\<lambda>r. aw_id r = workflow_id \<and> aw_user_id r = user_id \<and> aw_status r = status) (workflows w)))"

definition get_pending :: "uuid \<Rightarrow> uuid \<Rightarrow> assistant_workflow option M" where
  "get_pending user_id workflow_id = workflow_of user_id workflow_id WORKFLOW_PENDING"

definition get_saved :: "uuid \<Rightarrow> uuid \<Rightarrow> assistant_workflow option M" where
  "get_saved user_id workflow_id = workflow_of user_id workflow_id WORKFLOW_SAVED"

definition set_status :: "assistant_workflow \<Rightarrow> workflow_status \<Rightarrow> unit M" where
  "set_status r status = bindM now (\<lambda>t. modifyM (workflows_update
     (row_update aw_id (aw_id r) (\<lambda>x. x\<lparr>aw_status := status, aw_updated_at := t\<rparr>))))"

definition record_run :: "uuid \<Rightarrow> uuid option \<Rightarrow> string \<Rightarrow> bool \<Rightarrow> step_result list \<Rightarrow> unit M" where
  "record_run user_id workflow_id source_nl succeeded results =
     bindM now (\<lambda>t. bindM uuid4 (\<lambda>i. modifyM (workflow_runs_update (\<lambda>rows. rows @
       [\<lparr>wr_id = i, wr_user_id = user_id, wr_workflow_id = workflow_id, wr_source_nl = source_nl,
         wr_succeeded = succeeded, wr_step_results = results, wr_created_at = t, wr_finished_at = Some t\<rparr>]))))"

definition save_named :: "uuid \<Rightarrow> string \<Rightarrow> string \<Rightarrow> workflow_step list \<Rightarrow> assistant_workflow M" where
  "save_named user_id name source_nl steps =
     bindM now (\<lambda>t. bindM uuid4 (\<lambda>i. bindM uuid4 (\<lambda>s.
       let r = \<lparr>aw_id = i, aw_user_id = user_id, aw_session_id = s, aw_source_nl = source_nl, aw_steps = steps,
                aw_status = WORKFLOW_SAVED, aw_name = Some (take 200 name), aw_created_at = t, aw_updated_at = t\<rparr> in
       thenM (modifyM (add_workflow r)) (returnM r))))"

definition list_saved :: "uuid \<Rightarrow> assistant_workflow list M" where
  "list_saved user_id = getsM (\<lambda>w. rev (sort_key aw_created_at (rev
     (filter (\<lambda>r. aw_user_id r = user_id \<and> aw_status r = WORKFLOW_SAVED) (workflows w)))))"

section \<open>Service\<close>

text \<open>What an answer says; \<open>as_render\<close> is the text of it that is stored with the conversation.\<close>

datatype chat_message =
    Answer string
  | AnswerPending string
  | SelectFilesFirst
  | FailureReport bool "step_result list"

record assistant =
  as_planner :: planner
  as_registry :: registry
  as_hooks :: hooks
  as_wiring :: wiring
  as_authoring :: "(uuid \<Rightarrow> string \<Rightarrow> string option M) option"
  as_followup_text :: "string \<Rightarrow> step_result list \<Rightarrow> int list \<Rightarrow> string"
  as_feedback_text :: "string \<Rightarrow> step_result list \<Rightarrow> string"
  as_two_phase :: bool
  as_texts :: memory_texts
  as_render :: "chat_message \<Rightarrow> string"
  as_history_max :: int
  as_enabled :: bool

datatype plan_status = AUTO_EXECUTED | PENDING_APPROVAL

record chat_response =
  ch_session_id :: uuid
  ch_message :: chat_message
  ch_plan :: "(uuid option \<times> plan_status \<times> workflow_step list) option"
  ch_results :: "step_result list"

definition all_ok :: "step_result list \<Rightarrow> bool" where
  "all_ok results = list_all sr_ok results"

definition report :: "string \<Rightarrow> bool \<Rightarrow> step_result list \<Rightarrow> chat_message" where
  "report reply retried results = (if all_ok results then Answer reply else FailureReport retried results)"

definition run_plan :: "assistant \<Rightarrow> uuid \<Rightarrow> workflow_step list \<Rightarrow> step_result list M" where
  "run_plan a user_id steps = execute (as_registry a) (as_hooks a) user_id steps"

definition item_kind :: "item_type \<Rightarrow> string" where
  "item_kind t = (case t of FILE \<Rightarrow> ''FILE'' | FOLDER \<Rightarrow> ''FOLDER'')"

text \<open>Ids that no longer resolve are dropped; other exceptions pass.\<close>

fun resolve_selection :: "assistant \<Rightarrow> uuid \<Rightarrow> uuid list \<Rightarrow> args list M" where
  "resolve_selection a user_id [] = returnM []"
| "resolve_selection a user_id (i # is) =
     bindM (catchM (bindM (get_item_any_state (as_wiring a) user_id i) (\<lambda>item. returnM
         [[(''id'', JStr (uuid_str (ir_id item))), (''name'', JStr (ir_name item)), (''item_type'', JStr (item_kind (ir_item_type item)))]]))
       (\<lambda>e. if e = NotFoundError then returnM [] else raiseM e)) (\<lambda>here.
     bindM (resolve_selection a user_id is) (\<lambda>rest. returnM (here @ rest)))"

text \<open>\<open>ref_source(value) in indices\<close>: a bool or float is the integer it equals, a list or dict cannot be looked up.\<close>

fun consumes_any :: "json list \<Rightarrow> int list \<Rightarrow> error + bool" where
  "consumes_any [] indices = Inr False"
| "consumes_any (v # vs) indices = (case ref_source v of
     JInt n \<Rightarrow> if n \<in> set indices then Inr True else consumes_any vs indices
   | JBool b \<Rightarrow> if (if b then 1 else 0) \<in> set indices then Inr True else consumes_any vs indices
   | JList _ \<Rightarrow> Inl PyTypeError
   | JObj _ \<Rightarrow> Inl PyTypeError
   | JFloat s \<Rightarrow> if list_ex (\<lambda>i. s = int_str i @ ''.0'') indices then Inr True else consumes_any vs indices
   | _ \<Rightarrow> consumes_any vs indices)"

fun recon_steps :: "workflow_step list \<Rightarrow> int list \<Rightarrow> error + workflow_step list" where
  "recon_steps [] skipped = Inr []"
| "recon_steps (s # ss) skipped =
     (if ws_index s \<in> set skipped then recon_steps ss skipped
      else case consumes_any (map snd (ws_arguments s)) skipped of
          Inl e \<Rightarrow> Inl e
        | Inr c \<Rightarrow> (case recon_steps ss skipped of
            Inl e \<Rightarrow> Inl e
          | Inr rest \<Rightarrow> Inr (if c then rest else s # rest)))"

text \<open>The position of a kept step in the new plan.\<close>

definition kept_position :: "int list \<Rightarrow> int \<Rightarrow> int option" where
  "kept_position kept old = (if old \<in> set kept then Some (int (length (takeWhile (\<lambda>k. k \<noteq> old) kept))) else None)"

fun renumber_arg :: "int list \<Rightarrow> json \<Rightarrow> json" where
  "renumber_arg kept (JObj d) = (case step_ref (JObj d) of
     None \<Rightarrow> JObj d
   | Some old \<Rightarrow> (case kept_position kept old of
       None \<Rightarrow> JObj d
     | Some new \<Rightarrow> JObj (dict_set (if ''from'' \<in> set (map fst d) then ''from'' else ''from_step'') (JInt new) d)))"
| "renumber_arg kept v = v"

definition renumber_kept :: "planned_step list \<Rightarrow> int list \<Rightarrow> planned_step list" where
  "renumber_kept planned kept = map (\<lambda>old. let s = planned ! nat old in
     \<lparr>ps_skill = ps_skill s, ps_arguments = map (\<lambda>(k, v). (k, renumber_arg kept v)) (ps_arguments s),
      ps_depends_on = List.map_filter (kept_position kept) (ps_depends_on s)\<rparr>) kept"

definition maybe_plan_followup ::
  "assistant \<Rightarrow> plan_result \<Rightarrow> uuid \<Rightarrow> string \<Rightarrow> args list \<Rightarrow> llm_message list \<Rightarrow> plan_result M" where
  "maybe_plan_followup a p user_id message selected history =
     (if \<not> as_two_phase a \<or> \<not> pr_needs_followup p then returnM p
      else bindM (liftM (\<lambda>_. classify_steps (pr_steps p) (as_registry a))) (\<lambda>classified.
        if selected \<noteq> [] \<and> has_selection_reference classified (as_registry a) then returnM p
        else bindM (liftM (\<lambda>_. recon_steps classified (map ws_index (filter ws_requires_approval classified)))) (\<lambda>recon.
          if recon = [] then returnM p
          else bindM (run_plan a user_id recon) (\<lambda>results.
            let indices = map ws_index recon; kept = renumber_kept (pr_steps p) indices in
            bindM (plan (as_planner a) (as_registry a) (as_followup_text a message results indices) selected history kept) (\<lambda>followup.
              if pr_steps followup = [] then returnM p
              else returnM \<lparr>pr_reply = (if pr_reply followup \<noteq> [] then pr_reply followup else pr_reply p),
                            pr_steps = kept @ pr_steps followup, pr_needs_followup = False\<rparr>)))))"

definition replan_after_failure ::
  "assistant \<Rightarrow> uuid \<Rightarrow> string \<Rightarrow> args list \<Rightarrow> uuid \<Rightarrow> step_result list \<Rightarrow> llm_message list \<Rightarrow> chat_response option M" where
  "replan_after_failure a user_id message selected session_id results history =
     bindM (plan (as_planner a) (as_registry a) (as_feedback_text a message results) selected history []) (\<lambda>replan.
       if pr_steps replan = [] then returnM None
       else bindM (liftM (\<lambda>_. classify_steps (pr_steps replan) (as_registry a))) (\<lambda>new_steps.
         if has_selection_reference new_steps (as_registry a) \<or> \<not> is_auto_confirmable new_steps then returnM None
         else bindM (run_plan a user_id new_steps) (\<lambda>new_results.
           thenM (record_run user_id None (message @ '' [replan]'') (all_ok new_results) new_results)
             (returnM (Some \<lparr>ch_session_id = session_id, ch_message = report (pr_reply replan) True new_results,
                ch_plan = Some (None, AUTO_EXECUTED, new_steps), ch_results = new_results\<rparr>)))))"

definition wf_exception :: "wf_error \<Rightarrow> error" where
  "wf_exception e = (case e of StepResolutionError \<Rightarrow> StepResolutionFailed | KeyError \<Rightarrow> PyKeyError
     | IndexError \<Rightarrow> PyIndexError | NotAnInteger \<Rightarrow> ValueError | SkillError x \<Rightarrow> x)"

text \<open>The steps of a plan with the selection put in; \<open>None\<close> when files have to be selected first.\<close>

definition grounded :: "assistant \<Rightarrow> workflow_step list \<Rightarrow> args list \<Rightarrow> error + workflow_step list option" where
  "grounded a steps selected =
     (if has_selection_reference steps (as_registry a)
      then if selected = [] then Inr None
        else (case apply_selection steps selected (as_registry a) of
            Inl e \<Rightarrow> Inl (wf_exception e)
          | Inr steps' \<Rightarrow> Inr (Some steps'))
      else Inr (Some steps))"

definition chat_auto ::
  "assistant \<Rightarrow> uuid \<Rightarrow> string \<Rightarrow> args list \<Rightarrow> uuid \<Rightarrow> llm_message list \<Rightarrow> plan_result \<Rightarrow> workflow_step list \<Rightarrow> chat_response M" where
  "chat_auto a user_id message selected session_id history p steps =
     bindM (run_plan a user_id steps) (\<lambda>results.
     thenM (record_run user_id None message (all_ok results) results)
     (bindM (if all_ok results then returnM None
             else replan_after_failure a user_id message selected session_id results history) (\<lambda>r. case r of
         Some response \<Rightarrow> returnM response
       | None \<Rightarrow> returnM \<lparr>ch_session_id = session_id, ch_message = report (pr_reply p) False results,
           ch_plan = Some (None, AUTO_EXECUTED, steps), ch_results = results\<rparr>)))"

definition chat_store ::
  "uuid \<Rightarrow> string \<Rightarrow> uuid \<Rightarrow> plan_result \<Rightarrow> workflow_step list \<Rightarrow> chat_response M" where
  "chat_store user_id message session_id p steps =
     bindM (create_pending user_id session_id message steps) (\<lambda>workflow.
       returnM \<lparr>ch_session_id = session_id, ch_message = AnswerPending (pr_reply p),
         ch_plan = Some (Some (aw_id workflow), PENDING_APPROVAL, steps), ch_results = []\<rparr>)"

definition chat_planned ::
  "assistant \<Rightarrow> uuid \<Rightarrow> string \<Rightarrow> args list \<Rightarrow> uuid \<Rightarrow> llm_message list \<Rightarrow> plan_result \<Rightarrow> chat_response M" where
  "chat_planned a user_id message selected session_id history first =
     bindM (maybe_plan_followup a first user_id message selected history) (\<lambda>p.
     bindM (liftM (\<lambda>_. classify_steps (pr_steps p) (as_registry a))) (\<lambda>classified.
     bindM (liftM (\<lambda>_. grounded a classified selected)) (\<lambda>g. case g of
         None \<Rightarrow> returnM \<lparr>ch_session_id = session_id, ch_message = SelectFilesFirst, ch_plan = None, ch_results = []\<rparr>
       | Some steps \<Rightarrow>
           if is_auto_confirmable steps then chat_auto a user_id message selected session_id history p steps
           else chat_store user_id message session_id p steps)))"

definition chat ::
  "assistant \<Rightarrow> uuid \<Rightarrow> string \<Rightarrow> uuid option \<Rightarrow> uuid list \<Rightarrow> llm_message list \<Rightarrow> chat_response M" where
  "chat a user_id message session_id selected_item_ids history =
     bindM (case session_id of Some s \<Rightarrow> returnM s | None \<Rightarrow> uuid4) (\<lambda>active_session_id.
     bindM (case as_authoring a of None \<Rightarrow> returnM None | Some handle \<Rightarrow> handle user_id message) (\<lambda>authored. case authored of
         Some text \<Rightarrow> returnM \<lparr>ch_session_id = active_session_id, ch_message = Answer text, ch_plan = None, ch_results = []\<rparr>
       | None \<Rightarrow>
           bindM (resolve_selection a user_id selected_item_ids) (\<lambda>selected.
           bindM (plan (as_planner a) (as_registry a) message selected history []) (\<lambda>p.
             if pr_steps p = []
             then returnM \<lparr>ch_session_id = active_session_id, ch_message = Answer (pr_reply p), ch_plan = None, ch_results = []\<rparr>
             else chat_planned a user_id message selected active_session_id history p))))"

text \<open>The answer carries the session, for the conversation.\<close>

definition confirm :: "assistant \<Rightarrow> uuid \<Rightarrow> uuid \<Rightarrow> (uuid \<times> step_result list) M" where
  "confirm a user_id workflow_id =
     bindM (get_pending user_id workflow_id) (\<lambda>r. case r of
         None \<Rightarrow> raiseM NotFoundError
       | Some workflow \<Rightarrow>
           bindM (run_plan a user_id (aw_steps workflow)) (\<lambda>results.
           thenM (set_status workflow WORKFLOW_EXECUTED)
           (thenM (record_run user_id (Some (aw_id workflow)) (aw_source_nl workflow) (all_ok results) results)
             (returnM (aw_session_id workflow, results)))))"

definition cancel :: "uuid \<Rightarrow> uuid \<Rightarrow> uuid M" where
  "cancel user_id workflow_id =
     bindM (get_pending user_id workflow_id) (\<lambda>r. case r of
         None \<Rightarrow> raiseM NotFoundError
       | Some workflow \<Rightarrow> thenM (set_status workflow WORKFLOW_CANCELLED) (returnM (aw_id workflow)))"

definition save_workflow :: "assistant \<Rightarrow> uuid \<Rightarrow> string \<Rightarrow> string \<Rightarrow> planned_step list \<Rightarrow> assistant_workflow M" where
  "save_workflow a user_id name source_nl steps =
     bindM (liftM (\<lambda>_. classify_steps steps (as_registry a))) (save_named user_id name source_nl)"

definition planned_of :: "workflow_step \<Rightarrow> planned_step" where
  "planned_of s = \<lparr>ps_skill = ws_skill s, ps_arguments = ws_arguments s, ps_depends_on = ws_depends_on s\<rparr>"

definition rerun_workflow :: "assistant \<Rightarrow> uuid \<Rightarrow> uuid \<Rightarrow> (uuid \<times> step_result list) M" where
  "rerun_workflow a user_id workflow_id =
     bindM (get_saved user_id workflow_id) (\<lambda>r. case r of
         None \<Rightarrow> raiseM NotFoundError
       | Some workflow \<Rightarrow>
           bindM (liftM (\<lambda>_. classify_steps (map planned_of (aw_steps workflow)) (as_registry a))) (\<lambda>steps.
           bindM (run_plan a user_id steps) (\<lambda>results.
           thenM (record_run user_id (Some (aw_id workflow))
               (case aw_name workflow of Some n \<Rightarrow> if n \<noteq> [] then n else aw_source_nl workflow | None \<Rightarrow> aw_source_nl workflow)
               (all_ok results) results)
             (returnM (aw_id workflow, results)))))"

section \<open>Routes\<close>

text \<open>The services the assistant's skills work on, as its router builds them.\<close>

definition assistant_drive :: wiring where
  "assistant_drive = \<lparr>has_perm = True, has_activity = True, has_share_repo = False\<rparr>"

text \<open>
  Each route commits when everything in it returned. A chat replays the stored conversation to the planner and then adds the
  request and the answer to it; a confirmed workflow adds what it did.
\<close>

definition stored_answer :: "assistant \<Rightarrow> chat_message \<Rightarrow> step_result list \<Rightarrow> string" where
  "stored_answer a message results = append_result_summary (as_texts a) (as_render a message) results"

definition chat_route :: "assistant \<Rightarrow> uuid \<Rightarrow> string \<Rightarrow> uuid option \<Rightarrow> uuid list \<Rightarrow> chat_response M" where
  "chat_route a user_id message session_id ids = transact
     (thenM (guardM (as_enabled a) (AppError ASSISTANT_UNAVAILABLE 503))
     (bindM (case session_id of None \<Rightarrow> returnM []
         | Some s \<Rightarrow> bindM (list_messages user_id s) (\<lambda>prior. returnM (history_to_messages prior (as_history_max a)))) (\<lambda>history.
      bindM (chat a user_id message session_id ids history) (\<lambda>response.
      thenM (ensure_session user_id (ch_session_id response) message)
      (thenM (add_message (ch_session_id response) ''user'' message)
      (thenM (add_message (ch_session_id response) ''assistant'' (stored_answer a (ch_message response) (ch_results response)))
        (returnM response)))))))"

definition confirm_route :: "assistant \<Rightarrow> uuid \<Rightarrow> uuid \<Rightarrow> (uuid \<times> step_result list) M" where
  "confirm_route a user_id workflow_id = transact
     (bindM (confirm a user_id workflow_id) (\<lambda>(session_id, results).
      thenM (add_message session_id ''assistant'' (stored_answer a (report ''Workflow executed.'' False results) results))
        (returnM (session_id, results))))"

definition cancel_route :: "uuid \<Rightarrow> uuid \<Rightarrow> uuid M" where
  "cancel_route user_id workflow_id = transact (cancel user_id workflow_id)"

definition save_workflow_route :: "assistant \<Rightarrow> uuid \<Rightarrow> string \<Rightarrow> string \<Rightarrow> planned_step list \<Rightarrow> assistant_workflow M" where
  "save_workflow_route a user_id name source_nl steps =
     thenM (guardM (1 \<le> length name \<and> length name \<le> 200 \<and> length source_nl \<le> 4000 \<and> steps \<noteq> []) (AppError VALIDATION_ERROR 422))
       (transact (save_workflow a user_id name source_nl steps))"

definition rerun_workflow_route :: "assistant \<Rightarrow> uuid \<Rightarrow> uuid \<Rightarrow> (uuid \<times> step_result list) M" where
  "rerun_workflow_route a user_id workflow_id = transact (rerun_workflow a user_id workflow_id)"

datatype assistant_request =
    W_CHAT string "uuid option" "uuid list"
  | W_CONFIRM uuid
  | W_CANCEL uuid
  | W_SAVE string string "planned_step list"
  | W_RERUN uuid

fun assistant_route :: "assistant \<Rightarrow> uuid \<Rightarrow> assistant_request \<Rightarrow> unit M" where
  "assistant_route a user_id (W_CHAT message session_id ids) = thenM (chat_route a user_id message session_id ids) (returnM ())"
| "assistant_route a user_id (W_CONFIRM i) = thenM (confirm_route a user_id i) (returnM ())"
| "assistant_route a user_id (W_CANCEL i) = thenM (cancel_route user_id i) (returnM ())"
| "assistant_route a user_id (W_SAVE name source_nl steps) = thenM (save_workflow_route a user_id name source_nl steps) (returnM ())"
| "assistant_route a user_id (W_RERUN i) = thenM (rerun_workflow_route a user_id i) (returnM ())"

end
