(* ===== verification/Skills.thy ===== *)
theory Skills
  imports Assistant Share Trash
begin

text \<open>
  The built-in skills of the assistant (\<open>assistant/skills/builtin\<close>) over the services of the drive, and the registry the
  router puts together. The search service, the rendering of dates and percentages, and the handlers of skills that users
  had generated are parameters. Of a registered skill its description, which only the planner's prompt shows, is left out.
\<close>

section \<open>Outputs\<close>

record renderers =
  re_date :: "time \<Rightarrow> string"
  re_percent :: "int \<Rightarrow> int \<Rightarrow> string"

definition opt_json :: "('a \<Rightarrow> json) \<Rightarrow> 'a option \<Rightarrow> json" where
  "opt_json f x = (case x of None \<Rightarrow> JNull | Some v \<Rightarrow> f v)"

definition uuid_json :: "uuid \<Rightarrow> json" where "uuid_json u = JStr (uuid_str u)"

definition dump_item :: "renderers \<Rightarrow> item_response \<Rightarrow> json" where
  "dump_item re i = (let date = (\<lambda>t. JStr (re_date re t)) in JObj
     [(''id'', uuid_json (ir_id i)), (''owner_id'', uuid_json (ir_owner_id i)), (''parent_id'', opt_json uuid_json (ir_parent_id i)),
      (''item_type'', JStr (item_kind (ir_item_type i))), (''name'', JStr (ir_name i)), (''mime_type'', opt_json JStr (ir_mime_type i)),
      (''extension'', opt_json JStr (ir_extension i)), (''size_bytes'', JInt (ir_size_bytes i)), (''is_starred'', JBool (ir_is_starred i)),
      (''is_deleted'', JBool (ir_is_deleted i)), (''deleted_at'', opt_json date (ir_deleted_at i)), (''created_by'', uuid_json (ir_created_by i)),
      (''updated_by'', opt_json uuid_json (ir_updated_by i)), (''created_at'', date (ir_created_at i)), (''updated_at'', date (ir_updated_at i)),
      (''is_shared_with_users'', JBool (ir_shared_with_users i)), (''has_active_public_link'', JBool (ir_public_link i))])"

definition dump_page :: "renderers \<Rightarrow> item_response page \<Rightarrow> json" where
  "dump_page re p = JObj [(''items'', JList (map (dump_item re) (pg_items p))), (''total'', JInt (pg_total p)),
     (''page'', JInt (pg_page p)), (''page_size'', JInt (pg_page_size p)), (''pages'', JInt (pg_pages p))]"

definition dump_quota :: "renderers \<Rightarrow> quota_response \<Rightarrow> json" where
  "dump_quota re q = JObj [(''quota_bytes'', JInt (q_quota_bytes q)), (''used_bytes'', JInt (q_used_bytes q)),
     (''available_bytes'', JInt (q_available_bytes q)), (''used_percent'', JFloat (re_percent re (q_percent_num q) (q_percent_den q)))]"

definition link_permission_str :: "link_permission \<Rightarrow> string" where
  "link_permission_str p = (case p of LINK_VIEWER \<Rightarrow> ''viewer'' | LINK_DOWNLOADER \<Rightarrow> ''downloader'' | LINK_EDITOR \<Rightarrow> ''editor'')"

definition dump_link :: "renderers \<Rightarrow> share_link_response \<Rightarrow> json" where
  "dump_link re l = JObj [(''id'', uuid_json (lr_id l)), (''item_id'', uuid_json (lr_item_id l)), (''token'', opt_json JStr (lr_token l)),
     (''permission'', JStr (link_permission_str (lr_permission l))), (''expires_at'', opt_json (\<lambda>t. JStr (re_date re t)) (lr_expires_at l)),
     (''is_active'', JBool (lr_is_active l)), (''created_by'', uuid_json (lr_created_by l)), (''created_at'', JStr (re_date re (lr_created_at l)))]"

section \<open>Arguments\<close>

text \<open>The getters of the skill modules raise \<open>INVALID_OPERATION\<close> for what they cannot use.\<close>

definition required_str :: "args \<Rightarrow> string \<Rightarrow> error + string" where
  "required_str a k = (case get_key k a of
       JStr s \<Rightarrow> if py_strip s = [] then Inl BadOperation else Inr (py_strip s)
     | _ \<Rightarrow> Inl BadOperation)"

definition optional_str :: "json \<Rightarrow> error + string option" where
  "optional_str v = (case v of
       JNull \<Rightarrow> Inr None
     | JStr s \<Rightarrow> Inr (if py_strip s = [] then None else Some (py_strip s))
     | _ \<Rightarrow> Inl BadOperation)"

definition arg_uuid :: "string \<Rightarrow> error + uuid" where
  "arg_uuid s = (case parse_uuid s of None \<Rightarrow> Inl BadOperation | Some u \<Rightarrow> Inr u)"

definition required_uuid :: "args \<Rightarrow> string \<Rightarrow> error + uuid" where
  "required_uuid a k = (case get_key k a of JStr s \<Rightarrow> arg_uuid s | _ \<Rightarrow> Inl BadOperation)"

definition ROOT_SENTINELS :: "string list" where
  "ROOT_SENTINELS = [''root'', ''root_folder'', ''null'', ''none'', ''/'']"

definition optional_uuid_str :: "string \<Rightarrow> error + uuid option" where
  "optional_uuid_str s = (if py_strip s = [] \<or> py_lower (py_strip s) \<in> set ROOT_SENTINELS then Inr None
     else (case arg_uuid s of Inl e \<Rightarrow> Inl e | Inr u \<Rightarrow> Inr (Some u)))"

text \<open>The read skills take any other value for the root, the write skills refuse it.\<close>

definition optional_uuid_read :: "json \<Rightarrow> error + uuid option" where
  "optional_uuid_read v = (case v of JStr s \<Rightarrow> optional_uuid_str s | _ \<Rightarrow> Inr None)"

definition optional_uuid_write :: "json \<Rightarrow> error + uuid option" where
  "optional_uuid_write v = (case v of JNull \<Rightarrow> Inr None | JStr s \<Rightarrow> optional_uuid_str s | _ \<Rightarrow> Inl BadOperation)"

text \<open>A bool is an int in Python.\<close>

definition int_arg :: "args \<Rightarrow> string \<Rightarrow> int \<Rightarrow> int \<Rightarrow> int option \<Rightarrow> error + int" where
  "int_arg a k v0 min_value max_value =
     (let check = (\<lambda>n. if n < min_value \<or> (case max_value of None \<Rightarrow> False | Some m \<Rightarrow> n > m) then Inl BadOperation else Inr n) in
      case get_or (JInt v0) k a of
        JInt n \<Rightarrow> check n
      | JBool b \<Rightarrow> check (if b then 1 else 0)
      | _ \<Rightarrow> Inl BadOperation)"

definition required_bool :: "args \<Rightarrow> string \<Rightarrow> error + bool" where
  "required_bool a k = (case get_key k a of JBool b \<Rightarrow> Inr b | _ \<Rightarrow> Inl BadOperation)"

definition sort_field_arg :: "json \<Rightarrow> error + sort_field" where
  "sort_field_arg v = (case v of
       JNull \<Rightarrow> Inr BY_NAME
     | JStr s \<Rightarrow> if s = ''name'' then Inr BY_NAME else if s = ''created_at'' then Inr BY_CREATED_AT
         else if s = ''updated_at'' then Inr BY_UPDATED_AT else if s = ''size_bytes'' then Inr BY_SIZE_BYTES else Inl BadOperation
     | _ \<Rightarrow> Inl BadOperation)"

definition sort_order_arg :: "json \<Rightarrow> error + sort_order" where
  "sort_order_arg v = (case v of
       JNull \<Rightarrow> Inr ASC
     | JStr s \<Rightarrow> if s = ''asc'' then Inr ASC else if s = ''desc'' then Inr DESC else Inl BadOperation
     | _ \<Rightarrow> Inl BadOperation)"

abbreviation argM :: "(error + 'a) \<Rightarrow> 'a M" where "argM x \<equiv> liftM (\<lambda>_. x)"

section \<open>Read skills\<close>

text \<open>\<open>search user q item_type mime_type page page_size\<close> is the dumped page of the search service.\<close>

type_synonym search = "uuid \<Rightarrow> string \<Rightarrow> string option \<Rightarrow> string option \<Rightarrow> int \<Rightarrow> int \<Rightarrow> json M"

definition list_items_skill :: "renderers \<Rightarrow> wiring \<Rightarrow> uuid \<Rightarrow> args \<Rightarrow> json M" where
  "list_items_skill re cfg user_id a =
     bindM (argM (optional_uuid_read (get_key ''parent_id'' a))) (\<lambda>parent_id.
     bindM (argM (int_arg a ''page'' 1 1 None)) (\<lambda>page.
     bindM (argM (int_arg a ''page_size'' 20 1 (Some 200))) (\<lambda>page_size.
     bindM (argM (sort_field_arg (get_key ''sort_by'' a))) (\<lambda>sort_by.
     bindM (argM (sort_order_arg (get_key ''order'' a))) (\<lambda>ord.
     bindM (list_items cfg user_id parent_id page page_size sort_by ord) (\<lambda>p. returnM (dump_page re p)))))))"

definition get_info_skill :: "renderers \<Rightarrow> wiring \<Rightarrow> uuid \<Rightarrow> args \<Rightarrow> json M" where
  "get_info_skill re cfg user_id a =
     bindM (argM (required_uuid a ''item_id'')) (\<lambda>i. bindM (get_item cfg user_id i) (\<lambda>r. returnM (dump_item re r)))"

definition search_skill :: "search \<Rightarrow> uuid \<Rightarrow> args \<Rightarrow> json M" where
  "search_skill search user_id a =
     bindM (argM (required_str a ''q'')) (\<lambda>q.
     bindM (argM (optional_str (get_key ''item_type'' a))) (\<lambda>item_type.
     bindM (argM (optional_str (get_key ''mime_type'' a))) (\<lambda>mime_type.
     bindM (argM (int_arg a ''page'' 1 1 None)) (\<lambda>page.
     bindM (argM (int_arg a ''page_size'' 20 1 (Some 200))) (\<lambda>page_size.
       search user_id q item_type mime_type page page_size)))))"

definition FIND_FOLDER_PAGE_SIZE :: int where "FIND_FOLDER_PAGE_SIZE = 200"

definition paged_items :: "json \<Rightarrow> args list \<times> int" where
  "paged_items output = (case output of
       JObj d \<Rightarrow>
         let found = (case get_key ''items'' d of JList xs \<Rightarrow> List.map_filter (\<lambda>x. case x of JObj i \<Rightarrow> Some i | _ \<Rightarrow> None) xs | _ \<Rightarrow> []) in
         (found, case get_key ''total'' d of JInt n \<Rightarrow> n | JBool b \<Rightarrow> (if b then 1 else 0) | _ \<Rightarrow> int (length found))
     | _ \<Rightarrow> ([], 0))"

text \<open>\<open>casefold\<close> on the characters below 256.\<close>

definition py_casefold :: "string \<Rightarrow> string" where
  "py_casefold s = concat (map (\<lambda>c. if code_point c = 223 then ''ss'' else [py_lower_char c]) s)"

definition same_name :: "json \<Rightarrow> string \<Rightarrow> bool" where
  "same_name other name = (case other of JStr s \<Rightarrow> py_casefold (py_strip s) = py_casefold name | _ \<Rightarrow> False)"

definition is_folder_dict :: "args \<Rightarrow> bool" where
  "is_folder_dict d = (py_lower (py_str (get_or (JStr []) ''item_type'' d)) = ''folder'')"

definition exactly_one_folder :: "string \<Rightarrow> args list \<Rightarrow> int \<Rightarrow> error + json" where
  "exactly_one_folder name candidates count =
     (if count > FIND_FOLDER_PAGE_SIZE then Inl InvalidOperationError
      else let found = filter (\<lambda>d. same_name (get_key ''name'' d) name) (filter is_folder_dict candidates) in
        if found = [] then Inl NotFoundError
        else if length found > 1 then Inl InvalidOperationError
        else Inr (JObj [(''items'', JList (map JObj found)), (''total'', JInt (int (length found)))]))"

definition find_folder_skill :: "search \<Rightarrow> uuid \<Rightarrow> args \<Rightarrow> json M" where
  "find_folder_skill search user_id a =
     bindM (argM (required_str a ''name'')) (\<lambda>name.
     bindM (search user_id name (Some ''FOLDER'') None 1 FIND_FOLDER_PAGE_SIZE) (\<lambda>page.
       argM (case paged_items page of (candidates, count) \<Rightarrow> exactly_one_folder name candidates count)))"

definition recent_skill :: "renderers \<Rightarrow> wiring \<Rightarrow> uuid \<Rightarrow> args \<Rightarrow> json M" where
  "recent_skill re cfg user_id a =
     bindM (argM (int_arg a ''limit'' 20 1 (Some 100))) (\<lambda>limit.
     bindM (get_recent cfg user_id limit) (\<lambda>rs. returnM (JList (map (dump_item re) rs))))"

definition storage_quota_skill :: "renderers \<Rightarrow> uuid \<Rightarrow> args \<Rightarrow> json M" where
  "storage_quota_skill re user_id a = bindM (get_quota_info user_id) (\<lambda>q. returnM (dump_quota re q))"

definition list_trash_skill :: "renderers \<Rightarrow> uuid \<Rightarrow> args \<Rightarrow> json M" where
  "list_trash_skill re user_id a =
     bindM (argM (int_arg a ''page'' 1 1 None)) (\<lambda>page.
     bindM (argM (int_arg a ''page_size'' 50 1 (Some 200))) (\<lambda>page_size.
     bindM (argM (optional_str (get_key ''q'' a))) (\<lambda>name.
     bindM (list_trash user_id page page_size name) (\<lambda>p. returnM (dump_page re p)))))"

definition object_schema :: "args \<Rightarrow> string list \<Rightarrow> args" where
  "object_schema props names = [(''type'', JStr ''object''), (''properties'', JObj props), (''required'', JList (map JStr names)), (''additionalProperties'', JBool False)]"

definition builtin :: "string \<Rightarrow> args \<Rightarrow> string list \<Rightarrow> string \<Rightarrow> skill_output \<Rightarrow> (uuid \<Rightarrow> args \<Rightarrow> json M) \<Rightarrow> skill" where
  "builtin name props names tier out handler = \<lparr>sk_name = name, sk_parameters = object_schema props names, sk_permission_tier = tier,
     sk_handler = handler, sk_requires_selection = False, sk_output = out\<rparr>"

definition read_only_skills :: "renderers \<Rightarrow> wiring \<Rightarrow> search \<Rightarrow> skill list" where
  "read_only_skills re cfg search =
     [builtin ''list_items''
        [(''parent_id'', JObj [(''type'', JList [JStr ''string'', JStr ''null'']), (''description'', JStr ''Folder UUID.'')]),
         (''page'', JObj [(''type'', JStr ''integer''), (''minimum'', JInt 1)]),
         (''page_size'', JObj [(''type'', JStr ''integer''), (''minimum'', JInt 1), (''maximum'', JInt 200)]),
         (''sort_by'', JObj [(''type'', JStr ''string''), (''enum'', JList [JStr ''name'', JStr ''created_at'', JStr ''updated_at'', JStr ''size_bytes''])]),
         (''order'', JObj [(''type'', JStr ''string''), (''enum'', JList [JStr ''asc'', JStr ''desc''])])]
        [] ''read'' PAGED_ITEMS (list_items_skill re cfg),
      builtin ''get_info''
        [(''item_id'', JObj [(''type'', JStr ''string''), (''description'', JStr ''Drive item UUID.'')])]
        [''item_id''] ''read'' ITEM (get_info_skill re cfg),
      builtin ''search''
        [(''q'', JObj [(''type'', JStr ''string'')]),
         (''item_type'', JObj [(''type'', JList [JStr ''string'', JStr ''null'']), (''enum'', JList [JStr ''FILE'', JStr ''FOLDER'', JNull])]),
         (''mime_type'', JObj [(''type'', JList [JStr ''string'', JStr ''null''])]),
         (''page'', JObj [(''type'', JStr ''integer''), (''minimum'', JInt 1)]),
         (''page_size'', JObj [(''type'', JStr ''integer''), (''minimum'', JInt 1), (''maximum'', JInt 200)])]
        [''q''] ''read'' PAGED_ITEMS (search_skill search),
      builtin ''find_folder''
        [(''name'', JObj [(''type'', JStr ''string''), (''description'', JStr ''Exact folder name.'')])]
        [''name''] ''read'' PAGED_ITEMS (find_folder_skill search),
      builtin ''recent''
        [(''limit'', JObj [(''type'', JStr ''integer''), (''minimum'', JInt 1), (''maximum'', JInt 100)])]
        [] ''read'' ITEM_LIST (recent_skill re cfg),
      builtin ''storage_quota''
        []
        [] ''read'' OPAQUE (storage_quota_skill re),
      builtin ''list_trash''
        [(''q'', JObj [(''type'', JStr ''string''), (''description'', JStr ''Filter trashed items by name.'')]),
         (''page'', JObj [(''type'', JStr ''integer''), (''minimum'', JInt 1)]),
         (''page_size'', JObj [(''type'', JStr ''integer''), (''minimum'', JInt 1), (''maximum'', JInt 200)])]
        [] ''read'' PAGED_ITEMS (list_trash_skill re)]"

fun register_all :: "skill list \<Rightarrow> registry \<Rightarrow> error + registry" where
  "register_all [] reg = Inr reg"
| "register_all (s # ss) reg = (case register_skill s reg of Inl e \<Rightarrow> Inl e | Inr reg' \<Rightarrow> register_all ss reg')"

definition build_read_only_registry :: "renderers \<Rightarrow> wiring \<Rightarrow> search \<Rightarrow> error + registry" where
  "build_read_only_registry re cfg search = register_all (read_only_skills re cfg search) []"

section \<open>Write skills\<close>

definition create_folder_skill :: "renderers \<Rightarrow> wiring \<Rightarrow> uuid \<Rightarrow> args \<Rightarrow> json M" where
  "create_folder_skill re cfg user_id a =
     bindM (argM (optional_uuid_write (get_key ''parent_id'' a))) (\<lambda>parent_id.
     bindM (argM (required_str a ''name'')) (\<lambda>name.
     bindM (create_folder cfg user_id parent_id name) (\<lambda>r. returnM (dump_item re r))))"

definition rename_item_skill :: "renderers \<Rightarrow> wiring \<Rightarrow> uuid \<Rightarrow> args \<Rightarrow> json M" where
  "rename_item_skill re cfg user_id a =
     bindM (argM (required_uuid a ''item_id'')) (\<lambda>i.
     bindM (argM (required_str a ''new_name'')) (\<lambda>name.
     bindM (rename cfg user_id i name) (\<lambda>r. returnM (dump_item re r))))"

definition move_item_skill :: "renderers \<Rightarrow> wiring \<Rightarrow> uuid \<Rightarrow> args \<Rightarrow> json M" where
  "move_item_skill re cfg user_id a =
     bindM (argM (required_uuid a ''item_id'')) (\<lambda>i.
     bindM (argM (optional_uuid_write (get_key ''parent_id'' a))) (\<lambda>parent_id.
     bindM (move cfg user_id i parent_id) (\<lambda>r. returnM (dump_item re r))))"

definition star_item_skill :: "renderers \<Rightarrow> wiring \<Rightarrow> uuid \<Rightarrow> args \<Rightarrow> json M" where
  "star_item_skill re cfg user_id a =
     bindM (argM (required_uuid a ''item_id'')) (\<lambda>i.
     bindM (argM (required_bool a ''starred'')) (\<lambda>starred.
     bindM (set_starred cfg user_id i starred) (\<lambda>r. returnM (dump_item re r))))"

definition type_folder :: "item_response \<Rightarrow> string" where
  "type_folder item = py_lower (case ir_extension item of None \<Rightarrow> ''other'' | Some e \<Rightarrow> if e = [] then ''other'' else e) @ ''-files''"

text \<open>One file of the loop: find or make the folder of its type, move it there. The accumulator holds the folders by name,
  the number of moved files and the names of the used folders.\<close>

definition organize_one ::
  "wiring \<Rightarrow> uuid \<Rightarrow> item_response \<Rightarrow> (string \<times> item_response) list \<times> nat \<times> string list
    \<Rightarrow> ((string \<times> item_response) list \<times> nat \<times> string list) M" where
  "organize_one cfg user_id item = (\<lambda>(folders, moved, used).
     if ir_item_type item \<noteq> FILE then returnM (folders, moved, used)
     else bindM (case map_of folders (type_folder item) of
         Some folder \<Rightarrow> returnM folder
       | None \<Rightarrow> create_folder cfg user_id None (type_folder item)) (\<lambda>folder.
       bindM (move cfg user_id (ir_id item) (Some (ir_id folder))) (\<lambda>_.
         returnM (dict_set (type_folder item) folder folders, Suc moved, List.insert (type_folder item) used))))"

definition organize_skill :: "wiring \<Rightarrow> uuid \<Rightarrow> args \<Rightarrow> json M" where
  "organize_skill cfg user_id a =
     bindM (list_items cfg user_id None 1 200 BY_NAME ASC) (\<lambda>page.
     let folders = foldl (\<lambda>d i. dict_set (ir_name i) i d) [] (filter (\<lambda>i. ir_item_type i = FOLDER) (pg_items page)) in
     bindM (foldM (organize_one cfg user_id) (pg_items page) (folders, 0, [])) (\<lambda>(folders, moved, used).
       returnM (JObj [(''moved_files'', JInt (int moved)), (''folders'', JList (map JStr (sort used)))])))"

definition share_item_skill :: "renderers \<Rightarrow> 'tok crypto \<Rightarrow> uuid \<Rightarrow> args \<Rightarrow> json M" where
  "share_item_skill re c user_id a =
     bindM (argM (required_uuid a ''item_id'')) (\<lambda>i.
     bindM (create_link c user_id i LINK_VIEWER None None) (\<lambda>l. returnM (dump_link re l)))"

definition trash_item_skill :: "renderers \<Rightarrow> trash_wiring \<Rightarrow> uuid \<Rightarrow> args \<Rightarrow> json M" where
  "trash_item_skill re tw user_id a =
     bindM (argM (required_uuid a ''item_id'')) (\<lambda>i. bindM (trash_item tw user_id i) (\<lambda>r. returnM (dump_item re r)))"

definition restore_item_skill :: "renderers \<Rightarrow> trash_wiring \<Rightarrow> uuid \<Rightarrow> args \<Rightarrow> json M" where
  "restore_item_skill re tw user_id a =
     bindM (argM (required_uuid a ''item_id'')) (\<lambda>i. bindM (Trash.restore tw user_id i) (\<lambda>r. returnM (dump_item re r)))"

definition write_skills :: "renderers \<Rightarrow> 'tok crypto \<Rightarrow> wiring \<Rightarrow> trash_wiring \<Rightarrow> skill list" where
  "write_skills re c cfg tw =
     [builtin ''create_folder''
        [(''name'', JObj [(''type'', JStr ''string''), (''description'', JStr ''New folder name.'')]),
         (''parent_id'', JObj [(''type'', JList [JStr ''string'', JStr ''null'']), (''description'', JStr ''Parent folder UUID; null/omitted for the root.'')])]
        [''name''] ''write'' NEW_FOLDER (create_folder_skill re cfg),
      builtin ''rename_item''
        [(''item_id'', JObj [(''type'', JStr ''string''), (''description'', JStr ''UUID of the item to rename.'')]),
         (''new_name'', JObj [(''type'', JStr ''string''), (''description'', JStr ''New name.'')])]
        [''item_id'', ''new_name''] ''write'' MUTATED_ITEM (rename_item_skill re cfg),
      builtin ''move_item''
        [(''item_id'', JObj [(''type'', JStr ''string''), (''description'', JStr ''UUID of the item to move.'')]),
         (''parent_id'', JObj [(''type'', JList [JStr ''string'', JStr ''null'']), (''description'', JStr ''Destination folder UUID; null/omitted for root.'')])]
        [''item_id''] ''write'' MUTATED_ITEM (move_item_skill re cfg),
      builtin ''star_item''
        [(''item_id'', JObj [(''type'', JStr ''string''), (''description'', JStr ''UUID of the item.'')]),
         (''starred'', JObj [(''type'', JStr ''boolean''), (''description'', JStr ''True to star, false to unstar.'')])]
        [''item_id'', ''starred''] ''write'' MUTATED_ITEM (star_item_skill re cfg),
      builtin ''organize_by_type''
        []
        [] ''write'' OPAQUE (organize_skill cfg),
      builtin ''share_item''
        [(''item_id'', JObj [(''type'', JStr ''string''), (''description'', JStr ''UUID of the item to share.'')])]
        [''item_id''] ''write'' OPAQUE (share_item_skill re c),
      builtin ''trash_item''
        [(''item_id'', JObj [(''type'', JStr ''string''), (''description'', JStr ''UUID of the item to trash.'')])]
        [''item_id''] ''destructive'' MUTATED_ITEM (trash_item_skill re tw),
      builtin ''restore_item''
        [(''item_id'', JObj [(''type'', JStr ''string''), (''description'', JStr ''UUID of the item to restore.'')])]
        [''item_id''] ''write'' MUTATED_ITEM (restore_item_skill re tw)]"

section \<open>The registry of the router\<close>

text \<open>Installed skills have a handler by name; one whose name is taken is skipped.\<close>

definition installed_skill :: "string \<Rightarrow> (uuid \<Rightarrow> uuid \<Rightarrow> json M) \<Rightarrow> skill" where
  "installed_skill name run = \<lparr>sk_name = name, sk_parameters = [(''type'', JStr ''object''), (''properties'', JObj []), (''additionalProperties'', JBool False)],
     sk_permission_tier = ''write'',
     sk_handler = (\<lambda>user_id a. case get_key ''item_id'' a of
         JNull \<Rightarrow> raiseM BadOperation
       | v \<Rightarrow> (case parse_uuid (py_str v) of None \<Rightarrow> raiseM ValueError | Some i \<Rightarrow> run user_id i)),
     sk_requires_selection = True, sk_output = OPAQUE\<rparr>"

fun register_installed :: "(string \<times> (uuid \<Rightarrow> uuid \<Rightarrow> json M)) list \<Rightarrow> registry \<Rightarrow> registry" where
  "register_installed [] reg = reg"
| "register_installed ((name, run) # rest) reg =
     register_installed rest (if get_skill reg name \<noteq> None then reg else reg @ [installed_skill name run])"

definition service_registry ::
  "renderers \<Rightarrow> 'tok crypto \<Rightarrow> wiring \<Rightarrow> trash_wiring \<Rightarrow> search \<Rightarrow> (string \<times> (uuid \<Rightarrow> uuid \<Rightarrow> json M)) list \<Rightarrow> error + registry" where
  "service_registry re c cfg tw search installed = (case build_read_only_registry re cfg search of
       Inl e \<Rightarrow> Inl e
     | Inr reg \<Rightarrow> (case register_all (write_skills re c cfg tw) reg of
         Inl e \<Rightarrow> Inl e
       | Inr reg' \<Rightarrow> Inr (register_installed installed reg')))"

definition assistant_trash :: trash_wiring where
  "assistant_trash = \<lparr>tw_activity = True, tw_snapshot_refs = True\<rparr>"

end
