(* ===== verification/WorkflowFacts.thy ===== *)
theory WorkflowFacts
  imports Workflow
begin

text \<open>
  What a run of the executor records about every step, what the executor leaves alone, and how the resolution of the
  selection renumbers a plan.
\<close>

section \<open>Results\<close>

definition waits_for :: "workflow_step \<Rightarrow> int set" where
  "waits_for s = set (ws_depends_on s) \<union> set (step_refs s)"

lemma set_blocked: "set (blocked_dependencies s un) = waits_for s \<inter> set un"
  by (auto simp: blocked_dependencies_def waits_for_def)

lemma blocked_iff: "blocked_dependencies s un \<noteq> [] \<longleftrightarrow> waits_for s \<inter> set un \<noteq> {}"
  unfolding set_blocked [symmetric] by simp

text \<open>The result \<open>r\<close> of a step \<open>s\<close> after the results \<open>before\<close>.\<close>

definition judged :: "step_result list \<Rightarrow> workflow_step \<Rightarrow> step_result \<Rightarrow> bool" where
  "judged before s r \<longleftrightarrow> sr_index r = ws_index s \<and> sr_skill r = ws_skill s
     \<and> (sr_skipped r \<longleftrightarrow> (\<exists>q \<in> set before. \<not> sr_ok q \<and> sr_index q \<in> waits_for s))
     \<and> (sr_ok r \<longleftrightarrow> \<not> sr_skipped r \<and> sr_error r = None) \<and> (sr_ok r \<longleftrightarrow> sr_output r \<noteq> None)"

definition failures :: "step_result list \<Rightarrow> int set" where
  "failures rs = sr_index ` {r \<in> set rs. \<not> sr_ok r}"

lemma blocked_by_failures:
  "set un = failures rs \<Longrightarrow> blocked_dependencies s un \<noteq> [] \<longleftrightarrow> (\<exists>q \<in> set rs. \<not> sr_ok q \<and> sr_index q \<in> waits_for s)"
  by (auto simp: blocked_iff failures_def)

lemma failures_snoc: "failures (rs @ [r]) = (if sr_ok r then failures rs else insert (sr_index r) (failures rs))"
  by (auto simp: failures_def)

lemma attempt_Inr: "attempt m w = (Inr r, w') \<Longrightarrow> m w = (r, w')"
  by (auto simp: attempt_def split: prod.splits sum.splits wf_error.splits error.splits)

text \<open>The three ways in which one step of the executor goes on.\<close>

lemma exec_steps_step:
  assumes "exec_steps reg hk ctx (s # ss) rs un w = (Inr out, w')"
  obtains (skip) "blocked_dependencies s un \<noteq> []"
      "exec_steps reg hk ctx ss (rs @ [skipped_result s (blocked_dependencies s un)]) (ws_index s # un) w = (Inr out, w')"
    | (fail) e w1 where "blocked_dependencies s un = []"
      "exec_steps reg hk ctx ss (rs @ [failed_result s e]) (ws_index s # un) w1 = (Inr out, w')"
    | (ok) v w0 w1 w2 where "blocked_dependencies s un = []" "run_step reg (hc_user_id ctx) s (ok_results rs) w0 = (Inr v, w1)"
      "exec_steps reg hk ctx ss (rs @ [ok_result s v]) un w2 = (Inr out, w')"
proof (cases "blocked_dependencies s un = []")
  case True
  with assms obtain w0 r w1 where r: "attempt (run_step reg (hc_user_id ctx) s (ok_results rs)) w0 = (Inr r, w1)"
    and rest: "(case r of
            Inl e \<Rightarrow> thenM (fire hk ON_ERROR (ctx\<lparr>hc_step := Some s, hc_error := Some (FailedWith e)\<rparr>))
              (exec_steps reg hk ctx ss (rs @ [failed_result s e]) (ws_index s # un))
          | Inr v \<Rightarrow> thenM (fire hk AFTER_STEP (ctx\<lparr>hc_step := Some s, hc_result := Some (ok_result s v)\<rparr>))
              (exec_steps reg hk ctx ss (rs @ [ok_result s v]) un)) w1 = (Inr out, w')"
    by (auto elim!: then_InrE bind_InrE)
  show thesis
  proof (cases r)
    case (Inl e)
    with rest True fail show thesis by (auto elim!: then_InrE)
  next
    case (Inr v)
    with rest have "thenM (fire hk AFTER_STEP (ctx\<lparr>hc_step := Some s, hc_result := Some (ok_result s v)\<rparr>))
              (exec_steps reg hk ctx ss (rs @ [ok_result s v]) un) w1 = (Inr out, w')" by simp
    then obtain w2 where "exec_steps reg hk ctx ss (rs @ [ok_result s v]) un w2 = (Inr out, w')" by (rule then_InrE)
    with True attempt_Inr [OF r] Inr show thesis by (intro ok) auto
  qed
qed (use assms skip in simp)

lemma judged_after:
  assumes "exec_steps reg hk ctx ss rs un w = (Inr out, w')" "set un = failures rs"
  shows "\<exists>new. out = rs @ new \<and> length new = length ss \<and> (\<forall>i < length ss. judged (rs @ take i new) (ss ! i) (new ! i))"
  using assms
proof (induction ss arbitrary: rs un w)
  case (Cons s ss)
  have more: "\<exists>new. out = rs @ new \<and> length new = length (s # ss)
      \<and> (\<forall>i < length (s # ss). judged (rs @ take i new) ((s # ss) ! i) (new ! i))"
    if r: "judged rs s r" and run: "exec_steps reg hk ctx ss (rs @ [r]) un' w1 = (Inr out, w')"
      and un': "set un' = failures (rs @ [r])" for r un' w1
  proof -
    from Cons.IH [OF run un'] obtain new where new: "out = (rs @ [r]) @ new" "length new = length ss"
      "\<forall>i < length ss. judged ((rs @ [r]) @ take i new) (ss ! i) (new ! i)" by blast
    have "judged (rs @ take i (r # new)) ((s # ss) ! i) ((r # new) ! i)" if "i < length (s # ss)" for i
      using that r new(3) by (cases i) auto
    with new show ?thesis by (intro exI [of _ "r # new"]) simp
  qed
  note free = blocked_by_failures [OF Cons.prems(2), of s]
  from Cons.prems(1) show ?case
  proof (cases rule: exec_steps_step)
    case skip
    show ?thesis using skip(2)
      by (elim more [rotated]) (use skip(1) free Cons.prems(2) in \<open>auto simp: judged_def skipped_result_def failures_snoc\<close>)
  next
    case (fail e w1)
    show ?thesis using fail(2)
      by (elim more [rotated]) (use fail(1) free Cons.prems(2) in \<open>auto simp: judged_def failed_result_def failures_snoc\<close>)
  next
    case (ok v w0 w1 w2)
    show ?thesis using ok(3)
      by (elim more [rotated]) (use ok(1) free Cons.prems(2) in \<open>auto simp: judged_def ok_result_def failures_snoc\<close>)
  qed
qed simp

section \<open>Runs return\<close>

definition never_raises :: "unit M \<Rightarrow> bool" where
  "never_raises m \<longleftrightarrow> (\<forall>w. fst (m w) = Inr ())"

definition quiet :: "hooks \<Rightarrow> bool" where
  "quiet hk \<longleftrightarrow> (\<forall>h \<in> set hk. \<forall>ctx. never_raises (snd h ctx))"

definition returning :: "registry \<Rightarrow> bool" where
  "returning reg \<longleftrightarrow> (\<forall>s \<in> set reg. \<forall>u a w. fst (sk_handler s u a w) \<noteq> Inl Diverges)"

lemma for_never_raises: "(\<And>x. x \<in> set xs \<Longrightarrow> never_raises (f x)) \<Longrightarrow> never_raises (forM xs f)"
  by (induction xs) (auto simp: never_raises_def run_then split: prod.splits sum.splits, metis fst_conv sum.distinct(1))

lemma fire_runs: "quiet hk \<Longrightarrow> \<exists>w'. fire hk ev ctx w = (Inr (), w')"
proof -
  assume "quiet hk"
  then have "never_raises (fire hk ev ctx)" unfolding fire_def by (intro for_never_raises) (simp add: quiet_def)
  then show ?thesis by (metis never_raises_def prod.collapse)
qed

lemma get_skill_mem: "get_skill reg n = Some s \<Longrightarrow> s \<in> set reg \<and> sk_name s = n"
  by (auto simp: get_skill_def find_Some_iff)

lemma skill_not_diverging: "returning reg \<Longrightarrow> fst (lift_error (execute_skill reg u n a) w) \<noteq> Inl (SkillError Diverges)"
  by (auto simp: lift_error_def execute_skill_def returning_def error_defs dest!: get_skill_mem split: option.split prod.split sum.split)
    (metis fst_conv)

lemma map_not_diverging:
  "(\<And>x w. fst (f x w) \<noteq> Inl e) \<Longrightarrow> fst (mapM f xs w) \<noteq> Inl e"
  by (induction xs arbitrary: w) (auto simp: run_bind split: prod.split sum.split, metis fst_conv, metis fst_conv)

text \<open>Resolving fails with \<open>StepResolutionError\<close> only.\<close>

lemma map_args_Inl: "map_args f d = Inl e \<Longrightarrow> \<exists>k v. (k, v) \<in> set d \<and> f k v = Inl e"
  by (induction f d rule: map_args.induct) (auto split: sum.splits)

lemma fan_out_Inl: "fan_out f n i = Inl e \<Longrightarrow> \<exists>j. f j = Inl e"
  by (induction f n i rule: fan_out.induct) (auto split: sum.splits)

lemma resolve_checked_Inl: "resolve_checked k v p = Inl e \<Longrightarrow> e = StepResolutionError"
  by (auto simp: resolve_checked_def split: sum.splits if_splits)

lemma source_output_Inl: "source_output b i = Inl e \<Longrightarrow> e = StepResolutionError"
  by (auto simp: source_output_def split: option.splits if_splits)

lemma resolve_arg_Inl: "resolve_arg b k v = Inl e \<Longrightarrow> e = StepResolutionError"
  by (cases "step_ref v"; cases "source_output b (the (step_ref v))")
    (auto simp: resolve_arg_def dest: resolve_checked_Inl source_output_Inl)

lemma resolve_arguments_Inl: "resolve_arguments a b = Inl e \<Longrightarrow> e = StepResolutionError"
  unfolding resolve_arguments_def by (auto dest!: map_args_Inl resolve_arg_Inl)

lemma collections_Inl: "collections b l d = Inl e \<Longrightarrow> e = StepResolutionError"
  by (induction b l d rule: collections.induct)
    (auto split: option.splits sum.splits json.splits if_splits dest: source_output_Inl)

lemma fill_row_Inl: "fill_row i cs row = Inl e \<Longrightarrow> e = StepResolutionError"
  by (induction i cs row rule: fill_row.induct) (auto split: sum.splits if_splits dest: resolve_checked_Inl)

lemma resolve_fanout_Inl: "resolve_fanout_arguments a b = Inl e \<Longrightarrow> e = StepResolutionError"
  unfolding resolve_fanout_arguments_def
  by (auto split: sum.splits dest: resolve_arguments_Inl collections_Inl fill_row_Inl dest!: fan_out_Inl)

lemma run_step_not_diverging:
  assumes "returning reg"
  shows "fst (run_step reg u s b w) \<noteq> Inl (SkillError Diverges)"
proof (cases "has_fanout (ws_arguments s)")
  case True
  have "fst (mapM (\<lambda>a. lift_error (execute_skill reg u (ws_skill s) a)) xs w) \<noteq> Inl (SkillError Diverges)" for xs w
    by (rule map_not_diverging) (rule skill_not_diverging [OF assms])
  moreover have "resolve_fanout_arguments (ws_arguments s) b \<noteq> Inl (SkillError Diverges)"
    by (auto dest: resolve_fanout_Inl)
  ultimately show ?thesis using True
    by (auto simp: run_step_def run_bind split: sum.split prod.split) (metis fst_conv)
next
  case False
  have "resolve_arguments (ws_arguments s) b \<noteq> Inl (SkillError Diverges)" by (auto dest: resolve_arguments_Inl)
  with False skill_not_diverging [OF assms] show ?thesis by (auto simp: run_step_def run_bind split: sum.split)
qed

lemma attempt_returns: "fst (m w) \<noteq> Inl (SkillError Diverges) \<Longrightarrow> \<exists>r w'. attempt m w = (Inr r, w')"
  by (cases "m w"; cases "fst (m w)") (auto simp: attempt_def split: wf_error.split error.split)

lemma exec_steps_return:
  assumes "quiet hk" "returning reg"
  shows "\<exists>out w'. exec_steps reg hk ctx ss rs un w = (Inr out, w')"
proof (induction ss arbitrary: rs un w)
  case (Cons s ss)
  show ?case
  proof (cases "blocked_dependencies s un = []")
    case True
    obtain w1 where 1: "fire hk BEFORE_STEP (ctx\<lparr>hc_step := Some s\<rparr>) w = (Inr (), w1)"
      using fire_runs [OF assms(1)] by blast
    obtain r w2 where 2: "attempt (run_step reg (hc_user_id ctx) s (ok_results rs)) w1 = (Inr r, w2)"
      using attempt_returns [of "run_step reg (hc_user_id ctx) s (ok_results rs)"] run_step_not_diverging [OF assms(2)] by blast
    show ?thesis
    proof (cases r)
      case (Inl e)
      obtain w3 where "fire hk ON_ERROR (ctx\<lparr>hc_step := Some s, hc_error := Some (FailedWith e)\<rparr>) w2 = (Inr (), w3)"
        using fire_runs [OF assms(1)] by blast
      with True 1 2 Inl Cons.IH show ?thesis by (simp add: run_then run_bind)
    next
      case (Inr v)
      obtain w3 where "fire hk AFTER_STEP (ctx\<lparr>hc_step := Some s, hc_result := Some (ok_result s v)\<rparr>) w2 = (Inr (), w3)"
        using fire_runs [OF assms(1)] by blast
      with True 1 2 Inr Cons.IH show ?thesis by (simp add: run_then run_bind)
    qed
  qed (use Cons.IH in simp)
qed simp

section \<open>What a run leaves alone\<close>

text \<open>The skills of the steps, the hooks, or a run leave the part \<open>f\<close> of the world as it is.\<close>

lemma keeps_lift_error: "keeps f m \<Longrightarrow> keeps f (lift_error m)"
  by (auto simp: keeps_def lift_error_def split: prod.split sum.split) (metis snd_conv)+

lemma keeps_attempt: "keeps f m \<Longrightarrow> keeps f (attempt m)"
  unfolding keeps_def attempt_def by (auto split: prod.split sum.split wf_error.split error.split) (metis snd_conv)+

lemma keeps_execute_skill:
  "(\<And>s. get_skill reg n = Some s \<Longrightarrow> keeps f (sk_handler s u a)) \<Longrightarrow> keeps f (execute_skill reg u n a)"
  by (auto simp: execute_skill_def intro: keeps_rules split: option.split)

text \<open>Hooks that leave \<open>f\<close> alone when they are given the steps \<open>all\<close>.\<close>

definition hooks_keep :: "(world \<Rightarrow> 'b) \<Rightarrow> hooks \<Rightarrow> workflow_step list \<Rightarrow> bool" where
  "hooks_keep f hk all \<longleftrightarrow> (\<forall>h \<in> set hk. \<forall>ctx. hc_steps ctx = all \<longrightarrow> keeps f (snd h ctx))"

lemma keeps_fire: "hooks_keep f hk (hc_steps ctx) \<Longrightarrow> keeps f (fire hk ev ctx)"
  unfolding fire_def by (rule keeps_for) (simp add: hooks_keep_def)

lemma keeps_run_step:
  assumes "\<And>k a. get_skill reg (ws_skill s) = Some k \<Longrightarrow> keeps f (sk_handler k u a)"
  shows "keeps f (run_step reg u s b)"
  unfolding run_step_def by (intro keeps_rules keeps_lift_error keeps_execute_skill assms)

lemma keeps_exec_steps:
  assumes hooks: "hooks_keep f hk (hc_steps ctx)"
    and "\<And>s k a. s \<in> set ss \<Longrightarrow> get_skill reg (ws_skill s) = Some k \<Longrightarrow> keeps f (sk_handler k (hc_user_id ctx) a)"
  shows "keeps f (exec_steps reg hk ctx ss rs un)"
  using assms(2)
proof (induction ss arbitrary: rs un)
  case (Cons s ss)
  have ih: "keeps f (exec_steps reg hk ctx ss rs un)" for rs un
    by (rule Cons.IH) (rule Cons.prems, auto)
  have step: "keeps f (attempt (run_step reg (hc_user_id ctx) s b))" for b
    by (intro keeps_attempt keeps_run_step Cons.prems) auto
  have rest: "keeps f (case r of
            Inl e \<Rightarrow> thenM (fire hk ON_ERROR (ctx\<lparr>hc_step := Some s, hc_error := Some (FailedWith e)\<rparr>))
              (exec_steps reg hk ctx ss (rs @ [failed_result s e]) (ws_index s # un))
          | Inr v \<Rightarrow> thenM (fire hk AFTER_STEP (ctx\<lparr>hc_step := Some s, hc_result := Some (ok_result s v)\<rparr>))
              (exec_steps reg hk ctx ss (rs @ [ok_result s v]) un))" for r rs un
    by (cases r) (auto intro!: keeps_then keeps_fire ih simp: hooks)
  show ?case unfolding exec_steps.simps Let_def by (intro keeps_if ih keeps_then keeps_bind keeps_fire step rest) (simp add: hooks)
qed (simp add: keeps_return)

lemma keeps_execute:
  assumes "hooks_keep f hk ss"
    and "\<And>s k a. s \<in> set ss \<Longrightarrow> get_skill reg (ws_skill s) = Some k \<Longrightarrow> keeps f (sk_handler k u a)"
  shows "keeps f (execute reg hk u ss)"
  unfolding execute_def by (intro keeps_then keeps_fire keeps_exec_steps) (simp_all add: run_context_def assms)

text \<open>The same for invariants.\<close>

lemma preserves_lift_error: "preserves I m \<Longrightarrow> preserves I (lift_error m)"
  unfolding preserves_def lift_error_def by (auto split: prod.split sum.split)

lemma preserves_attempt: "preserves I m \<Longrightarrow> preserves I (attempt m)"
  unfolding preserves_def attempt_def by (auto split: prod.split sum.split wf_error.split error.split)

definition handlers_preserve :: "(world \<Rightarrow> bool) \<Rightarrow> registry \<Rightarrow> hooks \<Rightarrow> bool" where
  "handlers_preserve I reg hk \<longleftrightarrow> (\<forall>k \<in> set reg. \<forall>u a. preserves I (sk_handler k u a)) \<and> (\<forall>h \<in> set hk. \<forall>ctx. preserves I (snd h ctx))"

lemma preserves_fire: "handlers_preserve I reg hk \<Longrightarrow> preserves I (fire hk ev ctx)"
  unfolding fire_def handlers_preserve_def by (rule preserves_for) simp

lemma preserves_execute_skill: "handlers_preserve I reg hk \<Longrightarrow> preserves I (execute_skill reg u n a)"
  by (auto simp: execute_skill_def handlers_preserve_def intro: pres_rules dest: get_skill_mem split: option.split)

lemma preserves_run_step: "handlers_preserve I reg hk \<Longrightarrow> preserves I (run_step reg u s b)"
  unfolding run_step_def by (intro pres_rules preserves_lift_error preserves_execute_skill)

lemma preserves_exec_steps:
  assumes "handlers_preserve I reg hk"
  shows "preserves I (exec_steps reg hk ctx ss rs un)"
proof (induction ss arbitrary: rs un)
  case (Cons s ss)
  have rest: "preserves I (case r of
            Inl e \<Rightarrow> thenM (fire hk ON_ERROR (ctx\<lparr>hc_step := Some s, hc_error := Some (FailedWith e)\<rparr>))
              (exec_steps reg hk ctx ss (rs @ [failed_result s e]) (ws_index s # un))
          | Inr v \<Rightarrow> thenM (fire hk AFTER_STEP (ctx\<lparr>hc_step := Some s, hc_result := Some (ok_result s v)\<rparr>))
              (exec_steps reg hk ctx ss (rs @ [ok_result s v]) un))" for r rs un
    by (cases r) (auto intro!: preserves_then preserves_fire [OF assms] Cons.IH)
  show ?case unfolding exec_steps.simps Let_def
    by (intro preserves_if Cons.IH preserves_then preserves_bind preserves_attempt preserves_fire [OF assms]
        preserves_run_step [OF assms] rest)
qed (simp add: preserves_return)

lemma preserves_execute: "handlers_preserve I reg hk \<Longrightarrow> preserves I (execute reg hk u ss)"
  unfolding execute_def by (intro preserves_then preserves_fire preserves_exec_steps)

section \<open>Plans\<close>

text \<open>A plan whose steps are numbered in order and wait for earlier steps only.\<close>

definition plan_from :: "nat \<Rightarrow> workflow_step list \<Rightarrow> bool" where
  "plan_from k ss \<longleftrightarrow> (\<forall>i < length ss. ws_index (ss ! i) = int (k + i)
     \<and> (\<forall>d \<in> waits_for (ss ! i). 0 \<le> d \<and> d < int (k + i)))"

abbreviation plan_ok :: "workflow_step list \<Rightarrow> bool" where "plan_ok \<equiv> plan_from 0"

lemma plan_from_Cons:
  "plan_from k (s # ss) \<longleftrightarrow> ws_index s = int k \<and> (\<forall>d \<in> waits_for s. 0 \<le> d \<and> d < int k) \<and> plan_from (Suc k) ss"
  unfolding plan_from_def length_Cons All_less_Suc2 by auto

lemma plan_from_append: "plan_from k (xs @ ys) \<longleftrightarrow> plan_from k xs \<and> plan_from (k + length xs) ys"
proof (induction xs arbitrary: k)
  case Nil
  show ?case by (simp add: plan_from_def)
qed (simp add: plan_from_Cons)

text \<open>The dicts that the service makes of selected items.\<close>

definition selection_item :: "string \<Rightarrow> string \<Rightarrow> string \<Rightarrow> args" where
  "selection_item i name ty = [(''id'', JStr i), (''name'', JStr name), (''item_type'', JStr ty)]"

definition selection_ok :: "args list \<Rightarrow> bool" where
  "selection_ok selected \<longleftrightarrow> (\<forall>item \<in> set selected. \<exists>i name ty. item = selection_item i name ty)"

lemma selection_value_plain:
  assumes "selection_ok selected" "selection_value v selected i = Inr u"
  shows "\<not> is_selection_ref u \<and> step_ref u = None"
proof -
  from assms(2) obtain j where j: "j < length selected"
    and u: "u = get_key ''id'' (selected ! j) \<or> (\<exists>path. resolve_path (JObj (selected ! j)) path = Inr u)"
    by (auto simp: selection_value_def Let_def split: json.splits if_splits) (metis nat_less_iff)+
  from j assms(1) obtain a b c where item: "selected ! j = selection_item a b c"
    unfolding selection_ok_def by (meson nth_mem)
  have "(\<exists>s. u = JStr s) \<or> u = JObj (selection_item a b c)"
  proof (cases "u = get_key ''id'' (selected ! j)")
    case False
    with u item obtain path where "resolve_parts (JObj (selection_item a b c)) (path_parts path) = Inr u"
      by (auto simp: resolve_path_def)
    then show ?thesis
      by (cases "(JObj (selection_item a b c), path_parts path)" rule: resolve_parts.cases; cases "tl (path_parts path)")
        (auto simp: selection_item_def split: sum.splits option.splits if_splits)
  qed (simp add: item selection_item_def get_or_def)
  then show ?thesis by (auto simp: is_selection_ref_def step_ref_def selection_item_def)
qed

definition renumbers :: "renumbering \<Rightarrow> nat \<Rightarrow> nat \<Rightarrow> bool" where
  "renumbers m k n \<longleftrightarrow> (\<forall>d. 0 \<le> d \<and> d < int k \<longrightarrow> (\<exists>ns. m d = Some ns \<and> ns \<noteq> [] \<and> (\<forall>x \<in> set ns. 0 \<le> x \<and> x < int n)))"

lemma remap_ok:
  assumes "renumbers m k n" "\<forall>d. step_ref v = Some d \<longrightarrow> 0 \<le> d \<and> d < int k" "\<not> is_selection_ref v"
  shows "\<exists>u. remap_step_ref v m = Inr u \<and> \<not> is_selection_ref u \<and> (\<forall>d. step_ref u = Some d \<longrightarrow> 0 \<le> d \<and> d < int n)"
proof (cases "\<exists>d. v = JObj d \<and> step_ref v \<noteq> None")
  case True
  then obtain d old where v: "v = JObj d" "step_ref v = Some old" by auto
  with assms obtain x ns where m: "m old = Some (x # ns)" "0 \<le> x" "x < int n"
    unfolding renumbers_def by (metis list.exhaust list.set_intros(1))
  let ?u = "JObj (dict_set ''from'' (JInt x) (filter (\<lambda>(k, v). k \<noteq> ''from_step'') d))"
  have "ref_source ?u = JInt x" by (simp add: get_or_def)
  with v m show ?thesis by (auto simp: is_selection_ref_def step_ref_def)
next
  case False
  then show ?thesis using assms(3) by (cases v) (auto simp: step_ref_def is_selection_ref_def)
qed

lemma select_arg_ok:
  assumes "selection_ok selected" "renumbers m k n" "\<forall>d. step_ref v = Some d \<longrightarrow> 0 \<le> d \<and> d < int k"
  shows "case select_arg selected m each i key v of
      Inl e \<Rightarrow> \<exists>j. is_selection_ref v \<and> selection_value v selected j = Inl e
    | Inr u \<Rightarrow> \<not> is_selection_ref u \<and> (\<forall>d. step_ref u = Some d \<longrightarrow> 0 \<le> d \<and> d < int n)"
proof (cases "is_selection_ref v")
  case True
  define j where "j = (if key \<in> set each then i else None)"
  have "select_arg selected m each i key v = selection_value v selected j" using True by (simp add: select_arg_def j_def)
  then show ?thesis using True selection_value_plain [OF assms(1), of v j] by (auto split: sum.split)
next
  case False
  with remap_ok [OF assms(2,3)] show ?thesis by (auto simp: select_arg_def)
qed

lemma map_args_Inr: "map_args f d = Inr d' \<Longrightarrow> map fst d' = map fst d \<and> (\<forall>(k, u) \<in> set d'. \<exists>v. (k, v) \<in> set d \<and> f k v = Inr u)"
  by (induction f d arbitrary: d' rule: map_args.induct) (fastforce split: sum.splits)+

lemma fan_out_Inr: "fan_out f n i = Inr xs \<Longrightarrow> length xs = n \<and> (\<forall>j < n. f (i + j) = Inr (xs ! j))"
  by (induction f n i arbitrary: xs rule: fan_out.induct) (auto simp: less_Suc_eq_0_disj split: sum.splits)

text \<open>References of an argument dict.\<close>

definition refs_below :: "nat \<Rightarrow> args \<Rightarrow> bool" where
  "refs_below n a \<longleftrightarrow> (\<forall>(k, v) \<in> set a. \<forall>d. step_ref v = Some d \<longrightarrow> 0 \<le> d \<and> d < int n)"

definition unselected :: "args \<Rightarrow> bool" where
  "unselected a \<longleftrightarrow> (\<forall>(k, v) \<in> set a. \<not> is_selection_ref v)"

lemma set_step_refs: "set (step_refs s) = {d. \<exists>(k, v) \<in> set (ws_arguments s). step_ref v = Some d}"
  by (force simp: step_refs_def List.map_filter_def)

lemma waits_below:
  "(\<forall>d \<in> waits_for s. 0 \<le> d \<and> d < int n) \<longleftrightarrow> (\<forall>d \<in> set (ws_depends_on s). 0 \<le> d \<and> d < int n) \<and> refs_below n (ws_arguments s)"
  by (fastforce simp: waits_for_def set_step_refs refs_below_def)

section \<open>Resolving the selection\<close>

definition copies :: "registry \<Rightarrow> args list \<Rightarrow> workflow_step \<Rightarrow> nat" where
  "copies reg selected s = (if each_keys (bound_arguments reg s) = [] then 1 else length selected)"

text \<open>What an error of the resolution is: a selection reference of the step that names nothing.\<close>

definition unresolved :: "registry \<Rightarrow> args list \<Rightarrow> wf_error \<Rightarrow> workflow_step \<Rightarrow> bool" where
  "unresolved reg selected e s \<longleftrightarrow> (\<exists>(k, v) \<in> set (bound_arguments reg s). is_selection_ref v \<and> (\<exists>j. selection_value v selected j = Inl e))"

lemma bound_refs: "refs_below n (ws_arguments s) \<Longrightarrow> refs_below n (bound_arguments reg s)"
proof -
  have "step_ref (JObj [(''from'', JStr ''selection''), (''each'', JBool True)]) = None" by (simp add: step_ref_def get_or_def)
  moreover assume "refs_below n (ws_arguments s)"
  ultimately show ?thesis by (fastforce simp: refs_below_def bound_arguments_def Let_def split: if_splits dest: dict_set_mem)
qed

lemma selected_row:
  assumes "selection_ok selected" "renumbers m k n" "refs_below k args" "map_args (select_arg selected m each i) args = Inr a"
  shows "refs_below n a \<and> unselected a"
proof -
  have "\<not> is_selection_ref u \<and> (\<forall>d. step_ref u = Some d \<longrightarrow> 0 \<le> d \<and> d < int n)" if "(key, u) \<in> set a" for key u
  proof -
    from map_args_Inr [OF assms(4)] that obtain v where v: "(key, v) \<in> set args" "select_arg selected m each i key v = Inr u" by blast
    with assms(3) have "\<forall>d. step_ref v = Some d \<longrightarrow> 0 \<le> d \<and> d < int k" by (auto simp: refs_below_def)
    from select_arg_ok [OF assms(1,2) this, of each i key] v(2) show ?thesis by simp
  qed
  then show ?thesis by (auto simp: refs_below_def unselected_def)
qed

lemma selected_row_error:
  assumes "selection_ok selected" "renumbers m k n" "refs_below k args" "map_args (select_arg selected m each i) args = Inl e"
  shows "\<exists>(key, v) \<in> set args. is_selection_ref v \<and> (\<exists>j. selection_value v selected j = Inl e)"
proof -
  from map_args_Inl [OF assms(4)] obtain key v where v: "(key, v) \<in> set args" "select_arg selected m each i key v = Inl e" by blast
  with assms(3) have "\<forall>d. step_ref v = Some d \<longrightarrow> 0 \<le> d \<and> d < int k" by (auto simp: refs_below_def)
  from select_arg_ok [OF assms(1,2) this, of each i key] v show ?thesis by auto
qed

lemma selected_arguments_result:
  assumes "selection_ok selected" "renumbers m k n" "refs_below k (ws_arguments s)"
  shows "case selected_arguments reg selected m s of
      Inl e \<Rightarrow> unresolved reg selected e s
    | Inr rows \<Rightarrow> length rows = copies reg selected s \<and> (\<forall>a \<in> set rows. refs_below n a \<and> unselected a)"
proof -
  define each where "each = each_keys (bound_arguments reg s)"
  define f where "f = (\<lambda>i. map_args (select_arg selected m each (if each = [] then None else Some (int i))) (bound_arguments reg s))"
  have run: "selected_arguments reg selected m s = fan_out f (copies reg selected s) 0"
    unfolding selected_arguments_def copies_def Let_def f_def each_def [symmetric] by (cases "each = []") simp_all
  show ?thesis
  proof (cases "selected_arguments reg selected m s")
    case (Inl e)
    with fan_out_Inl run obtain j where "f j = Inl e" by metis
    from selected_row_error [OF assms(1,2) bound_refs [OF assms(3)] this [unfolded f_def]] Inl show ?thesis
      by (simp add: unresolved_def)
  next
    case (Inr rows)
    with run have rows: "fan_out f (copies reg selected s) 0 = Inr rows" by simp
    have "refs_below n a \<and> unselected a" if "a \<in> set rows" for a
    proof -
      from fan_out_Inr [OF rows] that obtain j where "f j = Inr a" by (auto simp: in_set_conv_nth)
      then show ?thesis unfolding f_def by (rule selected_row [OF assms(1,2) bound_refs [OF assms(3)]])
    qed
    with Inr fan_out_Inr [OF rows] show ?thesis by simp
  qed
qed

lemma step_copies_nth:
  "i < length rows \<Longrightarrow> step_copies s deps n rows ! i = s\<lparr>ws_index := int (n + i), ws_arguments := rows ! i, ws_depends_on := deps\<rparr>"
  by (simp add: step_copies_def nth_enumerate_eq)

lemma length_step_copies [simp]: "length (step_copies s deps n rows) = length rows"
  by (simp add: step_copies_def)

lemma step_copies_plan:
  assumes "\<forall>d \<in> set deps. 0 \<le> d \<and> d < int n" "\<forall>a \<in> set rows. refs_below n a"
  shows "plan_from n (step_copies s deps n rows)"
proof -
  have "\<forall>d \<in> waits_for (step_copies s deps n rows ! i). 0 \<le> d \<and> d < int (n + i)" if "i < length rows" for i
    using waits_below [of "step_copies s deps n rows ! i" n] assms that by (fastforce simp: step_copies_nth)
  then show ?thesis by (simp add: plan_from_def step_copies_nth)
qed

lemma remap_deps_below:
  assumes "renumbers m k n" "\<forall>d \<in> set ds. 0 \<le> d \<and> d < int k"
  shows "\<forall>d \<in> set (remap_deps ds m). 0 \<le> d \<and> d < int n"
  using assms unfolding renumbers_def remap_deps_def by fastforce

lemma renumbers_next:
  assumes "renumbers m k n" "rows \<noteq> []"
  shows "renumbers (m(int k \<mapsto> map ws_index (step_copies s deps n rows))) (Suc k) (n + length rows)"
proof -
  have ix: "map ws_index (step_copies s deps n rows) = map int [n..<n + length rows]"
    by (rule nth_equalityI) (simp_all add: step_copies_nth)
  show ?thesis
    unfolding renumbers_def
  proof (intro allI impI)
    fix d assume d: "0 \<le> d \<and> d < int (Suc k)"
    show "\<exists>ns. (m(int k \<mapsto> map ws_index (step_copies s deps n rows))) d = Some ns \<and> ns \<noteq> []
        \<and> (\<forall>x \<in> set ns. 0 \<le> x \<and> x < int (n + length rows))"
    proof (cases "d = int k")
      case True
      then show ?thesis using assms(2) by (simp add: ix)
    next
      case False
      with d have "0 \<le> d \<and> d < int k" by auto
      with assms(1) obtain ns where "m d = Some ns" "ns \<noteq> []" "\<forall>x \<in> set ns. 0 \<le> x \<and> x < int n"
        unfolding renumbers_def by blast
      with False show ?thesis by force
    qed
  qed
qed

lemma apply_from_result:
  assumes "selection_ok selected" "selected \<noteq> []" "renumbers m k (length expanded)" "plan_ok expanded" "plan_from k ss"
    and "\<forall>s \<in> set expanded. unselected (ws_arguments s)"
  shows "case apply_from reg selected m expanded ss of
      Inl e \<Rightarrow> \<exists>s \<in> set ss. unresolved reg selected e s
    | Inr out \<Rightarrow> plan_ok out \<and> (\<forall>s \<in> set out. unselected (ws_arguments s))
        \<and> length out = length expanded + sum_list (map (copies reg selected) ss)"
  using assms(3-)
proof (induction ss arbitrary: m k expanded)
  case (Cons s ss)
  let ?n = "length expanded"
  from Cons.prems(3) have s: "ws_index s = int k" "plan_from (Suc k) ss"
    and deps: "\<forall>d \<in> set (ws_depends_on s). 0 \<le> d \<and> d < int k" and refs: "refs_below k (ws_arguments s)"
    by (auto simp: plan_from_Cons waits_below)
  note step = selected_arguments_result [OF assms(1) Cons.prems(1) refs, of reg]
  show ?case
  proof (cases "selected_arguments reg selected m s")
    case (Inl e)
    with step show ?thesis by simp
  next
    case (Inr rows)
    with step have rows: "length rows = copies reg selected s" "\<forall>a \<in> set rows. refs_below ?n a \<and> unselected a" by auto
    then have ne: "rows \<noteq> []" using assms(2) by (auto simp: copies_def split: if_splits)
    let ?new = "step_copies s (remap_deps (ws_depends_on s) m) ?n rows"
    have "plan_from ?n ?new" using remap_deps_below [OF Cons.prems(1) deps] rows(2) by (intro step_copies_plan) auto
    then have plan: "plan_ok (expanded @ ?new)" using Cons.prems(2) by (simp add: plan_from_append)
    have "unselected (ws_arguments t)" if "t \<in> set ?new" for t
    proof -
      from that obtain i where i: "i < length rows" "t = ?new ! i" by (auto simp: in_set_conv_nth)
      then have "ws_arguments t = rows ! i" by (simp add: step_copies_nth)
      with i(1) rows(2) show ?thesis by (simp add: nth_mem)
    qed
    with Cons.prems(4) have un: "\<forall>t \<in> set (expanded @ ?new). unselected (ws_arguments t)" by auto
    have rn: "renumbers (m(ws_index s \<mapsto> map ws_index ?new)) (Suc k) (length (expanded @ ?new))"
      using renumbers_next [OF Cons.prems(1) ne] s(1) by simp
    define m' where "m' = m(ws_index s \<mapsto> map ws_index ?new)"
    have "apply_from reg selected m expanded (s # ss) = apply_from reg selected m' (expanded @ ?new) ss"
      using Inr by (simp add: Let_def m'_def)
    with Cons.IH [OF rn plan s(2) un, folded m'_def] rows(1) show ?thesis by (auto split: sum.splits)
  qed
qed simp

end
