(* ===== verification/AssistantFacts.thy ===== *)
theory AssistantFacts
  imports Skills WorkflowFacts
begin

text \<open>
  What the assistant's read skills leave alone, that classification and the selection keep track of what needs
  approval, and what a request to the assistant changes before it is confirmed.
\<close>

section \<open>Read skills only read\<close>

lemma keeps_skill_reads:
  "keeps f (list_items cfg u p pg n s ord)" "keeps f (get_item cfg u i)" "keeps f (get_item_any_state cfg u i)"
  "keeps f (get_recent cfg u n)" "keeps f (list_trash u pg n q)"
  unfolding list_items_def get_item_def get_item_any_state_def get_recent_def list_trash_def get_recent_item_ids_def list_deleted_def
    split_def drive_starred_def drive_badges_def get_viewable_def get_live_def
  by (intro keeps_rules)+

lemma keeps_read_skills:
  assumes "\<And>u q ty m pg n. keeps f (search u q ty m pg n)" "s \<in> set (read_only_skills re cfg search)"
  shows "keeps f (sk_handler s u a)"
proof -
  have "keeps f (list_items_skill re cfg u a)" "keeps f (get_info_skill re cfg u a)" "keeps f (search_skill search u a)"
    "keeps f (find_folder_skill search u a)" "keeps f (recent_skill re cfg u a)" "keeps f (storage_quota_skill re u a)"
    "keeps f (list_trash_skill re u a)"
    unfolding list_items_skill_def get_info_skill_def search_skill_def find_folder_skill_def recent_skill_def
      storage_quota_skill_def list_trash_skill_def
    by (intro keeps_rules keeps_skill_reads assms(1))+
  with assms(2) show ?thesis by (auto simp: read_only_skills_def builtin_def)
qed

section \<open>What needs approval\<close>

text \<open>A step says truly whether its skill does more than read.\<close>

definition honest :: "registry \<Rightarrow> workflow_step \<Rightarrow> bool" where
  "honest reg s \<longleftrightarrow> (\<forall>k. get_skill reg (ws_skill s) = Some k \<longrightarrow> ws_requires_approval s = (sk_permission_tier k \<noteq> READ_TIER))"

lemma classify_step_honest: "classify_step reg i p = Inr s \<Longrightarrow> honest reg s"
  by (auto simp: classify_step_def honest_def split: option.splits if_splits)

lemma classify_from_honest: "classify_from reg i ps = Inr ss \<Longrightarrow> s \<in> set ss \<Longrightarrow> honest reg s"
proof (induction ps arbitrary: i ss)
  case (Cons p ps)
  then obtain t ts where "classify_step reg i p = Inr t" "classify_from reg (Suc i) ps = Inr ts" "ss = t # ts"
    by (auto split: sum.splits)
  with Cons classify_step_honest show ?case by auto
qed simp

lemma classify_honest: "classify_steps ps reg = Inr ss \<Longrightarrow> \<forall>s \<in> set ss. honest reg s"
  unfolding classify_steps_def using classify_from_honest by blast

definition copy_of :: "workflow_step \<Rightarrow> workflow_step \<Rightarrow> bool" where
  "copy_of s t \<longleftrightarrow> ws_skill t = ws_skill s \<and> ws_requires_approval t = ws_requires_approval s"

lemma honest_copy: "honest reg s \<Longrightarrow> copy_of s t \<Longrightarrow> honest reg t"
  by (simp add: honest_def copy_of_def)

lemma step_copies_copy: "t \<in> set (step_copies s deps n rows) \<Longrightarrow> copy_of s t"
  by (auto simp: step_copies_def copy_of_def)

lemma apply_from_copies:
  "apply_from reg selected m expanded ss = Inr out \<Longrightarrow> t \<in> set out \<Longrightarrow> t \<in> set expanded \<or> (\<exists>s \<in> set ss. copy_of s t)"
proof (induction ss arbitrary: m expanded)
  case (Cons s ss)
  then obtain rows where "selected_arguments reg selected m s = Inr rows" by (auto split: sum.splits)
  with Cons.prems(1) obtain m' new where new: "apply_from reg selected m' (expanded @ new) ss = Inr out" "\<forall>t \<in> set new. copy_of s t"
    using step_copies_copy by (auto simp: Let_def)
  from Cons.IH [OF new(1) Cons.prems(2)] new(2) show ?case by auto
qed simp

lemma grounded_honest:
  "grounded a steps selected = Inr (Some out) \<Longrightarrow> \<forall>s \<in> set steps. honest (as_registry a) s \<Longrightarrow> t \<in> set out \<Longrightarrow> honest (as_registry a) t"
  using honest_copy
  by (auto simp: grounded_def apply_selection_def split: if_splits sum.splits dest!: apply_from_copies)

lemma recon_steps_sub: "recon_steps ss skipped = Inr out \<Longrightarrow> t \<in> set out \<Longrightarrow> t \<in> set ss \<and> ws_index t \<notin> set skipped"
proof (induction ss arbitrary: out)
  case (Cons s ss)
  show ?case
  proof (cases "ws_index s \<in> set skipped")
    case False
    with Cons.prems obtain rest where "recon_steps ss skipped = Inr rest" "t = s \<or> t \<in> set rest"
      by (auto split: sum.splits if_splits)
    with Cons.IH False show ?thesis by auto
  qed (use Cons in auto)
qed simp

text \<open>A plan without problems can be classified, and is then in order.\<close>

lemma classified_plan:
  "validate_plan ss reg pre = [] \<Longrightarrow> \<exists>out. classify_from reg (length pre) ss = Inr out \<and> plan_from (length pre) out
    \<and> map ws_skill out = map ps_skill ss \<and> (\<forall>s \<in> set out. get_skill reg (ws_skill s) \<noteq> None)"
proof (induction ss arbitrary: pre)
  case (Cons s ss)
  from Cons.prems have s: "step_problems reg (pre @ s # ss) (int (length pre)) s = []" and "validate_plan ss reg (pre @ [s]) = []"
    by (simp_all add: validate_append)
  from Cons.IH [OF this(2)] obtain out where out: "classify_from reg (Suc (length pre)) ss = Inr out" "plan_from (Suc (length pre)) out"
    "map ws_skill out = map ps_skill ss" "\<forall>s \<in> set out. get_skill reg (ws_skill s) \<noteq> None" by auto
  from s obtain k where k: "get_skill reg (ps_skill s) = Some k" by (auto simp: step_problems_def split: option.splits)
  with s have deps: "\<forall>d \<in> set (ps_depends_on s). 0 \<le> d \<and> d < int (length pre)"
    and args: "\<forall>(a, v) \<in> set (ps_arguments s). argument_problems reg (pre @ s # ss) (int (length pre)) a v = []"
    by (auto simp: step_problems_def filter_empty_conv)
  have "\<not> list_ex (\<lambda>d. d < 0 \<or> d \<ge> int (length pre)) (ps_depends_on s)" using deps by (auto simp: list_ex_iff)
  then obtain t where t: "classify_step reg (length pre) s = Inr t" "ws_index t = int (length pre)" "ws_skill t = ps_skill s"
    "ws_arguments t = ps_arguments s" "ws_depends_on t = ps_depends_on s"
    using k by (simp add: classify_step_def)
  have "refs_below (length pre) (ps_arguments s)" using args argument_fine unfolding refs_below_def by fastforce
  with t deps have "\<forall>d \<in> waits_for t. 0 \<le> d \<and> d < int (length pre)" by (simp add: waits_below)
  with t k out show ?case by (intro exI [of _ "t # out"]) (simp add: plan_from_Cons)
qed (simp add: plan_from_def)

section \<open>Before the confirmation\<close>

text \<open>The part \<open>f\<close> of the world is out of reach of skills that only read and of the hooks of plans that only read.\<close>

definition reads_keep :: "(world \<Rightarrow> 'b) \<Rightarrow> assistant \<Rightarrow> bool" where
  "reads_keep f a \<longleftrightarrow> (\<forall>k \<in> set (as_registry a). sk_permission_tier k = READ_TIER \<longrightarrow> (\<forall>u args. keeps f (sk_handler k u args)))
     \<and> (\<forall>ss. filter ws_requires_approval ss = [] \<longrightarrow> hooks_keep f (as_hooks a) ss)
     \<and> (\<forall>handle u m. as_authoring a = Some handle \<longrightarrow> keeps f (handle u m))"

definition ignores_workflows :: "(world \<Rightarrow> 'b) \<Rightarrow> bool" where
  "ignores_workflows f \<longleftrightarrow> (\<forall>w g. f (workflows_update g w) = f w) \<and> (\<forall>w g. f (workflow_runs_update g w) = f w)
     \<and> (\<forall>w n. f (w\<lparr>uuid_next := n\<rparr>) = f w)"

lemma keeps_arg: "(\<And>x. v = Inr x \<Longrightarrow> keeps f (h x)) \<Longrightarrow> keeps f (bindM (liftM (\<lambda>_. v)) h)"
  by (auto simp: keeps_def run_bind split: sum.split)

lemma keeps_workflow_rows:
  assumes "ignores_workflows f"
  shows "keeps f (record_run u i m b rs)" "keeps f (create_pending u s m ss)" "keeps f uuid4"
  using assms unfolding record_run_def create_pending_def ignores_workflows_def Let_def add_workflow_def
  by (intro keeps_rules keeps_uuid4 keeps_modify; simp)+

lemma keeps_run_plan:
  assumes "reads_keep f a" "\<And>s. s \<in> set ss \<Longrightarrow> honest (as_registry a) s \<and> \<not> ws_requires_approval s"
  shows "keeps f (run_plan a u ss)"
  unfolding run_plan_def
proof (rule keeps_execute)
  show "hooks_keep f (as_hooks a) ss" using assms unfolding reads_keep_def by (simp add: filter_empty_conv)
next
  fix s k args assume "s \<in> set ss" "get_skill (as_registry a) (ws_skill s) = Some k"
  with assms get_skill_mem show "keeps f (sk_handler k u args)" unfolding honest_def reads_keep_def by blast
qed

lemma keeps_planning: "keeps f (plan pl reg m sel hist pre)"
  unfolding plan_def by (rule keeps_plan)

lemma keeps_followup:
  assumes "reads_keep f a"
  shows "keeps f (maybe_plan_followup a p u m sel hist)"
  unfolding maybe_plan_followup_def Let_def
proof (intro keeps_if keeps_return keeps_arg)
  fix classified recon
  assume c: "classify_steps (pr_steps p) (as_registry a) = Inr classified"
    and r: "recon_steps classified (map ws_index (filter ws_requires_approval classified)) = Inr recon"
  have "honest (as_registry a) s \<and> \<not> ws_requires_approval s" if "s \<in> set recon" for s
    using recon_steps_sub [OF r that] classify_honest [OF c] by auto
  then show "keeps f (bindM (run_plan a u recon) (\<lambda>results.
      bindM (plan (as_planner a) (as_registry a) (as_followup_text a m results (map ws_index recon)) sel hist
          (renumber_kept (pr_steps p) (map ws_index recon))) (\<lambda>followup.
        if pr_steps followup = [] then returnM p
        else returnM \<lparr>pr_reply = (if pr_reply followup \<noteq> [] then pr_reply followup else pr_reply p),
          pr_steps = renumber_kept (pr_steps p) (map ws_index recon) @ pr_steps followup, pr_needs_followup = False\<rparr>)))"
    by (intro keeps_bind keeps_run_plan [OF assms] keeps_planning keeps_if keeps_return) auto
qed

lemma keeps_replan:
  assumes "reads_keep f a" "ignores_workflows f"
  shows "keeps f (replan_after_failure a u m sel sid rs hist)"
proof -
  have inner: "keeps f (if has_selection_reference steps (as_registry a) \<or> \<not> is_auto_confirmable steps then returnM None
      else bindM (run_plan a u steps) (\<lambda>new_results.
        thenM (record_run u None (m @ '' [replan]'') (all_ok new_results) new_results)
          (returnM (Some \<lparr>ch_session_id = sid, ch_message = report (pr_reply p) True new_results,
             ch_plan = Some (None, AUTO_EXECUTED, steps), ch_results = new_results\<rparr>))))"
    if c: "classify_steps (pr_steps p) (as_registry a) = Inr steps" for p :: plan_result and steps
  proof (cases "is_auto_confirmable steps")
    case True
    with classify_honest [OF c] have "keeps f (run_plan a u steps)"
      by (intro keeps_run_plan [OF assms(1)]) (auto simp: is_auto_confirmable_def list_all_iff)
    then show ?thesis by (intro keeps_bind keeps_then keeps_if keeps_return keeps_workflow_rows [OF assms(2)])
  qed (simp add: keeps_return)
  show ?thesis unfolding replan_after_failure_def
    by (rule keeps_bind, rule keeps_planning, rule keeps_if, rule keeps_return, rule keeps_arg, erule inner)
qed

lemma keeps_chat:
  assumes "reads_keep f a" "ignores_workflows f"
  shows "keeps f (chat a u m sid ids hist)"
proof -
  have auto: "keeps f (chat_auto a u m sel s hist p steps)"
    if "is_auto_confirmable steps" "\<forall>s \<in> set steps. honest (as_registry a) s" for sel s p steps
  proof -
    have run: "keeps f (run_plan a u steps)"
      using that by (intro keeps_run_plan [OF assms(1)]) (auto simp: is_auto_confirmable_def list_all_iff)
    show ?thesis unfolding chat_auto_def
      by (intro keeps_bind keeps_then keeps_if keeps_return keeps_replan [OF assms] keeps_workflow_rows [OF assms(2)] keeps_case_option run)
  qed
  have store: "keeps f (chat_store u m s p steps)" for s p steps
    unfolding chat_store_def by (intro keeps_bind keeps_return keeps_workflow_rows [OF assms(2)])
  have planned: "keeps f (chat_planned a u m sel s hist p)" for sel s p
    unfolding chat_planned_def
  proof (intro keeps_arg keeps_bind keeps_followup [OF assms(1)])
    fix q :: plan_result and classified g assume c: "classify_steps (pr_steps q) (as_registry a) = Inr classified" and g: "grounded a classified sel = Inr g"
    show "keeps f (case g of None \<Rightarrow> returnM \<lparr>ch_session_id = s, ch_message = SelectFilesFirst, ch_plan = None, ch_results = []\<rparr>
        | Some steps \<Rightarrow> if is_auto_confirmable steps then chat_auto a u m sel s hist q steps else chat_store u m s q steps)"
    proof (cases g)
      case (Some steps)
      with g have "\<forall>s \<in> set steps. honest (as_registry a) s" using grounded_honest classify_honest [OF c] by blast
      with Some store auto show ?thesis by simp
    qed (simp add: keeps_return)
  qed
  have selection: "keeps f (resolve_selection a u ids)"
  proof (induction ids)
    case (Cons i ids)
    show ?case unfolding resolve_selection.simps by (intro keeps_rules keeps_skill_reads Cons.IH)
  qed (simp only: resolve_selection.simps keeps_return)
  have authored: "keeps f (case as_authoring a of None \<Rightarrow> returnM None | Some handle \<Rightarrow> handle u m)"
    using assms(1) by (auto simp: reads_keep_def intro: keeps_return split: option.split)
  show ?thesis unfolding chat_def
    by (intro keeps_bind keeps_case_option keeps_if keeps_return keeps_planning planned selection authored keeps_workflow_rows [OF assms(2)])
qed

text \<open>The assistant as the router builds it.\<close>

lemma register_all_append: "register_all ss reg = Inr reg' \<Longrightarrow> reg' = reg @ ss"
proof (induction ss arbitrary: reg)
  case (Cons s ss)
  then have "register_all ss (reg @ [s]) = Inr reg'" by (simp add: register_skill_def split: if_splits)
  with Cons.IH show ?case by fastforce
qed simp

lemma register_installed_mem:
  "k \<in> set (register_installed xs reg) \<Longrightarrow> k \<in> set reg \<or> (\<exists>n run. k = installed_skill n run)"
  by (induction xs reg rule: register_installed.induct) (auto split: if_splits)

lemma service_read_skills:
  assumes "service_registry re c cfg tw search installed = Inr reg" "k \<in> set reg" "sk_permission_tier k = READ_TIER"
  shows "k \<in> set (read_only_skills re cfg search)"
proof -
  from assms(1) obtain r1 r2 where r1: "register_all (read_only_skills re cfg search) [] = Inr r1"
      and r2: "register_all (write_skills re c cfg tw) r1 = Inr r2" and "reg = register_installed installed r2"
    by (auto simp: service_registry_def build_read_only_registry_def split: sum.splits)
  with assms(2) have "k \<in> set (read_only_skills re cfg search) \<or> k \<in> set (write_skills re c cfg tw) \<or> (\<exists>n run. k = installed_skill n run)"
    using register_all_append [OF r1] register_all_append [OF r2] register_installed_mem [of k installed r2] by auto
  with assms(3) show ?thesis by (auto simp: write_skills_def builtin_def installed_skill_def READ_TIER_def)
qed

lemma service_hooks_keep: "filter ws_requires_approval ss = [] \<Longrightarrow> hooks_keep f service_hooks ss"
  by (auto simp: hooks_keep_def service_hooks_def default_hooks_def audit_hook_def snapshot_before_write_hook_def intro: keeps_return)

lemma service_reads_keep:
  assumes "service_registry re c cfg tw search installed = Inr (as_registry a)" "as_hooks a = service_hooks"
    and "\<And>u q ty m pg n. keeps f (search u q ty m pg n)"
    and "\<And>handle u m. as_authoring a = Some handle \<Longrightarrow> keeps f (handle u m)"
  shows "reads_keep f a"
proof -
  have "keeps f (sk_handler k u args)" if "k \<in> set (as_registry a)" "sk_permission_tier k = READ_TIER" for k u args
    by (rule keeps_read_skills [where search = search, OF assms(3) service_read_skills [OF assms(1) that]])
  with assms(2,4) service_hooks_keep [of _ f] show ?thesis unfolding reads_keep_def by simp
qed

section \<open>Workflows leave the pending state once\<close>

definition closed_workflow :: "uuid \<Rightarrow> world \<Rightarrow> bool" where
  "closed_workflow k w \<longleftrightarrow> k < uuid_next w \<and> (\<forall>r \<in> set (workflows w). aw_id r = k \<longrightarrow> aw_status r \<noteq> WORKFLOW_PENDING)"

text \<open>Skills, hooks and skill authoring do not touch the table of workflows and only take new identifiers.\<close>

definition tame_call :: "'a M \<Rightarrow> bool" where
  "tame_call m \<longleftrightarrow> (\<forall>w. workflows (snd (m w)) = workflows w \<and> uuid_next w \<le> uuid_next (snd (m w)))"

definition tame :: "assistant \<Rightarrow> bool" where
  "tame a \<longleftrightarrow> (\<forall>k \<in> set (as_registry a). \<forall>u args. tame_call (sk_handler k u args))
     \<and> (\<forall>h \<in> set (as_hooks a). \<forall>ctx. tame_call (snd h ctx))
     \<and> (\<forall>handle u m. as_authoring a = Some handle \<longrightarrow> tame_call (handle u m))"

lemma closed_tame: "tame_call m \<Longrightarrow> preserves (closed_workflow k) m"
  by (auto simp: tame_call_def preserves_def closed_workflow_def) (metis less_le_trans)

lemma closed_keeps: "keeps (\<lambda>w. (workflows w, uuid_next w)) m \<Longrightarrow> preserves (closed_workflow k) m"
  by (auto simp: keeps_def preserves_def closed_workflow_def)

lemma closed_rows:
  "preserves (closed_workflow k) (record_run u i m b rs)" "preserves (closed_workflow k) (create_pending u s m ss)"
  "preserves (closed_workflow k) (save_named u n m ss)" "preserves (closed_workflow k) uuid4"
  by (auto simp: preserves_def closed_workflow_def record_run_def create_pending_def save_named_def add_workflow_def run_bind run_then Let_def)

lemma closed_status: "st \<noteq> WORKFLOW_PENDING \<Longrightarrow> preserves (closed_workflow k) (set_status r st)"
  by (auto simp: preserves_def closed_workflow_def set_status_def run_bind row_update_def)

lemma closed_run:
  assumes "tame a"
  shows "preserves (closed_workflow k) (run_plan a u ss)"
  unfolding run_plan_def using assms
  by (intro preserves_execute) (simp add: handlers_preserve_def tame_def closed_tame del: split_paired_All)

lemma preserves_plan: "preserves I (plan pl reg m sel hist pre)"
  using keeps_planning [of "\<lambda>w. w" pl reg m sel hist pre] by (simp add: keeps_def preserves_def)

lemma closed_chat:
  assumes "tame a"
  shows "preserves (closed_workflow k) (chat a u m sid ids hist)"
proof -
  note rules = preserves_plan closed_run [OF assms] closed_rows pres_rules
  have replan: "preserves (closed_workflow k) (replan_after_failure a u m sel s rs hist)" for sel s rs
    unfolding replan_after_failure_def by (intro rules)
  have followup: "preserves (closed_workflow k) (maybe_plan_followup a p u m sel hist)" for p sel
    unfolding maybe_plan_followup_def Let_def by (intro rules)
  have planned: "preserves (closed_workflow k) (chat_planned a u m sel s hist p)" for sel s p
    unfolding chat_planned_def chat_auto_def chat_store_def by (intro rules replan followup)
  have selection: "preserves (closed_workflow k) (resolve_selection a u ids)"
  proof (induction ids)
    case (Cons i ids)
    have "preserves (closed_workflow k) (get_item_any_state (as_wiring a) u i)" by (intro closed_keeps keeps_skill_reads)
    then show ?case unfolding resolve_selection.simps by (intro rules Cons.IH)
  qed (simp only: resolve_selection.simps preserves_return)
  have authored: "preserves (closed_workflow k) (case as_authoring a of None \<Rightarrow> returnM None | Some handle \<Rightarrow> handle u m)"
    using assms by (auto simp: tame_def intro: preserves_return closed_tame split: option.split)
  show ?thesis unfolding chat_def by (intro rules planned selection authored)
qed

lemma closed_transact: "preserves (closed_workflow k) m \<Longrightarrow> preserves (closed_workflow k) (transact m)"
  by (rule preserves_transact [OF _ okay_of_preserves]) (auto simp: closed_workflow_def rollback_def)

lemma closed_pending:
  "preserves (closed_workflow k) (get_pending u i)" "preserves (closed_workflow k) (get_saved u i)"
  unfolding get_pending_def get_saved_def workflow_of_def by (rule preserves_lift)+

lemma closed_confirm: "tame a \<Longrightarrow> preserves (closed_workflow k) (confirm a u i)"
  unfolding confirm_def by (intro closed_pending closed_run closed_rows closed_status pres_rules) simp_all

lemma closed_cancel: "preserves (closed_workflow k) (cancel u i)"
  unfolding cancel_def by (intro closed_pending closed_status pres_rules) simp_all

lemma closed_conversation:
  "preserves (closed_workflow k) (ensure_session u s t)" "preserves (closed_workflow k) (add_message s r c)"
  by (auto simp: preserves_def closed_workflow_def ensure_session_def add_message_def session_of_def run_bind run_then run_guard
      split: sum.split option.split)

lemma closed_chat_route: "tame a \<Longrightarrow> preserves (closed_workflow k) (chat_route a u m sid ids)"
  unfolding chat_route_def list_messages_def session_of_def
  by (intro closed_transact closed_chat closed_conversation pres_rules)

lemma closed_confirm_route:
  assumes "tame a"
  shows "preserves (closed_workflow k) (confirm_route a u i)"
proof -
  have "preserves (closed_workflow k) (case p of (s, rs) \<Rightarrow> thenM (add_message s r (t s rs)) (returnM (s, rs)))" for p r t
    by (cases p) (simp, intro closed_conversation pres_rules)
  then show ?thesis unfolding confirm_route_def by (intro closed_transact closed_confirm [OF assms] preserves_bind)
qed

lemma closed_route:
  assumes "tame a"
  shows "preserves (closed_workflow k) (assistant_route a u req)"
proof (cases req)
  case (W_RERUN i)
  have "preserves (closed_workflow k) (rerun_workflow a u i)"
    unfolding rerun_workflow_def by (intro closed_pending closed_run [OF assms] closed_rows pres_rules)
  then show ?thesis unfolding W_RERUN assistant_route.simps rerun_workflow_route_def by (intro closed_transact pres_rules)
next
  case (W_SAVE n s ps)
  have "preserves (closed_workflow k) (save_workflow a u n s ps)" unfolding save_workflow_def by (intro closed_rows pres_rules)
  then show ?thesis unfolding W_SAVE assistant_route.simps save_workflow_route_def by (intro closed_transact pres_rules)
qed (simp_all add: cancel_route_def closed_transact closed_chat_route [OF assms] closed_confirm_route [OF assms]
    closed_cancel preserves_then preserves_return)

text \<open>Requests to assistants with tame skills, by anyone, at later and later times, with any outcome.\<close>

inductive assistant_steps :: "world \<Rightarrow> world \<Rightarrow> bool" for w where
  stay: "assistant_steps w w"
| request: "assistant_steps w w1 \<Longrightarrow> tame a \<Longrightarrow> clock w1 \<le> t \<Longrightarrow>
    assistant_route a u req (w1\<lparr>clock := t\<rparr>) = (r, w2) \<Longrightarrow> assistant_steps w w2"

lemma closed_for_ever: "assistant_steps w w' \<Longrightarrow> closed_workflow k w \<Longrightarrow> closed_workflow k w'"
proof (induction rule: assistant_steps.induct)
  case (request w1 a t u req r w2)
  then have "closed_workflow k (w1\<lparr>clock := t\<rparr>)" by (simp add: closed_workflow_def)
  with request.hyps show ?case by (meson preservesD closed_route)
qed

lemma closed_refused:
  assumes "closed_workflow k w"
  shows "confirm_route a u k w = (Inl NotFoundError, w)" "cancel_route u k w = (Inl NotFoundError, w)"
proof -
  have "filter (\<lambda>r. aw_id r = k \<and> aw_user_id r = u \<and> aw_status r = WORKFLOW_PENDING) (workflows w) = []"
    using assms by (auto simp: closed_workflow_def filter_empty_conv)
  then have "get_pending u k w = (Inr None, w)" by (simp add: get_pending_def workflow_of_def)
  then show "confirm_route a u k w = (Inl NotFoundError, w)" "cancel_route u k w = (Inl NotFoundError, w)"
    by (simp_all add: confirm_route_def cancel_route_def confirm_def cancel_def run_bind transact_def rollback_def)
qed

lemma get_pending_id: "get_pending u k w = (Inr (Some r), w') \<Longrightarrow> aw_id r = k \<and> w' = w \<and> r \<in> set (workflows w)"
proof -
  assume *: "get_pending u k w = (Inr (Some r), w')"
  then have "filter (\<lambda>r. aw_id r = k \<and> aw_user_id r = u \<and> aw_status r = WORKFLOW_PENDING) (workflows w) = [r]"
    by (auto simp: get_pending_def workflow_of_def dest: scalar_Some)
  then have "r \<in> set (filter (\<lambda>r. aw_id r = k \<and> aw_user_id r = u \<and> aw_status r = WORKFLOW_PENDING) (workflows w))" by simp
  with * show ?thesis by (auto simp: get_pending_def workflow_of_def)
qed

lemma status_closes:
  "st \<noteq> WORKFLOW_PENDING \<Longrightarrow> aw_id r < uuid_next w \<Longrightarrow> set_status r st w = (x, w') \<Longrightarrow> closed_workflow (aw_id r) w'"
  by (auto simp: set_status_def run_bind closed_workflow_def row_update_def)

text \<open>Confirming and cancelling close the workflow.\<close>

lemma tame_ids: "tame_call m \<Longrightarrow> preserves (\<lambda>w. n \<le> uuid_next w) m"
  by (auto simp: preserves_def tame_call_def intro: order_trans)

lemma tame_run: "tame a \<Longrightarrow> preserves (\<lambda>w. n \<le> uuid_next w) (run_plan a u ss)"
  unfolding run_plan_def
  by (rule preserves_execute) (simp add: handlers_preserve_def tame_def tame_ids del: split_paired_All)

lemma run_keeps_ids:
  assumes "tame a" "run_plan a u ss w = (r, w')"
  shows "uuid_next w \<le> uuid_next w'"
  by (rule preservesD [OF tame_run [OF assms(1)], OF order_refl assms(2)])

lemma confirm_closes:
  assumes "tame a" "\<forall>r \<in> set (workflows w). aw_id r < uuid_next w" "confirm a u k w = (Inr out, w')"
  shows "closed_workflow k w'"
proof -
  from assms(3) obtain p where p: "get_pending u k w = (Inr p, w)"
    by (auto simp: confirm_def run_bind get_pending_def workflow_of_def split: sum.splits)
  with assms(3) obtain r where r: "p = Some r" by (cases p) (auto simp: confirm_def run_bind)
  with p get_pending_id have id: "aw_id r = k" "aw_id r < uuid_next w" using assms(2) by blast+
  from assms(3) p r have "bindM (run_plan a u (aw_steps r)) (\<lambda>results. thenM (set_status r WORKFLOW_EXECUTED)
           (thenM (record_run u (Some (aw_id r)) (aw_source_nl r) (all_ok results) results) (returnM (aw_session_id r, results)))) w = (Inr out, w')"
    by (simp add: confirm_def run_bind)
  then obtain results wa where run: "run_plan a u (aw_steps r) w = (Inr results, wa)"
    and rest: "thenM (set_status r WORKFLOW_EXECUTED)
           (thenM (record_run u (Some (aw_id r)) (aw_source_nl r) (all_ok results) results) (returnM (aw_session_id r, results))) wa = (Inr out, w')"
    by (rule bind_InrE)
  from rest obtain x wb where set: "set_status r WORKFLOW_EXECUTED wa = (Inr x, wb)"
    and rec: "thenM (record_run u (Some (aw_id r)) (aw_source_nl r) (all_ok results) results) (returnM (aw_session_id r, results)) wb = (Inr out, w')"
    by (rule then_InrE)
  have "closed_workflow (aw_id r) wb"
    using status_closes [OF _ _ set] id(2) run_keeps_ids [OF assms(1) run] by simp
  then have closed: "closed_workflow k wb" by (simp add: id(1))
  have "preserves (closed_workflow k) (thenM (record_run u (Some (aw_id r)) (aw_source_nl r) (all_ok results) results)
      (returnM (aw_session_id r, results)))" by (intro preserves_then closed_rows preserves_return)
  from preserves_snd [OF this closed] show ?thesis unfolding rec by simp
qed

lemma cancel_closes:
  assumes "\<forall>r \<in> set (workflows w). aw_id r < uuid_next w" "cancel u k w = (Inr i, w')"
  shows "closed_workflow k w'"
proof -
  from assms(2) obtain p where p: "get_pending u k w = (Inr p, w)"
    by (auto simp: cancel_def run_bind get_pending_def workflow_of_def split: sum.splits)
  with assms(2) obtain r where r: "p = Some r" by (cases p) (auto simp: cancel_def run_bind)
  with p get_pending_id have id: "aw_id r = k" "aw_id r < uuid_next w" using assms(1) by blast+
  from assms(2) p r have "thenM (set_status r WORKFLOW_CANCELLED) (returnM (aw_id r)) w = (Inr i, w')"
    by (simp add: cancel_def run_bind)
  then obtain x where "set_status r WORKFLOW_CANCELLED w = (Inr x, w')"
    by (auto simp: run_then split: prod.splits sum.splits)
  with status_closes [OF _ id(2)] id(1) show ?thesis by fastforce
qed

end
