(* ===== verification/ConversationFacts.thy ===== *)
theory ConversationFacts
  imports AssistantFacts
begin

text \<open>
  Conversations belong to one user: the rows of a session and its messages only change through requests of its owner. A
  workflow that waits for its confirmation carries the session it came from, so the invariant also says that this
  session exists and has the workflow's owner.
\<close>

definition talks_ok :: "world \<Rightarrow> bool" where
  "talks_ok w \<longleftrightarrow> distinct (map as_id (talks w)) \<and>
     (\<forall>r \<in> set (workflows w). aw_status r = WORKFLOW_PENDING \<longrightarrow>
        (\<exists>t \<in> set (talks w). as_id t = aw_session_id r \<and> as_user_id t = aw_user_id r))"

text \<open>Skills, hooks and skill authoring stay away from workflows and conversations.\<close>

abbreviation talk_part :: "world \<Rightarrow> assistant_workflow list \<times> assistant_session list \<times> assistant_message list" where
  "talk_part w \<equiv> (workflows w, talks w, turns w)"

definition discreet :: "assistant \<Rightarrow> bool" where
  "discreet a \<longleftrightarrow> (\<forall>k \<in> set (as_registry a). \<forall>u args. keeps talk_part (sk_handler k u args))
     \<and> (\<forall>h \<in> set (as_hooks a). \<forall>ctx. keeps talk_part (snd h ctx))
     \<and> (\<forall>handle u m. as_authoring a = Some handle \<longrightarrow> keeps talk_part (handle u m))"

text \<open>
  The conversations as a chat of user \<open>u\<close> in session \<open>s\<close> finds them, and the workflows it may add to those it found.
\<close>

definition chatting :: "uuid \<Rightarrow> uuid \<Rightarrow> world \<Rightarrow> world \<Rightarrow> bool" where
  "chatting u s w v \<longleftrightarrow> talks v = talks w \<and> turns v = turns w \<and>
     (\<forall>r \<in> set (workflows v). r \<in> set (workflows w) \<or> aw_user_id r = u \<and> aw_session_id r = s)"

lemma chatting_keeps: "keeps talk_part m \<Longrightarrow> preserves (chatting u s w) m"
  by (auto simp: keeps_def preserves_def chatting_def)

lemma chatting_run: "discreet a \<Longrightarrow> preserves (chatting u s w) (run_plan a v ss)"
  unfolding run_plan_def
  by (intro preserves_execute) (simp add: handlers_preserve_def discreet_def chatting_keeps del: split_paired_All)

lemma chatting_rows:
  "preserves (chatting u s w) (record_run v i m b rs)" "preserves (chatting u s w) (create_pending u s m ss)"
  "preserves (chatting u s w) uuid4"
  by (auto simp: preserves_def chatting_def record_run_def create_pending_def add_workflow_def run_bind run_then Let_def)

text \<open>The part of a chat after its session is known, and its answer.\<close>

definition chat_in :: "assistant \<Rightarrow> uuid \<Rightarrow> string \<Rightarrow> uuid list \<Rightarrow> llm_message list \<Rightarrow> uuid \<Rightarrow> chat_response M" where
  "chat_in a user_id message selected_item_ids history session_id =
     bindM (case as_authoring a of None \<Rightarrow> returnM None | Some handle \<Rightarrow> handle user_id message) (\<lambda>authored. case authored of
         Some text \<Rightarrow> returnM \<lparr>ch_session_id = session_id, ch_message = Answer text, ch_plan = None, ch_results = []\<rparr>
       | None \<Rightarrow>
           bindM (resolve_selection a user_id selected_item_ids) (\<lambda>selected.
           bindM (plan (as_planner a) (as_registry a) message selected history []) (\<lambda>p.
             if pr_steps p = []
             then returnM \<lparr>ch_session_id = session_id, ch_message = Answer (pr_reply p), ch_plan = None, ch_results = []\<rparr>
             else chat_planned a user_id message selected session_id history p)))"

lemma chat_split: "chat a u m sid ids h = bindM (case sid of Some s \<Rightarrow> returnM s | None \<Rightarrow> uuid4) (chat_in a u m ids h)"
  by (simp add: chat_def chat_in_def [abs_def])

lemma chatting_chat_in:
  assumes "discreet a"
  shows "preserves (chatting u s w) (chat_in a u m ids h s)"
proof -
  note rules = preserves_plan chatting_run [OF assms] chatting_rows pres_rules
  have replan: "preserves (chatting u s w) (replan_after_failure a u m sel s rs h)" for sel rs
    unfolding replan_after_failure_def by (intro rules)
  have followup: "preserves (chatting u s w) (maybe_plan_followup a p u m sel h)" for p sel
    unfolding maybe_plan_followup_def Let_def by (intro rules)
  have planned: "preserves (chatting u s w) (chat_planned a u m sel s h p)" for sel p
    unfolding chat_planned_def chat_auto_def chat_store_def by (intro rules replan followup)
  have selection: "preserves (chatting u s w) (resolve_selection a u ids)"
  proof (induction ids)
    case (Cons i ids)
    have "preserves (chatting u s w) (get_item_any_state (as_wiring a) u i)" by (intro chatting_keeps keeps_skill_reads)
    then show ?case unfolding resolve_selection.simps by (intro rules Cons.IH)
  qed (simp only: resolve_selection.simps preserves_return)
  have authored: "preserves (chatting u s w) (case as_authoring a of None \<Rightarrow> returnM None | Some handle \<Rightarrow> handle u m)"
    using assms by (auto simp: discreet_def intro: preserves_return chatting_keeps split: option.split)
  show ?thesis unfolding chat_in_def by (intro rules planned selection authored)
qed

lemma chat_in_session: "chat_in a u m ids h s w = (Inr resp, w') \<Longrightarrow> ch_session_id resp = s"
  unfolding chat_in_def chat_planned_def chat_auto_def chat_store_def replan_after_failure_def
  by (auto elim!: bind_InrE then_InrE split: option.splits if_splits)

section \<open>What one request does to conversations\<close>

definition said :: "uuid \<Rightarrow> world \<Rightarrow> assistant_message list" where
  "said s w = filter (\<lambda>m. am_session_id m = s) (turns w)"

text \<open>A request of user \<open>u\<close> leaves the conversations of everybody else alone.\<close>

definition leaves_others :: "uuid \<Rightarrow> world \<Rightarrow> world \<Rightarrow> bool" where
  "leaves_others u w w' \<longleftrightarrow> talks_ok w' \<and>
     (\<forall>t \<in> set (talks w). as_user_id t \<noteq> u \<longrightarrow> t \<in> set (talks w') \<and> said (as_id t) w' = said (as_id t) w)"

lemma leaves_others_same: "talk_part w' = talk_part w \<Longrightarrow> talks_ok w \<Longrightarrow> leaves_others u w w'"
  by (simp add: leaves_others_def talks_ok_def said_def)

lemma transact_Inl: "transact m w = (Inl e, w') \<Longrightarrow> talk_part w' = talk_part w"
  by (auto simp: transact_def rollback_def split: prod.splits sum.splits)

lemma add_message_run:
  "add_message s r c w = (Inr x, w') \<Longrightarrow> s \<in> as_id ` set (talks w) \<and> talks w' = talks w \<and> workflows w' = workflows w
    \<and> (\<exists>m. am_session_id m = s \<and> turns w' = turns w @ [m])"
  by (auto simp: add_message_def run_bind run_then run_guard split: if_splits)

lemma distinct_owner: "distinct (map as_id ts) \<Longrightarrow> t \<in> set ts \<Longrightarrow> t' \<in> set ts \<Longrightarrow> as_id t = as_id t' \<Longrightarrow> t = t'"
  by (auto simp: distinct_map dest: inj_onD)

text \<open>A message in a session of \<open>u\<close>.\<close>

lemma message_leaves_others:
  assumes "leaves_others u w v" "add_message s r c v = (Inr x, w')" "\<exists>t \<in> set (talks v). as_id t = s \<and> as_user_id t = u"
  shows "leaves_others u w w'"
proof -
  from add_message_run [OF assms(2)] obtain m where m: "am_session_id m = s" "turns w' = turns v @ [m]"
    "talks w' = talks v" "workflows w' = workflows v" by blast
  have "as_id t \<noteq> s" if "t \<in> set (talks v)" "as_user_id t \<noteq> u" for t
    using assms(1,3) that distinct_owner unfolding leaves_others_def talks_ok_def by metis
  moreover have "talks_ok w'" using assms(1) m by (simp add: leaves_others_def talks_ok_def)
  ultimately show ?thesis using assms(1) m unfolding leaves_others_def said_def by fastforce
qed

lemma session_of_run:
  "session_of u s w = (Inr r, w') \<Longrightarrow> w' = w \<and> (case r of Some t \<Rightarrow> t \<in> set (talks w) \<and> as_id t = s \<and> as_user_id t = u
     | None \<Rightarrow> \<forall>t \<in> set (talks w). as_id t = s \<longrightarrow> as_user_id t \<noteq> u)"
proof -
  let ?rows = "filter (\<lambda>r. as_id r = s \<and> as_user_id r = u) (talks w)"
  assume run: "session_of u s w = (Inr r, w')"
  then have "w' = w" "scalar_one_or_none ?rows = Inr r" by (auto simp: session_of_def)
  moreover have "set ?rows = (case r of None \<Rightarrow> {} | Some t \<Rightarrow> {t})"
    using calculation(2) by (cases ?rows rule: scalar_one_or_none.cases) auto
  ultimately show ?thesis by (auto split: option.splits)
qed

text \<open>After \<open>ensure_session\<close> the session exists and is the user's, and nobody else's has changed.\<close>

lemma ensured_session:
  assumes "ensure_session u s title w = (Inr x, w')" "distinct (map as_id (talks w))"
  shows "turns w' = turns w \<and> workflows w' = workflows w \<and> distinct (map as_id (talks w'))
    \<and> (\<exists>t \<in> set (talks w'). as_id t = s \<and> as_user_id t = u)
    \<and> (\<forall>t \<in> set (talks w). as_user_id t \<noteq> u \<longrightarrow> t \<in> set (talks w'))
    \<and> (\<forall>t \<in> set (talks w). \<exists>t' \<in> set (talks w'). as_id t' = as_id t \<and> as_user_id t' = as_user_id t)"
proof -
  from assms(1) obtain r w1 where r: "session_of u s w = (Inr r, w1)"
    by (auto simp: ensure_session_def run_bind split: prod.splits sum.splits)
  note found = session_of_run [OF r]
  show ?thesis
  proof (cases r)
    case None
    with assms r found show ?thesis by (auto simp: ensure_session_def run_bind run_then run_guard split: if_splits)
  next
    case (Some e)
    let ?f = "\<lambda>x. x\<lparr>as_updated_at := clock w, as_title := (if title \<noteq> [] \<and> as_title e = [] then take 200 title else as_title x)\<rparr>"
    from assms(1) r found Some have "w' = talks_update (row_update as_id s ?f) w" by (auto simp: ensure_session_def run_bind)
    then have w': "talks w' = row_update as_id s ?f (talks w)" "turns w' = turns w" "workflows w' = workflows w" by simp_all
    have e: "e \<in> set (talks w)" "as_id e = s" "as_user_id e = u" using found Some by auto
    have each: "\<exists>t' \<in> set (talks w'). as_id t' = as_id t \<and> as_user_id t' = as_user_id t" if "t \<in> set (talks w)" for t
      unfolding w'(1) set_row_update using that by (intro bexI [of _ "if as_id t = s then ?f t else t"]) auto
    show ?thesis
    proof (intro conjI ballI impI)
      show "distinct (map as_id (talks w'))" unfolding w'(1) using assms(2) by (simp add: row_keys_update)
      show "\<exists>t \<in> set (talks w'). as_id t = s \<and> as_user_id t = u" using each [OF e(1)] e(2,3) by simp
      show "t \<in> set (talks w')" if "t \<in> set (talks w)" "as_user_id t \<noteq> u" for t
      proof -
        have "as_id t \<noteq> s" using distinct_owner [OF assms(2) e(1) that(1)] e(2,3) that(2) by blast
        with that(1) show ?thesis unfolding w'(1) set_row_update by (intro image_eqI [of _ _ t]) simp_all
      qed
      show "\<exists>t' \<in> set (talks w'). as_id t' = as_id t \<and> as_user_id t' = as_user_id t" if "t \<in> set (talks w)" for t by (rule each [OF that])
    qed (fact w'(2) w'(3))+
  qed
qed

section \<open>Requests\<close>

lemma chat_leaves_others:
  assumes "discreet a" "talks_ok w" "chat_route a u m sid ids w = (r, w')"
  shows "leaves_others u w w'"
proof (cases r)
  case (Inl e)
  with assms(3) transact_Inl leaves_others_same [OF _ assms(2)] show ?thesis unfolding chat_route_def by blast
next
  case (Inr resp)
  have reads: "w1 = w" if "(case sid of None \<Rightarrow> returnM []
      | Some s \<Rightarrow> bindM (list_messages u s) (\<lambda>prior. returnM (history_to_messages prior (as_history_max a)))) w = (Inr h, w1)" for h w1
    using that keepsD [OF keeps_session_reads(3) [where f = "\<lambda>w. w"]] by (cases sid) (auto elim!: bind_InrE)
  from assms(3) Inr reads obtain h w1 w2 w3 where
      c: "chat a u m sid ids h w = (Inr resp, w1)" and e: "ensure_session u (ch_session_id resp) m w1 = (Inr (), w2)"
      and m1: "add_message (ch_session_id resp) ''user'' m w2 = (Inr (), w3)"
      and m2: "add_message (ch_session_id resp) ''assistant'' (stored_answer a (ch_message resp) (ch_results resp)) w3 = (Inr (), w')"
    by (fastforce simp: chat_route_def elim!: bind_InrE then_InrE guard_InrE)
  let ?s = "ch_session_id resp"
  from c obtain s v where s: "(case sid of Some s \<Rightarrow> returnM s | None \<Rightarrow> uuid4) w = (Inr s, v)" and ch: "chat_in a u m ids h s v = (Inr resp, w1)"
    unfolding chat_split by (rule bind_InrE)
  have "chatting u s w v" using s by (cases sid) (auto simp: chatting_def)
  from preserves_snd [OF chatting_chat_in [OF assms(1)] this] ch chat_in_session [OF ch] have w1: "chatting u ?s w w1" by (metis snd_conv)
  have "distinct (map as_id (talks w1))" using w1 assms(2) by (simp add: chatting_def talks_ok_def)
  note w2 = ensured_session [OF e this]
  have "\<exists>t \<in> set (talks w2). as_id t = aw_session_id r \<and> as_user_id t = aw_user_id r"
    if "r \<in> set (workflows w2)" "aw_status r = WORKFLOW_PENDING" for r
    using that w1 w2 assms(2) unfolding chatting_def talks_ok_def by metis
  then have "talks_ok w2" using w2 by (simp add: talks_ok_def)
  then have "leaves_others u w w2" using w1 w2 by (simp add: leaves_others_def chatting_def said_def)
  from message_leaves_others [OF this m1] w2 have w3: "leaves_others u w w3" by blast
  have "talks w3 = talks w2" using add_message_run [OF m1] by simp
  with message_leaves_others [OF w3 m2] w2 show ?thesis by simp
qed

lemma confirm_leaves_others:
  assumes "discreet a" "talks_ok w" "confirm_route a u i w = (r, w')"
  shows "leaves_others u w w'"
proof (cases r)
  case (Inl e)
  with assms(3) transact_Inl leaves_others_same [OF _ assms(2)] show ?thesis unfolding confirm_route_def by blast
next
  case (Inr out)
  with assms(3) obtain s results w2 where c: "confirm a u i w = (Inr (s, results), w2)"
      and m: "add_message s ''assistant'' (stored_answer a (report ''Workflow executed.'' False results) results) w2 = (Inr (), w')"
    by (auto simp: confirm_route_def elim!: bind_InrE then_InrE)
  from c obtain k where k: "get_pending u i w = (Inr (Some k), w)" and s: "s = aw_session_id k"
    by (auto simp: confirm_def get_pending_def workflow_of_def elim!: bind_InrE then_InrE lift_InrE split: option.splits)
  have k': "k \<in> set (workflows w)" "aw_user_id k = u" "aw_status k = WORKFLOW_PENDING"
    using k get_pending_id [OF k] by (auto simp: get_pending_def workflow_of_def dest!: scalar_Some filter_eq_ConsD)
  have run: "preserves (\<lambda>v. talk_part v = talk_part w) (run_plan a u ss)" for ss
    unfolding run_plan_def using assms(1)
    by (intro preserves_execute) (simp add: handlers_preserve_def discreet_def keeps_def preserves_def del: split_paired_All)
  from c k obtain w1 w3 where r1: "run_plan a u (aw_steps k) w = (Inr results, w1)"
      and r2: "set_status k WORKFLOW_EXECUTED w1 = (Inr (), w3)"
      and r3: "record_run u (Some (aw_id k)) (aw_source_nl k) (all_ok results) results w3 = (Inr (), w2)"
    by (auto simp: confirm_def elim!: bind_InrE then_InrE)
  have w1: "talk_part w1 = talk_part w" using preserves_snd [OF run refl, of "aw_steps k"] r1 by simp
  with r2 r3 have w2: "talks w2 = talks w" "turns w2 = turns w"
      "workflows w2 = row_update aw_id (aw_id k) (\<lambda>x. x\<lparr>aw_status := WORKFLOW_EXECUTED, aw_updated_at := clock w1\<rparr>) (workflows w)"
    by (auto simp: set_status_def record_run_def run_bind)
  then have "leaves_others u w w2" using assms(2) by (auto simp: leaves_others_def talks_ok_def said_def set_row_update)
  moreover have "\<exists>t \<in> set (talks w2). as_id t = s \<and> as_user_id t = u" using assms(2) k' w2(1) unfolding s talks_ok_def by auto
  ultimately show ?thesis using message_leaves_others [OF _ m] by blast
qed

lemma leaves_others_by_rows:
  assumes "talk_part (snd (m w)) = talk_part w \<or> talks (snd (m w)) = talks w \<and> turns (snd (m w)) = turns w
      \<and> (\<forall>r \<in> set (workflows (snd (m w))). aw_status r = WORKFLOW_PENDING \<longrightarrow> r \<in> set (workflows w))"
    and "talks_ok w"
  shows "leaves_others u w (snd (m w))"
  using assms by (auto simp: leaves_others_def talks_ok_def said_def)

lemma no_new_pending_cancel:
  "talks (snd (cancel u i w)) = talks w \<and> turns (snd (cancel u i w)) = turns w
    \<and> (\<forall>r \<in> set (workflows (snd (cancel u i w))). aw_status r = WORKFLOW_PENDING \<longrightarrow> r \<in> set (workflows w))"
  by (auto simp: cancel_def get_pending_def workflow_of_def set_status_def run_bind run_then row_update_def split: sum.split option.split)

lemma no_new_pending_save:
  "talks (snd (save_workflow a u n s ps w)) = talks w \<and> turns (snd (save_workflow a u n s ps w)) = turns w
    \<and> (\<forall>r \<in> set (workflows (snd (save_workflow a u n s ps w))). aw_status r = WORKFLOW_PENDING \<longrightarrow> r \<in> set (workflows w))"
  by (auto simp: save_workflow_def save_named_def add_workflow_def run_bind run_then Let_def split: sum.split)

lemma keeps_rerun:
  assumes "discreet a"
  shows "keeps talk_part (rerun_workflow a u i)"
proof -
  have "keeps talk_part (run_plan a u ss)" for ss
  proof -
    have "preserves (\<lambda>v. talk_part v = talk_part w) (run_plan a u ss)" for w
      unfolding run_plan_def using assms
      by (intro preserves_execute) (simp add: handlers_preserve_def discreet_def keeps_def preserves_def del: split_paired_All)
    then show ?thesis unfolding keeps_def preserves_def by blast
  qed
  moreover have "keeps talk_part (record_run u i m b rs)" for i m b rs
    by (simp add: keeps_def record_run_def run_bind)
  ultimately show ?thesis
    unfolding rerun_workflow_def get_saved_def workflow_of_def by (intro keeps_bind keeps_then keeps_lift keeps_raise keeps_return keeps_case_option)
qed

lemma transact_snd:
  "transact m w = (r, w') \<Longrightarrow> talk_part w' = talk_part w \<or> w' = snd (m w)"
  using transact_Inl [of m w] by (cases r) (auto simp: transact_def split: prod.splits sum.splits)

lemma route_leaves_others:
  assumes "discreet a" "talks_ok w" "assistant_route a u req w = (r, w')"
  shows "leaves_others u w w'"
proof -
  note same = leaves_others_same [OF _ assms(2)]
  show ?thesis
  proof (cases req)
    case (W_CHAT m sid ids)
    from assms(3) W_CHAT have "snd (chat_route a u m sid ids w) = w'" by (auto simp: run_then split: prod.splits sum.splits)
    then show ?thesis using chat_leaves_others [OF assms(1,2)] by (metis prod.collapse)
  next
    case (W_CONFIRM i)
    from assms(3) W_CONFIRM have "snd (confirm_route a u i w) = w'" by (auto simp: run_then split: prod.splits sum.splits)
    then show ?thesis using confirm_leaves_others [OF assms(1,2)] by (metis prod.collapse)
  next
    case (W_CANCEL i)
    from assms(3) W_CANCEL have "snd (cancel_route u i w) = w'" by (auto simp: run_then split: prod.splits sum.splits)
    then have "talk_part w' = talk_part w \<or> w' = snd (cancel u i w)"
      using transact_snd [of "cancel u i" w] unfolding cancel_route_def by (metis prod.collapse)
    then show ?thesis using same leaves_others_by_rows [of "cancel u i", OF disjI2 [OF no_new_pending_cancel] assms(2)] by blast
  next
    case (W_SAVE n s ps)
    let ?m = "save_workflow a u n s ps"
    have "leaves_others u w (snd (?m w))"
      by (intro leaves_others_by_rows [OF disjI2 assms(2)]) (rule no_new_pending_save)
    moreover from assms(3) W_SAVE have "w' = w \<or> w' = snd (transact ?m w)"
      by (auto simp: save_workflow_route_def run_then run_guard split: prod.splits sum.splits if_splits)
    ultimately show ?thesis using transact_snd [of ?m w] same by (metis prod.collapse)
  next
    case (W_RERUN i)
    have "talk_part (snd (rerun_workflow a u i w)) = talk_part w" by (rule keeps_snd [OF keeps_rerun [OF assms(1)]])
    moreover from assms(3) W_RERUN have "w' = snd (transact (rerun_workflow a u i) w)"
      by (auto simp: rerun_workflow_route_def run_then split: prod.splits sum.splits)
    ultimately show ?thesis using transact_snd [of "rerun_workflow a u i" w] same by (metis prod.collapse)
  qed
qed

text \<open>Requests of everybody but user \<open>u\<close>, at later and later times, with any outcome.\<close>

inductive others_steps :: "uuid \<Rightarrow> world \<Rightarrow> world \<Rightarrow> bool" for u w where
  stay: "others_steps u w w"
| request: "others_steps u w w1 \<Longrightarrow> discreet a \<Longrightarrow> clock w1 \<le> t \<Longrightarrow> v \<noteq> u \<Longrightarrow>
    assistant_route a v req (w1\<lparr>clock := t\<rparr>) = (r, w2) \<Longrightarrow> others_steps u w w2"

lemma others_leave:
  assumes "others_steps u w w'" "talks_ok w" "t \<in> set (talks w)" "as_user_id t = u"
  shows "talks_ok w' \<and> t \<in> set (talks w') \<and> said (as_id t) w' = said (as_id t) w"
  using assms(1)
proof induction
  case (request w1 a t' v req r w2)
  have "talks_ok (w1\<lparr>clock := t'\<rparr>)" using request.IH by (simp add: talks_ok_def)
  from route_leaves_others [OF request.hyps(2) this request.hyps(5)] request.IH request.hyps(4) assms(4)
  show ?case by (auto simp: leaves_others_def said_def)
qed (use assms in simp)

lemma own_row:
  "distinct (map f xs) \<Longrightarrow> x \<in> set xs \<Longrightarrow> P x \<Longrightarrow> filter (\<lambda>r. f r = f x \<and> P r) xs = [x]"
proof (induction xs)
  case (Cons y ys)
  show ?case
  proof (cases "y = x")
    case True
    with Cons.prems have "f x \<notin> f ` set ys" by simp
    then have "\<forall>r \<in> set ys. f r \<noteq> f x" by (metis imageI)
    then have "filter (\<lambda>r. f r = f x \<and> P r) ys = []" unfolding filter_empty_conv by blast
    with True Cons.prems show ?thesis by simp
  next
    case False
    with Cons.prems have "f y \<noteq> f x" by auto
    with False Cons show ?thesis by simp
  qed
qed simp

lemma foreign_session:
  assumes "distinct (map as_id (talks w))" "t \<in> set (talks w)" "v \<noteq> as_user_id t"
  shows "list_messages v (as_id t) w = (Inr [], w)"
proof -
  have "filter (\<lambda>r. as_id r = as_id t \<and> as_user_id r = v) (talks w) = []"
    using assms(3) distinct_owner [OF assms(1,2)] unfolding filter_empty_conv by metis
  then show ?thesis by (simp add: list_messages_def session_of_def run_bind)
qed

end
