(* ===== verification/Codeguard.thy ===== *)
theory Codeguard
  imports Planner
begin

text \<open>
  \<open>assistant/skills/codeguard.py\<close>: the scan of generated code before anybody sees it. \<open>ast.parse\<close> is a parameter: it
  gives the text of the syntax error or the body of the module. A syntax tree keeps the nodes that the scan looks at;
  all others are \<open>PyOther\<close> with their children, in the order of \<open>ast.iter_child_nodes\<close>.
\<close>

datatype pynode =
    PyImport "string list"
  | PyImportFrom "string option"
  | PyName string
  | PyAttribute pynode string
  | PyFunctionDef string "string list" "pynode list"
  | PyOther "pynode list"

type_synonym parser = "string \<Rightarrow> string + pynode list"

section \<open>The lists\<close>

definition FORBIDDEN_IMPORTS :: "string list" where
  "FORBIDDEN_IMPORTS = [''subprocess'', ''socket'', ''ssl'', ''ctypes'', ''cffi'', ''multiprocessing'', ''threading'', ''asyncio'',
     ''requests'', ''httpx'', ''urllib'', ''http'', ''ftplib'', ''smtplib'', ''telnetlib'', ''paramiko'', ''pty'', ''signal'',
     ''importlib'', ''pickle'', ''marshal'', ''code'', ''codeop'', ''winreg'', ''fcntl'', ''mmap'']"

definition FORBIDDEN_NAMES :: "string list" where
  "FORBIDDEN_NAMES = [''eval'', ''exec'', ''compile'', ''__import__'', ''globals'', ''vars'', ''breakpoint'', ''input'']"

definition FORBIDDEN_OS_ATTRS :: "string list" where
  "FORBIDDEN_OS_ATTRS = [''system'', ''popen'', ''execv'', ''execve'', ''execvp'', ''execl'', ''execlp'', ''spawnv'', ''spawnl'',
     ''posix_spawn'', ''startfile'', ''fork'', ''forkpty'', ''kill'', ''killpg'', ''setuid'', ''setgid'']"

definition REQUIRED_PARAMS :: "string list" where
  "REQUIRED_PARAMS = [''input_path'', ''output_dir'', ''params'']"

section \<open>Walking the tree\<close>

fun child_nodes :: "pynode \<Rightarrow> pynode list" where
  "child_nodes (PyAttribute v a) = [v]"
| "child_nodes (PyFunctionDef n ps cs) = cs"
| "child_nodes (PyOther cs) = cs"
| "child_nodes n = []"

lemma children_smaller: "sum_list (map (\<lambda>n. Suc (size n)) (child_nodes n)) \<le> size n"
proof -
  have "sum_list (map (\<lambda>n. Suc (size n)) cs) = size_list size cs" for cs :: "pynode list" by (induction cs) auto
  then show ?thesis by (cases n) auto
qed

text \<open>\<open>ast.walk\<close>: the queue of nodes still to visit, first in, first out.\<close>

function ast_walk :: "pynode list \<Rightarrow> pynode list" where
  "ast_walk [] = []"
| "ast_walk (n # todo) = n # ast_walk (todo @ child_nodes n)"
  by pat_completeness auto
termination
  by (relation "measure (\<lambda>todo. sum_list (map (\<lambda>n. Suc (size n)) todo))") (auto simp: children_smaller le_imp_less_Suc)

section \<open>The scan\<close>

definition top_module :: "string \<Rightarrow> string" where
  "top_module name = hd (py_split CHR ''.'' name)"

definition is_dunder :: "string \<Rightarrow> bool" where
  "is_dunder attr = (starts_with ''__'' attr \<and> drop (length attr - 2) attr = ''__'')"

fun node_problems :: "pynode \<Rightarrow> string list" where
  "node_problems (PyImport names) =
     map (\<lambda>n. ''forbidden import: '' @ n) (filter (\<lambda>n. top_module n \<in> set FORBIDDEN_IMPORTS) names)"
| "node_problems (PyImportFrom m) = (case m of
     None \<Rightarrow> []
   | Some name \<Rightarrow> if top_module name \<in> set FORBIDDEN_IMPORTS then [''forbidden import: from '' @ name] else [])"
| "node_problems (PyName i) = (if i \<in> set FORBIDDEN_NAMES then [''forbidden use of '' @ [CHR 0x27] @ i @ [CHR 0x27]] else [])"
| "node_problems (PyAttribute v attr) =
     (if v = PyName ''os'' \<and> attr \<in> set FORBIDDEN_OS_ATTRS then [''forbidden call: os.'' @ attr] else [])
     @ (if is_dunder attr \<and> attr \<notin> {''__name__'', ''__doc__''} then [''forbidden dunder access: '' @ attr] else [])"
| "node_problems n = []"

fun find_run :: "pynode list \<Rightarrow> string list option" where
  "find_run [] = None"
| "find_run (PyFunctionDef n ps cs # rest) = (if n = ''run'' then Some ps else find_run rest)"
| "find_run (n # rest) = find_run rest"

definition contract_problems :: "pynode list \<Rightarrow> string list" where
  "contract_problems body = (case find_run body of
       None \<Rightarrow> [''missing required entrypoint: def run(input_path, output_dir, params)'']
     | Some ps \<Rightarrow> if take 3 ps \<noteq> REQUIRED_PARAMS
         then [''run() must take exactly (input_path, output_dir, params); got ('' @
           (if ps = [] then ''no args'' else py_join '', '' ps) @ '')''] else [])"

text \<open>De-duplication that keeps the first of equal entries.\<close>

fun first_of_each :: "string list \<Rightarrow> string list \<Rightarrow> string list" where
  "first_of_each seen [] = []"
| "first_of_each seen (p # ps) = (if p \<in> set seen then first_of_each seen ps else p # first_of_each (p # seen) ps)"

definition validate_skill_code :: "parser \<Rightarrow> string \<Rightarrow> string list" where
  "validate_skill_code parse code = (case parse code of
       Inl detail \<Rightarrow> [''syntax error: '' @ detail]
     | Inr body \<Rightarrow> first_of_each [] (contract_problems body @ concat (map node_problems (ast_walk [PyOther body]))))"

section \<open>What clean code is\<close>

text \<open>The nodes of a tree by structure.\<close>

fun tree_nodes :: "pynode \<Rightarrow> pynode list" where
  "tree_nodes (PyAttribute v a) = PyAttribute v a # tree_nodes v"
| "tree_nodes (PyFunctionDef n ps cs) = PyFunctionDef n ps cs # concat (map tree_nodes cs)"
| "tree_nodes (PyOther cs) = PyOther cs # concat (map tree_nodes cs)"
| "tree_nodes n = [n]"

lemma tree_nodes_children: "tree_nodes n = n # concat (map tree_nodes (child_nodes n))"
  by (cases n) auto

lemma ast_walk_nodes: "set (ast_walk todo) = (\<Union>n \<in> set todo. set (tree_nodes n))"
proof (induction todo rule: ast_walk.induct)
  case (2 n todo)
  then show ?case using tree_nodes_children [of n] by auto
qed simp

text \<open>The reference: no node of the tree uses what is forbidden, and \<open>run\<close> takes the three arguments first.\<close>

fun harmless :: "pynode \<Rightarrow> bool" where
  "harmless (PyImport names) \<longleftrightarrow> (\<forall>n \<in> set names. top_module n \<notin> set FORBIDDEN_IMPORTS)"
| "harmless (PyImportFrom m) \<longleftrightarrow> (\<forall>n \<in> set_option m. top_module n \<notin> set FORBIDDEN_IMPORTS)"
| "harmless (PyName i) \<longleftrightarrow> i \<notin> set FORBIDDEN_NAMES"
| "harmless (PyAttribute v attr) \<longleftrightarrow> \<not> (v = PyName ''os'' \<and> attr \<in> set FORBIDDEN_OS_ATTRS)
     \<and> (is_dunder attr \<longrightarrow> attr = ''__name__'' \<or> attr = ''__doc__'')"
| "harmless n \<longleftrightarrow> True"

definition clean_module :: "pynode list \<Rightarrow> bool" where
  "clean_module body \<longleftrightarrow> (\<exists>ps. find_run body = Some ps \<and> take 3 ps = REQUIRED_PARAMS)
     \<and> (\<forall>n \<in> set body. \<forall>m \<in> set (tree_nodes n). harmless m)"

lemma node_problems_harmless: "node_problems n = [] \<longleftrightarrow> harmless n"
  by (cases n) (auto simp: filter_empty_conv split: option.splits)

lemma first_of_each_empty: "first_of_each [] ps = [] \<longleftrightarrow> ps = []"
  by (cases ps) auto

text \<open>The scan finds nothing to complain about exactly when the code parses, no node anywhere in its tree uses what is forbidden, and
  the first module-level function \<open>run\<close> takes \<open>input_path, output_dir, params\<close> first.\<close>

theorem scan_passes_exactly_clean_code:
  "validate_skill_code parse code = [] \<longleftrightarrow> (\<exists>body. parse code = Inr body \<and> clean_module body)"
proof (cases "parse code")
  case (Inr body)
  have "contract_problems body = [] \<longleftrightarrow> (\<exists>ps. find_run body = Some ps \<and> take 3 ps = REQUIRED_PARAMS)"
    by (auto simp: contract_problems_def split: option.splits)
  moreover have "concat (map node_problems (ast_walk [PyOther body])) = [] \<longleftrightarrow> (\<forall>n \<in> set body. \<forall>m \<in> set (tree_nodes n). harmless m)"
    by (simp add: ast_walk_nodes node_problems_harmless)
  ultimately show ?thesis using Inr by (simp add: validate_skill_code_def first_of_each_empty clean_module_def)
qed (simp add: validate_skill_code_def)

end
