(* ===== verification/Manifest.thy ===== *)
theory Manifest
  imports Plans
begin

text \<open>
  \<open>assistant/skills/manifest.py\<close>: the declaration a skill comes with, its validation and its dump. Where pydantic reports the first of
  several problems the model keeps only that there is one: every refusal is the same exception. The characters of PyStr are below 256, where
  the digits of a regular expression are the ten ASCII ones.
\<close>

section \<open>Names and versions\<close>

text \<open>A pattern that ends in \<open>$\<close> also matches before one closing newline.\<close>

definition until_dollar :: "string \<Rightarrow> string" where
  "until_dollar s = (if s \<noteq> [] \<and> last s = CHR 0x0A then butlast s else s)"

definition small_letter :: "char \<Rightarrow> bool" where
  "small_letter c = (let n = code_point c in 97 \<le> n \<and> n \<le> 122)"

definition ascii_digit :: "char \<Rightarrow> bool" where
  "ascii_digit c = (let n = code_point c in 48 \<le> n \<and> n \<le> 57)"

definition name_re :: "string \<Rightarrow> bool" where
  "name_re s = (case until_dollar s of
       [] \<Rightarrow> False
     | c # t \<Rightarrow> small_letter c \<and> 1 \<le> length t \<and> length t \<le> 63
         \<and> list_all (\<lambda>d. small_letter d \<or> ascii_digit d \<or> d = CHR ''_'') t)"

definition version_re :: "string \<Rightarrow> bool" where
  "version_re s = (let parts = py_split CHR ''.'' (until_dollar s) in
     length parts = 3 \<and> list_all (\<lambda>p. p \<noteq> [] \<and> list_all ascii_digit p) parts)"

section \<open>The models\<close>

record context_action =
  ca_label :: string
  ca_handler :: string
  ca_item_types :: "item_type list"

record skill_manifest =
  sm_name :: string
  sm_description :: string
  sm_version :: string
  sm_context_menu :: "context_action list"

definition field_length :: "nat \<Rightarrow> nat \<Rightarrow> string \<Rightarrow> bool" where
  "field_length lo hi s = (lo \<le> length s \<and> length s \<le> hi)"

text \<open>\<open>extra="forbid"\<close>.\<close>

definition only_keys :: "string list \<Rightarrow> args \<Rightarrow> bool" where
  "only_keys ks d = list_all (\<lambda>(k, v). k \<in> set ks) d"

fun validate_item_type :: "json \<Rightarrow> item_type option" where
  "validate_item_type (JStr s) = (if s = ''FILE'' then Some FILE else if s = ''FOLDER'' then Some FOLDER else None)"
| "validate_item_type v = None"

definition make_action :: "string \<Rightarrow> string \<Rightarrow> item_type list \<Rightarrow> context_action option" where
  "make_action label handler types =
     (if field_length 1 64 label \<and> field_length 2 64 handler \<and> name_re handler \<and> types \<noteq> [] \<and> distinct types
      then Some \<lparr>ca_label = label, ca_handler = handler, ca_item_types = types\<rparr> else None)"

fun validate_action :: "json \<Rightarrow> context_action option" where
  "validate_action (JObj d) = (if \<not> only_keys [''label'', ''handler'', ''item_types''] d then None else
     case (get_key ''label'' d, get_key ''handler'' d, get_key ''item_types'' d) of
       (JStr label, JStr handler, JList types) \<Rightarrow> Option.bind (those (map validate_item_type types)) (make_action label handler)
     | _ \<Rightarrow> None)"
| "validate_action v = None"

fun validate_ui :: "json \<Rightarrow> context_action list option" where
  "validate_ui (JObj d) = (if \<not> only_keys [''context_menu''] d then None else
     case get_or (JList []) ''context_menu'' d of JList actions \<Rightarrow> those (map validate_action actions) | _ \<Rightarrow> None)"
| "validate_ui v = None"

definition make_manifest :: "string \<Rightarrow> string \<Rightarrow> string \<Rightarrow> context_action list \<Rightarrow> skill_manifest option" where
  "make_manifest name description version menu =
     (if field_length 2 64 name \<and> name_re name \<and> field_length 1 500 description \<and> version_re version
      then Some \<lparr>sm_name = name, sm_description = description, sm_version = version, sm_context_menu = menu\<rparr> else None)"

definition model_validate :: "args \<Rightarrow> skill_manifest option" where
  "model_validate d = (if \<not> only_keys [''name'', ''description'', ''version'', ''ui''] d then None else
     case (get_key ''name'' d, get_key ''description'' d, get_or (JStr ''1.0.0'') ''version'' d) of
       (JStr name, JStr description, JStr version) \<Rightarrow>
         Option.bind (validate_ui (get_or (JObj []) ''ui'' d)) (make_manifest name description version)
     | _ \<Rightarrow> None)"

fun validate_manifest :: "json \<Rightarrow> error + skill_manifest" where
  "validate_manifest (JObj d) = (case model_validate d of
       None \<Rightarrow> Inl BadOperation
     | Some m \<Rightarrow> if list_all (\<lambda>a. ca_handler a = sm_name m) (sm_context_menu m) then Inr m else Inl BadOperation)"
| "validate_manifest raw = Inl BadOperation"

section \<open>The dump\<close>

fun type_value :: "item_type \<Rightarrow> string" where
  "type_value FILE = ''FILE''"
| "type_value FOLDER = ''FOLDER''"

definition dump_action :: "context_action \<Rightarrow> json" where
  "dump_action a = JObj [(''label'', JStr (ca_label a)), (''handler'', JStr (ca_handler a)),
     (''item_types'', JList (map (JStr \<circ> type_value) (ca_item_types a)))]"

definition dump_manifest :: "skill_manifest \<Rightarrow> args" where
  "dump_manifest m = [(''name'', JStr (sm_name m)), (''description'', JStr (sm_description m)), (''version'', JStr (sm_version m)),
     (''ui'', JObj [(''context_menu'', JList (map dump_action (sm_context_menu m)))])]"

section \<open>What is accepted\<close>

definition action_ok :: "context_action \<Rightarrow> bool" where
  "action_ok a \<longleftrightarrow> make_action (ca_label a) (ca_handler a) (ca_item_types a) = Some a"

definition manifest_ok :: "skill_manifest \<Rightarrow> bool" where
  "manifest_ok m \<longleftrightarrow> make_manifest (sm_name m) (sm_description m) (sm_version m) (sm_context_menu m) = Some m
     \<and> (\<forall>a \<in> set (sm_context_menu m). action_ok a \<and> ca_handler a = sm_name m)"

lemma those_map_inverse: "(\<And>x. x \<in> set xs \<Longrightarrow> f (g x) = Some x) \<Longrightarrow> those (map f (map g xs)) = Some xs"
  by (induction xs) auto

lemma those_Some: "those (map f xs) = Some ys \<Longrightarrow> y \<in> set ys \<Longrightarrow> \<exists>x \<in> set xs. f x = Some y"
  by (induction xs arbitrary: ys) (auto split: option.splits)

lemma validated_action_ok: "validate_action v = Some a \<Longrightarrow> action_ok a"
  by (cases v) (auto simp: action_ok_def make_action_def bind_eq_Some_conv split: if_splits json.splits)

lemma validated_manifest_ok: "validate_manifest v = Inr m \<Longrightarrow> manifest_ok m"
proof -
  assume ok: "validate_manifest v = Inr m"
  then obtain d where v: "v = JObj d" by (cases v) auto
  with ok have m: "model_validate d = Some m" and h: "\<forall>a \<in> set (sm_context_menu m). ca_handler a = sm_name m"
    by (auto simp: list_all_iff split: option.splits if_splits)
  from m obtain menu n ds vs where menu: "validate_ui (get_or (JObj []) ''ui'' d) = Some menu" and made: "make_manifest n ds vs menu = Some m"
    by (auto simp: model_validate_def bind_eq_Some_conv split: if_splits json.splits)
  from made have "sm_context_menu m = menu" "make_manifest (sm_name m) (sm_description m) (sm_version m) (sm_context_menu m) = Some m"
    by (auto simp: make_manifest_def split: if_splits)
  moreover from menu have "action_ok a" if "a \<in> set menu" for a
    using that by (cases "get_or (JObj []) ''ui'' d")
      (auto split: if_splits json.splits dest!: those_Some validated_action_ok)
  ultimately show ?thesis using h by (simp add: manifest_ok_def)
qed

lemma validate_dumped_type [simp]: "validate_item_type (JStr (type_value t)) = Some t"
  by (cases t) auto

lemma validate_dumped_action: "action_ok a \<Longrightarrow> validate_action (dump_action a) = Some a"
proof -
  have "those (map validate_item_type (map (JStr \<circ> type_value) ts)) = Some ts" for ts
    by (rule those_map_inverse) (simp del: validate_item_type.simps)
  then show "action_ok a \<Longrightarrow> validate_action (dump_action a) = Some a"
    by (simp add: dump_action_def only_keys_def get_or_def action_ok_def del: map_map)
qed

lemma validate_dumped: "manifest_ok m \<Longrightarrow> validate_manifest (JObj (dump_manifest m)) = Inr m"
proof -
  assume ok: "manifest_ok m"
  then have "those (map validate_action (map dump_action (sm_context_menu m))) = Some (sm_context_menu m)"
    by (intro those_map_inverse) (simp add: manifest_ok_def validate_dumped_action)
  with ok show ?thesis
    by (simp add: dump_manifest_def model_validate_def only_keys_def get_or_def manifest_ok_def list_all_iff del: map_map)
qed

text \<open>What follows from the pattern: a checked name is never empty and has no slash, no dot and no blank except a closing newline.\<close>

lemma name_re_charset:
  assumes "name_re s"
  shows "s \<noteq> [] \<and> (\<forall>c \<in> set s. small_letter c \<or> ascii_digit c \<or> c = CHR ''_'' \<or> c = CHR 0x0A)"
proof -
  from assms obtain c t where t: "until_dollar s = c # t" and c: "small_letter c" "\<forall>d \<in> set t. small_letter d \<or> ascii_digit d \<or> d = CHR ''_''"
    by (auto simp: name_re_def list_all_iff split: list.splits)
  have "set s \<subseteq> insert (CHR 0x0A) (set (until_dollar s))"
    by (cases s rule: rev_cases) (auto simp: until_dollar_def)
  with t c show ?thesis by (auto simp: until_dollar_def)
qed

section \<open>Round trip\<close>

text \<open>A manifest that was accepted is stored as a dump that is accepted again, as the same manifest: what was proposed can be installed.\<close>

theorem manifest_dump_validates:
  assumes "validate_manifest raw = Inr m"
  shows "validate_manifest (JObj (dump_manifest m)) = Inr m"
  using assms by (intro validate_dumped validated_manifest_ok)

theorem manifest_dump_validates_witness:
  "\<exists>m. validate_manifest (JObj [(''name'', JStr ''zip_it''), (''description'', JStr ''Zip''), (''ui'', JObj [(''context_menu'', JList [JObj
      [(''item_types'', JList [JStr ''FOLDER'', JStr ''FILE'']), (''label'', JStr ''Zip it''), (''handler'', JStr ''zip_it'')]])])]) = Inr m
    \<and> sm_version m = ''1.0.0'' \<and> validate_manifest (JObj (dump_manifest m)) = Inr m"
proof -
  let ?raw = "JObj [(''name'', JStr ''zip_it''), (''description'', JStr ''Zip''), (''ui'', JObj [(''context_menu'', JList [JObj
      [(''item_types'', JList [JStr ''FOLDER'', JStr ''FILE'']), (''label'', JStr ''Zip it''), (''handler'', JStr ''zip_it'')]])])]"
  let ?m = "\<lparr>sm_name = ''zip_it'', sm_description = ''Zip'', sm_version = ''1.0.0'',
      sm_context_menu = [\<lparr>ca_label = ''Zip it'', ca_handler = ''zip_it'', ca_item_types = [FOLDER, FILE]\<rparr>]\<rparr>"
  have "validate_manifest ?raw = Inr ?m" by code_simp
  with manifest_dump_validates [OF this] show ?thesis by auto
qed

text \<open>The pattern of the name lets a closing newline through.\<close>

lemma name_with_newline: "name_re (''zip_it'' @ [CHR 0x0A]) \<and> \<not> name_re (''zip it'')"
  by code_simp

end
