(* ===== verification/Sandbox.thy ===== *)
theory Sandbox
  imports Planner
begin

text \<open>
  \<open>assistant/skills/sandbox.py\<close> and \<open>assistant/skills/smoke.py\<close>: the audit hook that the harness installs around a generated skill, what
  the harness prints, how the parent process reads it back, and the trial run of a fresh skill. The child process itself is a parameter: it
  says how it ended, what it printed and which files it left. Durations and the resource limits of the operating system are not
  modelled. Paths are POSIX paths, the flags of \<open>open\<close> those of Linux.
\<close>

unbundle bit_operations_syntax

section \<open>The audit hook\<close>

definition network_event :: "string \<Rightarrow> bool" where
  "network_event event = (starts_with ''socket.'' event \<or> starts_with ''http.'' event
     \<or> event \<in> {''urllib.Request'', ''ftplib.connect'', ''smtplib.connect''})"

definition process_event :: "string \<Rightarrow> bool" where
  "process_event event = (starts_with ''subprocess.'' event
     \<or> event \<in> {''os.system'', ''os.exec'', ''os.spawn'', ''os.posix_spawn'', ''os.startfile'', ''pty.spawn'', ''winreg.OpenKey''})"

definition WRITE_FLAGS :: int where
  "WRITE_FLAGS = 1 OR 2 OR 64 OR 512 OR 1024"

text \<open>The arguments of the event \<open>open\<close>: path, mode and flags, each of which may be missing.\<close>

type_synonym open_args = "string option \<times> string option \<times> int option"

fun writes :: "open_args \<Rightarrow> bool" where
  "writes (path, mode, flags) =
     ((case mode of None \<Rightarrow> False | Some m \<Rightarrow> list_ex (\<lambda>c. c \<in> set ''wax+'') m)
      \<or> (case flags of None \<Rightarrow> False | Some f \<Rightarrow> f AND WRITE_FLAGS \<noteq> 0))"

definition allowed_roots :: "(string \<Rightarrow> string) \<Rightarrow> string list \<Rightarrow> string list" where
  "allowed_roots realpath allow_write = map realpath (filter (\<lambda>d. d \<noteq> []) allow_write)"

definition is_allowed :: "(string \<Rightarrow> string) \<Rightarrow> string list \<Rightarrow> string \<Rightarrow> bool" where
  "is_allowed realpath roots path =
     (let rp = realpath path in list_ex (\<lambda>d. rp = d \<or> starts_with (d @ ''/'') rp) roots)"

datatype verdict = Passes | NetworkBlocked | ProcessBlocked | WriteBlocked

definition audit :: "(string \<Rightarrow> string) \<Rightarrow> string list \<Rightarrow> string \<Rightarrow> open_args \<Rightarrow> verdict" where
  "audit realpath roots event a =
     (if network_event event then NetworkBlocked
      else if process_event event then ProcessBlocked
      else if event = ''open'' then (case fst a of
          None \<Rightarrow> Passes
        | Some path \<Rightarrow> if writes a \<and> \<not> is_allowed realpath roots path then WriteBlocked else Passes)
      else Passes)"

section \<open>The report of the harness\<close>

definition RESULT_MARKER :: string where "RESULT_MARKER = ''<<<SANDBOX_RESULT>>>''"

text \<open>How the generated module behaved: the texts are the \<open>repr\<close> of the exception and the end of its traceback.\<close>

datatype skill_run = LoadFailed string | NoRunFunction | Returned json | PolicyViolation string | RunRaised string string

fun harness_payload :: "skill_run \<Rightarrow> args" where
  "harness_payload (LoadFailed e) = [(''ok'', JBool False), (''error'', JStr (''failed to load generated code: '' @ e))]"
| "harness_payload NoRunFunction =
     [(''ok'', JBool False), (''error'', JStr ''generated code must define run(input_path, output_dir, params)'')]"
| "harness_payload (Returned output) = [(''ok'', JBool True), (''output'', output)]"
| "harness_payload (PolicyViolation e) = [(''ok'', JBool False), (''error'', JStr (''sandbox policy violation: '' @ e))]"
| "harness_payload (RunRaised e tb) = [(''ok'', JBool False), (''error'', JStr e), (''traceback'', JStr (drop (length tb - 1500) tb))]"

definition emit :: "(json \<Rightarrow> string) \<Rightarrow> args \<Rightarrow> string" where
  "emit dumps payload = CHR 0x0A # RESULT_MARKER @ dumps (JObj payload) @ [CHR 0x0A]"

text \<open>\<open>str.splitlines()\<close>.\<close>

definition is_break :: "char \<Rightarrow> bool" where
  "is_break c = (let n = code_point c in n \<in> {10, 11, 12, 13, 28, 29, 30, 133})"

fun split_lines :: "string \<Rightarrow> string \<Rightarrow> string list" where
  "split_lines cur [] = (if cur = [] then [] else [cur])"
| "split_lines cur [c] = (if is_break c then [cur] else [cur @ [c]])"
| "split_lines cur (c # d # s) =
     (if c = CHR 0x0D \<and> d = CHR 0x0A then cur # split_lines [] s
      else if is_break c then cur # split_lines [] (d # s) else split_lines (cur @ [c]) (d # s))"

definition extract_result :: "(string \<Rightarrow> json option) \<Rightarrow> string \<Rightarrow> args option" where
  "extract_result loads stdout = (case find (starts_with RESULT_MARKER) (rev (split_lines [] stdout)) of
       None \<Rightarrow> None
     | Some line \<Rightarrow> (case loads (drop (length RESULT_MARKER) line) of Some (JObj d) \<Rightarrow> Some d | _ \<Rightarrow> None))"

section \<open>A run\<close>

text \<open>What the parent writes for the child, relative to a fresh directory: directories and files.\<close>

datatype host_op = MakeDirs "string list" | WriteFile "string list" bytes

type_synonym host_input = "host_op list \<times> string list"

datatype process = TimedOut string string | Exited int string string

text \<open>The files a run leaves below its output directory, in the order of their paths.\<close>

type_synonym output_files = "(string list \<times> bytes) list"

record run_report =
  rr_ok :: bool
  rr_output :: json
  rr_error :: json
  rr_timed_out :: bool
  rr_stdout :: string
  rr_stderr :: string
  rr_produced_files :: "string list"

record sandbox =
  sb_timeout :: int
  sb_loads :: "string \<Rightarrow> json option"
  sb_process :: "string \<Rightarrow> host_input \<Rightarrow> args \<Rightarrow> world \<Rightarrow> process \<times> output_files"

definition last_chars :: "nat \<Rightarrow> string \<Rightarrow> string" where
  "last_chars n s = drop (length s - n) s"

text \<open>\<open>SkillSandbox.run\<close>, with the output directory it leaves behind: none after a timeout.\<close>

definition sandbox_run :: "sandbox \<Rightarrow> string \<Rightarrow> host_input \<Rightarrow> args \<Rightarrow> world \<Rightarrow> run_report \<times> output_files option" where
  "sandbox_run sb code input params w = (case sb_process sb code input params w of
       (TimedOut out err, files) \<Rightarrow>
         (\<lparr>rr_ok = False, rr_output = JNull, rr_error = JStr (''sandbox timed out after '' @ int_str (max 1 (sb_timeout sb)) @ ''s''),
           rr_timed_out = True, rr_stdout = out, rr_stderr = err, rr_produced_files = []\<rparr>, None)
     | (Exited code out err, files) \<Rightarrow>
         let produced = map (\<lambda>(path, data). py_join ''/'' path) files in
         (case extract_result (sb_loads sb) out of
            None \<Rightarrow> \<lparr>rr_ok = False, rr_output = JNull,
              rr_error = JStr (''sandbox produced no result (exit '' @ int_str code @ '')''
                @ (if err \<noteq> [] then '': '' @ last_chars 500 (py_strip err) else [])),
              rr_timed_out = False, rr_stdout = last_chars 2000 out, rr_stderr = last_chars 2000 err, rr_produced_files = produced\<rparr>
          | Some parsed \<Rightarrow> \<lparr>rr_ok = truthy (get_key ''ok'' parsed), rr_output = get_key ''output'' parsed, rr_error = get_key ''error'' parsed,
              rr_timed_out = False, rr_stdout = last_chars 2000 out, rr_stderr = last_chars 2000 err, rr_produced_files = produced\<rparr>, Some files))"

section \<open>The trial run\<close>

definition CODE_DEFECT_MARKERS :: "string list" where
  "CODE_DEFECT_MARKERS = [''NameError'', ''SyntaxError'', ''IndentationError'', ''AttributeError'', ''UnboundLocalError'', ''TypeError'',
     ''re.error'', ''bad escape'', ''ModuleNotFoundError'', ''ImportError'']"

definition FIXTURE_TEXT :: string where
  "FIXTURE_TEXT = ''smoke test'' @ [CHR 0x0A] @ ''line two'' @ [CHR 0x0A]"

text \<open>\<open>marker in error\<close> for any of the markers, where the child may have reported any JSON value as its error.\<close>

fun looks_like_code_defect :: "json \<Rightarrow> error + bool" where
  "looks_like_code_defect (JStr s) = Inr (list_ex (\<lambda>m. find_str m s \<noteq> None) CODE_DEFECT_MARKERS)"
| "looks_like_code_defect (JList xs) = Inr (list_ex (\<lambda>m. JStr m \<in> set xs) CODE_DEFECT_MARKERS)"
| "looks_like_code_defect (JObj d) = Inr (list_ex (\<lambda>m. m \<in> set (map fst d)) CODE_DEFECT_MARKERS)"
| "looks_like_code_defect v = Inl PyTypeError"

definition reported_error :: "run_report \<Rightarrow> json" where
  "reported_error r = (if truthy (rr_error r) then rr_error r else JStr ''unknown error'')"

record smoke_outcome =
  so_ok :: bool
  so_error :: string
  so_is_code_defect :: bool

definition fixture :: "string \<Rightarrow> host_input" where
  "fixture item_type = (if item_type = ''FOLDER''
     then ([MakeDirs [''input'', ''sub''], WriteFile [''input'', ''a.txt''] FIXTURE_TEXT, WriteFile [''input'', ''sub'', ''b.txt''] FIXTURE_TEXT],
       [''input''])
     else ([WriteFile [''sample.txt''] FIXTURE_TEXT], [''sample.txt'']))"

fun smoke_types :: "sandbox \<Rightarrow> string \<Rightarrow> string list \<Rightarrow> world \<Rightarrow> error + smoke_outcome" where
  "smoke_types sb code [] w = Inr \<lparr>so_ok = True, so_error = [], so_is_code_defect = False\<rparr>"
| "smoke_types sb code (t # ts) w =
     (let r = fst (sandbox_run sb code (fixture t) [(''filename'', JStr ''sample.txt''), (''item_type'', JStr t)] w) in
      if rr_ok r then smoke_types sb code ts w
      else (case looks_like_code_defect (reported_error r) of
          Inl e \<Rightarrow> Inl e
        | Inr defect \<Rightarrow> if defect
            then Inr \<lparr>so_ok = False, so_error = ''running it on a '' @ t @ '' input raised: '' @ py_str (reported_error r), so_is_code_defect = True\<rparr>
            else smoke_types sb code ts w))"

definition smoke_test_generated_code :: "sandbox \<Rightarrow> string \<Rightarrow> string list \<Rightarrow> world \<Rightarrow> error + smoke_outcome" where
  "smoke_test_generated_code sb code item_types w = smoke_types sb code (if item_types = [] then [''FILE''] else item_types) w"

section \<open>What the hook lets through\<close>

text \<open>The test on the text of a path is the test on its components: siblings that share a prefix of letters are not mistaken for folders below.\<close>

lemma split_slash_below: "py_split c (d @ c # s) = py_split c d @ py_split c s"
proof (induction d)
  case (Cons x d)
  then show ?case using py_split_nonempty [of c d] by (cases "py_split c d") auto
qed simp

lemma join_append: "ps \<noteq> [] \<Longrightarrow> qs \<noteq> [] \<Longrightarrow> py_join sep (ps @ qs) = py_join sep ps @ sep @ py_join sep qs"
proof (induction sep ps rule: py_join.induct)
  case (2 sep x)
  then show ?case by (cases qs) auto
qed auto

lemma below_components:
  "rp = d \<or> starts_with (d @ ''/'') rp \<longleftrightarrow> (\<exists>rest. py_split CHR ''/'' rp = py_split CHR ''/'' d @ rest)"
proof
  assume "rp = d \<or> starts_with (d @ ''/'') rp"
  then show "\<exists>rest. py_split CHR ''/'' rp = py_split CHR ''/'' d @ rest"
  proof
    assume "starts_with (d @ ''/'') rp"
    then have "rp = (d @ ''/'') @ drop (length (d @ ''/'')) rp" unfolding starts_with_def by (metis append_take_drop_id)
    then obtain s where "rp = d @ CHR ''/'' # s" by (metis append.assoc append_Cons append_Nil)
    then show ?thesis by (simp add: split_slash_below)
  qed simp
next
  assume "\<exists>rest. py_split CHR ''/'' rp = py_split CHR ''/'' d @ rest"
  then obtain rest where r: "py_split CHR ''/'' rp = py_split CHR ''/'' d @ rest" by blast
  show "rp = d \<or> starts_with (d @ ''/'') rp"
  proof (cases "rest = []")
    case True
    have "py_join ''/'' (py_split CHR ''/'' rp) = d" by (simp only: r True append_Nil2 py_join_split)
    then show ?thesis by (simp only: py_join_split simp_thms)
  next
    case False
    have "py_join ''/'' (py_split CHR ''/'' rp) = d @ ''/'' @ py_join ''/'' rest"
      by (simp only: r join_append [OF py_split_nonempty False] py_join_split)
    then have "rp = d @ ''/'' @ py_join ''/'' rest" by (simp only: py_join_split)
    then show ?thesis by (simp add: starts_with_def)
  qed
qed

lemma open_is_local: "\<not> network_event ''open'' \<and> \<not> process_event ''open''"
  by code_simp

lemma audited_writes_stay_inside:
  assumes "audit realpath (allowed_roots realpath dirs) ''open'' (Some path, mode, flags) = Passes" "writes (Some path, mode, flags)"
  shows "\<exists>d \<in> set dirs. d \<noteq> [] \<and> (\<exists>rest. py_split CHR ''/'' (realpath path) = py_split CHR ''/'' (realpath d) @ rest)"
proof -
  from assms have "is_allowed realpath (allowed_roots realpath dirs) path"
    using open_is_local by (simp add: audit_def del: writes.simps split: if_splits)
  then obtain d where "d \<in> set dirs" "d \<noteq> []" "realpath path = realpath d \<or> starts_with (realpath d @ ''/'') (realpath path)"
    by (auto simp: is_allowed_def Let_def allowed_roots_def list_ex_iff)
  then show ?thesis using below_components [of "realpath path" "realpath d"] by blast
qed

text \<open>But the hook knows no other event of the file system: removing or renaming a file outside, whose events have no path that it looks at,
  passes.\<close>

lemma removal_passes: "audit realpath roots ''os.remove'' a = Passes \<and> audit realpath roots ''os.rename'' a = Passes"
  by (simp add: audit_def network_event_def process_event_def starts_with_def)

section \<open>The report is read back\<close>

lemma split_lines_last: "\<forall>c \<in> set line. \<not> is_break c \<Longrightarrow> split_lines cur (line @ [CHR 0x0A]) = [cur @ line]"
proof (induction line arbitrary: cur)
  case (Cons c line)
  moreover obtain d s where "line @ [CHR 0x0A] = d # s" by (cases line) auto
  moreover from Cons.prems have "c \<noteq> CHR 0x0D" by (auto simp: is_break_def code_point_def)
  ultimately show ?case by simp
qed (simp add: is_break_def code_point_def)

lemma split_lines_append:
  assumes "\<forall>c \<in> set line. \<not> is_break c"
  shows "\<exists>pre. split_lines cur (s @ CHR 0x0A # line @ [CHR 0x0A]) = pre @ [line]"
proof (induction cur s rule: split_lines.induct)
  case (1 cur)
  obtain d t where "line @ [CHR 0x0A] = d # t" by (cases line) auto
  moreover have "is_break (CHR 0x0A)" by (simp add: is_break_def code_point_def)
  ultimately show ?case using split_lines_last [OF assms, of "[]"] by simp
next
  case (2 cur c)
  obtain d t where line: "line @ [CHR 0x0A] = d # t" by (cases line) auto
  have lf: "is_break (CHR 0x0A)" "is_break (CHR 0x0D)" by (simp_all add: is_break_def code_point_def)
  note rest = split_lines_last [OF assms, of "[]", unfolded line append_Nil]
  show ?case using lf rest line by (cases "c = CHR 0x0D"; cases "is_break c") simp_all
next
  case (3 cur c d s)
  then show ?case by (auto split: if_splits; metis append_Cons)
qed

text \<open>Whatever the generated code printed before, the parent reads the payload that the harness printed last, if only the printer
  of JSON writes one line that its reader understands.\<close>

lemma harness_report_is_read:
  assumes "loads (dumps (JObj payload)) = Some (JObj payload)" "\<forall>c \<in> set (dumps (JObj payload)). \<not> is_break c"
  shows "extract_result loads (printed @ emit dumps payload) = Some payload"
proof -
  have "\<forall>c \<in> set RESULT_MARKER. \<not> is_break c" by code_simp
  with assms(2) have "\<forall>c \<in> set (RESULT_MARKER @ dumps (JObj payload)). \<not> is_break c" by auto
  from split_lines_append [OF this, of "[]" printed]
  obtain pre where "split_lines [] (printed @ emit dumps payload) = pre @ [RESULT_MARKER @ dumps (JObj payload)]"
    by (auto simp: emit_def)
  with assms(1) show ?thesis by (simp add: extract_result_def starts_with_def)
qed

end
