(* ===== verification/SubAgent.thy ===== *)
theory SubAgent
  imports Codeguard Manifest Sandbox
begin

text \<open>
  \<open>assistant/subagent.py\<close>: the agent that has a language model write a skill, checks manifest and code, and asks again with what it
  found. The model, \<open>json.loads\<close>, \<open>ast.parse\<close> and the wording of the prompts are parameters; nothing is executed except by
  the trial run it is handed.
\<close>

section \<open>Reading the reply\<close>

text \<open>\<open>for x in v\<close>; \<open>v or []\<close> makes every false value empty.\<close>

fun iterate :: "json \<Rightarrow> error + json list" where
  "iterate (JList xs) = Inr xs"
| "iterate (JStr s) = Inr (map (\<lambda>c. JStr [c]) s)"
| "iterate (JObj d) = Inr (map (JStr \<circ> fst) d)"
| "iterate v = Inl PyTypeError"

definition iterate_or_empty :: "json \<Rightarrow> error + json list" where
  "iterate_or_empty v = (if truthy v then iterate v else Inr [])"

fun add_types :: "json list \<Rightarrow> string list \<Rightarrow> string list" where
  "add_types [] types = types"
| "add_types (JStr s # vs) types = add_types vs (if s \<in> set types then types else types @ [s])"
| "add_types (v # vs) types = add_types vs types"

fun action_types :: "json list \<Rightarrow> string list \<Rightarrow> error + string list" where
  "action_types [] types = Inr types"
| "action_types (JObj a # as) types = (case iterate_or_empty (get_key ''item_types'' a) of
       Inl e \<Rightarrow> Inl e | Inr vs \<Rightarrow> action_types as (add_types vs types))"
| "action_types (v # as) types = action_types as types"

definition menu_actions :: "args \<Rightarrow> error + json list" where
  "menu_actions manifest = (case get_key ''ui'' manifest of
       JObj ui \<Rightarrow> iterate (get_or (JList []) ''context_menu'' ui) | _ \<Rightarrow> Inr [])"

definition declared_item_types :: "args \<Rightarrow> error + string list" where
  "declared_item_types manifest = (case menu_actions manifest of
       Inl e \<Rightarrow> Inl e
     | Inr actions \<Rightarrow> map_sum id (\<lambda>types. if types = [] then [''FILE''] else types) (action_types actions []))"

text \<open>The handler of every menu entry is set to the name.\<close>

fun name_handler :: "string \<Rightarrow> json \<Rightarrow> json" where
  "name_handler name (JObj d) = JObj (dict_set ''handler'' (JStr name) d)"
| "name_handler name v = v"

definition name_handlers :: "json \<Rightarrow> json \<Rightarrow> json" where
  "name_handlers name ui = (case (name, ui) of
       (JStr n, JObj d) \<Rightarrow> (case get_key ''context_menu'' d of
           JList actions \<Rightarrow> if n = [] then ui else JObj (dict_set ''context_menu'' (JList (map (name_handler n) actions)) d)
         | _ \<Rightarrow> ui)
     | _ \<Rightarrow> ui)"

definition split_manifest_and_code :: "(string \<Rightarrow> json option) \<Rightarrow> string \<Rightarrow> (args \<times> string) option" where
  "split_manifest_and_code loads content = (case loads (extract_json content) of
       Some (JObj data) \<Rightarrow> (case map_of data ''code'' of
           Some (JStr code) \<Rightarrow>
             let name = get_or (JStr []) ''name'' data in
             Some ([(''name'', name), (''description'', get_or (JStr []) ''description'' data), (''version'', get_or (JStr ''1.0.0'') ''version'' data),
               (''ui'', name_handlers name (get_or (JObj [(''context_menu'', JList [])]) ''ui'' data))], code)
         | _ \<Rightarrow> None)
     | _ \<Rightarrow> None)"

section \<open>Checking it\<close>

text \<open>What is wrong with a reply; the texts of it are for the prompt.\<close>

datatype skill_problem = NotJson | ManifestProblem | CodeProblem string | SmokeProblem string

definition check_proposal :: "parser \<Rightarrow> args \<Rightarrow> string \<Rightarrow> skill_manifest option \<times> skill_problem list" where
  "check_proposal parse manifest_raw code = (let code_problems = map CodeProblem (validate_skill_code parse code) in
     case validate_manifest (JObj manifest_raw) of
       Inl e \<Rightarrow> (None, ManifestProblem # code_problems)
     | Inr m \<Rightarrow> (Some m, code_problems))"

record codegen =
  cg_chat :: "llm_message list \<Rightarrow> world \<Rightarrow> error + string"
  cg_loads :: "string \<Rightarrow> json option"
  cg_parse :: parser
  cg_prompt :: "string \<Rightarrow> string"
  cg_rejection :: "skill_problem list \<Rightarrow> string"
  cg_num_ctx :: int
  cg_max_repair :: int

record codegen_result =
  cr_ok :: bool
  cr_name :: string
  cr_description :: string
  cr_manifest :: "args option"
  cr_code :: string
  cr_problems :: "skill_problem list"

type_synonym smoke = "string \<Rightarrow> string list \<Rightarrow> world \<Rightarrow> error + smoke_outcome"

text \<open>The trial run, when there is one and nothing else was found.\<close>

definition smoke_problems :: "smoke option \<Rightarrow> skill_manifest \<Rightarrow> string \<Rightarrow> skill_problem list M" where
  "smoke_problems smoke m code = (case smoke of
       None \<Rightarrow> returnM []
     | Some run \<Rightarrow> bindM (liftM (\<lambda>_. declared_item_types (dump_manifest m))) (\<lambda>types.
         bindM (liftM (run code types)) (\<lambda>outcome.
           returnM (if \<not> so_ok outcome \<and> so_is_code_defect outcome then [SmokeProblem (so_error outcome)] else []))))"

definition judge_reply :: "codegen \<Rightarrow> smoke option \<Rightarrow> string \<Rightarrow> ((skill_manifest \<times> string) + skill_problem list) M" where
  "judge_reply cg smoke content = (case split_manifest_and_code (cg_loads cg) content of
       None \<Rightarrow> returnM (Inr [NotJson])
     | Some (manifest_raw, code) \<Rightarrow> (case check_proposal (cg_parse cg) manifest_raw code of
           (Some m, []) \<Rightarrow> bindM (smoke_problems smoke m code) (\<lambda>problems.
             returnM (if problems = [] then Inl (m, code) else Inr problems))
         | (m, problems) \<Rightarrow> returnM (Inr problems)))"

definition accepted_skill :: "skill_manifest \<Rightarrow> string \<Rightarrow> codegen_result" where
  "accepted_skill m code = \<lparr>cr_ok = True, cr_name = sm_name m, cr_description = sm_description m, cr_manifest = Some (dump_manifest m),
     cr_code = code, cr_problems = []\<rparr>"

fun author_attempts :: "codegen \<Rightarrow> smoke option \<Rightarrow> nat \<Rightarrow> llm_message list \<Rightarrow> skill_problem list \<Rightarrow> codegen_result M" where
  "author_attempts cg smoke 0 messages problems =
     returnM \<lparr>cr_ok = False, cr_name = [], cr_description = [], cr_manifest = None, cr_code = [], cr_problems = problems\<rparr>"
| "author_attempts cg smoke (Suc n) messages problems =
     bindM (liftM (cg_chat cg (trim_messages (cg_num_ctx cg) messages))) (\<lambda>content.
     bindM (judge_reply cg smoke content) (\<lambda>judged. case judged of
         Inl (m, code) \<Rightarrow> returnM (accepted_skill m code)
       | Inr problems \<Rightarrow> author_attempts cg smoke n
           (messages @ [\<lparr>lm_role = ASSISTANT_ROLE, lm_content = content\<rparr>,
              \<lparr>lm_role = USER_ROLE, lm_content = cg_rejection cg problems\<rparr>]) problems))"

definition author :: "codegen \<Rightarrow> string \<Rightarrow> smoke option \<Rightarrow> codegen_result M" where
  "author cg request smoke = author_attempts cg smoke (Suc (nat (max 0 (cg_max_repair cg))))
     [\<lparr>lm_role = SYSTEM_ROLE, lm_content = cg_prompt cg request\<rparr>, \<lparr>lm_role = USER_ROLE, lm_content = request\<rparr>] []"

section \<open>What it hands over\<close>

lemma keeps_judge: "keeps f (judge_reply cg smoke content)"
  by (auto simp: judge_reply_def smoke_problems_def keeps_def run_bind split: option.split prod.split list.split sum.split)

lemma keeps_author: "keeps f (author cg request smoke)"
proof -
  have "keeps f (author_attempts cg smoke n ms ps)" for n ms ps
  proof (induction n arbitrary: ms ps)
    case (Suc n)
    show ?case unfolding author_attempts.simps
      by (intro keeps_rules keeps_judge) (auto intro: keeps_return Suc.IH split: sum.split prod.split)
  qed (simp add: keeps_return)
  then show ?thesis unfolding author_def .
qed

text \<open>A skill is handed over only with a manifest that validates and code that the scan passed; in no other case is there one.\<close>

definition well_checked :: "parser \<Rightarrow> codegen_result \<Rightarrow> bool" where
  "well_checked parse r \<longleftrightarrow> (case cr_manifest r of
       None \<Rightarrow> \<not> cr_ok r
     | Some d \<Rightarrow> cr_ok r \<and> validate_skill_code parse (cr_code r) = []
         \<and> (\<exists>m. manifest_ok m \<and> d = dump_manifest m \<and> cr_name r = sm_name m \<and> cr_description r = sm_description m))"

lemma judged_skill:
  assumes "judge_reply cg smoke content w = (Inr (Inl (m, code)), w')"
  shows "manifest_ok m \<and> validate_skill_code (cg_parse cg) code = []"
  using assms
  by (auto simp: judge_reply_def check_proposal_def Let_def simp del: validate_manifest.simps split: option.splits prod.splits list.splits sum.splits if_splits
      elim!: bind_InrE intro: validated_manifest_ok)

lemma author_well_checked:
  assumes "author cg request smoke w = (Inr r, w')"
  shows "well_checked (cg_parse cg) r"
proof -
  have "author_attempts cg smoke n ms ps w = (Inr r, w') \<Longrightarrow> well_checked (cg_parse cg) r" for n ms ps w
  proof (induction n arbitrary: ms ps w)
    case (Suc n)
    then obtain content w1 judged w2 where j: "judge_reply cg smoke content w1 = (Inr judged, w2)"
      and rest: "(case judged of Inl (m, code) \<Rightarrow> returnM (accepted_skill m code)
        | Inr problems \<Rightarrow> author_attempts cg smoke n (ms @ [\<lparr>lm_role = ASSISTANT_ROLE, lm_content = content\<rparr>,
            \<lparr>lm_role = USER_ROLE, lm_content = cg_rejection cg problems\<rparr>]) problems) w2 = (Inr r, w')"
      unfolding author_attempts.simps by (elim bind_InrE)
    show ?case
    proof (cases judged)
      case (Inl mc)
      with j rest judged_skill show ?thesis by (cases mc) (fastforce simp: well_checked_def accepted_skill_def)
    next
      case (Inr problems)
      with rest Suc.IH show ?thesis by auto
    qed
  qed (auto simp: well_checked_def)
  from this [OF assms [unfolded author_def]] show ?thesis .
qed

end
