(* ===== verification/Authoring.thy ===== *)
theory Authoring
  imports SubAgent Skills Upload Snapshots
begin

text \<open>
  Skills that the assistant writes for its users: the table of them (\<open>assistant/repository.py\<close>), and their life from proposal over approval to
  execution (\<open>assistant/skills/authoring.py\<close>). The sandbox, the language model and the parsers are parameters, as in SubAgent. The
  files that are prepared for the child process are given as operations below a fresh directory; what the host's file system
  does with them is not modelled. The keywords outside the characters of PyStr are left out: a message of such characters cannot contain them.
\<close>

section \<open>Table\<close>

definition SKILL_PENDING :: string where "SKILL_PENDING = ''pending''"

definition SKILL_INSTALLED :: string where "SKILL_INSTALLED = ''installed''"

definition skill_by_id :: "uuid \<Rightarrow> uuid \<Rightarrow> assistant_skill option M" where
  "skill_by_id user_id skill_id =
     liftM (\<lambda>w. scalar_one_or_none (filter (\<lambda>r. ak_id r = skill_id \<and> ak_user_id r = user_id) (authored_skills w)))"

definition skill_by_name :: "uuid \<Rightarrow> string \<Rightarrow> assistant_skill option M" where
  "skill_by_name user_id name =
     liftM (\<lambda>w. scalar_one_or_none (filter (\<lambda>r. ak_user_id r = user_id \<and> ak_name r = name) (authored_skills w)))"

definition list_by_status :: "uuid \<Rightarrow> string option \<Rightarrow> assistant_skill list M" where
  "list_by_status user_id status = getsM (\<lambda>w. sort_key ak_created_at
     (filter (\<lambda>r. ak_user_id r = user_id \<and> (status = None \<or> status = Some (ak_status r))) (authored_skills w)))"

text \<open>The unique constraint on user and name.\<close>

definition uq_skill_names :: "world \<Rightarrow> bool" where
  "uq_skill_names w = distinct (map (\<lambda>r. (ak_user_id r, ak_name r)) (authored_skills w))"

definition flush_skills :: "unit M" where
  "flush_skills = (\<lambda>w. if uq_skill_names w then (Inr (), w) else (Inl IntegrityError, w))"

text \<open>The changes that an update sends for a loaded row; what is returned is the row with them.\<close>

definition store_skill :: "assistant_skill \<Rightarrow> (assistant_skill \<Rightarrow> assistant_skill) \<Rightarrow> assistant_skill M" where
  "store_skill r f = thenM (modifyM (authored_skills_update (row_update ak_id (ak_id r) f))) (thenM flush_skills (returnM (f r)))"

definition create_or_replace_pending :: "uuid \<Rightarrow> string \<Rightarrow> string \<Rightarrow> args \<Rightarrow> string \<Rightarrow> assistant_skill M" where
  "create_or_replace_pending user_id name description manifest code =
     bindM now (\<lambda>t. bindM (skill_by_name user_id name) (\<lambda>found. case found of
         None \<Rightarrow> bindM uuid4 (\<lambda>i.
           let r = \<lparr>ak_id = i, ak_user_id = user_id, ak_name = name, ak_description = description, ak_manifest = manifest, ak_code = code,
                    ak_status = SKILL_PENDING, ak_chat_enabled = False, ak_created_at = t, ak_updated_at = t\<rparr> in
           thenM (modifyM (authored_skills_update (\<lambda>rs. rs @ [r]))) (thenM flush_skills (returnM r)))
       | Some r \<Rightarrow> store_skill r (\<lambda>r. r\<lparr>ak_description := description, ak_manifest := manifest, ak_code := code,
           ak_status := SKILL_PENDING, ak_updated_at := t\<rparr>)))"

definition change_skill :: "uuid \<Rightarrow> uuid \<Rightarrow> (time \<Rightarrow> assistant_skill \<Rightarrow> assistant_skill) \<Rightarrow> assistant_skill option M" where
  "change_skill user_id skill_id f = bindM (skill_by_id user_id skill_id) (\<lambda>found. case found of
       None \<Rightarrow> returnM None
     | Some r \<Rightarrow> bindM now (\<lambda>t. bindM (store_skill r (f t)) (\<lambda>r'. returnM (Some r'))))"

definition repo_approve :: "uuid \<Rightarrow> uuid \<Rightarrow> assistant_skill option M" where
  "repo_approve user_id skill_id = change_skill user_id skill_id (\<lambda>t r. r\<lparr>ak_status := SKILL_INSTALLED, ak_updated_at := t\<rparr>)"

definition repo_update :: "uuid \<Rightarrow> uuid \<Rightarrow> string \<Rightarrow> args \<Rightarrow> string \<Rightarrow> assistant_skill option M" where
  "repo_update user_id skill_id description manifest code = change_skill user_id skill_id
     (\<lambda>t r. r\<lparr>ak_description := description, ak_manifest := manifest, ak_code := code, ak_updated_at := t\<rparr>)"

definition set_chat_enabled :: "uuid \<Rightarrow> uuid \<Rightarrow> bool \<Rightarrow> assistant_skill option M" where
  "set_chat_enabled user_id skill_id enabled = change_skill user_id skill_id (\<lambda>t r. r\<lparr>ak_chat_enabled := enabled, ak_updated_at := t\<rparr>)"

definition repo_delete :: "uuid \<Rightarrow> uuid \<Rightarrow> bool M" where
  "repo_delete user_id skill_id = bindM (skill_by_id user_id skill_id) (\<lambda>found. case found of
       None \<Rightarrow> returnM False
     | Some r \<Rightarrow> thenM (modifyM (authored_skills_update (row_delete (\<lambda>x. ak_id x = ak_id r)))) (thenM flush_skills (returnM True)))"

section \<open>What a message asks for\<close>

definition INSPECT_DETAILS_SKILL_NAME :: string where "INSPECT_DETAILS_SKILL_NAME = ''inspect_item_details''"

definition INSPECT_DETAILS_DESCRIPTION :: string where "INSPECT_DETAILS_DESCRIPTION = ''Show details for a selected drive item.''"

definition GENERATION_VERBS :: "string list" where
  "GENERATION_VERBS = [''make'', ''create'', ''build'', ''generate'', ''author'', ''add a'']"

definition GENERATION_TARGETS :: "string list" where
  "GENERATION_TARGETS = [''skill'', ''function'', ''feature'', ''7zip'', ''7-zip'', ''decompress'', ''compress'', ''extract'', ''convert'', ''thumbnail'']"

definition has_any :: "string list \<Rightarrow> string \<Rightarrow> bool" where
  "has_any phrases text = list_ex (\<lambda>p. find_str p text \<noteq> None) phrases"

definition looks_like_context_menu_skill_request :: "string \<Rightarrow> bool" where
  "looks_like_context_menu_skill_request message = (let lowered = py_lower message in
     has_any [''right click'', ''right-click'', ''context menu''] lowered \<and> has_any [''inspect'', ''detail'', ''details'', ''metadata''] lowered)"

definition looks_like_skill_generation_request :: "string \<Rightarrow> bool" where
  "looks_like_skill_generation_request message = (let lowered = py_lower message in
     has_any (map py_lower GENERATION_VERBS) lowered \<and> has_any (map py_lower GENERATION_TARGETS) lowered)"

definition inspect_details_manifest :: args where
  "inspect_details_manifest = [(''name'', JStr INSPECT_DETAILS_SKILL_NAME), (''description'', JStr INSPECT_DETAILS_DESCRIPTION), (''version'', JStr ''1.0.0''),
     (''ui'', JObj [(''context_menu'', JList [JObj [(''label'', JStr ''Inspect details''), (''handler'', JStr INSPECT_DETAILS_SKILL_NAME),
        (''item_types'', JList [JStr ''FILE'', JStr ''FOLDER''])]])])]"

definition inspect_details_code :: string where
  "inspect_details_code = py_join [CHR 0x0A] [''handler: inspect_item_details'', ''permission: read'', ''input: { item_id: uuid }'',
     ''output: selected item'' @ [CHR 0x27] @ ''s metadata for a right-click details panel'']"

section \<open>Proposals\<close>

record skill_service =
  sv_codegen :: "codegen option"
  sv_sandbox :: "sandbox option"
  sv_uploads :: bool
  sv_storage :: bool
  sv_snapshots :: bool
  sv_wiring :: wiring
  sv_renderers :: renderers
  sv_parse :: parser
  sv_folder_max_files :: int
  sv_folder_max_bytes :: int

text \<open>What the answer says; its wording is not modelled.\<close>

datatype authoring_result =
    InspectInstalled
  | InspectDrafted assistant_skill
  | NotGenerated "skill_problem list"
  | Generated assistant_skill

definition propose_inspect_details :: "uuid \<Rightarrow> authoring_result M" where
  "propose_inspect_details user_id =
     bindM (skill_by_name user_id INSPECT_DETAILS_SKILL_NAME) (\<lambda>installed.
       if (case installed of None \<Rightarrow> False | Some s \<Rightarrow> ak_status s = SKILL_INSTALLED) then returnM InspectInstalled
       else bindM (liftM (\<lambda>_. validate_manifest (JObj inspect_details_manifest))) (\<lambda>m.
         bindM (create_or_replace_pending user_id INSPECT_DETAILS_SKILL_NAME INSPECT_DETAILS_DESCRIPTION (dump_manifest m) inspect_details_code)
           (\<lambda>skill. returnM (InspectDrafted skill))))"

definition generate_skill :: "skill_service \<Rightarrow> codegen \<Rightarrow> uuid \<Rightarrow> string \<Rightarrow> authoring_result M" where
  "generate_skill sv cg user_id message =
     bindM (author cg message (map_option smoke_test_generated_code (sv_sandbox sv))) (\<lambda>result.
       case (cr_ok result, cr_manifest result) of
         (True, Some manifest) \<Rightarrow>
           bindM (create_or_replace_pending user_id (cr_name result) (cr_description result) manifest (cr_code result))
             (\<lambda>skill. returnM (Generated skill))
       | _ \<Rightarrow> returnM (NotGenerated (cr_problems result)))"

definition handle_authoring_message :: "skill_service \<Rightarrow> uuid \<Rightarrow> string \<Rightarrow> authoring_result option M" where
  "handle_authoring_message sv user_id message =
     (if looks_like_context_menu_skill_request message then bindM (propose_inspect_details user_id) (\<lambda>r. returnM (Some r))
      else case sv_codegen sv of
        None \<Rightarrow> returnM None
      | Some cg \<Rightarrow> if looks_like_skill_generation_request message then bindM (generate_skill sv cg user_id message) (\<lambda>r. returnM (Some r))
          else returnM None)"

section \<open>Approving, editing, deleting\<close>

definition list_skills :: "uuid \<Rightarrow> string option \<Rightarrow> assistant_skill list M" where
  "list_skills user_id status = list_by_status user_id status"

definition found_skill :: "assistant_skill option \<Rightarrow> assistant_skill M" where
  "found_skill r = (case r of None \<Rightarrow> raiseM NotFoundError | Some s \<Rightarrow> returnM s)"

definition approve_skill :: "uuid \<Rightarrow> uuid \<Rightarrow> assistant_skill M" where
  "approve_skill user_id skill_id =
     bindM (bindM (skill_by_id user_id skill_id) found_skill) (\<lambda>pending.
     bindM (liftM (\<lambda>_. validate_manifest (JObj (ak_manifest pending)))) (\<lambda>m.
     bindM (repo_approve user_id skill_id) found_skill))"

definition edit_skill :: "parser \<Rightarrow> uuid \<Rightarrow> uuid \<Rightarrow> assistant_skill \<Rightarrow> string option \<Rightarrow> string option \<Rightarrow> assistant_skill M" where
  "edit_skill parse user_id skill_id existing description code =
     (let new_code = (case code of None \<Rightarrow> ak_code existing | Some c \<Rightarrow> c);
          new_description = (case description of None \<Rightarrow> ak_description existing | Some d \<Rightarrow> py_strip d) in
      thenM (guardM (new_description \<noteq> []) BadOperation)
      (thenM (whenM (code \<noteq> None \<and> ak_name existing \<noteq> INSPECT_DETAILS_SKILL_NAME)
          (guardM (validate_skill_code parse new_code = []) BadOperation))
      (bindM (repo_update user_id skill_id new_description
          (dict_set ''description'' (JStr new_description) (ak_manifest existing)) new_code) found_skill)))"

definition update_skill :: "parser \<Rightarrow> uuid \<Rightarrow> uuid \<Rightarrow> string option \<Rightarrow> string option \<Rightarrow> bool option \<Rightarrow> assistant_skill M" where
  "update_skill parse user_id skill_id description code chat_enabled =
     bindM (bindM (skill_by_id user_id skill_id) found_skill) (\<lambda>existing. case chat_enabled of
         None \<Rightarrow> edit_skill parse user_id skill_id existing description code
       | Some enabled \<Rightarrow>
           bindM (bindM (set_chat_enabled user_id skill_id enabled) found_skill) (\<lambda>toggled.
             if description = None \<and> code = None then returnM toggled
             else edit_skill parse user_id skill_id toggled description code))"

definition delete_skill :: "uuid \<Rightarrow> uuid \<Rightarrow> unit M" where
  "delete_skill user_id skill_id = bindM (repo_delete user_id skill_id) (\<lambda>deleted. guardM deleted NotFoundError)"

section \<open>Preparing the input\<close>

text \<open>
  \<open>collect_folder_descendants\<close>: its \<open>while\<close> loop over pages and the recursion into folders; the number bounds the nesting of
  both.
\<close>

type_synonym descendants = "(string \<times> drive_item) list"

primrec descend_pages :: "nat \<Rightarrow> uuid \<Rightarrow> uuid \<Rightarrow> string \<Rightarrow> int \<Rightarrow> descendants \<Rightarrow> descendants M" where
  "descend_pages 0 = (\<lambda>user_id parent prefix offset results. raiseM Diverges)"
| "descend_pages (Suc n) = (\<lambda>user_id parent prefix offset results.
     bindM (list_children (Some parent) user_id BY_NAME ASC offset 500) (\<lambda>(page, total).
     if page = [] then returnM results
     else bindM (foldM (\<lambda>it results.
          let rel = (if prefix \<noteq> [] then prefix @ ''/'' @ di_name it else di_name it) in
          if di_item_type it = FOLDER then descend_pages n user_id (di_id it) rel 0 (results @ [(rel, it)])
          else returnM (results @ [(rel, it)])) page results) (\<lambda>results.
        if offset + int (length page) \<ge> int total then returnM results
        else descend_pages n user_id parent prefix (offset + int (length page)) results)))"

definition collect_folder_descendants :: "uuid \<Rightarrow> uuid \<Rightarrow> descendants M" where
  "collect_folder_descendants user_id folder_id =
     bindM (getsM (\<lambda>w. Suc (length (items w)))) (\<lambda>n. descend_pages n user_id folder_id [] 0 [])"

text \<open>\<open>Path(name).name\<close> of a POSIX path.\<close>

definition path_name :: "string \<Rightarrow> string" where
  "path_name s = (let parts = filter (\<lambda>p. p \<noteq> [] \<and> p \<noteq> ''.'') (py_split CHR ''/'' s) in if parts = [] then [] else last parts)"

definition safe_input_name :: "string \<Rightarrow> string" where
  "safe_input_name name = (let base = (if path_name name \<noteq> [] then path_name name else ''input'') in filter (\<lambda>c. c \<noteq> CHR 0x00) base)"

definition safe_parts :: "string \<Rightarrow> string list" where
  "safe_parts rel = map safe_input_name (filter (\<lambda>p. p \<noteq> []) (py_split CHR ''/'' rel))"

definition write_stored :: "string list \<Rightarrow> string \<Rightarrow> host_op M" where
  "write_stored path key = bindM (open_read key) (\<lambda>chunks. returnM (WriteFile path (concat chunks)))"

definition materialize_folder :: "skill_service \<Rightarrow> uuid \<Rightarrow> drive_item \<Rightarrow> host_input M" where
  "materialize_folder sv user_id item =
     bindM (collect_folder_descendants user_id (di_id item)) (\<lambda>descendants.
     let files = filter (\<lambda>(rel, it). di_item_type it = FILE \<and> di_storage_key it \<noteq> None \<and> di_storage_key it \<noteq> Some []) descendants;
         folders = filter (\<lambda>(rel, it). di_item_type it = FOLDER) descendants;
         root = [safe_input_name (di_name item)] in
     thenM (guardM (int (length files) \<le> sv_folder_max_files sv) BadOperation)
     (thenM (guardM (sum_list (map (\<lambda>(rel, it). di_size_bytes it) files) \<le> sv_folder_max_bytes sv) BadOperation)
     (bindM (mapM (\<lambda>(rel, it). write_stored (root @ safe_parts rel) (the (di_storage_key it))) files) (\<lambda>writes.
       returnM ([MakeDirs root] @ map (\<lambda>(rel, it). MakeDirs (root @ safe_parts rel)) folders
         @ concat (map (\<lambda>op. case op of WriteFile p d \<Rightarrow> [MakeDirs (butlast p), op] | MakeDirs p \<Rightarrow> [op]) writes), root)))))"

definition materialize_input :: "skill_service \<Rightarrow> uuid \<Rightarrow> drive_item \<Rightarrow> host_input M" where
  "materialize_input sv user_id item =
     (if di_item_type item = FILE then (case di_storage_key item of
          None \<Rightarrow> raiseM BadOperation
        | Some key \<Rightarrow> if key = [] then raiseM BadOperation
            else (let path = [safe_input_name (di_name item)] in
              bindM (write_stored path key) (\<lambda>op. returnM ([op], path))))
      else materialize_folder sv user_id item)"

section \<open>Taking the output in\<close>

text \<open>\<open>for attempt in range(100)\<close>, from the given attempt on.\<close>

fun destination_attempts :: "wiring \<Rightarrow> uuid \<Rightarrow> uuid option \<Rightarrow> string \<Rightarrow> nat \<Rightarrow> nat \<Rightarrow> item_response M" where
  "destination_attempts cfg user_id parent_id base k 0 = raiseM BadOperation"
| "destination_attempts cfg user_id parent_id base k (Suc n) =
     catchM (create_folder cfg user_id parent_id (if k = 0 then base else base @ '' ('' @ nat_str k @ '')''))
       (\<lambda>e. if e = NameConflictError then destination_attempts cfg user_id parent_id base (Suc k) n else raiseM e)"

definition create_destination_folder :: "wiring \<Rightarrow> uuid \<Rightarrow> uuid option \<Rightarrow> string \<Rightarrow> item_response M" where
  "create_destination_folder cfg user_id parent_id stem =
     destination_attempts cfg user_id parent_id (stem @ '' (extracted)'') 0 100"

fun ensure_folders :: "wiring \<Rightarrow> uuid \<Rightarrow> uuid \<Rightarrow> string \<Rightarrow> string list \<Rightarrow> (string \<times> uuid) list \<Rightarrow> (uuid \<times> (string \<times> uuid) list) M" where
  "ensure_folders cfg user_id current key [] cache = returnM (current, cache)"
| "ensure_folders cfg user_id current key (part # parts) cache =
     (let key = (if key \<noteq> [] then key @ ''/'' @ part else part) in
      case map_of cache key of
        Some i \<Rightarrow> ensure_folders cfg user_id i key parts cache
      | None \<Rightarrow> bindM (create_folder cfg user_id (Some current) part) (\<lambda>folder.
          ensure_folders cfg user_id (ir_id folder) key parts ((key, ir_id folder) # cache)))"

definition ingest_file ::
  "'tok crypto \<Rightarrow> wiring \<Rightarrow> uuid \<Rightarrow> uuid \<Rightarrow> string list \<times> bytes \<Rightarrow> (string \<times> uuid) list \<times> string list \<Rightarrow> ((string \<times> uuid) list \<times> string list) M" where
  "ingest_file c cfg user_id dest file st = (case (file, st) of ((path, data), (cache, ingested)) \<Rightarrow>
     bindM (ensure_folders cfg user_id dest [] (butlast path) cache) (\<lambda>(parent_id, cache).
     bindM (upload_simple c user_id (Some parent_id) (last path) ([data], None) (int (length data)) None) (\<lambda>created.
       returnM (cache, ingested @ [ir_name created]))))"

definition ingest :: "'tok crypto \<Rightarrow> wiring \<Rightarrow> uuid \<Rightarrow> drive_item \<Rightarrow> output_files option \<Rightarrow> string list M" where
  "ingest c cfg user_id source output = (case output of
       None \<Rightarrow> returnM []
     | Some files \<Rightarrow> if files = [] then returnM []
         else (let stem = (if fst (split_name (di_name source)) \<noteq> [] then fst (split_name (di_name source)) else di_name source) in
           bindM (create_destination_folder cfg user_id (di_parent_id source) stem) (\<lambda>dest.
           bindM (foldM (ingest_file c cfg user_id (ir_id dest)) files ([([], ir_id dest)], [])) (\<lambda>(cache, ingested).
             returnM ingested))))"

section \<open>Executing\<close>

record skill_execution =
  xe_skill_id :: uuid
  xe_skill_name :: string
  xe_item_id :: uuid
  xe_message :: string
  xe_output :: args

definition item_output :: "renderers \<Rightarrow> item_response \<Rightarrow> args" where
  "item_output re i = [(''name'', JStr (ir_name i)), (''item_type'', JStr (item_kind (ir_item_type i))), (''size_bytes'', JInt (ir_size_bytes i)),
     (''mime_type'', opt_json JStr (ir_mime_type i)), (''extension'', opt_json JStr (ir_extension i)), (''is_starred'', JBool (ir_is_starred i)),
     (''is_deleted'', JBool (ir_is_deleted i)), (''created_at'', JStr (re_date re (ir_created_at i))), (''updated_at'', JStr (re_date re (ir_updated_at i)))]"

text \<open>The types that the menu entries declare; the same as SubAgent collects them, as a set.\<close>

definition skill_item_types :: "assistant_skill \<Rightarrow> error + string list" where
  "skill_item_types skill = declared_item_types (ak_manifest skill)"

definition execute_inspect :: "skill_service \<Rightarrow> uuid \<Rightarrow> assistant_skill \<Rightarrow> uuid \<Rightarrow> skill_execution M" where
  "execute_inspect sv user_id skill item_id =
     bindM (get_item (sv_wiring sv) user_id item_id) (\<lambda>item. returnM
       \<lparr>xe_skill_id = ak_id skill, xe_skill_name = ak_name skill, xe_item_id = item_id, xe_message = ''Details for '' @ ir_name item,
        xe_output = item_output (sv_renderers sv) item\<rparr>)"

text \<open>Running the code on the prepared input and taking in what it wrote.\<close>

definition run_and_ingest :: "'tok crypto \<Rightarrow> skill_service \<Rightarrow> sandbox \<Rightarrow> uuid \<Rightarrow> assistant_skill \<Rightarrow> drive_item \<Rightarrow> (string list \<times> json) M" where
  "run_and_ingest c sv sb user_id skill item =
     bindM (materialize_input sv user_id item) (\<lambda>input.
     bindM (getsM (sandbox_run sb (ak_code skill) input
         [(''filename'', JStr (di_name item)), (''item_type'', JStr (item_kind (di_item_type item)))])) (\<lambda>(result, output).
     thenM (guardM (rr_ok result) BadOperation)
     (bindM (ingest c (sv_wiring sv) user_id item output) (\<lambda>ingested.
     thenM (guardM (ingested \<noteq> []) BadOperation) (returnM (ingested, rr_output result))))))"

definition execute_generated :: "'tok crypto \<Rightarrow> skill_service \<Rightarrow> uuid \<Rightarrow> assistant_skill \<Rightarrow> uuid \<Rightarrow> skill_execution M" where
  "execute_generated c sv user_id skill item_id = (case sv_sandbox sv of
       None \<Rightarrow> raiseM BadOperation
     | Some sb \<Rightarrow>
         thenM (guardM (sv_uploads sv \<and> sv_storage sv) BadOperation)
         (bindM (get_raw_item (sv_wiring sv) user_id item_id) (\<lambda>item.
         bindM (liftM (\<lambda>_. skill_item_types skill)) (\<lambda>allowed.
         thenM (guardM (item_kind (di_item_type item) \<in> set allowed) BadOperation)
         (thenM (whenM (sv_snapshots sv)
             (bindM (Snapshots.create user_id ASSISTANT (''Before skill '' @ [CHR 0x27] @ ak_name skill @ [CHR 0x27]) False) (\<lambda>s. returnM ())))
         (bindM (run_and_ingest c sv sb user_id skill item) (\<lambda>(ingested, summary). returnM
           \<lparr>xe_skill_id = ak_id skill, xe_skill_name = ak_name skill, xe_item_id = item_id,
            xe_message = ak_name skill @ '' produced '' @ nat_str (length ingested) @ '' file(s) from '' @ di_name item @ ''.'',
            xe_output = [(''produced_files'', JList (map JStr ingested)), (''summary'', summary)]\<rparr>)))))))"

definition execute_skill :: "'tok crypto \<Rightarrow> skill_service \<Rightarrow> uuid \<Rightarrow> uuid \<Rightarrow> uuid \<Rightarrow> skill_execution M" where
  "execute_skill c sv user_id skill_id item_id =
     bindM (skill_by_id user_id skill_id) (\<lambda>found. case found of
         None \<Rightarrow> raiseM NotFoundError
       | Some skill \<Rightarrow> if ak_status skill \<noteq> SKILL_INSTALLED then raiseM NotFoundError
           else if ak_name skill = INSPECT_DETAILS_SKILL_NAME then execute_inspect sv user_id skill item_id
           else execute_generated c sv user_id skill item_id)"

definition dump_execution :: "skill_execution \<Rightarrow> json" where
  "dump_execution x = JObj [(''skill_id'', uuid_json (xe_skill_id x)), (''skill_name'', JStr (xe_skill_name x)), (''item_id'', uuid_json (xe_item_id x)),
     (''message'', JStr (xe_message x)), (''output'', JObj (xe_output x))]"

text \<open>\<open>_register_installed_skills\<close>: the user's installed skills that the planner may use.\<close>

definition chat_skills :: "'tok crypto \<Rightarrow> skill_service \<Rightarrow> uuid \<Rightarrow> (string \<times> (uuid \<Rightarrow> uuid \<Rightarrow> json M)) list M" where
  "chat_skills c sv user_id = bindM (list_by_status user_id (Some SKILL_INSTALLED)) (\<lambda>installed. returnM
     (map (\<lambda>s. (ak_name s, \<lambda>caller item. bindM (execute_skill c sv caller (ak_id s) item) (\<lambda>x. returnM (dump_execution x))))
       (filter ak_chat_enabled installed)))"

text \<open>The routes commit what their service returned.\<close>

datatype skill_call =
    SkillChat string
  | SkillApprove uuid
  | SkillUpdate uuid "string option" "string option" "bool option"
  | SkillDelete uuid
  | SkillExecute uuid uuid

fun update_request_ok :: "string option \<Rightarrow> string option \<Rightarrow> bool" where
  "update_request_ok description code = ((case description of None \<Rightarrow> True | Some d \<Rightarrow> 1 \<le> length d \<and> length d \<le> 500)
     \<and> (case code of None \<Rightarrow> True | Some s \<Rightarrow> length s \<le> 20000))"

fun skill_request :: "'tok crypto \<Rightarrow> skill_service \<Rightarrow> uuid \<Rightarrow> skill_call \<Rightarrow> unit M" where
  "skill_request c sv u (SkillChat message) = transact (bindM (handle_authoring_message sv u message) (\<lambda>r. returnM ()))"
| "skill_request c sv u (SkillApprove i) = transact (bindM (approve_skill u i) (\<lambda>s. returnM ()))"
| "skill_request c sv u (SkillUpdate i description code chat_enabled) =
     thenM (guardM (update_request_ok description code) (AppError VALIDATION_ERROR 422))
       (transact (bindM (update_skill (sv_parse sv) u i description code chat_enabled) (\<lambda>s. returnM ())))"
| "skill_request c sv u (SkillDelete i) = transact (delete_skill u i)"
| "skill_request c sv u (SkillExecute i item) = transact (bindM (execute_skill c sv u i item) (\<lambda>x. returnM ()))"

text \<open>What the chat is handed: the answer's text is made from the result.\<close>

definition authoring_handler :: "(authoring_result \<Rightarrow> string) \<Rightarrow> skill_service \<Rightarrow> uuid \<Rightarrow> string \<Rightarrow> string option M" where
  "authoring_handler answer sv user_id message =
     bindM (handle_authoring_message sv user_id message) (\<lambda>r. returnM (map_option answer r))"

end
