(* ===== verification/AuthoringFacts.thy ===== *)
theory AuthoringFacts
  imports Authoring SnapshotFacts
begin

text \<open>The stored skills: what every request leaves true of them, and what running one does to the rest of the drive.\<close>

section \<open>Calls beside the table of skills\<close>

definition beside :: "assistant_skill list \<Rightarrow> uuid \<Rightarrow> world \<Rightarrow> bool" where
  "beside rows k w \<longleftrightarrow> authored_skills w = rows \<and> k \<le> uuid_next w"

lemma beside_modify:
  "(\<And>w. authored_skills (g w) = authored_skills w \<and> uuid_next (g w) = uuid_next w) \<Longrightarrow> preserves (beside rows k) (modifyM g)"
  by (simp add: preserves_def beside_def)

lemma beside_keeps: "keeps (\<lambda>w. (authored_skills w, uuid_next w)) m \<Longrightarrow> preserves (beside rows k) m"
  by (auto simp: keeps_def preserves_def beside_def)

lemma beside_steps:
  "preserves (beside rows k) uuid4" "preserves (beside rows k) now" "preserves (beside rows k) flush_items"
  by (auto simp: preserves_def beside_def flush_items_def)

lemma beside_drive:
  "preserves (beside rows k) (create_folder cfg u p name)"
  "preserves (beside rows k) (get_raw_item cfg u i)" "preserves (beside rows k) (get_item cfg u i)"
proof -
  have log: "preserves (beside rows k) (drive_log cfg u a i)" for a i
    unfolding drive_log_def log_activity_def logs_create_def Let_def
    by (intro pres_rules beside_steps beside_modify) simp_all
  have create: "preserves (beside rows k) (items_create u p FOLDER n u)" for p n
    unfolding items_create_def Let_def by (intro pres_rules beside_steps beside_modify) simp_all
  show "preserves (beside rows k) (create_folder cfg u p name)"
    unfolding create_folder_def
    by (intro pres_rules log create preserves_read [OF keeps_drive_guards(1)] preserves_read [OF keeps_drive_guards(3)])
  show "preserves (beside rows k) (get_raw_item cfg u i)" "preserves (beside rows k) (get_item cfg u i)"
    unfolding get_raw_item_def get_item_def
    by (intro pres_rules preserves_read [OF keeps_drive_guards(4)] preserves_read [OF keeps_drive_guards(7)])+
qed

lemma beside_storage:
  "preserves (beside rows k) (save_stream key s)" "preserves (beside rows k) (storage_delete key)"
  by (intro beside_keeps keeps_storage; simp)+

lemma beside_upload: "preserves (beside rows k) (upload_simple c u p n s z mime)"
proof -
  have recorded: "preserves (beside rows k) (record_file u p n z mime ext ck key)" for n z mime ext ck key
    unfolding record_file_def items_create_def versions_create_def Let_def
    by (intro pres_rules beside_steps beside_modify beside_keeps [OF keeps_user_writes(2)]) (simp_all add: set_item_def)
  show ?thesis unfolding upload_simple_def Let_def
    by (intro pres_rules recorded beside_steps beside_storage preserves_read [OF keeps_check_upload_parent] preserves_read [OF keeps_unique_name])
qed

lemma beside_prune: "preserves (beside rows k) (prune u given)"
  by (intro preserves_prune) (auto simp: delete_snapshot_def drop_snapshot_def intro: beside_modify)

lemma beside_snapshot: "preserves (beside rows k) (Snapshots.create u trigger label pinned)"
proof -
  have "preserves (beside rows k) (create_snapshot u trigger label p n b es)" for p n b es
    unfolding create_snapshot_def Let_def by (intro pres_rules beside_steps beside_modify) simp_all
  then show ?thesis unfolding Snapshots.create_def
    by (intro pres_rules beside_prune preserves_read [OF keeps_snapshot_reads(1)])
qed

text \<open>Preparing the input only reads; a file is written with the bytes that are stored.\<close>

lemma write_stored_run [code]:
  "write_stored path key w = (case resolve_path key of
       Inl e \<Rightarrow> (Inl e, w)
     | Inr p \<Rightarrow> (case blob_get w p of None \<Rightarrow> (Inl StorageKeyNotFoundError, w) | Some d \<Rightarrow> (Inr (WriteFile path d), w)))"
  by (simp add: write_stored_def open_read_def run_bind concat_read_chunks CHUNK_SIZE_def split: sum.split option.split)

lemma keeps_descend: "keeps f (descend_pages n u parent prefix offset results)"
proof (induction n arbitrary: parent prefix offset results)
  case (Suc n)
  have loop: "keeps f (foldM (\<lambda>it results.
      let rel = (if prefix \<noteq> [] then prefix @ ''/'' @ di_name it else di_name it) in
      if di_item_type it = FOLDER then descend_pages n u (di_id it) rel 0 (results @ [(rel, it)])
      else returnM (results @ [(rel, it)])) page results)" for page results
    unfolding Let_def by (intro keeps_rules Suc.IH)
  have "keeps f (case pt of (pg, tot) \<Rightarrow> if pg = [] then returnM results
      else bindM (foldM (\<lambda>it results.
          let rel = (if prefix \<noteq> [] then prefix @ ''/'' @ di_name it else di_name it) in
          if di_item_type it = FOLDER then descend_pages n u (di_id it) rel 0 (results @ [(rel, it)])
          else returnM (results @ [(rel, it)])) pg results) (\<lambda>results.
        if offset + int (length pg) \<ge> int tot then returnM results
        else descend_pages n u parent prefix (offset + int (length pg)) results))" for pt
    unfolding prod.case_eq_if by (intro keeps_rules loop Suc.IH)
  then show ?case unfolding descend_pages.simps by (intro keeps_rules)
qed (simp only: descend_pages.simps keeps_raise)

lemma keeps_materialize: "keeps f (materialize_input sv u item)"
proof -
  have w: "keeps f (write_stored p k)" for p k unfolding write_stored_def by (intro keeps_rules)
  have "keeps f (collect_folder_descendants u i)" for i
    unfolding collect_folder_descendants_def by (intro keeps_rules keeps_descend)
  then have "keeps f (materialize_folder sv u item)"
    unfolding materialize_folder_def Let_def case_prod_unfold by (intro keeps_rules w)
  then show ?thesis unfolding materialize_input_def Let_def by (intro keeps_rules w)
qed

lemma beside_ingest: "preserves (beside rows k) (ingest c cfg u source output)"
proof -
  have names: "preserves (beside rows k) (destination_attempts cfg u p base j n)" for p base j n
  proof (induction n arbitrary: j)
    case (Suc n)
    show ?case unfolding destination_attempts.simps by (intro pres_rules beside_drive Suc.IH)
  qed (simp only: destination_attempts.simps preserves_raise)
  have folders: "preserves (beside rows k) (ensure_folders cfg u i key parts cache)" for i key parts cache
    by (induction parts arbitrary: i key cache) (auto simp: Let_def intro!: pres_rules beside_drive split: option.split)
  have one: "preserves (beside rows k) (ingest_file c cfg u d f st)" for d f st
    unfolding ingest_file_def case_prod_unfold by (intro pres_rules folders beside_upload)
  show ?thesis unfolding ingest_def create_destination_folder_def Let_def case_prod_unfold
    by (intro pres_rules names one)
qed

lemma beside_execute: "preserves (beside rows k) (execute_skill c sv u i item)"
proof -
  have run: "preserves (beside rows k) (run_and_ingest c sv sb u s it)" for sb s it
    unfolding run_and_ingest_def case_prod_unfold by (intro pres_rules beside_ingest preserves_read [OF keeps_materialize])
  have generated: "preserves (beside rows k) (execute_generated c sv u s i)" for s i
    unfolding execute_generated_def case_prod_unfold by (intro pres_rules beside_drive beside_snapshot run)
  have "preserves (beside rows k) (execute_inspect sv u s i)" for s i
    unfolding execute_inspect_def by (intro pres_rules beside_drive)
  with generated show ?thesis unfolding execute_skill_def skill_by_id_def by (intro pres_rules)
qed

section \<open>What is true of every stored skill\<close>

definition row_checked :: "parser \<Rightarrow> assistant_skill \<Rightarrow> bool" where
  "row_checked parse r \<longleftrightarrow>
     (\<exists>m. manifest_ok m \<and> ak_manifest r = dump_manifest m \<and> sm_name m = ak_name r \<and> sm_description m = ak_description r)
     \<and> (ak_name r = INSPECT_DETAILS_SKILL_NAME \<or> validate_skill_code parse (ak_code r) = [])
     \<and> ak_status r \<in> {SKILL_PENDING, SKILL_INSTALLED}"

definition skills_checked :: "parser \<Rightarrow> world \<Rightarrow> bool" where
  "skills_checked parse w \<longleftrightarrow> (\<forall>r \<in> set (authored_skills w). row_checked parse r \<and> ak_id r < uuid_next w)
     \<and> distinct (map ak_id (authored_skills w)) \<and> uq_skill_names w"

lemma skills_checked_beside:
  assumes "\<And>rows k. preserves (beside rows k) m"
  shows "preserves (skills_checked parse) m"
  unfolding preserves_def
proof (intro allI impI)
  fix w assume "skills_checked parse w"
  moreover have "beside (authored_skills w) (uuid_next w) (snd (m w))"
    by (rule preserves_snd [OF assms]) (simp add: beside_def)
  ultimately show "skills_checked parse (snd (m w))"
    by (auto simp: skills_checked_def beside_def uq_skill_names_def intro: less_le_trans)
qed

lemma skills_checked_rollback: "skills_checked parse w \<Longrightarrow> skills_checked parse (rollback w w')"
  by (auto simp: skills_checked_def rollback_def uq_skill_names_def)

lemma row_checked_time [simp]: "row_checked parse (r\<lparr>ak_updated_at := t\<rparr>) = row_checked parse r"
  by (simp add: row_checked_def)

section \<open>The table\<close>

lemma skill_by_id_found:
  assumes "skill_by_id u i w = (Inr (Some r), w')"
  shows "w' = w \<and> r \<in> set (authored_skills w) \<and> ak_id r = i \<and> ak_user_id r = u"
proof -
  from assms have "filter (\<lambda>r. ak_id r = i \<and> ak_user_id r = u) (authored_skills w) = [r]" and "w' = w"
    by (auto simp: skill_by_id_def dest: scalar_Some)
  then have "r \<in> set (filter (\<lambda>r. ak_id r = i \<and> ak_user_id r = u) (authored_skills w))" by simp
  with \<open>w' = w\<close> show ?thesis by simp
qed

lemma skill_by_name_found:
  assumes "skill_by_name u n w = (Inr (Some r), w')"
  shows "w' = w \<and> r \<in> set (authored_skills w) \<and> ak_name r = n \<and> ak_user_id r = u"
proof -
  from assms have "filter (\<lambda>r. ak_user_id r = u \<and> ak_name r = n) (authored_skills w) = [r]" and "w' = w"
    by (auto simp: skill_by_name_def dest: scalar_Some)
  then have "r \<in> set (filter (\<lambda>r. ak_user_id r = u \<and> ak_name r = n) (authored_skills w))" by simp
  with \<open>w' = w\<close> show ?thesis by simp
qed

lemma found_InrE:
  assumes "bindM m found_skill w = (Inr s, w')"
  obtains "m w = (Inr (Some s), w')"
  using assms by (auto simp: found_skill_def elim!: bind_InrE split: option.splits)

definition keeps_names :: "(assistant_skill \<Rightarrow> assistant_skill) \<Rightarrow> bool" where
  "keeps_names f \<longleftrightarrow> (\<forall>r. ak_id (f r) = ak_id r \<and> ak_user_id (f r) = ak_user_id r \<and> ak_name (f r) = ak_name r)"

lemma stored_row:
  assumes "store_skill r f w = (Inr s, w')"
  shows "s = f r \<and> w' = authored_skills_update (row_update ak_id (ak_id r) f) w"
  using assms by (auto simp: store_skill_def flush_skills_def run_then run_bind split: if_splits)

lemma updated_row:
  assumes "distinct (map ak_id rows)" "r \<in> set rows" "x \<in> set (row_update ak_id (ak_id r) f rows)"
  shows "x = f r \<or> x \<in> set rows"
proof -
  from assms(3) obtain y where y: "y \<in> set rows" "x = (if ak_id y = ak_id r then f y else y)" by (auto simp: set_row_update)
  with assms(1,2) have "ak_id y = ak_id r \<Longrightarrow> y = r" by (auto simp: distinct_map dest: inj_onD)
  with y show ?thesis by (auto split: if_splits)
qed

lemma checked_store:
  assumes "skills_checked parse w" "r \<in> set (authored_skills w)" "row_checked parse (f r)" "keeps_names f"
    and "store_skill r f w = (Inr s, w')"
  shows "skills_checked parse w'"
proof -
  from stored_row [OF assms(5)] have w': "w' = authored_skills_update (row_update ak_id (ak_id r) f) w" by simp
  have keys: "map ak_id (authored_skills w') = map ak_id (authored_skills w)"
    "map (\<lambda>r. (ak_user_id r, ak_name r)) (authored_skills w') = map (\<lambda>r. (ak_user_id r, ak_name r)) (authored_skills w)"
    using assms(4) by (auto simp: w' row_update_def keeps_names_def)
  have "row_checked parse x \<and> ak_id x < uuid_next w'" if x: "x \<in> set (authored_skills w')" for x
  proof -
    from x have "x = f r \<or> x \<in> set (authored_skills w)"
      using assms(1,2) updated_row [of "authored_skills w" r x f] by (simp add: w' skills_checked_def)
    with assms(1-4) show ?thesis by (auto simp: skills_checked_def w' keeps_names_def)
  qed
  with assms(1) keys show ?thesis by (simp add: skills_checked_def uq_skill_names_def)
qed

lemma checked_create:
  assumes "skills_checked parse w" "manifest_ok m" "sm_name m = name" "sm_description m = description"
    and "name = INSPECT_DETAILS_SKILL_NAME \<or> validate_skill_code parse code = []"
    and "create_or_replace_pending u name description (dump_manifest m) code w = (Inr s, w')"
  shows "skills_checked parse w'"
proof -
  have ok: "row_checked parse r" if "ak_name r = name" "ak_description r = description" "ak_manifest r = dump_manifest m"
    "ak_code r = code" "ak_status r = SKILL_PENDING" for r
    using that assms(2-5) by (auto simp: row_checked_def)
  from assms(6) obtain found w1 where f: "skill_by_name u name w = (Inr found, w1)"
    unfolding create_or_replace_pending_def by (auto elim!: bind_InrE)
  show ?thesis
  proof (cases found)
    case (Some r)
    with f skill_by_name_found have r: "w1 = w" "r \<in> set (authored_skills w)" "ak_name r = name" by auto
    let ?f = "\<lambda>r. r\<lparr>ak_description := description, ak_manifest := dump_manifest m, ak_code := code, ak_status := SKILL_PENDING, ak_updated_at := clock w\<rparr>"
    from assms(6) f Some r(1) have "store_skill r ?f w = (Inr s, w')" by (simp add: create_or_replace_pending_def run_bind)
    moreover have "row_checked parse (?f r)" by (rule ok) (simp_all add: r)
    ultimately show ?thesis using checked_store [OF assms(1) r(2), of ?f] by (simp add: keeps_names_def)
  next
    case None
    with f have "w1 = w" by (auto simp: skill_by_name_def)
    define new where "new = \<lparr>ak_id = uuid_next w, ak_user_id = u, ak_name = name, ak_description = description, ak_manifest = dump_manifest m,
      ak_code = code, ak_status = SKILL_PENDING, ak_chat_enabled = False, ak_created_at = clock w, ak_updated_at = clock w\<rparr>"
    from assms(6) f None \<open>w1 = w\<close>
    have w': "w' = w\<lparr>uuid_next := Suc (uuid_next w), authored_skills := authored_skills w @ [new]\<rparr>" and "uq_skill_names w'"
      by (auto simp: create_or_replace_pending_def flush_skills_def run_bind run_then new_def Let_def split: if_splits)
    moreover have "row_checked parse new" by (rule ok) (simp_all add: new_def)
    moreover have "ak_id new = uuid_next w" by (simp add: new_def)
    ultimately show ?thesis using assms(1) by (auto simp: skills_checked_def)
  qed
qed

lemma checked_change:
  assumes "skills_checked parse w" "change_skill u i f w = (Inr (Some s), w')"
    and "\<And>r. r \<in> set (authored_skills w) \<Longrightarrow> ak_id r = i \<Longrightarrow> ak_user_id r = u \<Longrightarrow> row_checked parse (f (clock w) r)"
    and "\<And>t. keeps_names (f t)"
  shows "skills_checked parse w' \<and> (\<exists>r \<in> set (authored_skills w). ak_id r = i \<and> ak_user_id r = u \<and> s = f (clock w) r
    \<and> w' = authored_skills_update (row_update ak_id i (f (clock w))) w)"
proof -
  from assms(2) obtain found w1 where f: "skill_by_id u i w = (Inr found, w1)"
    unfolding change_skill_def by (auto elim!: bind_InrE)
  with assms(2) obtain r where "found = Some r"
    by (cases found) (auto simp: change_skill_def run_bind)
  with f skill_by_id_found have r: "w1 = w" "r \<in> set (authored_skills w)" "ak_id r = i" "ak_user_id r = u" by auto
  with assms(2) f \<open>found = Some r\<close> have s: "store_skill r (f (clock w)) w = (Inr s, w')"
    by (auto simp: change_skill_def run_bind split: prod.splits sum.splits)
  from stored_row [OF s] r checked_store [OF assms(1) r(2) assms(3) assms(4) s] show ?thesis by auto
qed

section \<open>The service\<close>

text \<open>The model writes skills through the same parser that the editor checks them with.\<close>

definition one_parser :: "skill_service \<Rightarrow> bool" where
  "one_parser sv \<longleftrightarrow> (\<forall>cg. sv_codegen sv = Some cg \<longrightarrow> cg_parse cg = sv_parse sv)"

lemma inspect_manifest:
  assumes "validate_manifest (JObj inspect_details_manifest) = Inr m"
  shows "sm_name m = INSPECT_DETAILS_SKILL_NAME \<and> sm_description m = INSPECT_DETAILS_DESCRIPTION"
proof -
  have "map_sum id (\<lambda>m. (sm_name m, sm_description m)) (validate_manifest (JObj inspect_details_manifest))
      = Inr (INSPECT_DETAILS_SKILL_NAME, INSPECT_DETAILS_DESCRIPTION)" by code_simp
  with assms show ?thesis by simp
qed

lemma checked_inspect: "okay (skills_checked parse) (propose_inspect_details u) (\<lambda>_. skills_checked parse)"
  unfolding okay_def
proof (intro allI impI)
  fix w x w' assume w: "skills_checked parse w" and run: "propose_inspect_details u w = (Inr x, w')"
  from run obtain inst where found: "skill_by_name u INSPECT_DETAILS_SKILL_NAME w = (Inr inst, w)"
    and rest: "(if (case inst of None \<Rightarrow> False | Some s \<Rightarrow> ak_status s = SKILL_INSTALLED) then returnM InspectInstalled
     else bindM (liftM (\<lambda>_. validate_manifest (JObj inspect_details_manifest))) (\<lambda>m.
       bindM (create_or_replace_pending u INSPECT_DETAILS_SKILL_NAME INSPECT_DETAILS_DESCRIPTION (dump_manifest m) inspect_details_code)
         (\<lambda>skill. returnM (InspectDrafted skill)))) w = (Inr x, w')"
    unfolding propose_inspect_details_def by (elim bind_InrE) (auto simp: skill_by_name_def)
  show "skills_checked parse w'"
  proof (cases "case inst of None \<Rightarrow> False | Some s \<Rightarrow> ak_status s = SKILL_INSTALLED")
    case False
    with rest obtain m s where m: "validate_manifest (JObj inspect_details_manifest) = Inr m"
      and c: "create_or_replace_pending u INSPECT_DETAILS_SKILL_NAME INSPECT_DETAILS_DESCRIPTION (dump_manifest m) inspect_details_code w = (Inr s, w')"
      by (auto simp del: validate_manifest.simps elim!: bind_InrE)
    show ?thesis by (rule checked_create [OF w validated_manifest_ok [OF m] _ _ _ c]) (simp_all add: inspect_manifest [OF m])
  qed (use rest w in auto)
qed
lemma checked_generate:
  assumes "cg_parse cg = sv_parse sv"
  shows "okay (skills_checked (sv_parse sv)) (generate_skill sv cg u message) (\<lambda>_. skills_checked (sv_parse sv))"
  unfolding okay_def
proof (intro allI impI)
  fix w x w' assume w: "skills_checked (sv_parse sv) w" and run: "generate_skill sv cg u message w = (Inr x, w')"
  from run obtain r w1 where a: "author cg message (map_option smoke_test_generated_code (sv_sandbox sv)) w = (Inr r, w1)"
    and rest: "(case (cr_ok r, cr_manifest r) of (True, Some manifest) \<Rightarrow>
         bindM (create_or_replace_pending u (cr_name r) (cr_description r) manifest (cr_code r)) (\<lambda>skill. returnM (Generated skill))
       | _ \<Rightarrow> returnM (NotGenerated (cr_problems r))) w1 = (Inr x, w')"
    unfolding generate_skill_def by (elim bind_InrE)
  from keepsD [OF keeps_author a, of "\<lambda>w. w"] have "w1 = w" by simp
  show "skills_checked (sv_parse sv) w'"
  proof (cases "cr_manifest r")
    case (Some d)
    with author_well_checked [OF a] assms obtain m where m: "cr_ok r" "validate_skill_code (sv_parse sv) (cr_code r) = []" "manifest_ok m"
        "d = dump_manifest m" "cr_name r = sm_name m" "cr_description r = sm_description m"
      by (auto simp: well_checked_def)
    with rest Some \<open>w1 = w\<close> obtain s where "create_or_replace_pending u (sm_name m) (sm_description m) (dump_manifest m) (cr_code r) w = (Inr s, w')"
      by (auto elim!: bind_InrE)
    with m(2) show ?thesis using checked_create [OF w m(3) refl refl] by blast
  qed (use rest w \<open>w1 = w\<close> in \<open>auto split: bool.splits\<close>)
qed
lemma okay_read: "keeps (\<lambda>w. w) m \<Longrightarrow> okay I m (\<lambda>_. I)"
  by (auto simp: okay_def dest: keepsD)

lemma okay_case_option:
  "okay I m (\<lambda>_. I) \<Longrightarrow> (\<And>x. y = Some x \<Longrightarrow> okay I (g x) (\<lambda>_. I)) \<Longrightarrow> okay I (case y of None \<Rightarrow> m | Some x \<Rightarrow> g x) (\<lambda>_. I)"
  by (cases y) auto

lemma okay_if: "okay I m (\<lambda>_. I) \<Longrightarrow> okay I n (\<lambda>_. I) \<Longrightarrow> okay I (if b then m else n) (\<lambda>_. I)"
  by simp

lemma checked_message:
  assumes "one_parser sv"
  shows "okay (skills_checked (sv_parse sv)) (handle_authoring_message sv u message) (\<lambda>_. skills_checked (sv_parse sv))"
  unfolding handle_authoring_message_def using assms
  by (intro okay_if okay_case_option okay_bind checked_inspect checked_generate okay_read keeps_return) (simp add: one_parser_def)

lemma found_skill_row:
  assumes "bindM (skill_by_id u i) found_skill w = (Inr r, w')"
  shows "w' = w \<and> r \<in> set (authored_skills w) \<and> ak_id r = i \<and> ak_user_id r = u"
proof -
  from assms obtain o' w1 where "skill_by_id u i w = (Inr o', w1)" "found_skill o' w1 = (Inr r, w')" by (elim bind_InrE)
  then show ?thesis using skill_by_id_found [of u i w r w1] by (cases o') (auto simp: found_skill_def)
qed

lemma approved_row:
  assumes "skills_checked parse w" "approve_skill u i w = (Inr s, w')"
  shows "skills_checked parse w' \<and> (\<exists>r \<in> set (authored_skills w). ak_id r = i \<and> ak_user_id r = u
    \<and> w' = authored_skills_update (row_update ak_id i (\<lambda>r. r\<lparr>ak_status := SKILL_INSTALLED, ak_updated_at := clock w\<rparr>)) w)"
proof -
  let ?F = "\<lambda>t r. r\<lparr>ak_status := SKILL_INSTALLED, ak_updated_at := t\<rparr>"
  obtain p w1 where p: "bindM (skill_by_id u i) found_skill w = (Inr p, w1)"
    and "bindM (liftM (\<lambda>_. validate_manifest (JObj (ak_manifest p)))) (\<lambda>m. bindM (repo_approve u i) found_skill) w1 = (Inr s, w')"
    by (rule bind_InrE [OF assms(2) [unfolded approve_skill_def]])
  with found_skill_row [OF p] have "bindM (repo_approve u i) found_skill w = (Inr s, w')"
    by (auto elim!: bind_InrE lift_InrE)
  then have "change_skill u i ?F w = (Inr (Some s), w')" unfolding repo_approve_def by (rule found_InrE)
  moreover have "row_checked parse (?F (clock w) r)" if "r \<in> set (authored_skills w)" for r
    using that assms(1) by (auto simp: skills_checked_def row_checked_def)
  moreover have "keeps_names (?F t)" for t by (simp add: keeps_names_def)
  ultimately show ?thesis using checked_change [OF assms(1), of u i ?F] by blast
qed

lemma dict_set_same: "map_of d k = Some v \<Longrightarrow> dict_set k v d = d"
  by (induction k v d rule: dict_set.induct) auto

lemma describe_dump: "dict_set ''description'' (JStr d) (dump_manifest m) = dump_manifest (m\<lparr>sm_description := d\<rparr>)"
  by (simp add: dump_manifest_def)

lemma described_ok: "manifest_ok m \<Longrightarrow> d \<noteq> [] \<Longrightarrow> length d \<le> 500 \<Longrightarrow> manifest_ok (m\<lparr>sm_description := d\<rparr>)"
  by (cases d) (auto simp: manifest_ok_def make_manifest_def field_length_def split: if_splits)

lemma strip_shorter: "length (py_strip s) \<le> length s"
  using length_dropWhile_le [of py_isspace "rev (dropWhile py_isspace s)"] length_dropWhile_le [of py_isspace s]
  by (simp add: py_strip_def py_rstrip_def py_lstrip_def)

lemma edited_row:
  assumes "row_checked parse r" "d \<noteq> []" "length d \<le> 500"
    and "ak_name r = INSPECT_DETAILS_SKILL_NAME \<or> validate_skill_code parse code = []"
  shows "row_checked parse (r\<lparr>ak_description := d, ak_manifest := dict_set ''description'' (JStr d) (ak_manifest r), ak_code := code, ak_updated_at := t\<rparr>)"
proof -
  from assms(1) obtain m where "manifest_ok m" "ak_manifest r = dump_manifest m" "sm_name m = ak_name r" by (auto simp: row_checked_def)
  then have "manifest_ok (m\<lparr>sm_description := d\<rparr>) \<and> dict_set ''description'' (JStr d) (ak_manifest r) = dump_manifest (m\<lparr>sm_description := d\<rparr>)
      \<and> sm_name (m\<lparr>sm_description := d\<rparr>) = ak_name r" using assms(2,3) described_ok describe_dump by simp
  with assms(1,4) show ?thesis
    unfolding row_checked_def by (intro conjI exI [where x = "m\<lparr>sm_description := d\<rparr>"]) auto
qed

lemma checked_edit:
  assumes "skills_checked parse w" "existing \<in> set (authored_skills w)" "ak_id existing = i" "ak_user_id existing = u"
    and "update_request_ok description code" "edit_skill parse u i existing description code w = (Inr s, w')"
  shows "skills_checked parse w' \<and> (\<exists>f. keeps_names f \<and> (\<forall>r. ak_status (f r) = ak_status r)
    \<and> w' = authored_skills_update (row_update ak_id i f) w)"
proof -
  let ?code = "case code of None \<Rightarrow> ak_code existing | Some c \<Rightarrow> c"
  let ?d = "case description of None \<Rightarrow> ak_description existing | Some d \<Rightarrow> py_strip d"
  from assms(1,2) have ex: "row_checked parse existing" and ids: "distinct (map ak_id (authored_skills w))" by (auto simp: skills_checked_def)
  from assms(6) have ne: "?d \<noteq> []" and code: "code \<noteq> None \<and> ak_name existing \<noteq> INSPECT_DETAILS_SKILL_NAME \<longrightarrow> validate_skill_code parse ?code = []"
    and upd: "bindM (repo_update u i ?d (dict_set ''description'' (JStr ?d) (ak_manifest existing)) ?code) found_skill w = (Inr s, w')"
    unfolding edit_skill_def Let_def by (auto simp: run_then run_guard run_when split: if_splits)
  have "ak_name existing = INSPECT_DETAILS_SKILL_NAME \<or> validate_skill_code parse ?code = []"
    using code ex by (cases code) (auto simp: row_checked_def)
  moreover have "length ?d \<le> 500"
  proof (cases description)
    case None
    with ex show ?thesis by (auto simp: row_checked_def manifest_ok_def make_manifest_def field_length_def split: if_splits)
  next
    case (Some d)
    with assms(5) strip_shorter [of d] show ?thesis by simp
  qed
  moreover have "r = existing" if "r \<in> set (authored_skills w)" "ak_id r = i" for r
    using ids that assms(2,3) by (auto simp: distinct_map dest: inj_onD)
  ultimately have row: "row_checked parse (r\<lparr>ak_description := ?d, ak_manifest := dict_set ''description'' (JStr ?d) (ak_manifest existing),
      ak_code := ?code, ak_updated_at := t\<rparr>)" if "r \<in> set (authored_skills w)" "ak_id r = i" for r t
    using edited_row [OF ex ne] that by blast
  define F :: "time \<Rightarrow> assistant_skill \<Rightarrow> assistant_skill" where "F = (\<lambda>t r. r\<lparr>ak_description := ?d, ak_manifest := dict_set ''description'' (JStr ?d) (ak_manifest existing), ak_code := ?code, ak_updated_at := t\<rparr>)"
  have F: "keeps_names (F t)" "\<forall>r. ak_status (F t r) = ak_status r" for t by (simp_all add: F_def keeps_names_def)
  from upd have "change_skill u i F w = (Inr (Some s), w')" unfolding F_def repo_update_def by (rule found_InrE)
  from checked_change [OF assms(1) this _ F(1)] row have "skills_checked parse w' \<and> w' = authored_skills_update (row_update ak_id i (F (clock w))) w"
    unfolding F_def by blast
  with F show ?thesis by blast
qed

lemma updated_rows:
  assumes "skills_checked parse w" "update_request_ok description code"
    and "update_skill parse u i description code chat_enabled w = (Inr s, w')"
  shows "skills_checked parse w' \<and> (\<exists>r \<in> set (authored_skills w). ak_id r = i \<and> ak_user_id r = u)
    \<and> (\<exists>f. keeps_names f \<and> (\<forall>r. ak_status (f r) = ak_status r) \<and> w' = authored_skills_update (row_update ak_id i f) w)"
proof -
  obtain existing w1 where e: "bindM (skill_by_id u i) found_skill w = (Inr existing, w1)"
    and rest: "(case chat_enabled of None \<Rightarrow> edit_skill parse u i existing description code
       | Some enabled \<Rightarrow> bindM (bindM (set_chat_enabled u i enabled) found_skill) (\<lambda>toggled.
             if description = None \<and> code = None then returnM toggled
             else edit_skill parse u i toggled description code)) w1 = (Inr s, w')"
    by (rule bind_InrE [OF assms(3) [unfolded update_skill_def]])
  from found_skill_row [OF e] have ex: "w1 = w" "existing \<in> set (authored_skills w)" "ak_id existing = i" "ak_user_id existing = u" by auto
  show ?thesis
  proof (cases chat_enabled)
    case None
    with rest ex checked_edit [OF assms(1) ex(2-4) assms(2)] show ?thesis by auto
  next
    case (Some b)
    define F :: "time \<Rightarrow> assistant_skill \<Rightarrow> assistant_skill" where "F = (\<lambda>t r. r\<lparr>ak_chat_enabled := b, ak_updated_at := t\<rparr>)"
    have F: "keeps_names (F t)" "ak_status (F t r) = ak_status r" "row_checked parse (F t r) = row_checked parse r" for t r
      by (simp_all add: F_def keeps_names_def row_checked_def)
    from rest Some ex obtain toggled w2 where t: "bindM (set_chat_enabled u i b) found_skill w = (Inr toggled, w2)"
      and edit: "(if description = None \<and> code = None then returnM toggled else edit_skill parse u i toggled description code) w2 = (Inr s, w')"
      by (auto elim: bind_InrE)
    from t have "change_skill u i F w = (Inr (Some toggled), w2)" unfolding F_def set_chat_enabled_def by (rule found_InrE)
    from checked_change [OF assms(1) this _ F(1)] assms(1)
    obtain r where w2: "skills_checked parse w2" "w2 = authored_skills_update (row_update ak_id i (F (clock w))) w"
      and r: "r \<in> set (authored_skills w)" "ak_id r = i" "ak_user_id r = u" "toggled = F (clock w) r"
      by (auto simp: F skills_checked_def)
    from r F(1) have tog: "toggled \<in> set (authored_skills w2)" "ak_id toggled = i" "ak_user_id toggled = u"
      by (auto simp: w2 set_row_update keeps_names_def)
    show ?thesis
    proof (cases "description = None \<and> code = None")
      case True
      with edit have "w' = w2" by simp
      with w2 F r show ?thesis by blast
    next
      case False
      with edit checked_edit [OF w2(1) tog assms(2)] obtain g where "skills_checked parse w'" "keeps_names g" "\<forall>r. ak_status (g r) = ak_status r"
        "w' = authored_skills_update (row_update ak_id i g) w2" by auto
      moreover have "row_update ak_id i g (row_update ak_id i (F (clock w)) rows) = row_update ak_id i (g \<circ> F (clock w)) rows" for rows
        using F(1) by (simp add: row_update_def keeps_names_def)
      ultimately show ?thesis using F w2(2) r(1-3) by (intro conjI exI [where x = "g \<circ> F (clock w)"]) (auto simp: keeps_names_def)
    qed
  qed
qed

lemma deleted_rows:
  assumes "delete_skill u i w = (Inr (), w')"
  shows "authored_skills w' = row_delete (\<lambda>r. ak_id r = i) (authored_skills w) \<and> uuid_next w' = uuid_next w"
proof -
  obtain d w1 where d: "repo_delete u i w = (Inr d, w1)" and g: "guardM d NotFoundError w1 = (Inr (), w')"
    by (rule bind_InrE [OF assms [unfolded delete_skill_def]])
  obtain found w2 where f: "skill_by_id u i w = (Inr found, w2)" by (rule bind_InrE [OF d [unfolded repo_delete_def]])
  from g have gd: "d" "w' = w1" by (auto simp: run_guard split: if_splits)
  from f have "w2 = w" by (auto simp: skill_by_id_def)
  show ?thesis
  proof (cases found)
    case None
    with d f gd show ?thesis by (simp add: repo_delete_def run_bind)
  next
    case (Some r)
    with f skill_by_id_found have "ak_id r = i" by blast
    with Some d f \<open>w2 = w\<close> gd show ?thesis by (auto simp: repo_delete_def run_bind run_then flush_skills_def split: if_splits)
  qed
qed

lemma checked_delete: "okay (skills_checked parse) (delete_skill u i) (\<lambda>_. skills_checked parse)"
  unfolding okay_def
proof (intro allI impI)
  fix w x w' assume "skills_checked parse w" "delete_skill u i w = (Inr x, w')"
  with deleted_rows [of u i w w'] show "skills_checked parse w'"
    by (auto simp: skills_checked_def uq_skill_names_def row_delete_def distinct_map_filter)
qed

section \<open>Requests\<close>

lemma checked_request:
  assumes "one_parser sv"
  shows "preserves (skills_checked (sv_parse sv)) (skill_request c sv u req)"
proof -
  let ?I = "skills_checked (sv_parse sv)"
  have fin: "preserves ?I (transact (bindM m (\<lambda>x. returnM ())))" if "okay ?I m (\<lambda>_. ?I)" for m :: "'b M"
    by (intro preserves_transact skills_checked_rollback okay_bind that okay_read keeps_return)
  show ?thesis
  proof (cases req)
    case (SkillChat m)
    then show ?thesis by (simp only: skill_request.simps) (intro fin checked_message assms)
  next
    case (SkillApprove i)
    have "okay ?I (approve_skill u i) (\<lambda>_. ?I)" using approved_row unfolding okay_def by blast
    with SkillApprove show ?thesis by (simp only: skill_request.simps) (intro fin)
  next
    case (SkillUpdate i d code b)
    have "okay ?I (update_skill (sv_parse sv) u i d code b) (\<lambda>_. ?I)" if "update_request_ok d code"
      using updated_rows [OF _ that] unfolding okay_def by blast
    then have "update_request_ok d code \<Longrightarrow> preserves ?I (transact (bindM (update_skill (sv_parse sv) u i d code b) (\<lambda>s. returnM ())))"
      by (intro fin)
    with SkillUpdate show ?thesis by (auto simp: preserves_def run_then run_guard)
  next
    case (SkillDelete i)
    then show ?thesis
      by (simp only: skill_request.simps) (intro preserves_transact skills_checked_rollback checked_delete)
  next
    case (SkillExecute i item)
    have "okay ?I (execute_skill c sv u i item) (\<lambda>_. ?I)" by (intro okay_of_preserves skills_checked_beside beside_execute)
    with SkillExecute show ?thesis by (simp only: skill_request.simps) (intro fin)
  qed
qed

text \<open>The code of the user's skill when it is installed.\<close>

definition installed_code :: "uuid \<Rightarrow> uuid \<Rightarrow> string set \<Rightarrow> world \<Rightarrow> bool" where
  "installed_code u i codes w \<longleftrightarrow> (\<forall>r \<in> set (authored_skills w).
     ak_id r = i \<and> ak_user_id r = u \<and> ak_status r = SKILL_INSTALLED \<longrightarrow> ak_code r \<in> codes)"

text \<open>A message only adds pending rows or turns rows into pending ones.\<close>

lemma pending_create:
  assumes "installed_code u i codes w" "create_or_replace_pending v n d m code w = (Inr s, w')"
  shows "installed_code u i codes w'"
proof -
  have other: "SKILL_PENDING \<noteq> SKILL_INSTALLED" by code_simp
  from assms(2) obtain found w1 where f: "skill_by_name v n w = (Inr found, w1)"
    unfolding create_or_replace_pending_def by (auto elim!: bind_InrE)
  then have "w1 = w" by (auto simp: skill_by_name_def)
  show ?thesis
  proof (cases found)
    case None
    with assms f \<open>w1 = w\<close> other show ?thesis
      by (auto simp: create_or_replace_pending_def flush_skills_def installed_code_def run_bind run_then Let_def split: if_splits)
  next
    case (Some r)
    let ?f = "\<lambda>r. r\<lparr>ak_description := d, ak_manifest := m, ak_code := code, ak_status := SKILL_PENDING, ak_updated_at := clock w\<rparr>"
    from assms(2) f Some \<open>w1 = w\<close> have "store_skill r ?f w = (Inr s, w')" by (simp add: create_or_replace_pending_def run_bind)
    from stored_row [OF this] assms(1) other show ?thesis by (auto simp: installed_code_def set_row_update split: if_splits)
  qed
qed

lemma pending_message:
  "okay (installed_code u i codes) (handle_authoring_message sv v message) (\<lambda>_. installed_code u i codes)"
proof -
  have create: "okay (installed_code u i codes) (create_or_replace_pending v n d m code) (\<lambda>_. installed_code u i codes)" for n d m code
    using pending_create unfolding okay_def by blast
  have propose: "okay (installed_code u i codes) (propose_inspect_details v) (\<lambda>_. installed_code u i codes)"
    unfolding propose_inspect_details_def skill_by_name_def
    by (intro okay_bind okay_if create okay_read keeps_return keeps_lift)
  have manifest: "okay (installed_code u i codes) (case (cr_ok r, cr_manifest r) of
      (True, Some manifest) \<Rightarrow> bindM (create_or_replace_pending v (cr_name r) (cr_description r) manifest (cr_code r)) (\<lambda>skill. returnM (Generated skill))
    | _ \<Rightarrow> returnM (NotGenerated (cr_problems r))) (\<lambda>_. installed_code u i codes)" for r
    by (cases "cr_ok r"; cases "cr_manifest r") (simp_all only: prod.case bool.case option.case, (intro okay_bind create okay_read keeps_return)+)
  show ?thesis unfolding handle_authoring_message_def generate_skill_def
    by (intro okay_if okay_case_option okay_bind propose manifest okay_read keeps_return keeps_author)
qed

lemma updated_elsewhere:
  assumes "installed_code u i codes w" "distinct (map ak_id (authored_skills w))" "(v, j) \<noteq> (u, i)"
    and "\<exists>r \<in> set (authored_skills w). ak_id r = j \<and> ak_user_id r = v" "keeps_names f"
  shows "installed_code u i codes (authored_skills_update (row_update ak_id j f) w)"
proof -
  have "j \<noteq> i \<or> \<not> (\<exists>r \<in> set (authored_skills w). ak_id r = i \<and> ak_user_id r = u)"
    using assms(2-4) by (auto simp: distinct_map dest: inj_onD)
  with assms(1,5) show ?thesis by (auto simp: installed_code_def set_row_update keeps_names_def split: if_splits)
qed

text \<open>A message touches nothing but the table of skills.\<close>

lemma keeps_authoring:
  assumes "\<And>w g n. f (w\<lparr>authored_skills := g, uuid_next := n\<rparr>) = f w"
  shows "keeps f (authoring_handler answer sv u message)"
proof -
  have rows: "keeps f (modifyM (authored_skills_update g))" for g
  proof (rule keeps_modify)
    fix w :: world
    have eq: "authored_skills_update g w = w\<lparr>authored_skills := g (authored_skills w)\<rparr>" by (cases w) simp
    have "f (w\<lparr>authored_skills := g (authored_skills w)\<rparr>) = f w"
      using assms [where w = w and g = "g (authored_skills w)" and n = "uuid_next w"] by simp
    then show "f (authored_skills_update g w) = f w" unfolding eq .
  qed
  have ids: "keeps f uuid4"
  proof (rule keeps_uuid4)
    fix w n show "f (w\<lparr>uuid_next := n\<rparr>) = f w" using assms [where w = w and g = "authored_skills w" and n = n] by simp
  qed
  have flush: "keeps f flush_skills" by (simp add: keeps_def flush_skills_def)
  have create: "keeps f (create_or_replace_pending u n d m code)" for n d m code
    unfolding create_or_replace_pending_def store_skill_def skill_by_name_def Let_def by (intro keeps_rules rows ids flush)
  have result: "keeps f (case (cr_ok r, cr_manifest r) of
      (True, Some manifest) \<Rightarrow> bindM (create_or_replace_pending u (cr_name r) (cr_description r) manifest (cr_code r)) (\<lambda>skill. returnM (Generated skill))
    | _ \<Rightarrow> returnM (NotGenerated (cr_problems r)))" for r
    by (cases "cr_ok r"; cases "cr_manifest r") (simp_all only: prod.case bool.case option.case, (intro keeps_rules create)+)
  show ?thesis
    unfolding authoring_handler_def handle_authoring_message_def propose_inspect_details_def generate_skill_def skill_by_name_def
    by (intro keeps_rules create keeps_author result)
qed

end
