(* ===== verification/AssistantProperties.thy ===== *)
theory AssistantProperties
  imports ConversationFacts AuthoringFacts Samples
begin

text \<open>
  What the assistant promises: nothing but reading before the user confirms, plans without dangling references, failures that
  stop only what depends on them, and workflows that run at most once.
\<close>

section \<open>The gate\<close>

text \<open>What is left of the world without the assistant's own tables and the supply of identifiers.\<close>

definition drive_part :: "world \<Rightarrow> world" where
  "drive_part w = w\<lparr>workflows := [], workflow_runs := [], authored_skills := [], uuid_next := 0\<rparr>"

text \<open>C27: whatever the language model plans, a chat request changes nothing but the assistant's own tables: every skill that does more
  than read waits for the confirmation, in the first plan, in the reconnaissance of a two-phase plan and in a replan.\<close>

theorem chat_only_reads:
  assumes "service_registry re c cfg tw search installed = Inr (as_registry a)" "as_hooks a = service_hooks"
    and "\<And>u q ty m pg n. keeps drive_part (search u q ty m pg n)"
    and "as_authoring a = None \<or> as_authoring a = Some (authoring_handler answer sv)"
  shows "drive_part (snd (chat a u message session_id ids history w)) = drive_part w"
proof -
  have "keeps drive_part (authoring_handler answer sv u m)" for u m by (rule keeps_authoring) (simp add: drive_part_def)
  then have "reads_keep drive_part a" using assms(4) by (intro service_reads_keep [OF assms(1,2,3)]) auto
  moreover have "ignores_workflows drive_part" by (simp add: ignores_workflows_def drive_part_def)
  ultimately show ?thesis by (rule keeps_snd [OF keeps_chat])
qed

text \<open>A language model that at once plans to make a folder.\<close>

definition eager_planner :: planner where
  "eager_planner = \<lparr>pl_text = (\<lambda>_. ''''), pl_chat = (\<lambda>ms w. Inr ''{}''), pl_loads = (\<lambda>s. Some (JStr ''plan'')),
     pl_validated = (\<lambda>j. Some \<lparr>pr_reply = ''ok'', pr_steps = [\<lparr>ps_skill = ''create_folder'',
       ps_arguments = [(''name'', JStr ''new'')], ps_depends_on = []\<rparr>], pr_needs_followup = False\<rparr>),
     pl_num_ctx = 8192, pl_max_repair = 2, pl_two_phase = False\<rparr>"

definition empty_search :: search where
  "empty_search = (\<lambda>u q ty m pg n. returnM (JObj [(''items'', JList []), (''total'', JInt 0)]))"

definition sample_renderers :: renderers where
  "sample_renderers = \<lparr>re_date = (\<lambda>t. ''''), re_percent = (\<lambda>n d. ''0.0'')\<rparr>"

definition sample_registry :: registry where
  "sample_registry = projr (service_registry sample_renderers plain_crypto assistant_drive assistant_trash empty_search [])"

definition sample_assistant :: assistant where
  "sample_assistant = \<lparr>as_planner = eager_planner, as_registry = sample_registry, as_hooks = service_hooks,
     as_wiring = assistant_drive, as_authoring = None, as_followup_text = (\<lambda>m rs ids. m),
     as_feedback_text = (\<lambda>m rs. m), as_two_phase = False,
     as_texts = \<lparr>mt_arrow = ''->'', mt_ellipsis = ''...'', mt_error = (\<lambda>e. ''error'')\<rparr>, as_render = (\<lambda>m. case m of Answer t \<Rightarrow> t | _ \<Rightarrow> []),
     as_history_max = 20, as_enabled = True\<rparr>"

lemma sample_registry_built:
  "service_registry sample_renderers plain_crypto assistant_drive assistant_trash empty_search [] = Inr (as_registry sample_assistant)"
proof -
  have "\<not> isl (service_registry sample_renderers plain_crypto assistant_drive assistant_trash empty_search [])" by code_simp
  then show ?thesis by (simp add: sample_assistant_def sample_registry_def sum.collapse(2))
qed

theorem chat_only_reads_witness:
  "drive_part (snd (chat sample_assistant 1 ''make a folder'' None [] [] sample_world)) = drive_part sample_world
    \<and> map aw_status (workflows (snd (chat sample_assistant 1 ''make a folder'' None [] [] sample_world))) = [WORKFLOW_PENDING]"
proof
  have "keeps drive_part (empty_search u q ty m pg n)" for u q ty m pg n
    unfolding empty_search_def by (rule keeps_return)
  then show "drive_part (snd (chat sample_assistant 1 ''make a folder'' None [] [] sample_world)) = drive_part sample_world"
    by (intro chat_only_reads [OF sample_registry_built]) (simp_all add: sample_assistant_def)
  show "map aw_status (workflows (snd (chat sample_assistant 1 ''make a folder'' None [] [] sample_world))) = [WORKFLOW_PENDING]"
    by code_simp
qed

section \<open>Plans\<close>

text \<open>C28: a plan the planner hands over can be executed as it is: every skill exists, the steps are numbered in order, and whatever a
  step waits for, by dependency or by reference, lies before it.\<close>

theorem accepted_plans_are_sound:
  assumes "plan pl reg message selected history [] w = (Inr p, w')"
  shows "\<exists>steps. classify_steps (pr_steps p) reg = Inr steps \<and> plan_ok steps \<and> map ws_skill steps = map ps_skill (pr_steps p)
    \<and> (\<forall>s \<in> set steps. get_skill reg (ws_skill s) \<noteq> None)"
proof -
  have "validate_plan (pr_steps p) reg [] = []"
    using plan_attempts_valid assms unfolding plan_def by (fastforce simp: validate_plan_def)
  from classified_plan [OF this] show ?thesis by (simp add: classify_steps_def)
qed

theorem accepted_plans_are_sound_witness:
  "\<exists>steps. classify_steps [\<lparr>ps_skill = ''create_folder'', ps_arguments = [(''name'', JStr ''new'')], ps_depends_on = []\<rparr>] sample_registry = Inr steps
    \<and> plan_ok steps"
proof -
  let ?run = "plan eager_planner sample_registry ''m'' [] [] [] sample_world"
  have "\<not> isl (fst ?run)" by code_simp
  note run = returned [where m = "plan eager_planner sample_registry ''m'' [] [] []" and w = sample_world, OF this]
  have "map ps_skill (pr_steps (projr (fst ?run))) = [''create_folder'']" by code_simp
  moreover have "pr_steps (projr (fst ?run)) = [\<lparr>ps_skill = ''create_folder'', ps_arguments = [(''name'', JStr ''new'')], ps_depends_on = []\<rparr>]"
    by code_simp
  ultimately show ?thesis using accepted_plans_are_sound [OF run] by auto
qed

text \<open>Resolving the user's selection keeps a plan sound: no selection reference is left, references to earlier steps follow the new
  numbers, a step over all selected items becomes one step for each of them, and the only errors are selection references
  that name nothing.\<close>

theorem selection_is_resolved:
  assumes "plan_ok steps" "selection_ok selected" "selected \<noteq> []"
  shows "case apply_selection steps selected reg of
      Inl e \<Rightarrow> \<exists>s \<in> set steps. \<exists>(k, v) \<in> set (bound_arguments reg s). is_selection_ref v \<and> (\<exists>j. selection_value v selected j = Inl e)
    | Inr out \<Rightarrow> plan_ok out \<and> (\<forall>s \<in> set out. \<forall>(k, v) \<in> set (ws_arguments s). \<not> is_selection_ref v)
        \<and> length out = sum_list (map (\<lambda>s. if each_keys (bound_arguments reg s) = [] then 1 else length selected) steps)"
proof -
  have start: "renumbers Map.empty 0 (length ([] :: workflow_step list))" "plan_ok []" by (simp_all add: renumbers_def plan_from_def)
  have "copies reg selected = (\<lambda>s. if each_keys (bound_arguments reg s) = [] then 1 else length selected)"
    by (simp add: copies_def fun_eq_iff)
  with apply_from_result [OF assms(2,3) start assms(1), of reg] show ?thesis
    unfolding apply_selection_def by (auto simp: unresolved_def unselected_def split: sum.splits)
qed

definition fan_plan :: "workflow_step list" where
  "fan_plan = [\<lparr>ws_index = 0, ws_skill = ''find_folder'', ws_arguments = [(''name'', JStr ''misc'')], ws_depends_on = [],
       ws_permission_tier = ''read'', ws_requires_approval = False\<rparr>,
     \<lparr>ws_index = 1, ws_skill = ''trash_item'', ws_arguments = [(''item_id'', JObj [(''from'', JStr ''selection''), (''each'', JBool True)])],
       ws_depends_on = [], ws_permission_tier = ''destructive'', ws_requires_approval = True\<rparr>,
     \<lparr>ws_index = 2, ws_skill = ''list_items'', ws_arguments = [(''parent_id'', JObj [(''from'', JInt 0), (''path'', JStr ''items.0.id'')])],
       ws_depends_on = [1], ws_permission_tier = ''read'', ws_requires_approval = False\<rparr>]"

theorem selection_is_resolved_witness:
  "\<exists>out. apply_selection fan_plan [selection_item ''12'' ''a'' ''FILE'', selection_item ''13'' ''b'' ''FILE''] sample_registry = Inr out
    \<and> plan_ok out \<and> length out = 4 \<and> ws_depends_on (out ! 3) = [1, 2]"
proof -
  let ?sel = "[selection_item ''12'' ''a'' ''FILE'', selection_item ''13'' ''b'' ''FILE'']"
  have plan: "plan_ok fan_plan"
    by (auto simp: fan_plan_def plan_from_Cons waits_for_def step_refs_def map_filter_simps step_ref_def get_or_def) (simp add: plan_from_def)
  have sel: "selection_ok ?sel" "?sel \<noteq> []" by (auto simp: selection_ok_def)
  have "\<not> isl (apply_selection fan_plan ?sel sample_registry)" by code_simp
  then obtain out where out: "apply_selection fan_plan ?sel sample_registry = Inr out" by (auto simp: isl_def) (meson isl_def sum.exhaust)
  moreover have "length (projr (apply_selection fan_plan ?sel sample_registry)) = 4"
    "ws_depends_on (projr (apply_selection fan_plan ?sel sample_registry) ! 3) = [1, 2]" by code_simp+
  ultimately show ?thesis using selection_is_resolved [OF plan sel, of sample_registry] by auto
qed

section \<open>Execution\<close>

text \<open>C29: when hooks do not raise and skills return, executing a workflow returns with one result for every step, in order; a step is skipped
  exactly when it waits for an earlier step that failed or was skipped, and every other step was run.\<close>

theorem failures_stay_isolated:
  assumes "quiet hk" "returning reg"
  shows "\<exists>rs w'. execute reg hk u steps w = (Inr rs, w') \<and> length rs = length steps
    \<and> (\<forall>i < length steps. sr_index (rs ! i) = ws_index (steps ! i) \<and> sr_skill (rs ! i) = ws_skill (steps ! i)
        \<and> (sr_skipped (rs ! i) \<longleftrightarrow> (\<exists>j < i. \<not> sr_ok (rs ! j) \<and> ws_index (steps ! j) \<in> waits_for (steps ! i)))
        \<and> (sr_ok (rs ! i) \<longleftrightarrow> \<not> sr_skipped (rs ! i) \<and> sr_error (rs ! i) = None))"
proof -
  obtain w1 where 1: "fire hk BEFORE_EXECUTION (run_context u steps) w = (Inr (), w1)" using fire_runs [OF assms(1)] by blast
  obtain rs w' where run: "exec_steps reg hk (run_context u steps) steps [] [] w1 = (Inr rs, w')" using exec_steps_return [OF assms] by blast
  from judged_after [OF run] have n: "length rs = length steps" and each: "\<forall>i < length steps. judged (take i rs) (steps ! i) (rs ! i)"
    by (auto simp: failures_def)
  have "(\<exists>q \<in> set (take i rs). \<not> sr_ok q \<and> sr_index q \<in> D) \<longleftrightarrow> (\<exists>j < i. \<not> sr_ok (rs ! j) \<and> ws_index (steps ! j) \<in> D)"
    if i: "i < length steps" for i D
  proof -
    have "sr_index (rs ! j) = ws_index (steps ! j)" if "j < i" for j using each i that by (simp add: judged_def)
    moreover have "set (take i rs) = (!) rs ` {0..<i}" using i n by (simp add: nth_image)
    ultimately show ?thesis by auto
  qed
  with each have "\<forall>i < length steps. sr_index (rs ! i) = ws_index (steps ! i) \<and> sr_skill (rs ! i) = ws_skill (steps ! i)
        \<and> (sr_skipped (rs ! i) \<longleftrightarrow> (\<exists>j < i. \<not> sr_ok (rs ! j) \<and> ws_index (steps ! j) \<in> waits_for (steps ! i)))
        \<and> (sr_ok (rs ! i) \<longleftrightarrow> \<not> sr_skipped (rs ! i) \<and> sr_error (rs ! i) = None)"
    by (auto simp: judged_def)
  with 1 run n show ?thesis by (auto simp: execute_def run_then)
qed

definition quota_registry :: registry where
  "quota_registry = [builtin ''storage_quota'' [] [] ''read'' OPAQUE (storage_quota_skill sample_renderers)]"

text \<open>The first step names no skill, the second waits for it, the third stands alone.\<close>

definition mixed_steps :: "workflow_step list" where
  "mixed_steps = (let step = (\<lambda>i name deps. \<lparr>ws_index = i, ws_skill = name, ws_arguments = [], ws_depends_on = deps,
     ws_permission_tier = ''read'', ws_requires_approval = False\<rparr>) in
     [step 0 ''gone'' [], step 1 ''storage_quota'' [0], step 2 ''storage_quota'' []])"

theorem failures_stay_isolated_witness:
  "\<exists>rs w'. execute quota_registry service_hooks 1 mixed_steps sample_world = (Inr rs, w') \<and> length rs = 3
    \<and> map sr_skipped rs = [False, True, False] \<and> map sr_ok rs = [False, False, True]"
proof -
  let ?run = "execute quota_registry service_hooks 1 mixed_steps sample_world"
  have "never_raises (catchM m (\<lambda>_. returnM ()))" for m :: "unit M"
    by (simp add: never_raises_def run_catch split: prod.split sum.split)
  then have "quiet service_hooks"
    by (auto simp: quiet_def service_hooks_def default_hooks_def audit_hook_def snapshot_before_write_hook_def Let_def)
      (simp_all add: never_raises_def)
  moreover have "returning quota_registry"
    by (auto simp: returning_def quota_registry_def builtin_def storage_quota_skill_def get_quota_info_def users_get_by_id_def
        run_bind error_defs split: option.splits)
  ultimately obtain rs w' where run: "?run = (Inr rs, w')" "length rs = length mixed_steps"
    using failures_stay_isolated [of service_hooks quota_registry 1 mixed_steps sample_world] by blast
  have "map sr_skipped (projr (fst ?run)) = [False, True, False]" "map sr_ok (projr (fst ?run)) = [False, False, True]"
    "length mixed_steps = 3" by code_simp+
  with run show ?thesis by auto
qed

section \<open>Confirmation\<close>

text \<open>C30: once a workflow was confirmed or cancelled, no later requests - by anyone, to any assistant whose skills leave the table of
  workflows alone - make it pending again: confirming or cancelling it is refused as not found, so it runs at most once.\<close>

theorem workflows_run_at_most_once:
  assumes "\<forall>r \<in> set (workflows w). aw_id r < uuid_next w" "tame a"
    and "(\<exists>out. confirm_route a u k w = (Inr out, w1)) \<or> (\<exists>i. cancel_route u k w = (Inr i, w1))"
    and "assistant_steps w1 w2"
  shows "confirm_route a' u' k w2 = (Inl NotFoundError, w2) \<and> cancel_route u' k w2 = (Inl NotFoundError, w2)"
proof -
  have "closed_workflow k w1"
    using assms(3)
  proof (elim disjE exE)
    fix out assume "confirm_route a u k w = (Inr out, w1)"
    then obtain o1 wa where c: "confirm a u k w = (Inr o1, wa)"
      and rest: "thenM (add_message (fst o1) ''assistant'' (stored_answer a (report ''Workflow executed.'' False (snd o1)) (snd o1)))
        (returnM o1) wa = (Inr out, w1)"
      by (auto simp: confirm_route_def split: prod.splits elim!: bind_InrE)
    from preserves_snd [OF preserves_then [OF closed_conversation(2) preserves_return] confirm_closes [OF assms(2,1) c]] rest
    show ?thesis by (metis snd_conv)
  next
    fix i assume "cancel_route u k w = (Inr i, w1)"
    then have "cancel u k w = (Inr i, w1)" by (simp add: cancel_route_def)
    then show ?thesis by (rule cancel_closes [OF assms(1)])
  qed
  then show ?thesis using closed_refused closed_for_ever [OF assms(4)] by simp
qed

text \<open>A pending workflow of user 1; the assistant that runs it has one skill.\<close>

definition pending_world :: world where
  "pending_world = sample_world\<lparr>talks := [\<lparr>as_id = 71, as_user_id = 1, as_title = ''m'', as_created_at = 0, as_updated_at = 0\<rparr>], workflows := [\<lparr>aw_id = 70, aw_user_id = 1, aw_session_id = 71, aw_source_nl = ''m'', aw_steps = mixed_steps,
     aw_status = WORKFLOW_PENDING, aw_name = None, aw_created_at = 0, aw_updated_at = 0\<rparr>]\<rparr>"

definition quiet_assistant :: assistant where
  "quiet_assistant = sample_assistant\<lparr>as_registry := quota_registry, as_hooks := default_hooks\<rparr>"

theorem workflows_run_at_most_once_witness:
  "\<exists>w1. (\<exists>out. confirm_route quiet_assistant 1 70 pending_world = (Inr out, w1))
    \<and> confirm_route quiet_assistant 1 70 w1 = (Inl NotFoundError, w1)"
proof -
  let ?run = "confirm_route quiet_assistant 1 70"
  have "\<not> isl (fst (?run pending_world))" by code_simp
  note run = returned [where m = ?run and w = pending_world, OF this]
  have "tame_call (sk_handler k u args)" if "k \<in> set quota_registry" for k u args
    using that by (auto simp: tame_call_def quota_registry_def builtin_def storage_quota_skill_def get_quota_info_def
        users_get_by_id_def run_bind split: option.split)
  then have tame: "tame quiet_assistant"
    by (simp add: tame_def quiet_assistant_def sample_assistant_def default_hooks_def audit_hook_def tame_call_def del: split_paired_All)
  have ids: "\<forall>r \<in> set (workflows pending_world). aw_id r < uuid_next pending_world" by code_simp
  have "\<exists>out. ?run pending_world = (Inr out, snd (?run pending_world))" using run by (rule exI)
  with workflows_run_at_most_once [OF ids tame _ assistant_steps.stay, of 1 70 "snd (?run pending_world)"] show ?thesis by blast
qed

section \<open>Conversations\<close>

text \<open>C33: a conversation is its owner's alone: whatever anybody else asks the assistant - chats under the identifier of the session
  included - the session and its messages stay as they are, and nobody else can read them.\<close>

theorem conversations_stay_private:
  assumes "talks_ok w" "t \<in> set (talks w)" "others_steps (as_user_id t) w w'"
  shows "t \<in> set (talks w') \<and> list_messages (as_user_id t) (as_id t) w' = (fst (list_messages (as_user_id t) (as_id t) w), w')
    \<and> (\<forall>v. v \<noteq> as_user_id t \<longrightarrow> list_messages v (as_id t) w' = (Inr [], w'))"
proof -
  from others_leave [OF assms(3,1,2) refl] have w': "talks_ok w'" "t \<in> set (talks w')" "said (as_id t) w' = said (as_id t) w" by auto
  have own: "filter (\<lambda>r. as_id r = as_id t \<and> as_user_id r = as_user_id t) (talks v) = [t]" if "talks_ok v" "t \<in> set (talks v)" for v
    using that own_row [of as_id "talks v" t "\<lambda>r. as_user_id r = as_user_id t"] by (simp add: talks_ok_def)
  have read: "list_messages (as_user_id t) (as_id t) v = (Inr (sort_key am_created_at (said (as_id t) v)), v)"
    if "talks_ok v" "t \<in> set (talks v)" for v
    using own [OF that] by (simp add: list_messages_def session_of_def run_bind said_def)
  have "distinct (map as_id (talks w'))" using w'(1) by (simp add: talks_ok_def)
  from foreign_session [OF this w'(2)] w' read [OF w'(1,2)] read [OF assms(1,2)] show ?thesis by simp
qed

theorem conversations_stay_private_witness:
  "\<exists>w'. assistant_route quiet_assistant 2 (W_CHAT ''hello'' (Some 71) []) pending_world = (Inl IntegrityError, w')
    \<and> list_messages 2 71 w' = (Inr [], w')"
proof -
  let ?t = "\<lparr>as_id = 71, as_user_id = 1, as_title = ''m'', as_created_at = 0, as_updated_at = 0\<rparr>"
  let ?run = "assistant_route quiet_assistant 2 (W_CHAT ''hello'' (Some 71) []) pending_world"
  have "keeps talk_part (storage_quota_skill r u args)" for r u args
    by (auto simp: storage_quota_skill_def get_quota_info_def users_get_by_id_def intro!: keeps_rules split: option.split)
  then have discreet: "discreet quiet_assistant"
    by (auto simp: discreet_def quiet_assistant_def sample_assistant_def quota_registry_def builtin_def default_hooks_def
      audit_hook_def intro: keeps_return)
  have ok: "talks_ok pending_world" "?t \<in> set (talks pending_world)"
    by (simp_all add: talks_ok_def pending_world_def sample_world_def)
  have clock: "pending_world\<lparr>clock := clock pending_world\<rparr> = pending_world" by simp
  have "others_steps 1 pending_world (snd ?run)"
    by (rule others_steps.request [OF others_steps.stay discreet order_refl, where v = 2]) (simp, unfold clock, rule prod.collapse [symmetric])
  then have "others_steps (as_user_id ?t) pending_world (snd ?run)" by simp
  from conversations_stay_private [OF ok this] have "list_messages 2 71 (snd ?run) = (Inr [], snd ?run)" by simp
  moreover have "fst ?run = Inl IntegrityError" by code_simp
  ultimately show ?thesis by (metis prod.collapse)
qed

end
