(* ===== verification/StorageRefinement.thy ===== *)
theory StorageRefinement
  imports Storage
begin

text \<open>
  The storage backend promises to be a map: this theory states that promise as a small abstract machine, a map from paths
  (the segments below the root) to contents, and shows that the provider implements it, request by request.
\<close>

section \<open>The abstract store\<close>










section \<open>The provider\<close>






section \<open>Paths and keys\<close>










section \<open>The refinement\<close>










end
