(* ===== verification/Privacy.thy ===== *)
theory Privacy
  imports Planner
begin

text \<open>
  \<open>assistant/llm/privacy.py\<close>: what identifies a person or an object is taken out of a text before an external language model
  sees it. The two regular expressions are given as functions that return the length of the match at a position, as
  Python's engine finds it; \<open>re.sub\<close> is the scan from the left that replaces every match.
\<close>

section \<open>Matching\<close>

text \<open>\<open>\w\<close> on the characters of the model.\<close>

definition is_word :: "char \<Rightarrow> bool" where
  "is_word c = (let n = code_point c in
     (48 \<le> n \<and> n \<le> 57) \<or> (65 \<le> n \<and> n \<le> 90) \<or> n = 95 \<or> (97 \<le> n \<and> n \<le> 122)
     \<or> n \<in> {170, 178, 179, 181, 185, 186, 188, 189, 190} \<or> (192 \<le> n \<and> n \<le> 255 \<and> n \<noteq> 215 \<and> n \<noteq> 247))"

definition local_char :: "char \<Rightarrow> bool" where
  "local_char c = (is_word c \<or> c \<in> {CHR ''.'', CHR ''+'', CHR ''-''})"

definition domain_char :: "char \<Rightarrow> bool" where
  "domain_char c = (is_word c \<or> c = CHR ''-'')"

text \<open>\<open>(\.[\w-]+)*\<close>: how much it takes. A label ends where its characters end, so there is one way to match.\<close>

function labels :: "string \<Rightarrow> nat" where
  "labels s = (case s of
       [] \<Rightarrow> 0
     | c # t \<Rightarrow> if c = CHR ''.'' \<and> takeWhile domain_char t \<noteq> []
         then Suc (length (takeWhile domain_char t)) + labels (dropWhile domain_char t) else 0)"
  by pat_completeness auto
termination by (relation "measure length") (auto simp: le_imp_less_Suc length_dropWhile_le)

declare labels.simps [simp del]

text \<open>\<open>[\w.+-]+@[\w-]+(?:\.[\w-]+)+\<close> at the start of a string; the expression does not look at what comes before.\<close>

definition email_here :: "char option \<Rightarrow> string \<Rightarrow> nat option" where
  "email_here prev s =
     (let l = takeWhile local_char s; r = dropWhile local_char s in
      if l = [] \<or> r = [] \<or> hd r \<noteq> CHR ''@'' then None
      else let d = takeWhile domain_char (tl r); n = labels (dropWhile domain_char (tl r)) in
        if d = [] \<or> n = 0 then None else Some (length l + 1 + length d + n))"

definition uuid_shape :: string where
  "uuid_shape = ''hhhhhhhh-hhhh-hhhh-hhhh-hhhhhhhhhhhh''"

definition shape_char :: "char \<Rightarrow> char \<Rightarrow> bool" where
  "shape_char p c = (if p = CHR ''h'' then is_hex c else c = p)"

definition boundary_before :: "char option \<Rightarrow> bool" where
  "boundary_before prev = (case prev of None \<Rightarrow> True | Some c \<Rightarrow> \<not> is_word c)"

text \<open>The expression for identifiers, with \<open>\b\<close> on both sides: its first and last characters are word characters.\<close>

definition uuid_here :: "char option \<Rightarrow> string \<Rightarrow> nat option" where
  "uuid_here prev s =
     (if boundary_before prev \<and> list_all2 shape_char uuid_shape (take 36 s) \<and> (drop 36 s = [] \<or> \<not> is_word (s ! 36))
      then Some 36 else None)"

section \<open>Replacing\<close>

type_synonym pattern = "char option \<Rightarrow> string \<Rightarrow> nat option"

text \<open>\<open>re.sub\<close>: both patterns match at least one character.\<close>

function re_sub :: "pattern \<Rightarrow> string \<Rightarrow> char option \<Rightarrow> string \<Rightarrow> string" where
  "re_sub here rep prev s = (case s of
       [] \<Rightarrow> []
     | c # t \<Rightarrow> (case here prev s of
         None \<Rightarrow> c # re_sub here rep (Some c) t
       | Some n \<Rightarrow> rep @ re_sub here rep (Some (s ! (n - 1))) (drop (n - 1) t)))"
  by pat_completeness auto
termination by (relation "measure (\<lambda>(here, rep, prev, s). length s)") auto

declare re_sub.simps [simp del]

definition redact :: "string \<Rightarrow> string" where
  "redact text = re_sub uuid_here ''[uuid]'' None (re_sub email_here ''[email]'' None text)"

datatype privacy_default = SENSITIVE | NON_SENSITIVE

record privacy_decision =
  pd_is_sensitive :: bool
  pd_text_for_external :: string
  pd_deidentified :: bool

definition classify_and_deidentify :: "privacy_default \<Rightarrow> string \<Rightarrow> privacy_decision" where
  "classify_and_deidentify d text =
     (if d = SENSITIVE then \<lparr>pd_is_sensitive = True, pd_text_for_external = text, pd_deidentified = False\<rparr>
      else let redacted = redact text in
        \<lparr>pd_is_sensitive = (redacted \<noteq> text), pd_text_for_external = redacted, pd_deidentified = (redacted \<noteq> text)\<rparr>)"

section \<open>What is left after replacing\<close>

text \<open>A pattern occurs in a string when it matches at some position.\<close>

fun occurs :: "pattern \<Rightarrow> char option \<Rightarrow> string \<Rightarrow> bool" where
  "occurs here prev [] = False"
| "occurs here prev (c # s) = (here prev (c # s) \<noteq> None \<or> occurs here (Some c) s)"

definition identifying :: "string \<Rightarrow> bool" where
  "identifying s = (occurs email_here None s \<or> occurs uuid_here None s)"

text \<open>
  What the two patterns have in common: brackets (any \<open>stop\<close> character) never take part in a match and end one like the end
  of the string; a match that a longer string cuts off is still one, unless another match begins right there; and
  after a match the scan goes on as after a bracket.
\<close>

locale scanner =
  fixes here :: pattern and stop :: "char \<Rightarrow> bool"
  assumes none: "here p [] = None"
    and bounds: "here p s = Some n \<Longrightarrow> 0 < n \<and> n \<le> length s"
    and stops: "stop c \<Longrightarrow> here p (x @ c # y) = here p x"
    and prefix: "here p x = Some n \<Longrightarrow> x \<noteq> [] \<Longrightarrow> here (Some (last x)) y \<noteq> None \<Longrightarrow> here p (x @ y) \<noteq> None"
    and resumes: "here p s = Some n \<Longrightarrow> t \<noteq> [] \<Longrightarrow> stop (hd t) \<or> drop n s \<noteq> [] \<and> hd t = hd (drop n s) \<Longrightarrow> stop c
      \<Longrightarrow> here (Some c) t \<noteq> None \<Longrightarrow> here (Some (s ! (n - 1))) t \<noteq> None"
begin

lemma occurs_stop:
  "stop c \<Longrightarrow> occurs here p (x @ c # y) \<longleftrightarrow> occurs here p x \<or> occurs here (Some c) y"
proof (induction x arbitrary: p)
  case Nil
  then show ?case using stops [of c p "[]" y] none by simp
next
  case (Cons a x)
  then show ?case using stops [of c p "a # x" y] by simp
qed

lemma shorter: "here p s = Some n \<Longrightarrow> length (drop n s) < length s"
  using bounds [of p s n] by (cases s) auto

lemma re_sub_match:
  "here p s = Some n \<Longrightarrow> re_sub here rep p s = rep @ re_sub here rep (Some (s ! (n - 1))) (drop n s)"
  using bounds [of p s n] by (subst re_sub.simps) (auto split: list.split simp: none drop_Cons' Suc_le_eq)

text \<open>The result of a replacement is the string itself or the part before the first match, the replacement and the rest.\<close>

lemma re_sub_shape:
  "re_sub here rep p s = s \<or> (\<exists>x y R. s = x @ y \<and> y \<noteq> [] \<and> re_sub here rep p s = x @ rep @ R
    \<and> here (if x = [] then p else Some (last x)) y \<noteq> None)"
proof (induction s arbitrary: p)
  case (Cons c t)
  show ?case
  proof (cases "here p (c # t)")
    case None
    then have r: "re_sub here rep p (c # t) = c # re_sub here rep (Some c) t" by (subst re_sub.simps) simp
    from Cons [of "Some c"] show ?thesis
    proof (elim disjE exE conjE)
      fix x y R assume "t = x @ y" "y \<noteq> []" "re_sub here rep (Some c) t = x @ rep @ R"
        "here (if x = [] then Some c else Some (last x)) y \<noteq> None"
      with r show ?thesis by (intro disjI2 exI [of _ "c # x"] exI [of _ y] exI [of _ R]) (auto split: if_splits)
    qed (simp add: r)
  next
    case (Some n)
    from re_sub_match [OF this] Some show ?thesis by (intro disjI2 exI [of _ "[]"] exI [of _ "c # t"] exI conjI) simp_all
  qed
qed (simp add: re_sub.simps)

lemma re_sub_hd:
  assumes "re_sub here (b # r) p s \<noteq> []"
  shows "s \<noteq> [] \<and> (hd (re_sub here (b # r) p s) = b \<or> hd (re_sub here (b # r) p s) = hd s)"
  using re_sub_shape [of "b # r" p s] assms by (cases s) (auto simp: re_sub.simps Cons_eq_append_conv)

lemma nothing_left:
  assumes "stop b" "stop d" "\<And>q. \<not> occurs here q body"
  shows "\<not> occurs here p (re_sub here (b # body @ [d]) p s)"
proof (induction s arbitrary: p rule: length_induct)
  case (1 s)
  let ?sub = "re_sub here (b # body @ [d])"
  consider "s = []" | c t where "s = c # t" "here p s = None" | n where "here p s = Some n"
    by (cases s; cases "here p s") auto
  then show ?case
  proof cases
    case (2 c t)
    have r: "?sub p s = c # ?sub (Some c) t" using 2 by (subst re_sub.simps) simp
    have "here p (c # ?sub (Some c) t) = None"
      using re_sub_shape [of "b # body @ [d]" "Some c" t]
    proof (elim disjE exE conjE)
      fix x y R assume t: "t = x @ y" "?sub (Some c) t = x @ (b # body @ [d]) @ R"
        and y: "here (if x = [] then Some c else Some (last x)) y \<noteq> None"
      have "here (Some (last (c # x))) y \<noteq> None" using y by (simp split: if_splits)
      then have "here p (c # x) = None" using prefix [of p "c # x" _ y] 2 t(1) by (cases "here p (c # x)") auto
      then show ?thesis using t(2) stops [OF assms(1), of p "c # x"] by simp
    qed (use 2 in simp)
    then show ?thesis using 1 2 r by simp
  next
    case (3 n)
    let ?R = "?sub (Some (s ! (n - 1))) (drop n s)"
    have R: "\<not> occurs here (Some (s ! (n - 1))) ?R" using 1 shorter [OF 3] by blast
    have "\<not> occurs here (Some d) ?R"
    proof (cases "?R = []")
      case False
      then obtain c r where c: "?R = c # r" by (cases ?R) auto
      from re_sub_hd [OF False] have "stop (hd ?R) \<or> drop n s \<noteq> [] \<and> hd ?R = hd (drop n s)" using assms(1) by auto
      from resumes [OF 3 False this assms(2)] R show ?thesis unfolding c by (cases "here (Some d) (c # r)") auto
    qed simp
    then have "\<not> occurs here p ((b # body @ [d]) @ ?R)"
      using occurs_stop [OF assms(1), of p "[]" "body @ d # ?R"] occurs_stop [OF assms(2), of "Some b" body ?R] assms(3) by simp
    then show ?thesis by (simp add: re_sub_match [OF 3])
  qed (simp add: re_sub.simps)
qed

end

text \<open>A pattern that does not look around: cutting a string off or starting it elsewhere makes no new matches.\<close>

locale free_scanner = scanner +
  assumes extends: "here p x = Some n \<Longrightarrow> here q (x @ y) \<noteq> None"
begin

lemma occurs_drop: "\<not> occurs here p s \<Longrightarrow> \<not> occurs here q (drop n s)"
proof (induction s arbitrary: p n)
  case (Cons c s)
  then have "here q (c # s) = None" using extends [of q "c # s" _ p "[]"] by (cases "here q (c # s)") auto
  with Cons show ?case by (cases n) auto
qed simp

text \<open>Replacing the matches of another pattern makes no new ones of this.\<close>

lemma replacing_others:
  assumes "scanner other stop" "stop b" "stop d" "\<And>q. \<not> occurs here q body"
  shows "\<not> occurs here p s \<Longrightarrow> \<not> occurs here p (re_sub other (b # body @ [d]) q s)"
proof (induction s arbitrary: p q rule: length_induct)
  case (1 s)
  let ?sub = "re_sub other (b # body @ [d])"
  consider "s = []" | c t where "s = c # t" "other q s = None" | n where "other q s = Some n"
    by (cases s; cases "other q s") auto
  then show ?case
  proof cases
    case (2 c t)
    have r: "?sub q s = c # ?sub (Some c) t" using 2 by (subst re_sub.simps) simp
    have here: "here p (c # t) = None" "\<not> occurs here (Some c) t" using 1 2 by auto
    have "here p (c # ?sub (Some c) t) = None"
      using scanner.re_sub_shape [OF assms(1), of "b # body @ [d]" "Some c" t]
    proof (elim disjE exE conjE)
      fix x y R assume t: "t = x @ y" "?sub (Some c) t = x @ (b # body @ [d]) @ R"
      have "here p (c # x) = None" using extends [of p "c # x" _ p y] here t(1) by (cases "here p (c # x)") auto
      then show ?thesis using t(2) stops [OF assms(2), of p "c # x"] by simp
    qed (use here in simp)
    then show ?thesis using 1 2 r here by simp
  next
    case (3 n)
    let ?R = "?sub (Some (s ! (n - 1))) (drop n s)"
    have "length (drop n s) < length s" by (rule scanner.shorter [OF assms(1) 3])
    with 1 occurs_drop [of p s "Some d" n] have "\<not> occurs here (Some d) ?R" by blast
    then have "\<not> occurs here p ((b # body @ [d]) @ ?R)"
      using occurs_stop [OF assms(2), of p "[]" "body @ d # ?R"] occurs_stop [OF assms(3), of "Some b" body ?R] assms(4) by simp
    then show ?thesis by (simp add: scanner.re_sub_match [OF assms(1) 3])
  qed (simp add: re_sub.simps)
qed

end

section \<open>The two patterns\<close>

definition separator :: "char \<Rightarrow> bool" where
  "separator c = (c = CHR ''['' \<or> c = CHR '']'' \<or> c = CHR 0x0A)"

lemma separator_plain: "separator c \<Longrightarrow> \<not> is_word c \<and> \<not> local_char c \<and> \<not> domain_char c \<and> \<not> is_hex c \<and> c \<noteq> CHR ''@'' \<and> c \<noteq> CHR ''-''"
  by (auto simp: separator_def is_word_def local_char_def domain_char_def is_hex_def code_point_def Let_def)

lemma hex_is_word: "is_hex c \<Longrightarrow> is_word c"
  by (auto simp: is_hex_def is_word_def Let_def)

lemma take_stop: "\<not> P c \<Longrightarrow> takeWhile P (x @ c # y) = takeWhile P x" "\<not> P c \<Longrightarrow> dropWhile P (x @ c # y) = dropWhile P x @ c # y"
  by (induction x) auto

lemma labels_stop: "separator c \<Longrightarrow> labels (x @ c # y) = labels x"
proof (induction x rule: labels.induct)
  case (1 x)
  then show ?case
  proof (cases x)
    case Nil
    with 1 show ?thesis by (auto simp: labels.simps separator_def)
  next
    case (Cons a t)
    with 1 show ?thesis using separator_plain [of c]
      by (subst (1 2) labels.simps) (auto simp: take_stop)
  qed
qed

lemma labels_le: "labels s \<le> length s"
proof (induction s rule: labels.induct)
  case (1 s)
  show ?case
  proof (cases s)
    case (Cons a t)
    have "length (takeWhile domain_char t) + length (dropWhile domain_char t) = length t"
      by (metis length_append takeWhile_dropWhile_id)
    with 1 Cons show ?thesis by (subst labels.simps) auto
  qed (simp add: labels.simps)
qed

lemma span_length: "length (takeWhile P s) + length (dropWhile P s) = length s"
  by (metis length_append takeWhile_dropWhile_id)

lemma span_append:
  "dropWhile P x \<noteq> [] \<Longrightarrow> takeWhile P (x @ y) = takeWhile P x \<and> dropWhile P (x @ y) = dropWhile P x @ y"
  by (induction x) auto

lemma labels_pos: "0 < labels s \<longleftrightarrow> (\<exists>t. s = CHR ''.'' # t \<and> takeWhile domain_char t \<noteq> [])"
  by (subst labels.simps) (auto split: list.splits)

lemma email_bounds: "email_here p s = Some n \<Longrightarrow> 0 < n \<and> n \<le> length s"
  using span_length [of local_char s] span_length [of domain_char "tl (dropWhile local_char s)"]
    labels_le [of "dropWhile domain_char (tl (dropWhile local_char s))"]
  by (cases "dropWhile local_char s") (auto simp: email_here_def Let_def split: if_splits)

lemma email_stops: "separator c \<Longrightarrow> email_here p (x @ c # y) = email_here p x"
  using separator_plain [of c]
  by (cases "dropWhile local_char x") (auto simp: email_here_def Let_def take_stop labels_stop)

lemma email_extends:
  assumes "email_here p x = Some n"
  shows "email_here q (x @ y) \<noteq> None"
proof -
  from assms obtain r where r: "takeWhile local_char x \<noteq> []" "dropWhile local_char x = CHR ''@'' # r"
      "takeWhile domain_char r \<noteq> []" "0 < labels (dropWhile domain_char r)"
    by (cases "dropWhile local_char x") (auto simp: email_here_def Let_def split: if_splits)
  then obtain t where t: "dropWhile domain_char r = CHR ''.'' # t" "takeWhile domain_char t \<noteq> []" by (auto simp: labels_pos)
  have "0 < labels (CHR ''.'' # t @ y)" using t(2) by (cases t) (auto simp: labels_pos split: if_splits)
  with r t span_append [of local_char x y] span_append [of domain_char r y] show ?thesis
    by (simp add: email_here_def Let_def)
qed

interpretation email: free_scanner email_here separator
proof
  show "email_here p [] = None" for p by (simp add: email_here_def)
  show "email_here p x = Some n \<Longrightarrow> x \<noteq> [] \<Longrightarrow> email_here (Some (last x)) y \<noteq> None \<Longrightarrow> email_here p (x @ y) \<noteq> None" for p x n y
    by (rule email_extends)
  show "email_here (Some c) t \<noteq> None \<Longrightarrow> email_here (Some (s ! (n - 1))) t \<noteq> None" for c t s n
    by (simp add: email_here_def)
qed (rule email_bounds email_stops email_extends; assumption)+

lemma uuid_length: "list_all2 shape_char uuid_shape (take 36 s) \<Longrightarrow> 36 \<le> length s"
  by (auto dest!: list_all2_lengthD simp: uuid_shape_def)

lemma uuid_chars: "list_all2 shape_char uuid_shape (take 36 s) \<Longrightarrow> i < 36 \<Longrightarrow> is_hex (s ! i) \<or> s ! i = CHR ''-''"
proof -
  assume s: "list_all2 shape_char uuid_shape (take 36 s)" and i: "i < 36"
  have n: "i < length uuid_shape" using i by (simp add: uuid_shape_def)
  have "set uuid_shape = {CHR ''h'', CHR ''-''}" by (auto simp: uuid_shape_def)
  then have "uuid_shape ! i = CHR ''h'' \<or> uuid_shape ! i = CHR ''-''" using nth_mem [OF n] by simp
  moreover have "shape_char (uuid_shape ! i) (s ! i)" using list_all2_nthD [OF s n] uuid_length [OF s] i by simp
  ultimately show ?thesis by (auto simp: shape_char_def)
qed

lemma uuid_ends: "list_all2 shape_char uuid_shape (take 36 s) \<Longrightarrow> is_hex (s ! 0) \<and> is_hex (s ! 35)"
  using uuid_length [of s] list_all2_nthD [of shape_char uuid_shape "take 36 s" 0]
    list_all2_nthD [of shape_char uuid_shape "take 36 s" 35]
  by (auto simp: uuid_shape_def shape_char_def)

lemma uuid_Some:
  "uuid_here p s \<noteq> None \<longleftrightarrow> boundary_before p \<and> list_all2 shape_char uuid_shape (take 36 s) \<and> (length s = 36 \<or> \<not> is_word (s ! 36))"
  using uuid_length [of s] by (auto simp: uuid_here_def)

lemma uuid_stops:
  assumes "separator c"
  shows "uuid_here p (x @ c # y) = uuid_here p x"
proof (cases "36 \<le> length x")
  case True
  then show ?thesis using separator_plain [OF assms] by (auto simp: uuid_here_def nth_append)
next
  case False
  have "\<not> list_all2 shape_char uuid_shape (take 36 (x @ c # y))"
  proof
    assume "list_all2 shape_char uuid_shape (take 36 (x @ c # y))"
    from uuid_chars [OF this, of "length x"] False separator_plain [OF assms] show False by simp
  qed
  moreover have "\<not> list_all2 shape_char uuid_shape (take 36 x)" using uuid_length [of x] False by blast
  ultimately show ?thesis by (simp add: uuid_here_def)
qed

interpretation uuid: scanner uuid_here separator
proof
  show "uuid_here p [] = None" for p by (simp add: uuid_here_def uuid_shape_def)
  show "uuid_here p s = Some n \<Longrightarrow> 0 < n \<and> n \<le> length s" for p s n
    using uuid_length [of s] by (auto simp: uuid_here_def split: if_splits)
  show "separator c \<Longrightarrow> uuid_here p (x @ c # y) = uuid_here p x" for c p x y by (rule uuid_stops)
  show "uuid_here p (x @ y) \<noteq> None" if m: "uuid_here p x = Some n" "x \<noteq> []" "uuid_here (Some (last x)) y \<noteq> None" for p x n y
  proof -
    have s: "list_all2 shape_char uuid_shape (take 36 x)" "boundary_before p" "length x = 36 \<or> \<not> is_word (x ! 36)"
      using m(1) uuid_Some [of p x] by auto
    have "length x \<noteq> 36"
    proof
      assume "length x = 36"
      then have "is_word (last x)" using uuid_ends [OF s(1)] m(2) by (simp add: last_conv_nth hex_is_word)
      then show False using m(3) unfolding uuid_Some by (simp add: boundary_before_def)
    qed
    with s uuid_length [OF s(1)] show ?thesis unfolding uuid_Some by (simp add: nth_append)
  qed
  show "uuid_here (Some (s ! (n - 1))) t \<noteq> None"
    if m: "uuid_here p s = Some n" "t \<noteq> []" "separator (hd t) \<or> drop n s \<noteq> [] \<and> hd t = hd (drop n s)" "uuid_here (Some c) t \<noteq> None"
    for p s n t c
  proof -
    have "\<not> is_word (hd t)" using m(1,3) separator_plain [of "hd t"] by (auto simp: uuid_here_def hd_drop_conv_nth split: if_splits)
    moreover have "is_word (hd t)" using m(2) m(4)[unfolded uuid_Some] uuid_ends [of t] by (simp add: hd_conv_nth hex_is_word)
    ultimately show ?thesis by simp
  qed
qed

text \<open>A redacted text identifies nobody.\<close>

lemma redact_clean: "\<not> identifying (redact s)"
proof -
  have b: "separator (CHR ''['')" "separator (CHR '']'')" by (simp_all add: separator_def)
  have none: "\<not> occurs email_here q ''uuid''" "\<not> occurs email_here q ''email''" "\<not> occurs uuid_here q ''uuid''" for q
    by (simp_all add: email_here_def local_char_def is_word_def code_point_def uuid_here_def uuid_shape_def Let_def)
  have "\<not> occurs email_here None (re_sub email_here (CHR ''['' # ''email'' @ [CHR '']'']) None s)"
    by (rule email.nothing_left [OF b none(2)])
  from email.replacing_others [OF uuid.scanner_axioms b none(1) this] uuid.nothing_left [OF b none(3)]
  show ?thesis by (simp add: identifying_def redact_def)
qed

lemma occurs_after_separator:
  assumes "separator c"
  shows "occurs email_here (Some c) s = occurs email_here None s" "occurs uuid_here (Some c) s = occurs uuid_here None s"
  using separator_plain [OF assms] by (cases s; simp add: email_here_def uuid_here_def boundary_before_def)+

text \<open>Lines that together identify nobody do not do so one by one.\<close>

lemma clean_lines:
  "\<not> identifying (py_join [CHR 0x0A] ms) \<Longrightarrow> m \<in> set ms \<Longrightarrow> \<not> identifying m"
proof (induction ms rule: induct_list012)
  case (3 x y zs)
  have nl: "separator (CHR 0x0A)" by (simp add: separator_def)
  have "\<not> identifying x" "\<not> identifying (py_join [CHR 0x0A] (y # zs))"
    using 3(3) email.occurs_stop [OF nl] uuid.occurs_stop [OF nl] occurs_after_separator [OF nl]
    by (simp_all add: identifying_def)
  with 3 show ?case by auto
qed auto

end
