(* ===== verification/ModelRouter.thy ===== *)
theory ModelRouter
  imports Privacy
begin

text \<open>
  \<open>assistant/llm/router.py\<close>: which language model answers. The clients are parameters: calls on a state of which
  nothing is known. The model's own answer is a text; the diagnostics of the providers are not modelled.
\<close>

section \<open>Clients\<close>

datatype llm_failure = LLMUnavailable | LLMInvalidResponse | ExternalAuthFailed | OtherException error

text \<open>\<open>except LLMClientError\<close>\<close>

definition is_client_error :: "llm_failure \<Rightarrow> bool" where
  "is_client_error e = (case e of OtherException _ \<Rightarrow> False | _ \<Rightarrow> True)"

text \<open>The options of a call (context size, format, temperature, thinking, tools) are passed on as they are.\<close>

type_synonym ('s, 'o) client = "'o \<Rightarrow> llm_message list \<Rightarrow> ('s, llm_failure, string) call"

record ('s, 'o) model_router =
  mr_local :: "('s, 'o) client"
  mr_external :: "('s, 'o) client option"
  mr_external_enabled :: bool
  mr_max_local_attempts :: int
  mr_privacy_default :: privacy_default
  mr_external_clients :: "(string \<times> ('s, 'o) client) list"

definition LOCAL_TARGET :: string where "LOCAL_TARGET = ''local''"

section \<open>Routing\<close>

definition joined_text :: "llm_message list \<Rightarrow> string" where
  "joined_text messages = py_join [CHR 0x0A] (map lm_content messages)"

definition call_external ::
  "('s, 'o) model_router \<Rightarrow> ('s, 'o) client \<Rightarrow> 'o \<Rightarrow> llm_message list \<Rightarrow> ('s, llm_failure, string) call" where
  "call_external r client opts messages =
     (let privacy = classify_and_deidentify (mr_privacy_default r) (joined_text messages) in
      if pd_is_sensitive privacy \<and> \<not> pd_deidentified privacy then raiseM LLMUnavailable
      else client opts (if pd_deidentified privacy
        then [\<lparr>lm_role = USER_ROLE, lm_content = pd_text_for_external privacy\<rparr>] else messages))"

definition try_external :: "('s, 'o) model_router \<Rightarrow> 'o \<Rightarrow> llm_message list \<Rightarrow> ('s, llm_failure, string) call" where
  "try_external r opts messages = (case mr_external r of
       Some client \<Rightarrow> if mr_external_enabled r then call_external r client opts messages else raiseM LLMUnavailable
     | None \<Rightarrow> raiseM LLMUnavailable)"

text \<open>
  The attempts at the local model: a client error and an answer the validator refuses cost one attempt each; the last refused
  answer is kept. The result is the accepted answer or what is left when the attempts are used up.
\<close>

primrec local_attempts ::
  "nat \<Rightarrow> ('s, 'o) model_router \<Rightarrow> 'o \<Rightarrow> (string \<Rightarrow> bool) option \<Rightarrow> llm_message list \<Rightarrow> string option
   \<Rightarrow> ('s, llm_failure, string option + string) call" where
  "local_attempts 0 r opts validator messages unvalidated = returnM (Inl unvalidated)"
| "local_attempts (Suc n) r opts validator messages unvalidated = (\<lambda>s.
     case mr_local r opts messages s of
       (Inl e, s') \<Rightarrow> if is_client_error e then local_attempts n r opts validator messages unvalidated s' else (Inl e, s')
     | (Inr response, s') \<Rightarrow>
         if case validator of None \<Rightarrow> True | Some v \<Rightarrow> v response then (Inr (Inr response), s')
         else local_attempts n r opts validator messages (Some response) s')"

definition router_chat ::
  "('s, 'o) model_router \<Rightarrow> 'o \<Rightarrow> (string \<Rightarrow> bool) option \<Rightarrow> string option \<Rightarrow> llm_message list \<Rightarrow> ('s, llm_failure, string) call" where
  "router_chat r opts validator target messages =
     (if target \<noteq> None \<and> target \<noteq> Some LOCAL_TARGET then
        (case (case map_of (mr_external_clients r) (the target) of Some c \<Rightarrow> Some c | None \<Rightarrow> mr_external r) of
           None \<Rightarrow> raiseM LLMUnavailable
         | Some client \<Rightarrow> call_external r client opts messages)
      else bindM (local_attempts (nat (max 1 (mr_max_local_attempts r))) r opts validator messages None) (\<lambda>res. case res of
           Inr response \<Rightarrow> returnM response
         | Inl unvalidated \<Rightarrow>
             if target = Some LOCAL_TARGET
             then (case unvalidated of Some response \<Rightarrow> returnM response | None \<Rightarrow> raiseM LLMUnavailable)
             else try_external r opts messages))"

text \<open>How the planner asks: the chat route turns every failure of a model into the same answer to the user.\<close>

definition planner_chat ::
  "(world, 'o) model_router \<Rightarrow> 'o \<Rightarrow> (string \<Rightarrow> bool) \<Rightarrow> string option \<Rightarrow> llm_message list \<Rightarrow> world \<Rightarrow> error + string" where
  "planner_chat r opts valid target messages w = (case fst (router_chat r opts (Some valid) target messages w) of
       Inr response \<Rightarrow> Inr response
     | Inl (OtherException e) \<Rightarrow> Inl e
     | Inl _ \<Rightarrow> Inl (AppError ASSISTANT_UNAVAILABLE 503))"

section \<open>What external models see\<close>

text \<open>Two clients that cannot be told apart by messages without identifiers.\<close>

definition same_on_clean :: "('s, 'o) client \<Rightarrow> ('s, 'o) client \<Rightarrow> bool" where
  "same_on_clean c d \<longleftrightarrow> (\<forall>opts ms. (\<forall>m \<in> set ms. \<not> identifying (lm_content m)) \<longrightarrow> c opts ms = d opts ms)"

lemma call_external_clean:
  assumes "same_on_clean c d"
  shows "call_external r c opts messages = call_external r d opts messages"
proof (cases "mr_privacy_default r")
  case NON_SENSITIVE
  show ?thesis
  proof (cases "redact (joined_text messages) = joined_text messages")
    case True
    then have "\<not> identifying (joined_text messages)" using redact_clean [of "joined_text messages"] by simp
    then have "\<forall>m \<in> set messages. \<not> identifying (lm_content m)" using clean_lines [of "map lm_content messages"] by (auto simp: joined_text_def)
    with assms NON_SENSITIVE True show ?thesis
      by (simp add: call_external_def classify_and_deidentify_def same_on_clean_def)
  next
    case False
    have "\<forall>m \<in> set [\<lparr>lm_role = USER_ROLE, lm_content = redact (joined_text messages)\<rparr>]. \<not> identifying (lm_content m)"
      by (simp add: redact_clean)
    with assms NON_SENSITIVE False show ?thesis
      by (simp add: call_external_def classify_and_deidentify_def same_on_clean_def)
  qed
qed (simp add: call_external_def classify_and_deidentify_def)

lemma local_attempts_local:
  "mr_local r' = mr_local r \<Longrightarrow> local_attempts n r' opts v ms u = local_attempts n r opts v ms u"
  by (induction n arbitrary: u) (simp_all add: fun_eq_iff split: prod.splits sum.splits)

lemma call_external_same:
  assumes "mr_privacy_default r' = mr_privacy_default r" "mr_privacy_default r = SENSITIVE \<or> same_on_clean c d"
  shows "call_external r' d opts ms = call_external r c opts ms"
  using assms(2)
proof
  assume "same_on_clean c d"
  from call_external_clean [OF this] assms(1) show ?thesis by (simp add: call_external_def)
qed (simp add: call_external_def classify_and_deidentify_def assms(1))

lemma related_lookup:
  "list_all2 (rel_prod (=) R) cs ds \<Longrightarrow> rel_option R (map_of cs k) (map_of ds k)"
  by (induction cs ds rule: list_all2_induct) (auto simp: rel_prod.simps)

end
