(* ===== verification/ModelProperties.thy ===== *)
theory ModelProperties
  imports ModelRouter
begin

text \<open>What the assistant lets out of the house, and what it lets in.\<close>

section \<open>External language models\<close>







end
