(* ===== verification/AuthoringProperties.thy ===== *)
theory AuthoringProperties
  imports AuthoringFacts Samples
begin

text \<open>What holds of the skills that users have their assistant write.\<close>

section \<open>What is stored was checked\<close>


text \<open>A model that answers with a skill, and a parser that knows its code.\<close>

definition hash_code :: string where "hash_code = ''def run''"

definition hash_reply :: json where
  "hash_reply = JObj [(''name'', JStr ''hash_it''), (''description'', JStr ''Hash''), (''version'', JStr ''1.0.0''), (''code'', JStr hash_code),
     (''ui'', JObj [(''context_menu'', JList [JObj [(''label'', JStr ''Hash''), (''handler'', JStr ''x''), (''item_types'', JList [JStr ''FILE''])]])])]"

definition sample_parse :: parser where
  "sample_parse code = (if code = hash_code
     then Inr [PyImport [''hashlib''], PyFunctionDef ''run'' REQUIRED_PARAMS [PyAttribute (PyName ''hashlib'') ''sha256'']]
     else Inr [PyFunctionDef ''run'' REQUIRED_PARAMS [PyName ''eval'']])"

definition sample_codegen :: codegen where
  "sample_codegen = \<lparr>cg_chat = (\<lambda>ms w. Inr ''{}''), cg_loads = (\<lambda>s. Some hash_reply), cg_parse = sample_parse, cg_prompt = (\<lambda>r. r),
     cg_rejection = (\<lambda>ps. ''no''), cg_num_ctx = 8192, cg_max_repair = 3\<rparr>"

definition sample_sandbox :: sandbox where
  "sample_sandbox = \<lparr>sb_timeout = 30, sb_loads = (\<lambda>s. Some (JObj [(''ok'', JBool True), (''output'', JStr ''done'')])),
     sb_process = (\<lambda>code input params w. (Exited 0 (RESULT_MARKER @ ''{}'') [], [([''hash.txt''], ''abc'')]))\<rparr>"

definition sample_service :: skill_service where
  "sample_service = \<lparr>sv_codegen = Some sample_codegen, sv_sandbox = Some sample_sandbox, sv_uploads = True, sv_storage = True, sv_snapshots = False,
     sv_wiring = drive_router, sv_renderers = \<lparr>re_date = (\<lambda>t. ''''), re_percent = (\<lambda>n d. ''0.0'')\<rparr>, sv_parse = sample_parse,
     sv_folder_max_files = 1000, sv_folder_max_bytes = 500 * 1024 * 1024\<rparr>"






section \<open>Only the user's approval installs\<close>











lemma single_scalar: "distinct (map f xs) \<Longrightarrow> (\<And>x. x \<in> set xs \<Longrightarrow> f x = k) \<Longrightarrow> \<not> isl (scalar_one_or_none xs)"
  by (cases xs rule: scalar_one_or_none.cases) auto









section \<open>What is proposed can be installed\<close>

text \<open>The checks at the gate never refuse what is stored: the owner's approval succeeds.\<close>

lemma approval_succeeds:
  assumes "skills_checked parse w" "r \<in> set (authored_skills w)" "ak_id r = i" "ak_user_id r = u"
  shows "\<not> isl (fst (approve_skill u i w))"
proof -
  let ?rows = "filter (\<lambda>r. ak_id r = i \<and> ak_user_id r = u) (authored_skills w)"
  let ?f = "\<lambda>r. r\<lparr>ak_status := SKILL_INSTALLED, ak_updated_at := clock w\<rparr>"
  have "distinct (map ak_id ?rows)" using assms(1) by (intro distinct_map_filter) (simp add: skills_checked_def)
  then have "\<not> isl (scalar_one_or_none ?rows)" by (rule single_scalar) simp
  moreover have "?rows \<noteq> []" using assms(2-4) by (auto simp: filter_empty_conv)
  ultimately obtain x where "scalar_one_or_none ?rows = Inr (Some x)" by (cases ?rows rule: scalar_one_or_none.cases) auto
  then have found: "skill_by_id u i w = (Inr (Some x), w)" by (simp add: skill_by_id_def)
  with skill_by_id_found assms(1) have "row_checked parse x" by (auto simp: skills_checked_def)
  then obtain m where "validate_manifest (JObj (ak_manifest x)) = Inr m" using validate_dumped by (auto simp: row_checked_def)
  moreover have "map (\<lambda>r. (ak_user_id r, ak_name r)) (row_update ak_id (ak_id x) ?f (authored_skills w))
      = map (\<lambda>r. (ak_user_id r, ak_name r)) (authored_skills w)" by (auto simp: row_update_def)
  with assms(1) have "uq_skill_names (authored_skills_update (row_update ak_id (ak_id x) ?f) w)"
    by (simp add: uq_skill_names_def skills_checked_def)
  ultimately show ?thesis using found
    by (simp add: approve_skill_def repo_approve_def change_skill_def found_skill_def store_skill_def flush_skills_def run_bind run_then
      del: validate_manifest.simps)
qed

section \<open>The input of a skill can leave its directory\<close>

text \<open>Whether a path below a directory climbs out of it.\<close>

fun climbs :: "nat \<Rightarrow> string list \<Rightarrow> bool" where
  "climbs n [] = False"
| "climbs n (p # ps) = (if p = [] then climbs n ps else if p = ''..'' then n = 0 \<or> climbs (n - 1) ps else climbs (Suc n) ps)"

lemma safe_stays: "\<forall>p \<in> set ps. p \<noteq> ''..'' \<Longrightarrow> \<not> climbs n ps"
  by (induction ps arbitrary: n) auto

text \<open>A folder may be named with two dots, and that name is taken over: a file below two such folders is written outside.\<close>

definition dotted_world :: world where
  "dotted_world = sample_world\<lparr>items := [sample_folder 10 1 None ''..'', sample_folder 11 1 (Some 10) ''..'',
     sample_file 12 1 (Some 11) ''cron.d'' ''k12'' 5]\<rparr>"

lemma two_dots_is_a_name: "validate_name ''..'' = Inr ''..'' \<and> safe_input_name ''..'' = ''..''"
  by code_simp

lemma materialize_escapes:
  "\<exists>ops root. fst (materialize_input sample_service 1 (sample_folder 10 1 None ''..'') dotted_world) = Inr (ops, root)
    \<and> WriteFile [''..'', ''..'', ''cron.d''] ''hello'' \<in> set ops \<and> climbs 0 [''..'', ''..'', ''cron.d'']"
proof -
  have "map_sum id (\<lambda>(ops, root). WriteFile [''..'', ''..'', ''cron.d''] ''hello'' \<in> set ops)
      (fst (materialize_input sample_service 1 (sample_folder 10 1 None ''..'') dotted_world)) = Inr True" by code_simp
  then show ?thesis
    by (cases "fst (materialize_input sample_service 1 (sample_folder 10 1 None ''..'') dotted_world)") auto
qed

end
