(* ===== verification/Search.thy ===== *)
theory Search
  imports Skills Upload
begin

text \<open>
  \<open>app/search\<close>: what is extracted from files and stored for the search, the search by words over names and contents, the search by
  meaning over the vectors of an embedding service, and the backfill of vectors. PostgreSQL's English full-text matching, pgvector's
  distance, the embedding service, the decoding of UTF-8 and the reading of PDF files are parameters. A text column of PostgreSQL holds no
  NUL character: storing one is a database error.
\<close>

section \<open>Extraction\<close>

definition MAX_CHARS :: nat where "MAX_CHARS = 200000"

definition DEFAULT_MAX_BYTES :: nat where "DEFAULT_MAX_BYTES = 5 * 1024 * 1024"

definition MAX_PDF_PAGES :: nat where "MAX_PDF_PAGES = 50"

definition TEXT_EXTENSIONS :: "string list" where
  "TEXT_EXTENSIONS = [''txt'', ''md'', ''markdown'', ''csv'', ''tsv'', ''json'', ''log'', ''xml'', ''yaml'', ''yml'', ''html'', ''htm'', ''rst'']"

text \<open>\<open>decode\<close> is UTF-8 that skips what is malformed; \<open>pdf_pages\<close> gives the text of each page, none for a page that fails, and nothing at all
  when the document cannot be read.\<close>

record extraction =
  ex_decode :: "bytes \<Rightarrow> string"
  ex_pdf_pages :: "bytes \<Rightarrow> string option list option"

definition is_text_like :: "string option \<Rightarrow> string option \<Rightarrow> bool" where
  "is_text_like mime_type extension =
     ((case mime_type of None \<Rightarrow> False | Some m \<Rightarrow> starts_with ''text/'' m \<or> m = ''application/json'')
      \<or> (case extension of None \<Rightarrow> False | Some e \<Rightarrow> e \<noteq> [] \<and> py_lower e \<in> set TEXT_EXTENSIONS))"

definition is_pdf :: "string option \<Rightarrow> string option \<Rightarrow> bool" where
  "is_pdf mime_type extension =
     (mime_type = Some ''application/pdf'' \<or> (case extension of None \<Rightarrow> False | Some e \<Rightarrow> py_lower e = ''pdf''))"

definition clean_text :: "string \<Rightarrow> string" where
  "clean_text text = take MAX_CHARS (py_strip text)"

definition some_text :: "string \<Rightarrow> string option" where
  "some_text s = (if s = [] then None else Some s)"

definition extract_pdf :: "extraction \<Rightarrow> bytes \<Rightarrow> string option" where
  "extract_pdf ex data = (case ex_pdf_pages ex data of
       None \<Rightarrow> None
     | Some pages \<Rightarrow> some_text (clean_text (py_join [CHR 0x0A] (List.map_filter id (take MAX_PDF_PAGES pages)))))"

definition extract_text :: "extraction \<Rightarrow> bytes \<Rightarrow> string option \<Rightarrow> string option \<Rightarrow> string option" where
  "extract_text ex data mime_type extension =
     (if length data > DEFAULT_MAX_BYTES then None
      else if is_text_like mime_type extension then some_text (clean_text (ex_decode ex data))
      else if is_pdf mime_type extension then extract_pdf ex data
      else None)"

section \<open>Pieces of a text\<close>

definition CHUNK_CHARS :: nat where "CHUNK_CHARS = 1000"

definition CHUNK_OVERLAP :: nat where "CHUNK_OVERLAP = 100"

definition MAX_CHUNKS :: nat where "MAX_CHUNKS = 50"

definition SNIPPET_CHARS :: nat where "SNIPPET_CHARS = 300"

text \<open>The loop: at most so many more pieces of what is left of the text.\<close>

fun chunk_from :: "nat \<Rightarrow> nat \<Rightarrow> nat \<Rightarrow> string \<Rightarrow> string list" where
  "chunk_from sz step 0 rest = []"
| "chunk_from sz step (Suc n) rest = (if rest = [] then [] else take sz rest # chunk_from sz step n (drop step rest))"

definition chunk_text :: "string \<Rightarrow> string list" where
  "chunk_text text = (let text = py_strip text in
     if text = [] then []
     else if length text \<le> CHUNK_CHARS then [text]
     else chunk_from CHUNK_CHARS (max 1 (CHUNK_CHARS - CHUNK_OVERLAP)) MAX_CHUNKS text)"

definition snippet_of :: "string \<Rightarrow> string" where
  "snippet_of chunk = take SNIPPET_CHARS chunk"

record chunk_embedding =
  ce_index :: nat
  ce_snippet :: string
  ce_vector :: vector

type_synonym embedder = "string \<Rightarrow> world \<Rightarrow> error + vector"

fun embed_from :: "embedder \<Rightarrow> nat \<Rightarrow> string list \<Rightarrow> chunk_embedding list M" where
  "embed_from client i [] = returnM []"
| "embed_from client i (piece # pieces) = bindM (liftM (client piece)) (\<lambda>v. bindM (embed_from client (Suc i) pieces) (\<lambda>rest.
     returnM (\<lparr>ce_index = i, ce_snippet = snippet_of piece, ce_vector = v\<rparr> # rest)))"

definition embed_chunks :: "embedder \<Rightarrow> string \<Rightarrow> chunk_embedding list M" where
  "embed_chunks client text = embed_from client 0 (chunk_text text)"

section \<open>The tables\<close>

definition index_upsert :: "uuid \<Rightarrow> string \<Rightarrow> time \<Rightarrow> unit M" where
  "index_upsert item_id content t =
     thenM (guardM (CHR 0x00 \<notin> set content) DBError)
     (bindM (getsM (\<lambda>w. find_item w item_id)) (\<lambda>item.
      thenM (guardM (item \<noteq> None) IntegrityError)
      (modifyM (search_rows_update (\<lambda>rows. if row_get si_item_id item_id rows = None
        then rows @ [\<lparr>si_item_id = item_id, si_content = content, si_updated_at = t\<rparr>]
        else row_update si_item_id item_id (\<lambda>r. r\<lparr>si_content := content, si_updated_at := t\<rparr>) rows)))))"

definition index_delete :: "uuid \<Rightarrow> unit M" where
  "index_delete item_id = modifyM (search_rows_update (row_delete (\<lambda>r. si_item_id r = item_id)))"

definition embedding_delete :: "uuid \<Rightarrow> unit M" where
  "embedding_delete item_id = modifyM (embedding_rows_update (row_delete (\<lambda>r. em_item_id r = item_id)))"

definition add_chunk :: "uuid \<Rightarrow> string \<Rightarrow> time \<Rightarrow> chunk_embedding \<Rightarrow> unit M" where
  "add_chunk item_id model t ce = bindM uuid4 (\<lambda>i. modifyM (embedding_rows_update (\<lambda>rows. rows @
     [\<lparr>em_id = i, em_item_id = item_id, em_chunk_index = ce_index ce, em_snippet = ce_snippet ce, em_vector = ce_vector ce,
       em_model = model, em_updated_at = t\<rparr>])))"

definition replace_chunks :: "uuid \<Rightarrow> chunk_embedding list \<Rightarrow> string \<Rightarrow> time \<Rightarrow> unit M" where
  "replace_chunks item_id ces model t =
     thenM (embedding_delete item_id) (forM ces (add_chunk item_id model t))"

section \<open>The indexer\<close>

record indexer =
  ix_extraction :: extraction
  ix_client :: "embedder option"
  ix_model :: string

definition index_embedding :: "indexer \<Rightarrow> uuid \<Rightarrow> string \<Rightarrow> unit M" where
  "index_embedding ix item_id text = (case ix_client ix of
       None \<Rightarrow> returnM ()
     | Some client \<Rightarrow> catchM (bindM (embed_chunks client text) (\<lambda>ces. bindM now (\<lambda>t. replace_chunks item_id ces (ix_model ix) t)))
         (\<lambda>e. returnM ()))"

definition index_file :: "indexer \<Rightarrow> uuid \<Rightarrow> bytes \<Rightarrow> string option \<Rightarrow> string option \<Rightarrow> bool M" where
  "index_file ix item_id data mime_type extension = (case extract_text (ix_extraction ix) data mime_type extension of
       None \<Rightarrow> thenM (index_delete item_id)
         (thenM (if ix_client ix = None then returnM () else embedding_delete item_id) (returnM False))
     | Some text \<Rightarrow> bindM now (\<lambda>t. thenM (index_upsert item_id text t)
         (thenM (index_embedding ix item_id text) (returnM True))))"

text \<open>\<open>upload_simple\<close> with its indexer: the head of the stream that the indexer gets is one byte longer than what it accepts.\<close>

definition upload_and_index ::
  "'tok crypto \<Rightarrow> indexer \<Rightarrow> uuid \<Rightarrow> uuid option \<Rightarrow> string \<Rightarrow> stream \<Rightarrow> int \<Rightarrow> string option \<Rightarrow> item_response M" where
  "upload_and_index c ix user_id parent_id filename s size_bytes mime_type =
     bindM (upload_simple c user_id parent_id filename s size_bytes mime_type) (\<lambda>r.
     thenM (index_file ix (ir_id r) (take (DEFAULT_MAX_BYTES + 1) (stream_bytes s)) mime_type (ir_extension r)) (returnM r))"

section \<open>Search by words\<close>

text \<open>SQL's \<open>LIKE\<close>: a percent sign matches anything, an underscore one character, a backslash takes the next character literally.\<close>

fun like :: "string \<Rightarrow> string \<Rightarrow> bool" where
  "like [] s = (s = [])"
| "like (p # ps) s =
     (if p = CHR ''%'' then like ps s \<or> (case s of [] \<Rightarrow> False | c # t \<Rightarrow> like (p # ps) t)
      else case s of
        [] \<Rightarrow> False
      | c # t \<Rightarrow> if p = CHR ''_'' then like ps t
          else if p = CHR 0x5C then (case ps of [] \<Rightarrow> False | q # qs \<Rightarrow> c = q \<and> like qs t)
          else c = p \<and> like ps t)"

definition ilike :: "world \<Rightarrow> string \<Rightarrow> string \<Rightarrow> bool" where
  "ilike w pattern s = like (db_lower w pattern) (db_lower w s)"

text \<open>\<open>fts content query\<close>: the English full-text vector of the content matches the plain query.\<close>

type_synonym fts = "string \<Rightarrow> string \<Rightarrow> bool"

definition text_match :: "fts \<Rightarrow> world \<Rightarrow> string \<Rightarrow> drive_item \<Rightarrow> bool" where
  "text_match fts w query i = (let pattern = ''%'' @ query @ ''%'' in
     ilike w pattern (di_name i)
     \<or> (case row_get si_item_id (di_id i) (search_rows w) of
          None \<Rightarrow> False | Some r \<Rightarrow> ilike w pattern (si_content r) \<or> fts (si_content r) query))"

definition shared_with :: "world \<Rightarrow> uuid \<Rightarrow> uuid \<Rightarrow> bool" where
  "shared_with w user_id i = list_ex (\<lambda>s. sh_item_id s = i \<and> sh_target_user_id s = user_id) (shares w)"

definition reachable_hit :: "world \<Rightarrow> uuid \<Rightarrow> drive_item \<Rightarrow> bool" where
  "reachable_hit w user_id i = (\<not> di_is_deleted i \<and> (di_owner_id i = user_id \<or> shared_with w user_id (di_id i)))"

definition search_hits :: "fts \<Rightarrow> world \<Rightarrow> uuid \<Rightarrow> string \<Rightarrow> string option \<Rightarrow> string option \<Rightarrow> drive_item list" where
  "search_hits fts w user_id query item_type mime_type = filter (\<lambda>i. reachable_hit w user_id i \<and> text_match fts w query i
     \<and> (item_type = None \<or> item_type = Some (item_kind (di_item_type i)))
     \<and> (mime_type = None \<or> mime_type = di_mime_type i)) (items w)"

definition repo_search ::
  "fts \<Rightarrow> uuid \<Rightarrow> string \<Rightarrow> string option \<Rightarrow> string option \<Rightarrow> int \<Rightarrow> int \<Rightarrow> (drive_item list \<times> nat) M" where
  "repo_search fts user_id query item_type mime_type offset limit = liftM (\<lambda>w.
     let hits = search_hits fts w user_id query item_type mime_type in
     case select_page offset limit (order_by ASC (\<lambda>i. db_collate w (di_name i)) hits) of
       Inl e \<Rightarrow> Inl e
     | Inr rows \<Rightarrow> Inr (rows, length hits))"

text \<open>\<open>" ".join(query.split())\<close>.\<close>

fun py_words :: "string \<Rightarrow> string \<Rightarrow> string list" where
  "py_words cur [] = (if cur = [] then [] else [cur])"
| "py_words cur (c # s) = (if py_isspace c then (if cur = [] then py_words [] s else cur # py_words [] s) else py_words (cur @ [c]) s)"

definition search_items ::
  "fts \<Rightarrow> uuid \<Rightarrow> string \<Rightarrow> string option \<Rightarrow> string option \<Rightarrow> int \<Rightarrow> int \<Rightarrow> item_response page M" where
  "search_items fts user_id query item_type mime_type page page_size =
     (let normalized = py_join '' '' (py_words [] query) in
      thenM (guardM (normalized \<noteq> []) BadOperation)
      (bindM (repo_search fts user_id normalized item_type mime_type ((page - 1) * page_size) page_size) (\<lambda>(rows, count).
        returnM (page_create (map (\<lambda>i. to_response i False None) rows) (int count) page page_size))))"

text \<open>What the assistant's skills get.\<close>

definition search_for_skills :: "renderers \<Rightarrow> fts \<Rightarrow> search" where
  "search_for_skills re fts = (\<lambda>user_id q item_type mime_type page page_size.
     bindM (search_items fts user_id q item_type mime_type page page_size) (\<lambda>pg. returnM (dump_page re pg)))"

section \<open>Search by meaning\<close>

record 'd semantic_hit =
  hit_item :: drive_item
  hit_score :: 'd
  hit_snippet :: string

text \<open>The rows of one item, nearest first, and the nearest of each item.\<close>

definition nearest :: "(vector \<Rightarrow> vector \<Rightarrow> 'd::linorder) \<Rightarrow> world \<Rightarrow> vector \<Rightarrow> uuid \<Rightarrow> embedding list" where
  "nearest distance w query i = sort_key (\<lambda>e. distance (em_vector e) query) (filter (\<lambda>e. em_item_id e = i) (embedding_rows w))"

definition repo_semantic_search ::
  "(vector \<Rightarrow> vector \<Rightarrow> 'd::linorder) \<Rightarrow> uuid \<Rightarrow> vector \<Rightarrow> int \<Rightarrow> (drive_item \<times> 'd \<times> string) list M" where
  "repo_semantic_search distance user_id query limit = liftM (\<lambda>w.
     select_page 0 limit (sort_key (fst \<circ> snd) (List.map_filter (\<lambda>i. if \<not> reachable_hit w user_id i then None else
       case nearest distance w query (di_id i) of
         [] \<Rightarrow> None | e # es \<Rightarrow> Some (i, distance (em_vector e) query, em_snippet e)) (sort_key di_id (items w)))))"

definition semantic_search ::
  "(vector \<Rightarrow> vector \<Rightarrow> 'd::{linorder,minus,one}) \<Rightarrow> embedder \<Rightarrow> uuid \<Rightarrow> string \<Rightarrow> int \<Rightarrow> 'd semantic_hit list M" where
  "semantic_search distance client user_id query limit = (let query = py_strip query in
     if query = [] then returnM []
     else bindM (liftM (client query)) (\<lambda>v. bindM (repo_semantic_search distance user_id v limit) (\<lambda>rows.
       returnM (map (\<lambda>(i, d, snippet). \<lparr>hit_item = i, hit_score = 1 - d, hit_snippet = snippet\<rparr>) rows))))"

section \<open>Backfill\<close>

definition pending_rows :: "world \<Rightarrow> uuid \<Rightarrow> search_row list" where
  "pending_rows w user_id = filter (\<lambda>r. (case find_item w (si_item_id r) of
       None \<Rightarrow> False | Some i \<Rightarrow> di_owner_id i = user_id \<and> \<not> di_is_deleted i)
     \<and> si_item_id r \<notin> em_item_id ` set (embedding_rows w)) (search_rows w)"

definition list_pending :: "uuid \<Rightarrow> int \<Rightarrow> search_row list M" where
  "list_pending user_id limit = liftM (\<lambda>w. select_page 0 limit (pending_rows w user_id))"

definition count_pending :: "uuid \<Rightarrow> int M" where
  "count_pending user_id = getsM (\<lambda>w. int (length (pending_rows w user_id)))"

fun backfill_rows :: "embedder \<Rightarrow> string \<Rightarrow> search_row list \<Rightarrow> int \<Rightarrow> int M" where
  "backfill_rows client model [] count = returnM count"
| "backfill_rows client model (r # rs) count =
     bindM (embed_chunks client (si_content r)) (\<lambda>ces.
     bindM now (\<lambda>t. thenM (replace_chunks (si_item_id r) ces model t) (backfill_rows client model rs (count + 1))))"

definition backfill_run :: "embedder \<Rightarrow> string \<Rightarrow> uuid \<Rightarrow> int \<Rightarrow> (int \<times> int) M" where
  "backfill_run client model user_id batch_size =
     bindM (list_pending user_id batch_size) (\<lambda>pending.
     bindM (backfill_rows client model pending 0) (\<lambda>count.
     bindM (count_pending user_id) (\<lambda>remaining. returnM (count, remaining))))"

section \<open>Routes\<close>

definition unavailable :: "'a M \<Rightarrow> 'a M" where
  "unavailable m = catchM m (\<lambda>e. raiseM (if e = EmbeddingError then HTTPException 503 else e))"

definition semantic_route ::
  "(vector \<Rightarrow> vector \<Rightarrow> 'd::{linorder,minus,one}) \<Rightarrow> embedder option \<Rightarrow> uuid \<Rightarrow> string \<Rightarrow> int \<Rightarrow> 'd semantic_hit list M" where
  "semantic_route distance service user_id q limit = (case service of
       None \<Rightarrow> raiseM (HTTPException 503)
     | Some client \<Rightarrow> unavailable (semantic_search distance client user_id q limit))"

definition backfill_route :: "embedder option \<Rightarrow> string \<Rightarrow> uuid \<Rightarrow> int \<Rightarrow> (int \<times> int) M" where
  "backfill_route service model user_id batch_size = transact (case service of
       None \<Rightarrow> raiseM (HTTPException 503)
     | Some client \<Rightarrow> unavailable (backfill_run client model user_id batch_size))"

end
