(* ===== verification/SearchProperties.thy ===== *)
theory SearchProperties
  imports Search Samples "HOL-Library.Sublist"
begin

text \<open>What a search shows, and that the backfill comes to an end.\<close>

section \<open>Texts and their pieces\<close>

lemma strip_nonempty: "py_strip s \<noteq> [] \<longleftrightarrow> (\<exists>c \<in> set s. \<not> py_isspace c)"
proof -
  have drop: "dropWhile P xs = [] \<longleftrightarrow> (\<forall>x \<in> set xs. P x)" for P and xs :: string by (induction xs) auto
  have "(\<forall>x \<in> set (dropWhile py_isspace xs). py_isspace x) \<longleftrightarrow> (\<forall>x \<in> set xs. py_isspace x)" for xs
    by (induction xs) auto
  then show ?thesis by (simp add: py_strip_def py_rstrip_def py_lstrip_def drop)
qed

lemma cleaned_text_remains:
  assumes "clean_text s \<noteq> []"
  shows "py_strip (clean_text s) \<noteq> []"
proof -
  let ?t = "py_strip s"
  have "?t \<noteq> []" using assms by (auto simp: clean_text_def)
  then have "\<not> py_isspace (hd ?t)" using py_strip_clean by blast
  moreover have "hd ?t \<in> set (take MAX_CHARS ?t)" using \<open>?t \<noteq> []\<close> by (cases ?t) (simp_all add: MAX_CHARS_def)
  ultimately show ?thesis unfolding strip_nonempty clean_text_def by blast
qed

lemma extracted_text:
  assumes "extract_text ex data mime ext = Some text"
  shows "py_strip text \<noteq> [] \<and> length text \<le> MAX_CHARS"
proof -
  have "some_text (clean_text s) = Some text \<Longrightarrow> py_strip text \<noteq> [] \<and> length text \<le> MAX_CHARS" for s
    using cleaned_text_remains [of s] by (auto simp: some_text_def clean_text_def split: if_splits)
  with assms show ?thesis by (auto simp: extract_text_def extract_pdf_def split: if_splits option.splits)
qed

text \<open>The pieces of a text, each without what it shares with the next, are the text, as long as the number of pieces suffices.\<close>

lemma chunk_from_covers:
  assumes "0 < step" "step \<le> sz" "length s \<le> n * step"
  shows "concat (map (take step) (chunk_from sz step n s)) = s"
  using assms(3)
proof (induction n arbitrary: s)
  case (Suc n)
  have "concat (map (take step) (chunk_from sz step n (drop step s))) = drop step s" using Suc.prems by (intro Suc.IH) simp
  moreover have "take step (take sz s) = take step s" using assms(2) by (simp add: min_absorb1)
  ultimately show ?case by simp
qed simp

lemma chunks_cover_text:
  assumes "CHUNK_CHARS < length (py_strip text)" "length (py_strip text) \<le> 45000"
  shows "concat (map (take 900) (chunk_text text)) = py_strip text"
proof -
  have "chunk_text text = chunk_from 1000 900 50 (py_strip text)"
    using assms(1) by (auto simp: chunk_text_def Let_def CHUNK_CHARS_def CHUNK_OVERLAP_def MAX_CHUNKS_def)
  with chunk_from_covers [of 900 1000 "py_strip text" 50] assms(2) show ?thesis by simp
qed

lemma chunk_text_nonempty: "py_strip text \<noteq> [] \<Longrightarrow> chunk_text text \<noteq> []"
  by (simp add: chunk_text_def Let_def MAX_CHUNKS_def eval_nat_numeral)

section \<open>The backfill\<close>

text \<open>What the tables of the search hold: one row per item, with a text that is not blank.\<close>

definition index_ok :: "world \<Rightarrow> bool" where
  "index_ok w \<longleftrightarrow> distinct (map si_item_id (search_rows w)) \<and> (\<forall>r \<in> set (search_rows w). py_strip (si_content r) \<noteq> [])"

lemma keeps_replace_chunks: "keeps search_rows (replace_chunks i ces m t)"
  unfolding replace_chunks_def embedding_delete_def add_chunk_def by (intro keeps_rules keeps_modify) simp_all

lemma keeps_embed: "keeps f (embed_chunks client text)"
proof -
  have "keeps f (embed_from client i ps)" for i ps
  proof (induction ps arbitrary: i)
    case (Cons p ps)
    show ?case unfolding embed_from.simps by (intro keeps_rules Cons.IH)
  qed (simp only: embed_from.simps keeps_return)
  then show ?thesis by (simp add: embed_chunks_def)
qed

lemma index_file_ok: "preserves index_ok (index_file ix i data mime ext)"
proof -
  have same: "preserves index_ok m" if "keeps search_rows m" for m :: "unit M"
    using that unfolding preserves_def keeps_def index_ok_def by simp
  have delete: "preserves index_ok (index_delete i)" unfolding index_delete_def
    by (rule preserves_modify) (auto simp: index_ok_def row_delete_def distinct_map_filter)
  have vectors: "preserves index_ok (index_embedding ix i s)" for s
    unfolding index_embedding_def by (intro same keeps_rules keeps_embed keeps_replace_chunks)
  have drop: "preserves index_ok (embedding_delete i)" unfolding embedding_delete_def by (intro same keeps_modify) simp
  have upsert: "preserves index_ok (index_upsert i s t)" if "py_strip s \<noteq> []" for s t
    unfolding index_upsert_def using that
    by (intro pres_rules preserves_modify)
      (auto simp: index_ok_def row_get_None row_keys_update set_row_update image_iff)
  show ?thesis unfolding index_file_def using extracted_text
    by (auto intro!: pres_rules delete drop vectors upsert split: option.split)
qed

lemma run_embed_from:
  assumes "\<And>text v. \<not> isl (client text v)"
  shows "\<exists>ces. embed_from client i ps w = (Inr ces, w) \<and> length ces = length ps"
proof (induction ps arbitrary: i)
  case (Cons p ps)
  from Cons.IH [of "Suc i"] obtain ces where "embed_from client (Suc i) ps w = (Inr ces, w)" "length ces = length ps" by blast
  moreover obtain v where "client p w = Inr v" using assms [of p w] by (cases "client p w") auto
  ultimately show ?case by (simp add: run_bind)
qed simp

lemma run_add_chunks:
  "\<exists>w'. forM ces (add_chunk i m t) w = (Inr (), w') \<and> items w' = items w \<and> search_rows w' = search_rows w
    \<and> em_item_id ` set (embedding_rows w') = em_item_id ` set (embedding_rows w) \<union> (if ces = [] then {} else {i})"
proof (induction ces arbitrary: w)
  case (Cons ce ces)
  obtain v where v: "add_chunk i m t ce w = (Inr (), v)" "items v = items w" "search_rows v = search_rows w"
    "em_item_id ` set (embedding_rows v) = insert i (em_item_id ` set (embedding_rows w))"
    by (simp add: add_chunk_def run_bind)
  from Cons.IH [of v] v show ?case by (auto simp: run_then)
qed simp

lemma replaced_row_done:
  assumes "ces \<noteq> []"
  shows "\<exists>w'. replace_chunks i ces m t w = (Inr (), w') \<and> items w' = items w \<and> search_rows w' = search_rows w
    \<and> pending_rows w' u = filter (\<lambda>r. si_item_id r \<noteq> i) (pending_rows w u)"
proof -
  let ?v = "embedding_rows_update (row_delete (\<lambda>r. em_item_id r = i)) w"
  obtain w' where w': "forM ces (add_chunk i m t) ?v = (Inr (), w')" "items w' = items w" "search_rows w' = search_rows w"
    "em_item_id ` set (embedding_rows w') = em_item_id ` set (embedding_rows ?v) \<union> {i}"
    using run_add_chunks [of ces i m t ?v] assms by auto
  then have ids: "j \<in> em_item_id ` set (embedding_rows w') \<longleftrightarrow> j = i \<or> j \<in> em_item_id ` set (embedding_rows w)" for j by auto
  have "pending_rows w' u = filter (\<lambda>r. si_item_id r \<noteq> i) (pending_rows w u)"
    unfolding pending_rows_def filter_filter ids w'(3) find_item_def w'(2) by (rule filter_cong) auto
  with w' show ?thesis by (auto simp: replace_chunks_def embedding_delete_def run_then)
qed

text \<open>A batch takes the first rows from the pending ones.\<close>

lemma run_backfill_rows:
  assumes "\<And>text v. \<not> isl (client text v)" "index_ok w" "pending_rows w u = rs @ rest"
  shows "\<exists>w'. backfill_rows client m rs n w = (Inr (n + int (length rs)), w') \<and> index_ok w' \<and> pending_rows w' u = rest"
  using assms(2,3)
proof (induction rs arbitrary: n w)
  case (Cons r rs)
  have mem: "set (pending_rows w u) \<subseteq> set (search_rows w)" by (auto simp: pending_rows_def)
  with Cons.prems have "py_strip (si_content r) \<noteq> []" by (auto simp: index_ok_def)
  with run_embed_from [of client 0 "chunk_text (si_content r)" w] assms(1) chunk_text_nonempty
  obtain ces where ces: "embed_chunks client (si_content r) w = (Inr ces, w)" "ces \<noteq> []"
    unfolding embed_chunks_def by (metis length_0_conv)
  from replaced_row_done [OF ces(2)] obtain v where v: "replace_chunks (si_item_id r) ces m (clock w) w = (Inr (), v)" "search_rows v = search_rows w"
    "pending_rows v u = filter (\<lambda>x. si_item_id x \<noteq> si_item_id r) (pending_rows w u)" by blast
  have "distinct (map si_item_id (pending_rows w u))" using Cons.prems(1) unfolding pending_rows_def index_ok_def
    by (intro distinct_map_filter) simp
  then have "si_item_id r \<notin> si_item_id ` set (rs @ rest)" unfolding Cons.prems(2) by (simp add: image_Un)
  then have "\<forall>x \<in> set (rs @ rest). si_item_id x \<noteq> si_item_id r" by (metis imageI)
  then have "pending_rows v u = rs @ rest" unfolding v(3) Cons.prems(2) by (simp add: filter_True)
  moreover have "index_ok v" using Cons.prems(1) v(2) by (simp add: index_ok_def)
  ultimately obtain w' where "backfill_rows client m rs (n + 1) v = (Inr (n + 1 + int (length rs)), w')" "index_ok w'" "pending_rows w' u = rest"
    using Cons.IH by blast
  with ces v show ?case by (simp add: run_bind run_then)
qed simp

lemma run_backfill:
  assumes "\<And>text v. \<not> isl (client text v)" "index_ok w" "0 \<le> batch"
  shows "\<exists>w'. backfill_route (Some client) m u batch w = (Inr (int (length (take (nat batch) (pending_rows w u))), int (length (pending_rows w' u))), w')
    \<and> index_ok w' \<and> pending_rows w' u = drop (nat batch) (pending_rows w u)"
proof -
  have "pending_rows w u = take (nat batch) (pending_rows w u) @ drop (nat batch) (pending_rows w u)" by simp
  from run_backfill_rows [where client = client and m = m and n = 0, OF assms(1,2) this] obtain w'
    where "backfill_rows client m (take (nat batch) (pending_rows w u)) 0 w = (Inr (int (length (take (nat batch) (pending_rows w u)))), w')"
      "index_ok w'" "pending_rows w' u = drop (nat batch) (pending_rows w u)" by auto
  with assms(3) show ?thesis
    by (simp add: backfill_route_def unavailable_def backfill_run_def list_pending_def select_page_def count_pending_def transact_def
      run_bind run_catch)
qed

fun backfill_calls :: "embedder \<Rightarrow> string \<Rightarrow> uuid \<Rightarrow> int \<Rightarrow> nat \<Rightarrow> world \<Rightarrow> world" where
  "backfill_calls client m u batch 0 w = w"
| "backfill_calls client m u batch (Suc n) w = backfill_calls client m u batch n (snd (backfill_route (Some client) m u batch w))"

text \<open>C36: calling the backfill again and again gets every file its vectors: as soon as the calls made times the batch size reach the number of
  files that had none, the next call reports that nothing remains, if only the embedding service answers. It never gets stuck on a
  file, since what the indexer stores is not blank.\<close>

theorem backfill_reaches_zero:
  assumes "\<And>text v. \<not> isl (client text v)" "index_ok w" "0 < batch" "length (pending_rows w u) \<le> n * nat batch"
  shows "\<exists>w'. backfill_route (Some client) m u batch (backfill_calls client m u batch n w) = (Inr (0, 0), w')
    \<and> (\<forall>r \<in> set (search_rows w'). (\<exists>i. find_item w' (si_item_id r) = Some i \<and> di_owner_id i = u \<and> \<not> di_is_deleted i)
        \<longrightarrow> si_item_id r \<in> em_item_id ` set (embedding_rows w'))"
  using assms(2,4)
proof (induction n arbitrary: w)
  case 0
  with run_backfill [where client = client and batch = batch and m = m and u = u, OF assms(1) 0(1)] assms(3)
  obtain w' where "backfill_route (Some client) m u batch w = (Inr (0, 0), w')" and none: "pending_rows w' u = []" by auto
  moreover from none have "\<forall>r \<in> set (search_rows w'). (\<exists>i. find_item w' (si_item_id r) = Some i \<and> di_owner_id i = u \<and> \<not> di_is_deleted i)
      \<longrightarrow> si_item_id r \<in> em_item_id ` set (embedding_rows w')" by (auto simp: pending_rows_def filter_empty_conv)
  ultimately show ?case by auto
next
  case (Suc n)
  from run_backfill [where client = client and batch = batch and m = m and u = u, OF assms(1) Suc.prems(1)] assms(3) obtain w1 r where
    r: "backfill_route (Some client) m u batch w = (Inr r, w1)" and w1: "index_ok w1" "pending_rows w1 u = drop (nat batch) (pending_rows w u)" by auto
  have "length (pending_rows w1 u) \<le> n * nat batch" using Suc.prems(2) unfolding w1(2) by simp
  from Suc.IH [OF w1(1) this] r show ?case by simp
qed

text \<open>Three files with text and no vectors, in batches of two.\<close>

definition one_vector :: embedder where
  "one_vector = (\<lambda>s w. Inr [''1.0''])"

definition unindexed_world :: world where
  "unindexed_world = sample_world\<lparr>items := items sample_world @ [sample_file 14 1 None ''a.txt'' ''k14'' 1, sample_file 15 1 None ''b.txt'' ''k15'' 1],
     search_rows := map (\<lambda>i. \<lparr>si_item_id = i, si_content = ''text'', si_updated_at = 0\<rparr>) [12, 14, 15]\<rparr>"

theorem backfill_reaches_zero_witness:
  "length (pending_rows unindexed_world 1) = 3
    \<and> (\<exists>w'. backfill_route (Some one_vector) ''m'' 1 2 (backfill_calls one_vector ''m'' 1 2 2 unindexed_world) = (Inr (0, 0), w'))"
proof
  show three: "length (pending_rows unindexed_world 1) = 3" by code_simp
  have "\<not> isl (one_vector s v)" for s v by (simp add: one_vector_def)
  moreover have "list_all (\<lambda>r. py_strip (si_content r) \<noteq> []) (search_rows unindexed_world)" by code_simp
  then have "index_ok unindexed_world" by (auto simp: index_ok_def list_all_iff unindexed_world_def)
  ultimately show "\<exists>w'. backfill_route (Some one_vector) ''m'' 1 2 (backfill_calls one_vector ''m'' 1 2 2 unindexed_world) = (Inr (0, 0), w')"
    using backfill_reaches_zero [of one_vector unindexed_world 2 1 2 "''m''"] three by auto
qed

section \<open>Search by words\<close>

lemma like_any: "like (CHR ''%'' # ps) s \<longleftrightarrow> (\<exists>t. suffix t s \<and> like ps t)"
proof (induction s)
  case (Cons c s)
  have "like (CHR ''%'' # ps) (c # s) \<longleftrightarrow> like ps (c # s) \<or> like (CHR ''%'' # ps) s" by simp
  with Cons show ?case by (auto simp: suffix_Cons)
qed simp

lemma like_all: "like ''%'' s"
  unfolding like_any by (rule exI [where x = "[]"]) simp

definition plain_pattern :: "string \<Rightarrow> bool" where
  "plain_pattern q \<longleftrightarrow> (\<forall>c \<in> set q. c \<notin> {CHR ''%'', CHR ''_'', CHR 0x5C})"

lemma like_plain: "plain_pattern q \<Longrightarrow> like (q @ ''%'') s \<longleftrightarrow> prefix q s"
proof (induction q arbitrary: s)
  case (Cons c q)
  then show ?case by (cases s) (auto simp: plain_pattern_def)
qed (simp add: like_all del: like.simps)

text \<open>For a query without the special characters of \<open>LIKE\<close> a match is a substring, case aside.\<close>

lemma like_substring: "plain_pattern q \<Longrightarrow> like (''%'' @ q @ ''%'') s \<longleftrightarrow> (\<exists>pre post. s = pre @ q @ post)"
  using like_plain [of q] by (auto simp: like_any suffix_def prefix_def simp del: like.simps)

text \<open>With them it is not: an underscore finds everything that has a name, though no name contains one.\<close>

lemma underscore_finds_everything: "like ''%_%'' s \<longleftrightarrow> s \<noteq> []"
proof (cases s)
  case (Cons c t)
  have "like ''_%'' (c # t)" using like_all by simp
  with Cons show ?thesis by (auto simp: like_any simp del: like.simps)
qed (simp add: like_any)







text \<open>The router passes the page number on unchecked: page zero is a negative offset, which the database refuses.\<close>

lemma page_zero_fails:
  "py_join '' '' (py_words [] q) \<noteq> [] \<Longrightarrow> 0 < page_size \<Longrightarrow> fst (search_items fts u q ty m 0 page_size w) = Inl DBError"
  by (simp add: search_items_def repo_search_def run_then run_bind run_guard select_page_def)

section \<open>Search by meaning\<close>

lemma semantic_hits:
  assumes "repo_semantic_search distance u query limit w = (Inr rows, w')" "(i, d, s) \<in> set rows"
  shows "i \<in> set (items w) \<and> reachable_hit w u i
    \<and> (\<exists>e \<in> set (embedding_rows w). em_item_id e = di_id i \<and> s = em_snippet e \<and> d = distance (em_vector e) query
      \<and> (\<forall>x \<in> set (embedding_rows w). em_item_id x = di_id i \<longrightarrow> d \<le> distance (em_vector x) query))"
proof -
  let ?row = "\<lambda>i. if \<not> reachable_hit w u i then None else case nearest distance w query (di_id i) of
    [] \<Rightarrow> None | e # es \<Rightarrow> Some (i, distance (em_vector e) query, em_snippet e)"
  have "set rows \<subseteq> set (List.map_filter ?row (sort_key di_id (items w)))"
    using assms(1) by (auto simp: repo_semantic_search_def select_page_def dest: in_set_takeD split: if_splits)
  with assms(2) have "\<exists>j \<in> set (sort_key di_id (items w)). ?row j = Some (i, d, s)" unfolding set_map_filter_iff [symmetric] by blast
  then obtain j where j: "j \<in> set (items w)" "?row j = Some (i, d, s)" unfolding set_sort by blast
  then obtain e es where e: "nearest distance w query (di_id j) = e # es" and "reachable_hit w u j" "i = j" "s = em_snippet e" "d = distance (em_vector e) query"
    by (auto split: if_splits list.splits)
  have near: "set (e # es) = {x \<in> set (embedding_rows w). em_item_id x = di_id j}" "sorted (map (\<lambda>x. distance (em_vector x) query) (e # es))"
    unfolding e [symmetric] nearest_def by auto
  have "e \<in> set (e # es)" by simp
  then have "e \<in> set (embedding_rows w) \<and> em_item_id e = di_id j" unfolding near(1) by simp
  moreover have "distance (em_vector e) query \<le> distance (em_vector x) query" if "x \<in> set (embedding_rows w)" "em_item_id x = di_id j" for x
  proof -
    have "x \<in> set (e # es)" unfolding near(1) using that by simp
    with near(2) show ?thesis by auto
  qed
  ultimately show ?thesis
    using j(1) \<open>reachable_hit w u j\<close> \<open>i = j\<close> \<open>s = em_snippet e\<close> \<open>d = distance (em_vector e) query\<close> by auto
qed

section \<open>Indexing can fail an upload\<close>

text \<open>The indexer promises never to fail an upload. Text with a NUL character cannot be stored: the upload raises, after its blob was written and
  beyond the handler that would delete it; only the rows are rolled back.\<close>

lemma nul_text_fails_upload:
  assumes "upload_simple c u p name s z mime w = (Inr r, w1)"
    and "extract_text (ix_extraction ix) (take (DEFAULT_MAX_BYTES + 1) (stream_bytes s)) mime (ir_extension r) = Some txt" "CHR 0x00 \<in> set txt"
  shows "transact (upload_and_index c ix u p name s z mime) w = (Inl DBError, rollback w w1) \<and> blobs (rollback w w1) = blobs w1"
  using assms by (simp add: upload_and_index_def index_file_def index_upsert_def run_bind run_then run_guard transact_def)

end
