(* ===== verification/LlmClients.thy ===== *)
theory LlmClients
  imports ModelRouter Search
begin

text \<open>
  The clients of language and embedding models (\<open>assistant/llm/external.py\<close>, \<open>assistant/llm/ollama.py\<close>,
  \<open>external_model/codex_client.py\<close>, \<open>search/embedding.py\<close>): the request each sends, how it reads the answer, and which failures it
  tells apart. What the network and the \<open>codex\<close> program answer is a parameter, a function of the state. Floats are kept as they are printed;
  timeouts are part of what the network answers.
\<close>

section \<open>Requests and answers\<close>

record llm_tool =
  lt_name :: string
  lt_description :: string
  lt_parameters :: json

record llm_options =
  lo_tools :: "llm_tool list"
  lo_num_ctx :: int
  lo_response_format :: "args option"
  lo_temperature :: "string option"
  lo_disable_thinking :: "bool option"

record tool_call =
  tc_name :: string
  tc_arguments :: args

record llm_response =
  lr_content :: string
  lr_tool_calls :: "tool_call list"
  lr_model :: string
  lr_done_reason :: "string option"
  lr_prompt_tokens :: "int option"
  lr_completion_tokens :: "int option"

record http_request =
  rq_url :: string
  rq_headers :: "(string \<times> string) list"
  rq_json :: args

text \<open>\<open>HttpFailed\<close>: an \<open>httpx.HTTPError\<close> other than a status; else the status and the body, if that is JSON.\<close>

datatype http_reply = HttpFailed | Reply nat "json option"

type_synonym 's post = "http_request \<Rightarrow> 's \<Rightarrow> error + http_reply"

type_synonym ('s, 'a) asks = "llm_options \<Rightarrow> llm_message list \<Rightarrow> ('s, llm_failure, 'a) call"

text \<open>\<open>raise_for_status\<close> passes these.\<close>

definition is_success :: "nat \<Rightarrow> bool" where
  "is_success status = (200 \<le> status \<and> status < 300)"

definition has_part :: "string \<Rightarrow> string \<Rightarrow> bool" where
  "has_part part s = list_ex (starts_with part) (tails s)"

definition py_rstrip_char :: "char \<Rightarrow> string \<Rightarrow> string" where
  "py_rstrip_char c s = rev (dropWhile (\<lambda>x. x = c) (rev s))"

definition role_str :: "llm_role \<Rightarrow> string" where
  "role_str r = (case r of SYSTEM_ROLE \<Rightarrow> ''system'' | USER_ROLE \<Rightarrow> ''user'' | ASSISTANT_ROLE \<Rightarrow> ''assistant'' | TOOL_ROLE \<Rightarrow> ''tool'')"

definition messages_json :: "llm_message list \<Rightarrow> json" where
  "messages_json messages =
     JList (map (\<lambda>m. JObj [(''role'', JStr (role_str (lm_role m))), (''content'', JStr (lm_content m))]) messages)"

definition auth_headers :: "string \<Rightarrow> (string \<times> string) list" where
  "auth_headers api_key = (if api_key = [] then [] else [(''Authorization'', ''Bearer '' @ api_key)])"

definition tool_json :: "llm_tool \<Rightarrow> json" where
  "tool_json t = JObj [(''type'', JStr ''function''), (''function'', JObj [(''name'', JStr (lt_name t)),
     (''description'', JStr (lt_description t)), (''parameters'', lt_parameters t)])]"

definition tools_part :: "llm_options \<Rightarrow> args" where
  "tools_part opts = (if lo_tools opts = [] then [] else [(''tools'', JList (map tool_json (lo_tools opts)))])"

section \<open>OpenAI-compatible endpoints\<close>

record external_client =
  xc_base_url :: string
  xc_model :: string
  xc_api_key :: string
  xc_num_predict :: int
  xc_structured_temperature :: string

definition external_payload :: "external_client \<Rightarrow> llm_options \<Rightarrow> llm_message list \<Rightarrow> args" where
  "external_payload c opts messages =
     [(''model'', JStr (xc_model c)), (''messages'', messages_json messages)]
     @ (if xc_num_predict c > 0 then [(''max_tokens'', JInt (xc_num_predict c))] else [])
     @ (case lo_response_format opts of None \<Rightarrow> [] | Some f \<Rightarrow> [(''response_format'', JObj f)])
     @ (case lo_temperature opts of
          Some t \<Rightarrow> [(''temperature'', JFloat t)]
        | None \<Rightarrow> if lo_response_format opts \<noteq> None then [(''temperature'', JFloat (xc_structured_temperature c))] else [])
     @ tools_part opts"

text \<open>The provider's reason stands in a dict under \<open>error\<close>; the code asks any value it finds there for its keys.\<close>

definition external_credential_error :: "nat \<Rightarrow> json option \<Rightarrow> error + bool" where
  "external_credential_error status body =
     (if status \<in> {401, 403} then Inr True
      else if status = 429 then (case body of
          Some (JObj d) \<Rightarrow> (case get_or (JObj []) ''error'' d of
              JObj e \<Rightarrow> (let marker = py_lower (py_str (get_or (JStr []) ''type'' e) @ '' '' @ py_str (get_or (JStr []) ''code'' e)) in
                Inr (has_part ''quota'' marker \<or> has_part ''billing'' marker \<or> has_part ''insufficient'' marker))
            | _ \<Rightarrow> Inl PyAttributeError)
        | _ \<Rightarrow> Inr False)
      else Inr False)"

text \<open>One entry of \<open>tool_calls\<close>, if it is one.\<close>

fun tool_call_of :: "(json \<Rightarrow> json) \<Rightarrow> json \<Rightarrow> tool_call option" where
  "tool_call_of fix_arguments (JObj d) = (case get_key ''function'' d of
       JObj f \<Rightarrow> (case (get_key ''name'' f, fix_arguments (get_or (JObj []) ''arguments'' f)) of
           (JStr name, JObj a) \<Rightarrow> Some \<lparr>tc_name = name, tc_arguments = a\<rparr>
         | _ \<Rightarrow> None)
     | _ \<Rightarrow> None)"
| "tool_call_of fix_arguments v = None"

definition text_arguments_dropped :: "json \<Rightarrow> json" where
  "text_arguments_dropped v = (case v of JStr _ \<Rightarrow> JObj [] | _ \<Rightarrow> v)"

text \<open>\<open>v or default\<close>.\<close>

definition py_or :: "json \<Rightarrow> json \<Rightarrow> json" where
  "py_or v v0 = (if truthy v then v else v0)"

definition parse_openai_message :: "args \<Rightarrow> string \<Rightarrow> llm_failure + llm_response" where
  "parse_openai_message message model = (case py_or (get_key ''content'' message) (JStr []) of
       JStr content \<Rightarrow> (case py_or (get_key ''tool_calls'' message) (JList []) of
           JList raw \<Rightarrow> Inr \<lparr>lr_content = content, lr_tool_calls = List.map_filter (tool_call_of text_arguments_dropped) raw,
             lr_model = model, lr_done_reason = None, lr_prompt_tokens = None, lr_completion_tokens = None\<rparr>
         | _ \<Rightarrow> Inl LLMInvalidResponse)
     | _ \<Rightarrow> Inl LLMInvalidResponse)"

definition parse_openai_response :: "json \<Rightarrow> string \<Rightarrow> llm_failure + llm_response" where
  "parse_openai_response data model = (case data of
       JObj d \<Rightarrow> (case get_key ''choices'' d of
           JList (JObj c # _) \<Rightarrow> (case get_key ''message'' c of
               JObj message \<Rightarrow> parse_openai_message message model
             | _ \<Rightarrow> Inl LLMInvalidResponse)
         | _ \<Rightarrow> Inl LLMInvalidResponse)
     | _ \<Rightarrow> Inl LLMInvalidResponse)"

definition external_request :: "external_client \<Rightarrow> llm_options \<Rightarrow> llm_message list \<Rightarrow> http_request" where
  "external_request c opts messages = \<lparr>rq_url = py_rstrip_char CHR ''/'' (xc_base_url c) @ ''/chat/completions'',
     rq_headers = auth_headers (xc_api_key c), rq_json = external_payload c opts messages\<rparr>"

definition read_external :: "string \<Rightarrow> error + http_reply \<Rightarrow> llm_failure + llm_response" where
  "read_external model r = (case r of
       Inl e \<Rightarrow> Inl (OtherException e)
     | Inr HttpFailed \<Rightarrow> Inl LLMUnavailable
     | Inr (Reply status body) \<Rightarrow>
         if is_success status
         then (case body of None \<Rightarrow> Inl (OtherException ValueError) | Some data \<Rightarrow> parse_openai_response data model)
         else (case external_credential_error status body of
             Inl e \<Rightarrow> Inl (OtherException e)
           | Inr rejected \<Rightarrow> Inl (if rejected then ExternalAuthFailed else LLMUnavailable)))"

definition external_chat :: "'s post \<Rightarrow> external_client \<Rightarrow> ('s, llm_response) asks" where
  "external_chat post c opts messages = liftM (\<lambda>s. read_external (xc_model c) (post (external_request c opts messages) s))"

section \<open>Ollama\<close>

record ollama_client =
  oc_base_url :: string
  oc_fallback_base_urls :: "string list"
  oc_model :: string
  oc_api_key :: string
  oc_keep_alive :: string
  oc_num_predict :: int
  oc_structured_temperature :: string
  oc_disable_thinking :: bool

definition ollama_urls :: "ollama_client \<Rightarrow> string list" where
  "ollama_urls c = map (py_rstrip_char CHR ''/'') (oc_base_url c # filter (\<lambda>u. u \<noteq> []) (oc_fallback_base_urls c))"

definition to_ollama_format :: "args \<Rightarrow> args" where
  "to_ollama_format response_format = (case get_key ''json_schema'' response_format of
       JObj s \<Rightarrow> (case get_key ''schema'' s of JObj schema \<Rightarrow> schema | _ \<Rightarrow> response_format)
     | _ \<Rightarrow> response_format)"

definition ollama_options :: "ollama_client \<Rightarrow> llm_options \<Rightarrow> args" where
  "ollama_options c opts =
     [(''num_ctx'', JInt (lo_num_ctx opts))]
     @ (if oc_num_predict c > 0 then [(''num_predict'', JInt (oc_num_predict c))] else [])
     @ (case (lo_response_format opts, lo_temperature opts) of
          (_, Some t) \<Rightarrow> [(''temperature'', JFloat t)]
        | (Some f, None) \<Rightarrow> [(''temperature'', JFloat (oc_structured_temperature c))]
        | (None, None) \<Rightarrow> [])"

definition thinking_disabled :: "ollama_client \<Rightarrow> llm_options \<Rightarrow> bool" where
  "thinking_disabled c opts = (case lo_disable_thinking opts of Some b \<Rightarrow> b | None \<Rightarrow> oc_disable_thinking c)"

definition ollama_payload :: "ollama_client \<Rightarrow> llm_options \<Rightarrow> llm_message list \<Rightarrow> args" where
  "ollama_payload c opts messages =
     [(''model'', JStr (oc_model c)), (''messages'', messages_json messages), (''stream'', JBool False),
      (''options'', JObj (ollama_options c opts))]
     @ (if thinking_disabled c opts then [(''think'', JBool False)] else [])
     @ (case lo_response_format opts of None \<Rightarrow> [] | Some f \<Rightarrow> [(''format'', JObj (to_ollama_format f))])
     @ (if oc_keep_alive c = [] then [] else [(''keep_alive'', JStr (oc_keep_alive c))])
     @ tools_part opts"

definition ollama_credential_error :: "nat \<Rightarrow> json option \<Rightarrow> bool" where
  "ollama_credential_error status body =
     (status \<in> {401, 403} \<or> (status = 429 \<and> (case body of None \<Rightarrow> False | Some j \<Rightarrow> (let s = py_lower (py_str j) in
        has_part ''quota'' s \<or> has_part ''billing'' s \<or> has_part ''credit'' s))))"

text \<open>A bool is an int.\<close>

definition int_or_none :: "json \<Rightarrow> int option" where
  "int_or_none v = (case v of JInt n \<Rightarrow> Some n | JBool b \<Rightarrow> Some (if b then 1 else 0) | _ \<Rightarrow> None)"

definition str_or_none :: "json \<Rightarrow> string option" where
  "str_or_none v = (case v of JStr s \<Rightarrow> Some s | _ \<Rightarrow> None)"

definition null_is_empty :: "json \<Rightarrow> json" where
  "null_is_empty v = (case v of JNull \<Rightarrow> JList [] | _ \<Rightarrow> v)"

definition parse_ollama_message :: "args \<Rightarrow> args \<Rightarrow> string \<Rightarrow> llm_failure + llm_response" where
  "parse_ollama_message d message model = (case get_or (JStr []) ''content'' message of
       JStr content \<Rightarrow> (case null_is_empty (get_or (JList []) ''tool_calls'' message) of
           JList raw \<Rightarrow> Inr \<lparr>lr_content = content, lr_tool_calls = List.map_filter (tool_call_of id) raw, lr_model = model,
             lr_done_reason = str_or_none (get_key ''done_reason'' d),
             lr_prompt_tokens = int_or_none (get_key ''prompt_eval_count'' d),
             lr_completion_tokens = int_or_none (get_key ''eval_count'' d)\<rparr>
         | _ \<Rightarrow> Inl LLMInvalidResponse)
     | _ \<Rightarrow> Inl LLMInvalidResponse)"

definition parse_ollama_response :: "json \<Rightarrow> string \<Rightarrow> llm_failure + llm_response" where
  "parse_ollama_response data model = (case data of
       JObj d \<Rightarrow> (case get_key ''message'' d of JObj message \<Rightarrow> parse_ollama_message d message model | _ \<Rightarrow> Inl LLMInvalidResponse)
     | _ \<Rightarrow> Inl LLMInvalidResponse)"

definition ollama_request :: "ollama_client \<Rightarrow> string \<Rightarrow> llm_options \<Rightarrow> llm_message list \<Rightarrow> http_request" where
  "ollama_request c url opts messages = \<lparr>rq_url = url @ ''/api/chat'', rq_headers = auth_headers (oc_api_key c),
     rq_json = ollama_payload c opts messages\<rparr>"

text \<open>What the loop does with one endpoint's answer: go on to the next endpoint, or end.\<close>

definition read_ollama :: "string \<Rightarrow> error + http_reply \<Rightarrow> (llm_failure + llm_response) option" where
  "read_ollama model r = (case r of
       Inl e \<Rightarrow> Some (Inl (OtherException e))
     | Inr HttpFailed \<Rightarrow> None
     | Inr (Reply status body) \<Rightarrow>
         if is_success status
         then Some (case body of None \<Rightarrow> Inl (OtherException ValueError) | Some data \<Rightarrow> parse_ollama_response data model)
         else if ollama_credential_error status body then Some (Inl ExternalAuthFailed) else None)"

fun ollama_loop ::
  "'s post \<Rightarrow> ollama_client \<Rightarrow> llm_options \<Rightarrow> llm_message list \<Rightarrow> string list \<Rightarrow> 's \<Rightarrow> llm_failure + llm_response" where
  "ollama_loop post c opts messages [] s = Inl LLMUnavailable"
| "ollama_loop post c opts messages (url # urls) s =
     (case read_ollama (oc_model c) (post (ollama_request c url opts messages) s) of
        Some r \<Rightarrow> r
      | None \<Rightarrow> ollama_loop post c opts messages urls s)"

definition ollama_chat :: "'s post \<Rightarrow> ollama_client \<Rightarrow> ('s, llm_response) asks" where
  "ollama_chat post c opts messages = liftM (ollama_loop post c opts messages (ollama_urls c))"

section \<open>The Codex program\<close>

text \<open>The file with the credential after the run: it may be gone, hold no text, or hold a text.\<close>

datatype auth_file = FileGone | FileNotText | FileText string

record codex_run =
  cr_code :: int
  cr_output :: string
  cr_auth_after :: auth_file

record codex_client =
  cc_auth_json :: string
  cc_model :: string
  cc_bin :: string

text \<open>The program gets the command and the credential in a fresh home; a run may time out or not start at all.\<close>

type_synonym 's runner = "string list \<Rightarrow> string \<Rightarrow> 's \<Rightarrow> llm_failure + codex_run"

definition messages_to_prompt :: "llm_message list \<Rightarrow> string" where
  "messages_to_prompt messages =
     py_strip (py_join [CHR 0x0A, CHR 0x0A] (filter (\<lambda>s. s \<noteq> []) (map lm_content messages)))"

definition reply_mark :: string where
  "reply_mark = CHR 0x0A # ''codex'' @ [CHR 0x0A]"

definition tokens_mark :: string where
  "tokens_mark = CHR 0x0A # ''tokens used''"

text \<open>What follows the last reply mark, if there is one.\<close>

fun after_last_mark :: "string \<Rightarrow> string option" where
  "after_last_mark [] = None"
| "after_last_mark (c # s) = (case after_last_mark s of
     Some t \<Rightarrow> Some t
   | None \<Rightarrow> if starts_with reply_mark (c # s) then Some (drop (length reply_mark) (c # s)) else None)"

definition tokens_here :: "string \<Rightarrow> bool" where
  "tokens_here s = (starts_with tokens_mark s
     \<and> (case drop (length tokens_mark) s of [] \<Rightarrow> True | c # _ \<Rightarrow> \<not> is_word c))"

fun before_tokens :: "string \<Rightarrow> string" where
  "before_tokens [] = []"
| "before_tokens (c # s) = (if tokens_here (c # s) then [] else c # before_tokens s)"

definition extract_response :: "string \<Rightarrow> string" where
  "extract_response output = (case after_last_mark output of
     Some t \<Rightarrow> py_strip (before_tokens t) | None \<Rightarrow> py_strip output)"

definition AUTH_FAILURE_MARKS :: "string list" where
  "AUTH_FAILURE_MARKS = [''not logged in'', ''unauthor'', ''401'', ''403'', ''re-authenticate'', ''please sign in'', ''invalid_grant'',
     ''token expired'', ''expired token'']"

definition is_auth_failure :: "string \<Rightarrow> bool" where
  "is_auth_failure output = list_ex (\<lambda>m. has_part m (py_lower output)) AUTH_FAILURE_MARKS"

text \<open>Handing a refreshed credential back; what goes wrong there is only logged.\<close>

definition persist_refresh :: "codex_client \<Rightarrow> (string \<Rightarrow> ('s, error, unit) call) \<Rightarrow> auth_file \<Rightarrow> ('s, llm_failure, unit) call" where
  "persist_refresh c on_refreshed after = (case after of
       FileGone \<Rightarrow> returnM ()
     | FileNotText \<Rightarrow> raiseM (OtherException ValueError)
     | FileText t \<Rightarrow> if py_strip t \<noteq> [] \<and> py_strip t \<noteq> py_strip (cc_auth_json c)
         then (\<lambda>s. (Inr (), snd (on_refreshed t s))) else returnM ())"

definition codex_chat ::
  "'s runner \<Rightarrow> (string \<Rightarrow> ('s, error, unit) call) \<Rightarrow> codex_client \<Rightarrow> ('s, llm_response) asks" where
  "codex_chat runner on_refreshed c opts messages =
     bindM (liftM (runner [cc_bin c, ''exec'', ''--skip-git-repo-check'', messages_to_prompt messages] (cc_auth_json c))) (\<lambda>run.
     if cr_code run \<noteq> 0 then raiseM (if is_auth_failure (cr_output run) then ExternalAuthFailed else LLMUnavailable)
     else thenM (persist_refresh c on_refreshed (cr_auth_after run))
       (returnM \<lparr>lr_content = extract_response (cr_output run), lr_tool_calls = [], lr_model = cc_model c,
          lr_done_reason = None, lr_prompt_tokens = None, lr_completion_tokens = None\<rparr>))"

section \<open>Embeddings\<close>

record embedding_client =
  ec_base_url :: string
  ec_model :: string
  ec_api_key :: string

definition embedding_request :: "embedding_client \<Rightarrow> string \<Rightarrow> http_request" where
  "embedding_request c text = \<lparr>rq_url = py_rstrip_char CHR ''/'' (ec_base_url c) @ ''/api/embeddings'',
     rq_headers = auth_headers (ec_api_key c), rq_json = [(''model'', JStr (ec_model c)), (''prompt'', JStr text)]\<rparr>"

text \<open>\<open>[float(x) for x in vector]\<close>.\<close>

fun floats :: "(json \<Rightarrow> error + string) \<Rightarrow> json list \<Rightarrow> error + vector" where
  "floats to_float [] = Inr []"
| "floats to_float (x # xs) = (case to_float x of
     Inl e \<Rightarrow> Inl (if e = PyTypeError \<or> e = ValueError then EmbeddingError else e)
   | Inr f \<Rightarrow> (case floats to_float xs of Inl e \<Rightarrow> Inl e | Inr fs \<Rightarrow> Inr (f # fs)))"

definition read_embedding :: "(json \<Rightarrow> error + string) \<Rightarrow> error + http_reply \<Rightarrow> error + vector" where
  "read_embedding to_float r = (case r of
       Inl e \<Rightarrow> Inl e
     | Inr HttpFailed \<Rightarrow> Inl EmbeddingError
     | Inr (Reply status body) \<Rightarrow>
         if \<not> is_success status then Inl EmbeddingError
         else (case body of
             None \<Rightarrow> Inl ValueError
           | Some (JObj d) \<Rightarrow> (case get_key ''embedding'' d of
               JList (x # xs) \<Rightarrow> floats to_float (x # xs) | _ \<Rightarrow> Inl EmbeddingError)
           | Some _ \<Rightarrow> Inl EmbeddingError))"

definition ollama_embed :: "world post \<Rightarrow> (json \<Rightarrow> error + string) \<Rightarrow> embedding_client \<Rightarrow> embedder" where
  "ollama_embed post to_float c text w = read_embedding to_float (post (embedding_request c text) w)"

end
