(* ===== verification/ExternalModels.thy ===== *)
theory ExternalModels
  imports LlmClients Security
begin

text \<open>
  \<open>app/external_model\<close> and the part of \<open>assistant/router.py\<close> that puts the language models together: the connections a user stores to
  models of his own, with their encrypted credentials, the clients that are built from them, and what happens when a provider refuses a
  credential. Fernet is a parameter, as are the network and the \<open>codex\<close> program (\<open>LlmClients\<close>). The ellipsis of a masked credential is
  written as the character 133.
\<close>

section \<open>Credentials\<close>

text \<open>Encryption draws on time and randomness, hence on the state; decryption fails on what is no token of this key.\<close>

record cipher =
  ci_encrypt :: "world \<Rightarrow> string \<Rightarrow> string"
  ci_decrypt :: "string \<Rightarrow> string option"

text \<open>\<open>None\<close>: no key is configured; a key that Fernet does not accept is an error.\<close>

definition build_cipher :: "(string \<Rightarrow> cipher option) \<Rightarrow> string \<Rightarrow> error + cipher option" where
  "build_cipher fernet key = (if key = [] then Inr None
     else case fernet key of None \<Rightarrow> Inl CredentialCipherError | Some c \<Rightarrow> Inr (Some c))"

definition ELLIPSIS :: string where "ELLIPSIS = [CHR 0x85]"

definition mask_secret :: "string \<Rightarrow> string" where
  "mask_secret secret = (let s = py_strip secret in
     if s = [] then []
     else if length s \<le> 8 then ELLIPSIS @ drop (length s - 2) s
     else take 3 s @ ELLIPSIS @ drop (length s - 4) s)"

section \<open>The table of connections\<close>

definition conn_list_by_user :: "uuid \<Rightarrow> model_connection list M" where
  "conn_list_by_user user_id = getsM (\<lambda>w. sort_key mc_created_at (filter (\<lambda>c. mc_user_id c = user_id) (connections w)))"

definition conn_get :: "uuid \<Rightarrow> uuid \<Rightarrow> model_connection option M" where
  "conn_get user_id connection_id =
     liftM (\<lambda>w. scalar_one_or_none (filter (\<lambda>c. mc_user_id c = user_id \<and> mc_id c = connection_id) (connections w)))"

definition conn_create :: "model_connection \<Rightarrow> model_connection M" where
  "conn_create c = bindM (getsM (\<lambda>w. find_user w (mc_user_id c))) (\<lambda>u.
     thenM (guardM (u \<noteq> None) IntegrityError)
     (thenM (modifyM (connections_update (\<lambda>rows. rows @ [c]))) (returnM c)))"

text \<open>The values an update may carry; those that are left out stay.\<close>

record connection_patch =
  cp_label :: "string option"
  cp_base_url :: "string option"
  cp_model :: "string option"
  cp_secret_encrypted :: "string option"
  cp_masked_hint :: "string option"
  cp_status :: "string option"

definition given :: "'a option \<Rightarrow> 'a \<Rightarrow> 'a" where
  "given new old = (case new of Some x \<Rightarrow> x | None \<Rightarrow> old)"

definition patch_connection :: "connection_patch \<Rightarrow> time \<Rightarrow> model_connection \<Rightarrow> model_connection" where
  "patch_connection p t c = c\<lparr>mc_label := given (cp_label p) (mc_label c), mc_base_url := given (cp_base_url p) (mc_base_url c),
     mc_model := given (cp_model p) (mc_model c),
     mc_secret_encrypted := given (cp_secret_encrypted p) (mc_secret_encrypted c),
     mc_masked_hint := given (cp_masked_hint p) (mc_masked_hint c), mc_status := given (cp_status p) (mc_status c), mc_updated_at := t\<rparr>"

definition write_connection :: "uuid \<Rightarrow> (model_connection \<Rightarrow> model_connection) \<Rightarrow> unit M" where
  "write_connection i f = modifyM (connections_update (row_update mc_id i f))"

definition conn_update :: "uuid \<Rightarrow> uuid \<Rightarrow> connection_patch \<Rightarrow> time \<Rightarrow> model_connection option M" where
  "conn_update user_id connection_id p t = bindM (conn_get user_id connection_id) (\<lambda>found. case found of
       None \<Rightarrow> returnM None
     | Some c \<Rightarrow> thenM (write_connection (mc_id c) (patch_connection p t)) (returnM (Some (patch_connection p t c))))"

definition conn_delete :: "uuid \<Rightarrow> uuid \<Rightarrow> bool M" where
  "conn_delete user_id connection_id = bindM (conn_get user_id connection_id) (\<lambda>found. case found of
       None \<Rightarrow> returnM False
     | Some c \<Rightarrow> thenM (modifyM (connections_update (row_delete (\<lambda>r. mc_id r = mc_id c)))) (returnM True))"

definition conn_set_status :: "uuid \<Rightarrow> uuid \<Rightarrow> string \<Rightarrow> unit M" where
  "conn_set_status user_id connection_id status = bindM (conn_get user_id connection_id) (\<lambda>found. case found of
       None \<Rightarrow> returnM ()
     | Some c \<Rightarrow> write_connection (mc_id c) (mc_status_update (\<lambda>_. status)))"

section \<open>Managing connections\<close>

definition ACTIVE_STATUS :: string where "ACTIVE_STATUS = ''active''"

definition INVALID_STATUS :: string where "INVALID_STATUS = ''invalid''"

datatype connection_kind = OPENAI_COMPATIBLE | OLLAMA | CODEX

definition kind_str :: "connection_kind \<Rightarrow> string" where
  "kind_str k = (case k of OPENAI_COMPATIBLE \<Rightarrow> ''openai_compatible'' | OLLAMA \<Rightarrow> ''ollama'' | CODEX \<Rightarrow> ''codex'')"

record connection_body =
  cb_label :: string
  cb_kind :: connection_kind
  cb_base_url :: string
  cb_model :: string
  cb_secret :: string

definition connection_body_ok :: "connection_body \<Rightarrow> bool" where
  "connection_body_ok b = (1 \<le> length (cb_label b) \<and> length (cb_label b) \<le> 100 \<and> length (cb_base_url b) \<le> 500
     \<and> length (cb_model b) \<le> 200 \<and> 1 \<le> length (cb_secret b))"

record connection_edit =
  cd_label :: "string option"
  cd_base_url :: "string option"
  cd_model :: "string option"
  cd_secret :: "string option"

definition within :: "nat \<Rightarrow> nat \<Rightarrow> string option \<Rightarrow> bool" where
  "within lo hi v = (case v of None \<Rightarrow> True | Some s \<Rightarrow> lo \<le> length s \<and> length s \<le> hi)"

definition connection_edit_ok :: "connection_edit \<Rightarrow> bool" where
  "connection_edit_ok b = (within 1 100 (cd_label b) \<and> within 0 500 (cd_base_url b) \<and> within 0 200 (cd_model b) \<and> cd_secret b \<noteq> Some [])"

definition connection_create :: "cipher option \<Rightarrow> uuid \<Rightarrow> connection_body \<Rightarrow> model_connection M" where
  "connection_create cipher user_id b = (case cipher of
       None \<Rightarrow> raiseM CredentialCipherError
     | Some c \<Rightarrow> bindM now (\<lambda>t. bindM uuid4 (\<lambda>i. bindM (getsM (\<lambda>w. ci_encrypt c w (cb_secret b))) (\<lambda>sealed.
         conn_create \<lparr>mc_id = i, mc_user_id = user_id, mc_label = cb_label b, mc_kind = kind_str (cb_kind b),
           mc_base_url = cb_base_url b, mc_model = cb_model b, mc_secret_encrypted = sealed, mc_masked_hint = mask_secret (cb_secret b),
           mc_status = ACTIVE_STATUS, mc_created_at = t, mc_updated_at = t\<rparr>))))"

definition edit_patch :: "cipher \<Rightarrow> world \<Rightarrow> connection_edit \<Rightarrow> connection_patch" where
  "edit_patch c w b = \<lparr>cp_label = cd_label b, cp_base_url = cd_base_url b, cp_model = cd_model b,
     cp_secret_encrypted = map_option (ci_encrypt c w) (cd_secret b), cp_masked_hint = map_option mask_secret (cd_secret b),
     cp_status = (if cd_secret b = None then None else Some ACTIVE_STATUS)\<rparr>"

definition connection_update :: "cipher option \<Rightarrow> uuid \<Rightarrow> uuid \<Rightarrow> connection_edit \<Rightarrow> model_connection option M" where
  "connection_update cipher user_id connection_id b = (case cipher of
       None \<Rightarrow> raiseM CredentialCipherError
     | Some c \<Rightarrow> bindM (getsM (\<lambda>w. edit_patch c w b)) (\<lambda>p. bindM now (\<lambda>t. conn_update user_id connection_id p t)))"

section \<open>Clients\<close>

record model_settings =
  ms_llm_provider :: string
  ms_llm_base_url :: string
  ms_llm_fallback_base_url :: string
  ms_assistant_model :: string
  ms_llm_api_key :: string
  ms_llm_keep_alive :: string
  ms_llm_num_predict :: int
  ms_llm_structured_temperature :: string
  ms_llm_disable_thinking :: bool
  ms_external_llm_enabled :: bool
  ms_external_llm_base_url :: string
  ms_external_model :: string
  ms_external_llm_api_key :: string
  ms_external_chat_model :: string
  ms_codex_bin :: string
  ms_privacy_default :: string
  ms_max_local_attempts :: int
  ms_credential_encryption_key :: string
  ms_embedding_enabled :: bool
  ms_embedding_base_url :: string
  ms_embedding_model :: string

text \<open>What lies outside: the network, the \<open>codex\<close> program, and Fernet.\<close>

record outside =
  out_post :: "world post"
  out_runner :: "world runner"
  out_fernet :: "string \<Rightarrow> cipher option"

text \<open>The session of its own in which a refreshed credential is stored, and the one in which a refused credential is marked.\<close>

definition on_refresh :: "cipher option \<Rightarrow> uuid \<Rightarrow> uuid \<Rightarrow> string \<Rightarrow> unit M" where
  "on_refresh cipher user_id connection_id new_secret = (case cipher of
       None \<Rightarrow> returnM ()
     | Some c \<Rightarrow> transact (bindM (getsM (\<lambda>w. ci_encrypt c w new_secret)) (\<lambda>sealed. bindM now (\<lambda>t.
         thenM (conn_update user_id connection_id \<lparr>cp_label = None, cp_base_url = None, cp_model = None, cp_secret_encrypted = Some sealed,
           cp_masked_hint = Some (mask_secret new_secret), cp_status = None\<rparr> t) (returnM ())))))"

definition on_invalidate :: "uuid \<Rightarrow> uuid \<Rightarrow> unit M" where
  "on_invalidate user_id connection_id = transact (conn_set_status user_id connection_id INVALID_STATUS)"

text \<open>\<open>_CredentialTrackingClient.chat\<close>.\<close>

definition track :: "unit M \<Rightarrow> (world, llm_response) asks \<Rightarrow> (world, llm_response) asks" where
  "track on_auth_error inner opts messages = (\<lambda>w. case inner opts messages w of
       (Inl ExternalAuthFailed, w1) \<Rightarrow> (case on_auth_error w1 of
           (Inl e, w2) \<Rightarrow> (Inl (OtherException e), w2)
         | (Inr _, w2) \<Rightarrow> (Inl ExternalAuthFailed, w2))
     | r \<Rightarrow> r)"

definition connection_external :: "model_connection \<Rightarrow> string \<Rightarrow> external_client" where
  "connection_external conn secret = \<lparr>xc_base_url = mc_base_url conn, xc_model = mc_model conn, xc_api_key = secret,
     xc_num_predict = 0, xc_structured_temperature = ''0.0''\<rparr>"

definition connection_ollama :: "model_connection \<Rightarrow> string \<Rightarrow> ollama_client" where
  "connection_ollama conn secret = \<lparr>oc_base_url = mc_base_url conn, oc_fallback_base_urls = [], oc_model = mc_model conn,
     oc_api_key = secret, oc_keep_alive = [], oc_num_predict = 0, oc_structured_temperature = ''0.0'', oc_disable_thinking = False\<rparr>"

definition connection_codex :: "model_settings \<Rightarrow> model_connection \<Rightarrow> string \<Rightarrow> codex_client" where
  "connection_codex cfg conn auth_json = \<lparr>cc_auth_json = auth_json,
     cc_model = (if mc_model conn = [] then ms_external_chat_model cfg else mc_model conn), cc_bin = ms_codex_bin cfg\<rparr>"

definition inner_client ::
  "outside \<Rightarrow> model_settings \<Rightarrow> cipher \<Rightarrow> model_connection \<Rightarrow> string \<Rightarrow> (world, llm_response) asks option" where
  "inner_client out cfg c conn secret =
     (if mc_kind conn = kind_str OPENAI_COMPATIBLE then Some (external_chat (out_post out) (connection_external conn secret))
      else if mc_kind conn = kind_str OLLAMA then Some (ollama_chat (out_post out) (connection_ollama conn secret))
      else if mc_kind conn = kind_str CODEX then Some (codex_chat (out_runner out)
        (on_refresh (Some c) (mc_user_id conn) (mc_id conn)) (connection_codex cfg conn secret))
      else None)"

text \<open>The assistant only reads the text of a response.\<close>

definition text_of :: "('s, llm_response) asks \<Rightarrow> ('s, llm_options) client" where
  "text_of model opts messages = bindM (model opts messages) (\<lambda>r. returnM (lr_content r))"

definition build_client :: "outside \<Rightarrow> model_settings \<Rightarrow> cipher \<Rightarrow> model_connection \<Rightarrow> (world, llm_options) client option" where
  "build_client out cfg c conn = (case ci_decrypt c (mc_secret_encrypted conn) of
       None \<Rightarrow> None
     | Some secret \<Rightarrow> map_option (\<lambda>inner. text_of (track (on_invalidate (mc_user_id conn) (mc_id conn)) inner))
         (inner_client out cfg c conn secret))"

fun add_clients ::
  "outside \<Rightarrow> model_settings \<Rightarrow> cipher \<Rightarrow> model_connection list \<Rightarrow> (string \<times> (world, llm_options) client) list
   \<Rightarrow> (string \<times> (world, llm_options) client) list" where
  "add_clients out cfg c [] clients = clients"
| "add_clients out cfg c (conn # conns) clients = add_clients out cfg c conns
     (if mc_status conn \<noteq> ACTIVE_STATUS then clients
      else case build_client out cfg c conn of
          None \<Rightarrow> clients
        | Some client \<Rightarrow> dict_set (uuid_str (mc_id conn)) client clients)"

definition build_clients ::
  "outside \<Rightarrow> model_settings \<Rightarrow> cipher option \<Rightarrow> uuid \<Rightarrow> (string \<times> (world, llm_options) client) list M" where
  "build_clients out cfg cipher user_id = (case cipher of
       None \<Rightarrow> returnM []
     | Some c \<Rightarrow> bindM (conn_list_by_user user_id) (\<lambda>conns. returnM (add_clients out cfg c conns [])))"

section \<open>The assistant's models\<close>

definition settings_external :: "string \<Rightarrow> string \<Rightarrow> string \<Rightarrow> int \<Rightarrow> string \<Rightarrow> external_client" where
  "settings_external url model key num_predict temp = \<lparr>xc_base_url = url, xc_model = model, xc_api_key = key,
     xc_num_predict = num_predict, xc_structured_temperature = temp\<rparr>"

definition build_local_client :: "outside \<Rightarrow> model_settings \<Rightarrow> (world, llm_response) asks" where
  "build_local_client out cfg =
     (if ms_llm_provider cfg = ''openai_compatible''
      then external_chat (out_post out) (settings_external (ms_llm_base_url cfg) (ms_assistant_model cfg) (ms_llm_api_key cfg)
        (ms_llm_num_predict cfg) (ms_llm_structured_temperature cfg))
      else ollama_chat (out_post out) \<lparr>oc_base_url = ms_llm_base_url cfg,
        oc_fallback_base_urls = (if ms_llm_fallback_base_url cfg = [] then [] else [ms_llm_fallback_base_url cfg]),
        oc_model = ms_assistant_model cfg, oc_api_key = ms_llm_api_key cfg, oc_keep_alive = ms_llm_keep_alive cfg,
        oc_num_predict = ms_llm_num_predict cfg, oc_structured_temperature = ms_llm_structured_temperature cfg,
        oc_disable_thinking = ms_llm_disable_thinking cfg\<rparr>)"

definition global_external :: "outside \<Rightarrow> model_settings \<Rightarrow> (world, llm_options) client option" where
  "global_external out cfg =
     (if ms_external_llm_enabled cfg \<and> ms_external_llm_base_url cfg \<noteq> [] \<and> ms_external_model cfg \<noteq> []
      then Some (text_of (external_chat (out_post out) (settings_external (ms_external_llm_base_url cfg) (ms_external_model cfg)
        (ms_external_llm_api_key cfg) 0 ''0.0'')))
      else None)"

definition assistant_router ::
  "outside \<Rightarrow> model_settings \<Rightarrow> (string \<times> (world, llm_options) client) list \<Rightarrow> (world, llm_options) model_router" where
  "assistant_router out cfg clients = \<lparr>mr_local = text_of (build_local_client out cfg), mr_external = global_external out cfg,
     mr_external_enabled = (global_external out cfg \<noteq> None), mr_max_local_attempts = ms_max_local_attempts cfg,
     mr_privacy_default = (if ms_privacy_default cfg = ''non_sensitive'' then NON_SENSITIVE else SENSITIVE),
     mr_external_clients = clients\<rparr>"

text \<open>One call of the user's model: the clients are built for the request, and the router asks one of them.\<close>

definition ask_model ::
  "outside \<Rightarrow> model_settings \<Rightarrow> uuid \<Rightarrow> llm_options \<Rightarrow> (string \<Rightarrow> bool) option \<Rightarrow> string option \<Rightarrow> llm_message list
   \<Rightarrow> (world, llm_failure, string) call" where
  "ask_model out cfg user_id opts validator target messages = (\<lambda>w.
     case bindM (liftM (\<lambda>_. build_cipher (out_fernet out) (ms_credential_encryption_key cfg)))
         (\<lambda>cipher. build_clients out cfg cipher user_id) w of
       (Inl e, w1) \<Rightarrow> (Inl (OtherException e), w1)
     | (Inr clients, w1) \<Rightarrow> router_chat (assistant_router out cfg clients) opts validator target messages w1)"

section \<open>Routes\<close>

record connection_view =
  cv_id :: uuid
  cv_label :: string
  cv_kind :: string
  cv_base_url :: string
  cv_model :: string
  cv_masked_hint :: string
  cv_status :: string
  cv_updated_at :: time

definition connection_view_of :: "model_connection \<Rightarrow> connection_view" where
  "connection_view_of c = \<lparr>cv_id = mc_id c, cv_label = mc_label c, cv_kind = mc_kind c, cv_base_url = mc_base_url c,
     cv_model = mc_model c, cv_masked_hint = mc_masked_hint c, cv_status = mc_status c, cv_updated_at = mc_updated_at c\<rparr>"

definition with_cipher :: "outside \<Rightarrow> model_settings \<Rightarrow> (cipher option \<Rightarrow> 'a M) \<Rightarrow> 'a M" where
  "with_cipher out cfg f = bindM (liftM (\<lambda>_. build_cipher (out_fernet out) (ms_credential_encryption_key cfg))) f"

definition not_configured :: "'a M \<Rightarrow> 'a M" where
  "not_configured m = catchM m (\<lambda>e. raiseM (if e = CredentialCipherError then HTTPException 503 else e))"

definition list_connections :: "outside \<Rightarrow> model_settings \<Rightarrow> uuid \<Rightarrow> connection_view list M" where
  "list_connections out cfg user_id = with_cipher out cfg (\<lambda>cipher.
     bindM (conn_list_by_user user_id) (\<lambda>conns. returnM (map connection_view_of conns)))"

definition create_connection :: "outside \<Rightarrow> model_settings \<Rightarrow> uuid \<Rightarrow> connection_body \<Rightarrow> connection_view M" where
  "create_connection out cfg user_id b = transact (with_cipher out cfg (\<lambda>cipher.
     thenM (guardM (connection_body_ok b) (AppError VALIDATION_ERROR 422))
       (bindM (not_configured (connection_create cipher user_id b)) (\<lambda>stored.
        returnM (connection_view_of stored)))))"

definition update_connection :: "outside \<Rightarrow> model_settings \<Rightarrow> uuid \<Rightarrow> uuid \<Rightarrow> connection_edit \<Rightarrow> connection_view M" where
  "update_connection out cfg user_id connection_id b = transact (with_cipher out cfg (\<lambda>cipher.
     thenM (guardM (connection_edit_ok b) (AppError VALIDATION_ERROR 422))
       (bindM (not_configured (connection_update cipher user_id connection_id b)) (\<lambda>stored. case stored of
        None \<Rightarrow> raiseM (HTTPException 404)
      | Some c \<Rightarrow> returnM (connection_view_of c)))))"

definition delete_connection :: "outside \<Rightarrow> model_settings \<Rightarrow> uuid \<Rightarrow> uuid \<Rightarrow> unit M" where
  "delete_connection out cfg user_id connection_id = transact (with_cipher out cfg (\<lambda>cipher.
     thenM (conn_delete user_id connection_id) (returnM ())))"

record model_option =
  mo_id :: string
  mo_label :: string
  mo_available :: bool

definition list_models :: "outside \<Rightarrow> model_settings \<Rightarrow> uuid \<Rightarrow> model_option list M" where
  "list_models out cfg user_id = with_cipher out cfg (\<lambda>cipher. bindM (conn_list_by_user user_id) (\<lambda>conns.
     returnM (\<lparr>mo_id = LOCAL_TARGET, mo_label = ''Local ('' @ ms_assistant_model cfg @ '')'', mo_available = True\<rparr>
       # map (\<lambda>c. \<lparr>mo_id = uuid_str (mc_id c),
           mo_label = mc_label c @ (if mc_model c = [] then [] else '' '' @ [CHR 0xB7] @ '' '' @ mc_model c),
           mo_available = (mc_status c = ACTIVE_STATUS)\<rparr>) conns)))"

section \<open>Embeddings\<close>

definition build_embedding_client :: "outside \<Rightarrow> model_settings \<Rightarrow> (json \<Rightarrow> error + string) \<Rightarrow> embedder option" where
  "build_embedding_client out cfg to_float = (if ms_embedding_enabled cfg
     then Some (ollama_embed (out_post out) to_float \<lparr>ec_base_url =
        (if ms_embedding_base_url cfg = [] then ms_llm_base_url cfg else ms_embedding_base_url cfg),
        ec_model = ms_embedding_model cfg, ec_api_key = ms_llm_api_key cfg\<rparr>)
     else None)"

definition build_search_index_service :: "outside \<Rightarrow> model_settings \<Rightarrow> (json \<Rightarrow> error + string) \<Rightarrow> extraction \<Rightarrow> indexer" where
  "build_search_index_service out cfg to_float ex =
     \<lparr>ix_extraction = ex, ix_client = build_embedding_client out cfg to_float, ix_model = ms_embedding_model cfg\<rparr>"

end
