(* ===== verification/ExternalProperties.thy ===== *)
theory ExternalProperties
  imports ExternalModels Samples
begin

text \<open>
  What holds of the users' own models: a refused credential rests until its owner replaces it, a stored credential is the one that is
  used while only its mask is shown, and an Ollama client answers from its first endpoint that is up.
\<close>

section \<open>Requests\<close>

datatype model_request =
    M_LIST
  | M_CREATE connection_body
  | M_UPDATE uuid connection_edit
  | M_DELETE uuid
  | M_MODELS
  | M_ASK llm_options "(string \<Rightarrow> bool) option" "string option" "llm_message list"

fun serve_model :: "outside \<Rightarrow> model_settings \<Rightarrow> uuid \<Rightarrow> model_request \<Rightarrow> world \<Rightarrow> world" where
  "serve_model out cfg u M_LIST w = snd (list_connections out cfg u w)"
| "serve_model out cfg u (M_CREATE b) w = snd (create_connection out cfg u b w)"
| "serve_model out cfg u (M_UPDATE i b) w = snd (update_connection out cfg u i b w)"
| "serve_model out cfg u (M_DELETE i) w = snd (delete_connection out cfg u i w)"
| "serve_model out cfg u M_MODELS w = snd (list_models out cfg u w)"
| "serve_model out cfg u (M_ASK opts v target ms) w = snd (ask_model out cfg u opts v target ms w)"

fun model_requests :: "outside \<Rightarrow> model_settings \<Rightarrow> (uuid \<times> model_request) list \<Rightarrow> world \<Rightarrow> world" where
  "model_requests out cfg [] w = w"
| "model_requests out cfg ((u, r) # rs) w = model_requests out cfg rs (serve_model out cfg u r w)"

text \<open>The request replaces the credential of the connection.\<close>

definition replaces_secret :: "uuid \<Rightarrow> uuid \<Rightarrow> uuid \<times> model_request \<Rightarrow> bool" where
  "replaces_secret u i r = (fst r = u \<and> (case snd r of M_UPDATE j b \<Rightarrow> j = i \<and> cd_secret b \<noteq> None | _ \<Rightarrow> False))"

text \<open>The keys under which the assistant finds a client of the user.\<close>

definition user_clients :: "outside \<Rightarrow> model_settings \<Rightarrow> uuid \<Rightarrow> world \<Rightarrow> (string \<times> (world, llm_options) client) list" where
  "user_clients out cfg u w = (case fst (with_cipher out cfg (\<lambda>cipher. build_clients out cfg cipher u) w) of
     Inl e \<Rightarrow> [] | Inr clients \<Rightarrow> clients)"

definition offered :: "outside \<Rightarrow> model_settings \<Rightarrow> uuid \<Rightarrow> world \<Rightarrow> string list" where
  "offered out cfg u w = map fst (user_clients out cfg u w)"

section \<open>Invariants of the table\<close>

definition conn_ok :: "world \<Rightarrow> bool" where
  "conn_ok w = (distinct (map mc_id (connections w)) \<and> list_all (\<lambda>c. mc_id c < uuid_next w) (connections w))"

text \<open>The connection, if it is there, belongs to the user; it is marked as refused.\<close>

definition owned :: "uuid \<Rightarrow> uuid \<Rightarrow> world \<Rightarrow> bool" where
  "owned u i w \<longleftrightarrow> conn_ok w \<and> i < uuid_next w \<and> (\<forall>c \<in> set (connections w). mc_id c = i \<longrightarrow> mc_user_id c = u)"

definition resting :: "uuid \<Rightarrow> uuid \<Rightarrow> world \<Rightarrow> bool" where
  "resting u i w \<longleftrightarrow> owned u i w \<and> (\<forall>c \<in> set (connections w). mc_id c = i \<longrightarrow> mc_status c = INVALID_STATUS)"

lemma owned_resting: "resting u i w \<Longrightarrow> owned u i w"
  by (simp add: resting_def)

lemma owned_rollback: "owned u i w \<Longrightarrow> owned u i (rollback w w')"
  by (auto simp: owned_def conn_ok_def rollback_def list_all_iff)

lemma resting_rollback: "resting u i w \<Longrightarrow> resting u i (rollback w w')"
  by (simp add: resting_def owned_rollback) (simp add: rollback_def)

text \<open>Rows may change as long as they keep their key, their owner, and the mark of the row in question.\<close>

definition harmless :: "(model_connection \<Rightarrow> model_connection) \<Rightarrow> bool" where
  "harmless f \<longleftrightarrow> (\<forall>c. mc_id (f c) = mc_id c \<and> mc_user_id (f c) = mc_user_id c)"

definition keeps_mark :: "(model_connection \<Rightarrow> model_connection) \<Rightarrow> bool" where
  "keeps_mark f \<longleftrightarrow> harmless f \<and> (\<forall>c. mc_status c = INVALID_STATUS \<longrightarrow> mc_status (f c) = INVALID_STATUS)"

lemma write_owned: "harmless f \<Longrightarrow> owned u i w \<Longrightarrow> owned u i (connections_update (row_update mc_id j f) w)"
  by (auto simp: owned_def conn_ok_def harmless_def list_all_iff row_keys_update set_row_update)

lemma write_resting:
  "harmless f \<Longrightarrow> (j = i \<Longrightarrow> keeps_mark f) \<Longrightarrow> resting u i w \<Longrightarrow> resting u i (connections_update (row_update mc_id j f) w)"
  unfolding resting_def by (cases "j = i") (auto simp: write_owned keeps_mark_def harmless_def set_row_update)

section \<open>What the clients may do\<close>

text \<open>An invariant that a refused and a refreshed credential keep is kept by every client and by the router over them.\<close>

definition connections_may :: "(world \<Rightarrow> bool) \<Rightarrow> bool" where
  "connections_may I \<longleftrightarrow> (\<forall>u i. preserves I (on_invalidate u i)) \<and> (\<forall>c u i s. preserves I (on_refresh c u i s))"

lemma preserves_external_chat: "preserves I (external_chat post c opts ms)"
  by (simp add: external_chat_def preserves_lift)

lemma preserves_ollama_chat: "preserves I (ollama_chat post c opts ms)"
  by (simp add: ollama_chat_def preserves_lift)

lemma preserves_persist: "(\<And>t. preserves I (refreshed t)) \<Longrightarrow> preserves I (persist_refresh c refreshed after)"
  by (cases after) (auto simp: persist_refresh_def preserves_def)

lemma preserves_codex_chat: "(\<And>t. preserves I (refreshed t)) \<Longrightarrow> preserves I (codex_chat runner refreshed c opts ms)"
  by (auto simp: codex_chat_def intro!: pres_rules preserves_persist)

lemma preserves_track: "preserves I auth \<Longrightarrow> preserves I (inner opts ms) \<Longrightarrow> preserves I (track auth inner opts ms)"
  by (auto simp: track_def preserves_def split: prod.splits sum.splits llm_failure.splits; metis snd_conv)

lemma preserves_inner:
  assumes "connections_may I" "inner_client out cfg c conn secret = Some inner"
  shows "preserves I (inner opts ms)"
  using assms unfolding inner_client_def connections_may_def
  by (auto intro: preserves_external_chat preserves_ollama_chat preserves_codex_chat split: if_splits)

lemma preserves_client:
  assumes "connections_may I" "build_client out cfg c conn = Some client"
  shows "preserves I (client opts ms)"
proof -
  from assms(2) obtain secret inner where inner: "inner_client out cfg c conn secret = Some inner"
    and client: "client = text_of (track (on_invalidate (mc_user_id conn) (mc_id conn)) inner)"
    by (auto simp: build_client_def split: option.splits)
  have "preserves I (on_invalidate (mc_user_id conn) (mc_id conn))" using assms(1) by (simp add: connections_may_def)
  from preserves_track [OF this preserves_inner [OF assms(1) inner]] show ?thesis
    by (auto simp: client text_of_def intro!: pres_rules)
qed

text \<open>Every client the assistant is given was built from an active connection.\<close>

lemma added_client:
  "map_of (add_clients out cfg c conns clients) k = Some client \<Longrightarrow> map_of clients k = Some client
    \<or> (\<exists>conn \<in> set conns. uuid_str (mc_id conn) = k \<and> mc_status conn = ACTIVE_STATUS \<and> build_client out cfg c conn = Some client)"
proof (induction conns arbitrary: clients)
  case (Cons conn conns)
  from Cons.IH [OF Cons.prems [unfolded add_clients.simps]] show ?case
    by (auto split: if_splits option.splits)
qed simp

lemma added_keys:
  "k \<in> fst ` set (add_clients out cfg c conns clients) \<Longrightarrow> k \<in> fst ` set clients
    \<or> (\<exists>conn \<in> set conns. uuid_str (mc_id conn) = k \<and> mc_status conn = ACTIVE_STATUS)"
proof (induction conns arbitrary: clients)
  case (Cons conn conns)
  from Cons.IH [OF Cons.prems [unfolded add_clients.simps]] show ?case
    by (auto split: if_splits option.splits)
qed simp

lemma built_client:
  assumes "build_clients out cfg cipher u w = (Inr clients, w1)" "map_of clients k = Some client"
  shows "w1 = w \<and> (\<exists>c conn. conn \<in> set (connections w) \<and> mc_user_id conn = u \<and> uuid_str (mc_id conn) = k
    \<and> mc_status conn = ACTIVE_STATUS \<and> build_client out cfg c conn = Some client)"
  using assms added_client [where clients = "[]"]
  by (fastforce simp: build_clients_def conn_list_by_user_def run_simps split: option.splits)

lemma built_keys:
  assumes "build_clients out cfg cipher u w = (Inr clients, w1)" "k \<in> fst ` set clients"
  shows "\<exists>conn. conn \<in> set (connections w) \<and> mc_user_id conn = u \<and> uuid_str (mc_id conn) = k \<and> mc_status conn = ACTIVE_STATUS"
  using assms added_keys [where clients = "[]"]
  by (fastforce simp: build_clients_def conn_list_by_user_def run_simps split: option.splits)

lemma preserves_local_attempts:
  "(\<And>opts ms. preserves I (mr_local r opts ms)) \<Longrightarrow> preserves I (local_attempts n r opts v ms u)"
proof (induction n arbitrary: u)
  case (Suc n)
  show ?case
    unfolding preserves_def
  proof (intro allI impI)
    fix w assume I: "I w"
    have "I (snd (mr_local r opts ms w))" by (rule preserves_snd [OF Suc.prems I])
    moreover have "\<And>u w. I w \<Longrightarrow> I (snd (local_attempts n r opts v ms u w))" using Suc by (simp add: preserves_def)
    ultimately show "I (snd (local_attempts (Suc n) r opts v ms u w))" by (auto split: prod.splits sum.splits option.splits)
  qed
qed (simp add: preserves_return)

lemma preserves_call_external: "(\<And>opts ms. preserves I (client opts ms)) \<Longrightarrow> preserves I (call_external r client opts ms)"
  by (simp add: call_external_def Let_def preserves_raise)

lemma preserves_router:
  assumes "\<And>opts ms. preserves I (mr_local r opts ms)"
    and "\<And>client opts ms. mr_external r = Some client \<Longrightarrow> preserves I (client opts ms)"
    and "\<And>k client opts ms. map_of (mr_external_clients r) k = Some client \<Longrightarrow> preserves I (client opts ms)"
  shows "preserves I (router_chat r opts v target ms)"
proof -
  have ext: "preserves I (try_external r opts ms)"
    using assms(2) by (auto simp: try_external_def preserves_raise intro: preserves_call_external split: option.split)
  have chosen: "preserves I (call_external r client opts ms)"
    if "(case map_of (mr_external_clients r) k of Some c \<Rightarrow> Some c | None \<Rightarrow> mr_external r) = Some client" for k client
    using that assms(2,3) by (auto intro: preserves_call_external split: option.splits)
  have given_up: "preserves I (case res of Inr response \<Rightarrow> returnM response
      | Inl unvalidated \<Rightarrow> if target = Some LOCAL_TARGET
          then (case unvalidated of Some response \<Rightarrow> returnM response | None \<Rightarrow> raiseM LLMUnavailable) else try_external r opts ms)" for res
    using ext by (auto intro: pres_rules split: sum.split option.split)
  show ?thesis
    unfolding router_chat_def
    by (intro preserves_if preserves_bind given_up preserves_local_attempts assms(1))
      (use chosen in \<open>auto intro: preserves_raise split: option.split\<close>)
qed

lemma preserves_ask:
  assumes "connections_may I"
  shows "preserves I (ask_model out cfg u opts v target ms)"
  unfolding preserves_def
proof (intro allI impI)
  fix w assume "I w"
  have "preserves I (router_chat (assistant_router out cfg clients) opts v target ms)"
    if built: "build_clients out cfg cipher u w = (Inr clients, w)" for cipher clients
  proof (rule preserves_router)
    fix k client opts ms
    assume "map_of (mr_external_clients (assistant_router out cfg clients)) k = Some client"
    then have "map_of clients k = Some client" by (simp add: assistant_router_def)
    from built_client [OF built this] show "preserves I (client opts ms)" by (blast intro: preserves_client [OF assms])
  qed (auto simp: assistant_router_def global_external_def build_local_client_def text_of_def split: if_splits
    intro!: pres_rules preserves_external_chat preserves_ollama_chat)
  moreover have "snd (build_clients out cfg cipher u w) = w" for cipher
    by (simp add: build_clients_def conn_list_by_user_def run_simps split: option.split)
  ultimately show "I (snd (ask_model out cfg u opts v target ms w))" using \<open>I w\<close>
    by (auto simp: ask_model_def run_simps preserves_def split: prod.splits sum.splits) (metis snd_conv)+
qed

section \<open>What the requests keep\<close>

lemma run_conn_get: "conn_get u i w = (Inr (Some c), w') \<Longrightarrow> w' = w \<and> c \<in> set (connections w) \<and> mc_id c = i \<and> mc_user_id c = u"
proof -
  assume "conn_get u i w = (Inr (Some c), w')"
  then have "scalar_one_or_none (filter (\<lambda>c. mc_user_id c = u \<and> mc_id c = i) (connections w)) = Inr (Some c)" "w' = w"
    by (auto simp: conn_get_def run_simps)
  moreover from scalar_Some [OF this(1)] have "c \<in> set (filter (\<lambda>c. mc_user_id c = u \<and> mc_id c = i) (connections w))" by simp
  ultimately show ?thesis by simp
qed

lemma keeps_conn_get: "keeps f (conn_get u i)"
  by (simp add: conn_get_def keeps_lift)

lemma patch_harmless: "harmless (patch_connection p t)"
  by (simp add: harmless_def patch_connection_def)

lemma patch_keeps_mark: "cp_status p = None \<Longrightarrow> keeps_mark (patch_connection p t)"
  by (simp add: keeps_mark_def harmless_def patch_connection_def given_def)

lemma refusal_keeps_mark: "keeps_mark (mc_status_update (\<lambda>_. INVALID_STATUS))"
  by (simp add: keeps_mark_def harmless_def)

text \<open>A request that finds the row in question comes from its owner.\<close>

lemma owned_writes:
  assumes "harmless f"
  shows "preserves (owned u i) (write_connection j f)"
  unfolding preserves_def by (simp add: write_connection_def run_simps write_owned [OF assms])

lemma resting_writes:
  assumes "resting u i w" "conn_get v j w = (Inr (Some c), w)" "harmless f" "v = u \<Longrightarrow> j = i \<Longrightarrow> keeps_mark f"
  shows "resting u i (connections_update (row_update mc_id (mc_id c) f) w)"
proof (rule write_resting [OF assms(3) _ assms(1)])
  assume "mc_id c = i"
  with run_conn_get [OF assms(2)] assms(1) have "v = u" "j = i" by (auto simp: resting_def owned_def)
  with assms(4) show "keeps_mark f" by simp
qed

lemma conn_update_owned: "preserves (owned u i) (conn_update v j p t)"
  unfolding conn_update_def
  by (intro preserves_bind preserves_of_keeps keeps_conn_get preserves_case_option preserves_return preserves_then owned_writes patch_harmless)

lemma conn_update_resting:
  assumes "v = u \<Longrightarrow> j = i \<Longrightarrow> cp_status p = None"
  shows "preserves (resting u i) (conn_update v j p t)"
  unfolding preserves_def
proof (intro allI impI)
  fix w assume "resting u i w"
  then show "resting u i (snd (conn_update v j p t w))"
    using resting_writes [of u i w v j _ "patch_connection p t"] run_conn_get [of v j w] keepsD [OF keeps_conn_get, of v j w _ _ id]
      assms patch_harmless patch_keeps_mark
    by (auto simp: conn_update_def run_simps write_connection_def split: prod.splits sum.splits option.splits)
qed

lemma conn_refused:
  shows "preserves (owned u i) (conn_set_status v j INVALID_STATUS)" "preserves (resting u i) (conn_set_status v j INVALID_STATUS)"
proof -
  show "preserves (owned u i) (conn_set_status v j INVALID_STATUS)"
    unfolding conn_set_status_def
    by (intro preserves_bind preserves_of_keeps keeps_conn_get preserves_case_option preserves_return owned_writes)
      (simp add: harmless_def)
  show "preserves (resting u i) (conn_set_status v j INVALID_STATUS)"
    unfolding preserves_def
  proof (intro allI impI)
    fix w assume "resting u i w"
    then show "resting u i (snd (conn_set_status v j INVALID_STATUS w))"
      using resting_writes [of u i w v j _ "mc_status_update (\<lambda>_. INVALID_STATUS)"] run_conn_get [of v j w]
        keepsD [OF keeps_conn_get, of v j w _ _ id] refusal_keeps_mark
      by (auto simp: conn_set_status_def run_simps write_connection_def keeps_mark_def split: prod.splits sum.splits option.splits)
  qed
qed

lemma connections_may_owned: "connections_may (owned u i)"
  unfolding connections_may_def on_invalidate_def on_refresh_def
  by (auto intro!: preserves_transact okay_of_preserves owned_rollback conn_refused pres_rules conn_update_owned split: option.split)

lemma connections_may_resting: "connections_may (resting u i)"
  unfolding connections_may_def on_invalidate_def on_refresh_def
  by (auto intro!: preserves_transact okay_of_preserves resting_rollback conn_refused pres_rules conn_update_resting split: option.split)

lemma preserves_with_cipher: "(\<And>cipher. preserves I (f cipher)) \<Longrightarrow> preserves I (with_cipher out cfg f)"
  unfolding with_cipher_def by (intro pres_rules)

lemma preserves_not_configured: "preserves I m \<Longrightarrow> preserves I (not_configured m)"
  unfolding not_configured_def by (intro pres_rules)

lemma created_connection:
  "connection_create cipher v b w = (Inr c, w') \<Longrightarrow>
    mc_id c = uuid_next w \<and> mc_user_id c = v \<and> connections w' = connections w @ [c] \<and> uuid_next w' = Suc (uuid_next w)"
  by (auto simp: connection_create_def conn_create_def run_simps split: option.splits if_splits)

lemma create_keeps:
  "preserves (owned u i) (connection_create cipher v b)" "preserves (resting u i) (connection_create cipher v b)"
proof -
  have eq: "connection_create cipher v b w = (Inl e, w') \<Longrightarrow> connections w' = connections w \<and> uuid_next w \<le> uuid_next w'" for w e w'
    by (auto simp: connection_create_def conn_create_def run_simps split: option.splits if_splits)
  have fresh: "x \<in> set (connections w) \<Longrightarrow> conn_ok w \<Longrightarrow> mc_id x < uuid_next w" for x w
    by (auto simp: conn_ok_def list_all_iff)
  show own: "preserves (owned u i) (connection_create cipher v b)"
    unfolding preserves_def
  proof (intro allI impI)
    fix w assume "owned u i w"
    moreover obtain r w' where m: "connection_create cipher v b w = (r, w')" by (cases "connection_create cipher v b w")
    ultimately show "owned u i (snd (connection_create cipher v b w))"
      using eq [of w _ w'] created_connection [of cipher v b w _ w'] fresh [of _ w]
      by (cases r) (force simp: owned_def conn_ok_def list_all_iff)+
  qed
  show "preserves (resting u i) (connection_create cipher v b)"
    unfolding preserves_def
  proof (intro allI impI)
    fix w assume rest: "resting u i w"
    moreover obtain r w' where m: "connection_create cipher v b w = (r, w')" by (cases "connection_create cipher v b w")
    moreover have "owned u i (snd (connection_create cipher v b w))" by (rule preserves_snd [OF own owned_resting [OF rest]])
    ultimately show "resting u i (snd (connection_create cipher v b w))"
      using eq [of w _ w'] created_connection [of cipher v b w _ w']
      by (cases r) (auto simp: resting_def owned_def)
  qed
qed

lemma delete_keeps:
  "preserves (owned u i) (conn_delete v j)" "preserves (resting u i) (conn_delete v j)"
proof -
  have conn: "conn_delete v j w = (r, w') \<Longrightarrow> set (connections w') \<subseteq> set (connections w) \<and> uuid_next w' = uuid_next w
      \<and> (conn_ok w \<longrightarrow> conn_ok w')" for w r w'
    using keepsD [OF keeps_conn_get, of v j w _ _ id]
    by (auto simp: conn_delete_def run_simps conn_ok_def list_all_iff row_delete_def distinct_map_filter split: prod.splits sum.splits option.splits)
  show "preserves (owned u i) (conn_delete v j)" "preserves (resting u i) (conn_delete v j)"
    using conn by (auto simp: preserves_def resting_def owned_def; metis subsetD surjective_pairing)+
qed

lemma update_keeps:
  "preserves (owned u i) (connection_update cipher v j b)"
  "\<not> replaces_secret u i (v, M_UPDATE j b) \<Longrightarrow> preserves (resting u i) (connection_update cipher v j b)"
proof -
  show "preserves (owned u i) (connection_update cipher v j b)"
    unfolding connection_update_def
    by (auto intro!: preserves_raise preserves_bind preserves_gets preserves_now conn_update_owned split: option.split)
  assume no: "\<not> replaces_secret u i (v, M_UPDATE j b)"
  have "preserves (resting u i) (conn_update v j (edit_patch c w b) t)" for c w t
    by (rule conn_update_resting) (use no in \<open>simp add: edit_patch_def replaces_secret_def\<close>)
  then show "preserves (resting u i) (connection_update cipher v j b)"
    by (cases cipher) (simp_all add: connection_update_def preserves_raise, simp add: preserves_def run_simps)
qed

lemma request_owned: "owned u i w \<Longrightarrow> owned u i (serve_model out cfg v r w)"
proof -
  assume own: "owned u i w"
  have "preserves (owned u i) (list_connections out cfg v)" "preserves (owned u i) (list_models out cfg v)"
    unfolding list_connections_def list_models_def conn_list_by_user_def by (intro pres_rules preserves_with_cipher)+
  moreover have "preserves (owned u i) (create_connection out cfg v b)" for b
    unfolding create_connection_def
    by (intro preserves_transact okay_of_preserves owned_rollback preserves_with_cipher pres_rules preserves_not_configured create_keeps)
  moreover have "preserves (owned u i) (update_connection out cfg v j b)" for j b
    unfolding update_connection_def
    by (intro preserves_transact okay_of_preserves owned_rollback preserves_with_cipher pres_rules preserves_not_configured update_keeps)
  moreover have "preserves (owned u i) (delete_connection out cfg v j)" for j
    unfolding delete_connection_def
    by (intro preserves_transact okay_of_preserves owned_rollback preserves_with_cipher pres_rules delete_keeps)
  ultimately show ?thesis
    using own preserves_ask [OF connections_may_owned] by (cases r) (auto simp: preserves_def)
qed

lemma request_resting:
  assumes "resting u i w" "\<not> replaces_secret u i (v, r)"
  shows "resting u i (serve_model out cfg v r w)"
proof -
  have no: "\<not> replaces_secret u i (v, M_UPDATE j b)" if "r = M_UPDATE j b" for j b
    using assms(2) that by simp
  have "preserves (resting u i) (list_connections out cfg v)" "preserves (resting u i) (list_models out cfg v)"
    unfolding list_connections_def list_models_def conn_list_by_user_def by (intro pres_rules preserves_with_cipher)+
  moreover have "preserves (resting u i) (create_connection out cfg v b)" for b
    unfolding create_connection_def
    by (intro preserves_transact okay_of_preserves resting_rollback preserves_with_cipher pres_rules preserves_not_configured create_keeps)
  moreover have "preserves (resting u i) (update_connection out cfg v j b)" if "r = M_UPDATE j b" for j b
    unfolding update_connection_def
    by (intro preserves_transact okay_of_preserves resting_rollback preserves_with_cipher pres_rules preserves_not_configured update_keeps no that)
  moreover have "preserves (resting u i) (delete_connection out cfg v j)" for j
    unfolding delete_connection_def
    by (intro preserves_transact okay_of_preserves resting_rollback preserves_with_cipher pres_rules delete_keeps)
  ultimately show ?thesis
    using assms(1) preserves_ask [OF connections_may_resting] by (cases r) (auto simp: preserves_def)
qed

lemma requests_resting:
  "resting u i w \<Longrightarrow> list_all (\<lambda>r. \<not> replaces_secret u i r) rs \<Longrightarrow> resting u i (model_requests out cfg rs w)"
  by (induction rs arbitrary: w) (auto simp: request_resting)

section \<open>Refused credentials\<close>

lemma uuid_str_eq [simp]: "uuid_str i = uuid_str j \<longleftrightarrow> i = j"
  by (metis parse_uuid_str option.inject)

lemma uuid_not_local: "uuid_str i \<noteq> LOCAL_TARGET"
proof
  assume "uuid_str i = LOCAL_TARGET"
  then have "CHR ''l'' \<in> set (nat_str i)" by (simp add: uuid_str_def LOCAL_TARGET_def)
  then obtain d :: nat where d: "d < 10" "CHR ''l'' = char_of (48 + d)" using nat_str_digits by blast
  have "of_char CHR ''l'' = (108 :: nat)" by simp
  with d of_char_digit [OF d(1)] show False by simp
qed

lemma updated_mark: "c \<in> set (row_update mc_id i (mc_status_update (\<lambda>_. s)) rows) \<Longrightarrow> mc_id c = i \<Longrightarrow> mc_status c = s"
proof -
  assume "c \<in> set (row_update mc_id i (mc_status_update (\<lambda>_. s)) rows)" and i: "mc_id c = i"
  then obtain r where "c = (if mc_id r = i then mc_status_update (\<lambda>_. s) r else r)" unfolding set_row_update by blast
  with i show ?thesis by (cases "mc_id r = i") simp_all
qed

lemma refusal_marks:
  assumes "owned u i w" "on_invalidate u i w = (Inr x, w')"
  shows "resting u i w'"
proof -
  from assms(2) have set: "conn_set_status u i INVALID_STATUS w = (Inr x, w')" by (simp add: on_invalidate_def)
  have "owned u i w'" using preservesD [OF conn_refused(1) assms(1) set] .
  moreover have "mc_status c = INVALID_STATUS" if "c \<in> set (connections w')" "mc_id c = i" for c
  proof (cases "filter (\<lambda>c. mc_user_id c = u \<and> mc_id c = i) (connections w)" rule: scalar_one_or_none.cases)
    case 1
    with set have "w' = w" by (simp add: conn_set_status_def conn_get_def run_simps)
    with that assms(1) 1 show ?thesis by (auto simp: owned_def filter_empty_conv)
  next
    case (2 d)
    then have "d \<in> set (filter (\<lambda>c. mc_user_id c = u \<and> mc_id c = i) (connections w))" by simp
    then have "mc_id d = i" by simp
    with 2 set have "w' = connections_update (row_update mc_id i (mc_status_update (\<lambda>_. INVALID_STATUS))) w"
      by (simp add: conn_set_status_def conn_get_def run_simps write_connection_def)
    then have "connections w' = row_update mc_id i (mc_status_update (\<lambda>_. INVALID_STATUS)) (connections w)" by simp
    with that(1) have "c \<in> set (row_update mc_id i (mc_status_update (\<lambda>_. INVALID_STATUS)) (connections w))" by simp
    from updated_mark [OF this that(2)] show ?thesis .
  next
    case 3
    with set show ?thesis by (simp add: conn_set_status_def conn_get_def run_simps)
  qed
  ultimately show ?thesis by (simp add: resting_def)
qed

lemma call_external_refused:
  assumes "call_external r client opts ms w = (Inl ExternalAuthFailed, w')"
  obtains ms' where "client opts ms' w = (Inl ExternalAuthFailed, w')"
  using assms by (auto simp: call_external_def Let_def split: if_splits)

lemma tracked_refused:
  assumes "text_of (track auth inner) opts ms w = (Inl ExternalAuthFailed, w')"
  obtains w1 x where "inner opts ms w = (Inl ExternalAuthFailed, w1)" "auth w1 = (Inr x, w')"
  using assms by (auto simp: text_of_def track_def run_simps split: prod.splits sum.splits llm_failure.splits)

lemma client_refused:
  assumes "build_client out cfg c conn = Some client" "client opts ms w = (Inl ExternalAuthFailed, w')" "owned (mc_user_id conn) (mc_id conn) w"
  shows "resting (mc_user_id conn) (mc_id conn) w'"
proof -
  from assms(1) obtain secret inner where inner: "inner_client out cfg c conn secret = Some inner"
    and client: "client = text_of (track (on_invalidate (mc_user_id conn) (mc_id conn)) inner)"
    by (auto simp: build_client_def split: option.splits)
  from assms(2) obtain w1 x where "inner opts ms w = (Inl ExternalAuthFailed, w1)"
    and marked: "on_invalidate (mc_user_id conn) (mc_id conn) w1 = (Inr x, w')"
    unfolding client by (rule tracked_refused)
  then have "owned (mc_user_id conn) (mc_id conn) w1" using preservesD [OF preserves_inner [OF connections_may_owned inner] assms(3)] by blast
  from refusal_marks [OF this marked] show ?thesis .
qed

lemma user_clients_eq:
  assumes "k \<in> set (offered out cfg u w)"
  obtains cipher clients where "build_cipher (out_fernet out) (ms_credential_encryption_key cfg) = Inr cipher"
    and "build_clients out cfg cipher u w = (Inr clients, w)" "map_of clients k \<noteq> None"
proof -
  from assms obtain cipher clients w' where *: "build_cipher (out_fernet out) (ms_credential_encryption_key cfg) = Inr cipher"
    "build_clients out cfg cipher u w = (Inr clients, w')" "k \<in> fst ` set clients"
    by (auto simp: offered_def user_clients_def with_cipher_def run_simps split: sum.splits) (metis image_eqI fst_conv surjective_pairing)
  then have "w' = w" by (auto simp: build_clients_def conn_list_by_user_def run_simps split: option.splits)
  with * that show ?thesis by (auto simp: map_of_eq_None_iff)
qed

lemma ask_refused:
  assumes "conn_ok w" "c \<in> set (connections w)" "uuid_str (mc_id c) \<in> set (offered out cfg (mc_user_id c) w)"
    and ask: "ask_model out cfg (mc_user_id c) opts v (Some (uuid_str (mc_id c))) ms w = (Inl ExternalAuthFailed, w1)"
  shows "resting (mc_user_id c) (mc_id c) w1"
proof -
  from assms(3) obtain cipher clients where b: "build_cipher (out_fernet out) (ms_credential_encryption_key cfg) = Inr cipher"
    "build_clients out cfg cipher (mc_user_id c) w = (Inr clients, w)" "map_of clients (uuid_str (mc_id c)) \<noteq> None"
    by (rule user_clients_eq)
  then obtain client where client: "map_of clients (uuid_str (mc_id c)) = Some client" by blast
  from built_client [OF b(2) client] obtain ci conn where conn: "mc_user_id conn = mc_user_id c" "mc_id conn = mc_id c"
    "build_client out cfg ci conn = Some client" by auto
  from ask b client have "call_external (assistant_router out cfg clients) client opts ms w = (Inl ExternalAuthFailed, w1)"
    by (simp add: ask_model_def run_simps router_chat_def assistant_router_def uuid_not_local)
  then obtain ms' where "client opts ms' w = (Inl ExternalAuthFailed, w1)" by (rule call_external_refused)
  moreover have "owned (mc_user_id c) (mc_id c) w"
    using assms(1,2) by (auto simp: owned_def conn_ok_def list_all_iff distinct_map dest: inj_onD)
  ultimately show ?thesis using client_refused [OF conn(3)] conn(1,2) by auto
qed

lemma resting_not_offered: "resting u i w \<Longrightarrow> uuid_str i \<notin> set (offered out cfg u w)"
proof
  assume rest: "resting u i w" and "uuid_str i \<in> set (offered out cfg u w)"
  from this(2) obtain cipher clients where "build_clients out cfg cipher u w = (Inr clients, w)" "map_of clients (uuid_str i) \<noteq> None"
    by (rule user_clients_eq)
  with built_client obtain conn where "conn \<in> set (connections w)" "mc_id conn = i" "mc_status conn = ACTIVE_STATUS"
    by (metis (no_types, lifting) option.exhaust uuid_str_eq)
  with rest show False by (auto simp: resting_def ACTIVE_STATUS_def INVALID_STATUS_def)
qed

text \<open>C38: once the provider has refused the credential of a connection, the connection is marked as invalid and the assistant no longer finds
  a client under it, whatever requests its owner and others make, until the owner stores a new credential for it.\<close>

theorem rejected_credentials_rest:
  assumes "conn_ok w" "c \<in> set (connections w)" "uuid_str (mc_id c) \<in> set (offered out cfg (mc_user_id c) w)"
    and "ask_model out cfg (mc_user_id c) opts v (Some (uuid_str (mc_id c))) ms w = (Inl ExternalAuthFailed, w1)"
    and "list_all (\<lambda>r. \<not> replaces_secret (mc_user_id c) (mc_id c) r) rs"
  shows "uuid_str (mc_id c) \<notin> set (offered out cfg (mc_user_id c) (model_requests out cfg rs w1))
    \<and> (\<forall>d \<in> set (connections (model_requests out cfg rs w1)). mc_id d = mc_id c \<longrightarrow> mc_status d = INVALID_STATUS)"
  using resting_not_offered requests_resting [OF ask_refused [OF assms(1-4)] assms(5)] by (auto simp: resting_def)

text \<open>A world with one connection, whose provider refuses every credential.\<close>

definition sample_cipher :: cipher where
  "sample_cipher = \<lparr>ci_encrypt = (\<lambda>w s. CHR ''#'' # s), ci_decrypt = (\<lambda>s. if s = [] then None else Some (tl s))\<rparr>"

definition sample_outside :: outside where
  "sample_outside = \<lparr>out_post = (\<lambda>rq w. Inr (Reply 401 None)), out_runner = (\<lambda>cmd auth w. Inl LLMUnavailable),
     out_fernet = (\<lambda>key. Some sample_cipher)\<rparr>"

definition sample_models :: model_settings where
  "sample_models = \<lparr>ms_llm_provider = ''ollama'', ms_llm_base_url = ''http://l'', ms_llm_fallback_base_url = [], ms_assistant_model = ''m'',
     ms_llm_api_key = [], ms_llm_keep_alive = [], ms_llm_num_predict = 0, ms_llm_structured_temperature = ''0.2'',
     ms_llm_disable_thinking = False, ms_external_llm_enabled = False, ms_external_llm_base_url = [], ms_external_model = [],
     ms_external_llm_api_key = [], ms_external_chat_model = ''c'', ms_codex_bin = ''codex'', ms_privacy_default = ''non_sensitive'',
     ms_max_local_attempts = 1, ms_credential_encryption_key = ''k'', ms_embedding_enabled = False, ms_embedding_base_url = [],
     ms_embedding_model = []\<rparr>"

definition sample_connection :: model_connection where
  "sample_connection = \<lparr>mc_id = 40, mc_user_id = 1, mc_label = ''mine'', mc_kind = ''openai_compatible'', mc_base_url = ''http://p'',
     mc_model = ''m'', mc_secret_encrypted = ''#sk'', mc_masked_hint = ''sk'', mc_status = ACTIVE_STATUS, mc_created_at = 0, mc_updated_at = 0\<rparr>"

definition connection_world :: world where
  "connection_world = sample_world\<lparr>connections := [sample_connection]\<rparr>"

definition plain_options :: llm_options where
  "plain_options = \<lparr>lo_tools = [], lo_num_ctx = 10, lo_response_format = None, lo_temperature = None, lo_disable_thinking = None\<rparr>"

definition sample_ask :: "(world, llm_failure, string) call" where
  "sample_ask = ask_model sample_outside sample_models 1 plain_options None (Some (uuid_str 40)) [\<lparr>lm_role = USER_ROLE, lm_content = ''hi''\<rparr>]"

lemma sample_offered: "uuid_str 40 \<in> set (offered sample_outside sample_models 1 connection_world)"
  by code_simp

lemma sample_refused: "fst (sample_ask connection_world) = Inl ExternalAuthFailed"
  by code_simp

theorem rejected_credentials_rest_witness:
  "uuid_str 40 \<notin> set (offered sample_outside sample_models 1
     (model_requests sample_outside sample_models [(1, M_LIST), (2, M_DELETE 40)] (snd (sample_ask connection_world))))"
proof -
  have ask: "ask_model sample_outside sample_models (mc_user_id sample_connection) plain_options None
      (Some (uuid_str (mc_id sample_connection))) [\<lparr>lm_role = USER_ROLE, lm_content = ''hi''\<rparr>] connection_world
      = (Inl ExternalAuthFailed, snd (sample_ask connection_world))"
    using sample_refused by (simp add: sample_ask_def sample_connection_def prod_eq_iff)
  have "conn_ok connection_world" by (simp add: conn_ok_def connection_world_def sample_connection_def sample_world_def empty_world_def)
  from rejected_credentials_rest [OF this _ _ ask, of "[(1, M_LIST), (2, M_DELETE 40)]"] sample_offered show ?thesis
    by (simp add: connection_world_def replaces_secret_def sample_connection_def)
qed

section \<open>Stored credentials\<close>

lemma built_for:
  assumes "conn \<in> set conns" "distinct (map mc_id conns)" "mc_status conn = ACTIVE_STATUS" "build_client out cfg c conn = Some client"
  shows "map_of (add_clients out cfg c conns clients) (uuid_str (mc_id conn)) = Some client"
proof -
  have other: "map_of (add_clients out cfg c rest clients) k = map_of clients k"
    if "\<forall>d \<in> set rest. uuid_str (mc_id d) \<noteq> k" for rest k clients
    using that by (induction rest arbitrary: clients) (auto split: option.splits)
  show ?thesis
    using assms
  proof (induction conns arbitrary: clients)
    case (Cons d conns)
    show ?case
    proof (cases "d = conn")
      case True
      with Cons.prems(2) have "\<forall>x \<in> set conns. uuid_str (mc_id x) \<noteq> uuid_str (mc_id conn)"
        by (metis distinct.simps(2) imageI list.set_map list.simps(9) uuid_str_eq)
      with True Cons.prems(3,4) show ?thesis by (simp add: other)
    next
      case False
      with Cons.prems show ?thesis by (simp add: Cons.IH)
    qed
  qed simp
qed

definition inner_for :: "outside \<Rightarrow> model_settings \<Rightarrow> cipher \<Rightarrow> uuid \<Rightarrow> uuid \<Rightarrow> connection_body \<Rightarrow> (world, llm_response) asks" where
  "inner_for out cfg ci u i b = (case cb_kind b of
       OPENAI_COMPATIBLE \<Rightarrow> external_chat (out_post out) \<lparr>xc_base_url = cb_base_url b, xc_model = cb_model b, xc_api_key = cb_secret b,
         xc_num_predict = 0, xc_structured_temperature = ''0.0''\<rparr>
     | OLLAMA \<Rightarrow> ollama_chat (out_post out) \<lparr>oc_base_url = cb_base_url b, oc_fallback_base_urls = [], oc_model = cb_model b,
         oc_api_key = cb_secret b, oc_keep_alive = [], oc_num_predict = 0, oc_structured_temperature = ''0.0'', oc_disable_thinking = False\<rparr>
     | CODEX \<Rightarrow> codex_chat (out_runner out) (on_refresh (Some ci) u i) \<lparr>cc_auth_json = cb_secret b,
         cc_model = (if cb_model b = [] then ms_external_chat_model cfg else cb_model b), cc_bin = ms_codex_bin cfg\<rparr>)"

text \<open>C39: a connection that was stored is used with exactly the credential its owner gave, for every kind of connection, while the answer and
  the list of connections hold nothing of the credential but its mask.\<close>

theorem stored_credential_is_used:
  assumes "build_cipher (out_fernet out) (ms_credential_encryption_key cfg) = Inr (Some ci)"
    and "\<And>w s. ci_decrypt ci (ci_encrypt ci w s) = Some s"
    and "conn_ok w" "create_connection out cfg u b w = (Inr view, w1)"
  shows "view = \<lparr>cv_id = uuid_next w, cv_label = cb_label b, cv_kind = kind_str (cb_kind b), cv_base_url = cb_base_url b,
      cv_model = cb_model b, cv_masked_hint = mask_secret (cb_secret b), cv_status = ACTIVE_STATUS, cv_updated_at = clock w\<rparr>
    \<and> map_of (user_clients out cfg u w1) (uuid_str (cv_id view))
      = Some (text_of (track (on_invalidate u (cv_id view)) (inner_for out cfg ci u (cv_id view) b)))
    \<and> (\<exists>views. list_connections out cfg u w1 = (Inr views, w1) \<and> view \<in> set views)"
proof -
  from assms(1,4) obtain c where c: "connection_create (Some ci) u b w = (Inr c, w1)" "view = connection_view_of c"
    by (auto simp: create_connection_def with_cipher_def not_configured_def run_simps split: prod.splits sum.splits if_splits)
  have new: "connections w1 = connections w @ [c]" "c = \<lparr>mc_id = uuid_next w, mc_user_id = u, mc_label = cb_label b,
      mc_kind = kind_str (cb_kind b), mc_base_url = cb_base_url b, mc_model = cb_model b,
      mc_secret_encrypted = ci_encrypt ci (w\<lparr>uuid_next := Suc (uuid_next w)\<rparr>) (cb_secret b),
      mc_masked_hint = mask_secret (cb_secret b), mc_status = ACTIVE_STATUS, mc_created_at = clock w, mc_updated_at = clock w\<rparr>"
    using c(1) by (auto simp: connection_create_def conn_create_def run_simps split: if_splits)
  define conns where "conns = sort_key mc_created_at (filter (\<lambda>c. mc_user_id c = u) (connections w1))"
  have ids: "distinct (map mc_id (connections w1))" using assms(3) by (auto simp: new conn_ok_def list_all_iff)
  have "distinct (map mc_id conns)" unfolding conns_def distinct_map
    using ids by (auto simp: distinct_map inj_on_def)
  moreover have mem: "c \<in> set conns" by (simp add: conns_def new(1)) (simp add: new(2))
  moreover have "build_client out cfg ci c = Some (text_of (track (on_invalidate u (mc_id c)) (inner_for out cfg ci u (mc_id c) b)))"
    by (cases "cb_kind b") (simp_all add: new(2) build_client_def assms(2) inner_client_def kind_str_def inner_for_def
      connection_external_def connection_ollama_def connection_codex_def)
  ultimately have "map_of (add_clients out cfg ci conns []) (uuid_str (mc_id c))
      = Some (text_of (track (on_invalidate u (mc_id c)) (inner_for out cfg ci u (mc_id c) b)))"
    using built_for [of c conns] by (simp add: new(2))
  moreover have "user_clients out cfg u w1 = add_clients out cfg ci conns []"
    by (simp add: user_clients_def with_cipher_def run_simps assms(1) build_clients_def conn_list_by_user_def conns_def)
  moreover have "list_connections out cfg u w1 = (Inr (map connection_view_of conns), w1)"
    by (simp add: list_connections_def with_cipher_def run_simps assms(1) conn_list_by_user_def conns_def)
  ultimately show ?thesis using mem c(2) by (auto simp: connection_view_of_def) (simp_all add: new(2))
qed

definition sample_body :: connection_body where
  "sample_body = \<lparr>cb_label = ''mine'', cb_kind = OLLAMA, cb_base_url = ''http://o'', cb_model = ''m'', cb_secret = ''abcdefghijkl''\<rparr>"

lemma sample_created: "\<not> isl (fst (create_connection sample_outside sample_models 1 sample_body connection_world))"
  by code_simp

theorem stored_credential_is_used_witness:
  "\<exists>view w1. create_connection sample_outside sample_models 1 sample_body connection_world = (Inr view, w1)
    \<and> cv_masked_hint view = ''abc'' @ ELLIPSIS @ ''ijkl''
    \<and> map_of (user_clients sample_outside sample_models 1 w1) (uuid_str (cv_id view))
      = Some (text_of (track (on_invalidate 1 (cv_id view)) (inner_for sample_outside sample_models sample_cipher 1 (cv_id view) sample_body)))"
proof -
  obtain view w1 where made: "create_connection sample_outside sample_models 1 sample_body connection_world = (Inr view, w1)"
    using sample_created by (cases "create_connection sample_outside sample_models 1 sample_body connection_world"; cases "fst (create_connection
      sample_outside sample_models 1 sample_body connection_world)") auto
  have "conn_ok connection_world" by (simp add: conn_ok_def connection_world_def sample_connection_def sample_world_def empty_world_def)
  moreover have "build_cipher (out_fernet sample_outside) (ms_credential_encryption_key sample_models) = Inr (Some sample_cipher)"
    by (simp add: build_cipher_def sample_outside_def sample_models_def)
  moreover have "ci_decrypt sample_cipher (ci_encrypt sample_cipher w s) = Some s" for w s by (simp add: sample_cipher_def)
  ultimately have *: "view = \<lparr>cv_id = uuid_next connection_world, cv_label = cb_label sample_body, cv_kind = kind_str (cb_kind sample_body),
      cv_base_url = cb_base_url sample_body, cv_model = cb_model sample_body, cv_masked_hint = mask_secret (cb_secret sample_body),
      cv_status = ACTIVE_STATUS, cv_updated_at = clock connection_world\<rparr>"
    "map_of (user_clients sample_outside sample_models 1 w1) (uuid_str (cv_id view))
      = Some (text_of (track (on_invalidate 1 (cv_id view)) (inner_for sample_outside sample_models sample_cipher 1 (cv_id view) sample_body)))"
    using stored_credential_is_used [OF _ _ _ made, of sample_cipher] by blast+
  have "mask_secret (cb_secret sample_body) = ''abc'' @ ELLIPSIS @ ''ijkl''" by code_simp
  with made * show ?thesis by auto
qed

text \<open>The mask of a credential of one or two characters is the credential.\<close>

lemma short_credential_is_shown:
  "secret \<noteq> [] \<Longrightarrow> length secret \<le> 2 \<Longrightarrow> py_strip secret = secret \<Longrightarrow> mask_secret secret = ELLIPSIS @ secret"
  by (simp add: mask_secret_def)

text \<open>Otherwise it holds at most seven characters of it.\<close>

lemma mask_bounded: "length (mask_secret secret) \<le> 8"
  by (simp add: mask_secret_def Let_def ELLIPSIS_def) arith

section \<open>Endpoints\<close>

text \<open>The loop over the endpoints answers with the first of them that is up and does not fail for a passing reason.\<close>

lemma ollama_loop_first:
  "ollama_loop post c opts ms urls s = (case List.find (\<lambda>r. r \<noteq> None)
     (map (\<lambda>url. read_ollama (oc_model c) (post (ollama_request c url opts ms) s)) urls) of Some (Some r) \<Rightarrow> r | _ \<Rightarrow> Inl LLMUnavailable)"
  by (induction urls) (auto split: option.split)

lemma ollama_unavailable_only_if_all_down:
  assumes "ollama_chat post c opts ms s = (Inl LLMUnavailable, s')" "url \<in> set (ollama_urls c)"
  shows "read_ollama (oc_model c) (post (ollama_request c url opts ms) s) = None
    \<or> (\<exists>url' \<in> set (ollama_urls c). read_ollama (oc_model c) (post (ollama_request c url' opts ms) s) = Some (Inl LLMUnavailable))"
proof -
  have "read_ollama (oc_model c) (post (ollama_request c url opts ms) s) = None
      \<or> (\<exists>url' \<in> set urls. read_ollama (oc_model c) (post (ollama_request c url' opts ms) s) = Some (Inl LLMUnavailable))"
    if "ollama_loop post c opts ms urls s = Inl LLMUnavailable" "url \<in> set urls" for urls
    using that by (induction urls) (auto split: option.splits)
  with assms show ?thesis by (auto simp: ollama_chat_def run_simps)
qed

text \<open>What a provider says that is no JSON, or a reason that is a text instead of an object, ends in an error of no client's kind.\<close>

lemma garbage_is_no_client_error:
  "is_success status \<Longrightarrow> read_external model (Inr (Reply status None)) = Inl (OtherException ValueError)"
  by (simp add: read_external_def)

lemma quota_text_is_no_client_error:
  "read_external model (Inr (Reply 429 (Some (JObj [(''error'', JStr ''quota'')])))) = Inl (OtherException PyAttributeError)"
  by (simp add: read_external_def is_success_def external_credential_error_def get_or_def)

end
