(* ===== verification/Routes.thy ===== *)
theory Routes
  imports Drive Trash Share Snapshots Download Preview Auth Search UploadSessions
begin

text \<open>
  The HTTP routes of a signed-in user over drive, trash, uploads, shares, snapshots, profile, downloads and previews (\<open>*/router.py\<close>): what the
  bodies and queries must satisfy, which collaborators the services get, and where the transaction is committed. Serialisation of
  the responses is not modelled. What lies outside is collected in one record.
\<close>

section \<open>The application\<close>

record 'tok app =
  app_crypto :: "'tok crypto"
  app_settings :: settings
  app_indexer :: indexer
  app_label_of :: "time \<Rightarrow> string"
  app_office :: bool
  app_convert :: "bytes \<Rightarrow> string \<Rightarrow> bytes option"

text \<open>\<open>app_error_handler\<close> and what the framework does with other exceptions: the status of the response.\<close>

definition status_of :: "error \<Rightarrow> nat" where
  "status_of e = (case e of AppError code status \<Rightarrow> status | HTTPException status \<Rightarrow> status | _ \<Rightarrow> 500)"

definition length_within :: "nat \<Rightarrow> nat \<Rightarrow> string \<Rightarrow> bool" where
  "length_within lo hi s = (lo \<le> length s \<and> length s \<le> hi)"

section \<open>Drive\<close>

definition list_items_route :: "uuid \<Rightarrow> uuid option \<Rightarrow> int \<Rightarrow> int \<Rightarrow> sort_field \<Rightarrow> sort_order \<Rightarrow> item_response page M" where
  "list_items_route v parent_id page page_size sort_by ord =
     thenM (valid_body (page \<ge> 1 \<and> 1 \<le> page_size \<and> page_size \<le> 200)) (list_items drive_router v parent_id page page_size sort_by ord)"

definition get_item_route :: "uuid \<Rightarrow> uuid \<Rightarrow> item_response M" where
  "get_item_route v item_id = get_item drive_router v item_id"

definition create_folder_route :: "uuid \<Rightarrow> uuid option \<Rightarrow> string \<Rightarrow> item_response M" where
  "create_folder_route v parent_id name =
     thenM (valid_body (length_within 1 512 name)) (transact (create_folder drive_router v parent_id name))"

definition rename_route :: "uuid \<Rightarrow> uuid \<Rightarrow> string \<Rightarrow> item_response M" where
  "rename_route v item_id name = thenM (valid_body (length_within 1 512 name)) (transact (rename drive_router v item_id name))"

definition move_route :: "uuid \<Rightarrow> uuid \<Rightarrow> uuid option \<Rightarrow> item_response M" where
  "move_route v item_id parent_id = transact (move drive_router v item_id parent_id)"

definition star_route :: "uuid \<Rightarrow> uuid \<Rightarrow> bool \<Rightarrow> item_response M" where
  "star_route v item_id starred = transact (set_starred drive_router v item_id starred)"

definition ancestors_route :: "uuid \<Rightarrow> uuid \<Rightarrow> item_response list M" where
  "ancestors_route v item_id = get_ancestors drive_router v item_id"

definition recent_route :: "uuid \<Rightarrow> int \<Rightarrow> item_response list M" where
  "recent_route v limit = thenM (valid_body (1 \<le> limit \<and> limit \<le> 100)) (get_recent drive_router v limit)"

definition starred_route :: "uuid \<Rightarrow> int \<Rightarrow> item_response list M" where
  "starred_route v limit = thenM (valid_body (1 \<le> limit \<and> limit \<le> 200)) (get_starred v limit)"

text \<open>The drive service behind it has no permission service, but the method used here asks for none.\<close>

definition versions_route :: "uuid \<Rightarrow> uuid \<Rightarrow> file_version list M" where
  "versions_route v item_id = bindM (get_raw_item_unscoped item_id) (\<lambda>item. list_versions v item)"

section \<open>Trash\<close>

definition move_to_trash_route :: "uuid \<Rightarrow> uuid \<Rightarrow> item_response M" where
  "move_to_trash_route v item_id = transact (trash_item trash_router v item_id)"

definition list_trash_route :: "uuid \<Rightarrow> int \<Rightarrow> int \<Rightarrow> item_response page M" where
  "list_trash_route v page page_size = list_trash v page page_size None"

definition restore_item_route :: "uuid \<Rightarrow> uuid \<Rightarrow> item_response M" where
  "restore_item_route v item_id = transact (Trash.restore trash_router v item_id)"

definition permanent_delete_route :: "uuid \<Rightarrow> uuid \<Rightarrow> unit M" where
  "permanent_delete_route v item_id = transact (permanent_delete trash_router v item_id)"

definition empty_trash_route :: "uuid \<Rightarrow> unit M" where
  "empty_trash_route v = transact (empty_trash trash_router v)"

section \<open>Uploads\<close>

text \<open>The multipart form: its file with the name, size and type the client gave; the folder comes as a text.\<close>

definition upload_simple_route ::
  "'tok app \<Rightarrow> uuid \<Rightarrow> string option \<Rightarrow> string option \<Rightarrow> stream \<Rightarrow> int option \<Rightarrow> string option \<Rightarrow> item_response M" where
  "upload_simple_route app v parent_id filename s size_bytes content_type = transact
     (bindM (liftM (\<lambda>_. case parent_id of
          None \<Rightarrow> Inr None
        | Some p \<Rightarrow> if p = [] then Inr None else (case parse_uuid p of None \<Rightarrow> Inl ValueError | Some u \<Rightarrow> Inr (Some u)))) (\<lambda>pid.
      upload_and_index (app_crypto app) (app_indexer app) v pid (case filename of None \<Rightarrow> ''unnamed'' | Some f \<Rightarrow> if f = [] then ''unnamed'' else f)
        s (case size_bytes of None \<Rightarrow> 0 | Some n \<Rightarrow> n) content_type))"

definition create_upload_session_route ::
  "'tok app \<Rightarrow> uuid \<Rightarrow> string \<Rightarrow> int \<Rightarrow> uuid option \<Rightarrow> string option \<Rightarrow> session_status M" where
  "create_upload_session_route app v filename total_size parent_id mime_type =
     thenM (valid_body (length_within 1 512 filename \<and> total_size \<ge> 0 \<and> (case mime_type of None \<Rightarrow> True | Some m \<Rightarrow> length m \<le> 255)))
       (transact (create_session (app_settings app) v filename total_size parent_id mime_type))"

definition get_upload_session_route :: "uuid \<Rightarrow> uuid \<Rightarrow> session_status M" where
  "get_upload_session_route v session_id = get_session v session_id"

definition upload_chunk_route :: "'tok app \<Rightarrow> uuid \<Rightarrow> uuid \<Rightarrow> int \<Rightarrow> stream \<Rightarrow> unit M" where
  "upload_chunk_route app v session_id chunk_index s = transact (upload_chunk (app_crypto app) v session_id chunk_index s)"

definition complete_upload_session_route :: "'tok app \<Rightarrow> uuid \<Rightarrow> uuid \<Rightarrow> item_response M" where
  "complete_upload_session_route app v session_id = transact (complete_session (app_crypto app) v session_id)"

definition cancel_upload_session_route :: "uuid \<Rightarrow> uuid \<Rightarrow> unit M" where
  "cancel_upload_session_route v session_id = transact (cancel_session v session_id)"

section \<open>Shares\<close>

definition share_item_route :: "uuid \<Rightarrow> uuid \<Rightarrow> string \<Rightarrow> permission \<Rightarrow> share M" where
  "share_item_route v item_id target_email perm = transact (share_item False v item_id target_email perm)"

definition remove_share_route :: "uuid \<Rightarrow> uuid \<Rightarrow> uuid \<Rightarrow> unit M" where
  "remove_share_route v item_id target_user_id = transact (remove_share False v item_id target_user_id)"

definition shared_with_me_route :: "uuid \<Rightarrow> int \<Rightarrow> int \<Rightarrow> share page M" where
  "shared_with_me_route v page page_size = list_shared_with_me v page page_size"

definition shared_by_me_route :: "uuid \<Rightarrow> int \<Rightarrow> int \<Rightarrow> shared_by_me_entry page M" where
  "shared_by_me_route v page page_size = list_shared_by_me v page page_size"

definition create_link_route ::
  "'tok app \<Rightarrow> uuid \<Rightarrow> uuid \<Rightarrow> link_permission \<Rightarrow> string option \<Rightarrow> time option \<Rightarrow> share_link_response M" where
  "create_link_route app v item_id perm password expires_at = transact (create_link (app_crypto app) v item_id perm password expires_at)"

definition delete_link_record_route :: "uuid \<Rightarrow> uuid \<Rightarrow> unit M" where
  "delete_link_record_route v link_id = transact (delete_link_record v link_id)"

definition deactivate_link_route :: "uuid \<Rightarrow> uuid \<Rightarrow> unit M" where
  "deactivate_link_route v link_id = transact (deactivate_link v link_id)"

section \<open>Snapshots\<close>

definition create_snapshot_route :: "uuid \<Rightarrow> string \<Rightarrow> snapshot M" where
  "create_snapshot_route v label = thenM (valid_body (length label \<le> 200)) (transact (create v MANUAL label False))"

record settings_payload =
  sp_settings :: snapshot_settings
  sp_effective_quota_bytes :: int
  sp_used_bytes :: int

definition settings_payload_of :: "uuid \<Rightarrow> settings_payload M" where
  "settings_payload_of v = bindM (get_settings v) (\<lambda>s. bindM (resolve_quota_bytes v (Some s)) (\<lambda>q. bindM (used_bytes v) (\<lambda>used.
     returnM \<lparr>sp_settings = s, sp_effective_quota_bytes = q, sp_used_bytes = used\<rparr>)))"

definition get_settings_route :: "uuid \<Rightarrow> settings_payload M" where
  "get_settings_route v = settings_payload_of v"

text \<open>The settings are committed before the answer is put together.\<close>

definition update_settings_route :: "uuid \<Rightarrow> int \<Rightarrow> bool \<Rightarrow> int \<Rightarrow> int option \<Rightarrow> settings_payload M" where
  "update_settings_route v retention_n schedule_enabled schedule_interval_minutes quota_bytes =
     thenM (valid_body (1 \<le> retention_n \<and> retention_n \<le> 10000 \<and> 1 \<le> schedule_interval_minutes \<and> schedule_interval_minutes \<le> 100000
       \<and> (case quota_bytes of None \<Rightarrow> True | Some q \<Rightarrow> q \<ge> 0)))
     (thenM (transact (update_settings v retention_n schedule_enabled schedule_interval_minutes quota_bytes)) (settings_payload_of v))"

definition list_snapshots_route :: "uuid \<Rightarrow> (snapshot \<times> int) list M" where
  "list_snapshots_route v = bindM (list_snapshots v) (\<lambda>snaps. bindM (reclaimable_bytes v) (\<lambda>reclaimable.
     returnM (map (\<lambda>s. (s, case map_of reclaimable (sn_id s) of None \<Rightarrow> 0 | Some n \<Rightarrow> n)) snaps)))"

definition list_snapshot_items_route :: "uuid \<Rightarrow> uuid \<Rightarrow> uuid option \<Rightarrow> snapshot_entry list M" where
  "list_snapshot_items_route v snapshot_id parent_id = bindM (browse v snapshot_id parent_id) (\<lambda>es. case es of
     None \<Rightarrow> raiseM NotFoundError | Some es \<Rightarrow> returnM es)"

definition restore_snapshot_route :: "'tok app \<Rightarrow> uuid \<Rightarrow> uuid \<Rightarrow> restore_scope \<Rightarrow> subtree_mode \<Rightarrow> restore_outcome M" where
  "restore_snapshot_route app v snapshot_id scope mode = transact
     (bindM (Snapshots.restore (app_label_of app) True v snapshot_id scope mode) (\<lambda>outcome. case outcome of
        None \<Rightarrow> raiseM NotFoundError | Some out \<Rightarrow> returnM out))"

section \<open>The profile\<close>

text \<open>\<open>^[^@\s]+@[^@\s]+\.[^@\s]+$\<close>, with the white space of the regular expressions pydantic uses.\<close>

definition pattern_space :: "char \<Rightarrow> bool" where
  "pattern_space c = (let n = code_point c in (9 \<le> n \<and> n \<le> 13) \<or> n = 32 \<or> n = 133 \<or> n = 160)"

definition email_pattern_ok :: "string \<Rightarrow> bool" where
  "email_pattern_ok s = (case py_split CHR ''@'' s of
       [l, d] \<Rightarrow> l \<noteq> [] \<and> \<not> list_ex pattern_space s \<and> CHR ''.'' \<in> set (tl (butlast d))
     | _ \<Rightarrow> False)"

definition get_me_route :: "uuid \<Rightarrow> user M" where
  "get_me_route v = user_svc_get_by_id v"

definition update_me_route :: "uuid \<Rightarrow> string \<Rightarrow> user M" where
  "update_me_route v username = thenM (valid_body (length_within 1 255 (py_strip username))) (transact (update_username v (py_strip username)))"

definition update_email_route :: "uuid \<Rightarrow> string \<Rightarrow> user M" where
  "update_email_route v email = (let email = py_lower (py_strip email) in
     thenM (valid_body (length_within 3 255 email \<and> email_pattern_ok email)) (transact (update_email v email)))"

definition change_password_route :: "'tok app \<Rightarrow> uuid \<Rightarrow> string \<Rightarrow> string \<Rightarrow> unit M" where
  "change_password_route app v current_password new_password =
     thenM (valid_body (1 \<le> length current_password \<and> length_within 8 128 new_password))
       (transact (change_password (app_crypto app) v current_password new_password))"

definition get_my_quota_route :: "uuid \<Rightarrow> quota_response M" where
  "get_my_quota_route v = get_quota_info v"

section \<open>Downloads and previews\<close>

definition download_file_route :: "uuid \<Rightarrow> uuid \<Rightarrow> download_file_result M" where
  "download_file_route v item_id = download v item_id"

definition download_archive_route :: "uuid \<Rightarrow> uuid list \<Rightarrow> archive_result M" where
  "download_archive_route v ids = archive v ids"

definition preview_info_route :: "'tok app \<Rightarrow> uuid \<Rightarrow> uuid \<Rightarrow> preview_info M" where
  "preview_info_route app v item_id = preview_get_info (app_office app) v item_id"

definition preview_content_route :: "'tok app \<Rightarrow> uuid \<Rightarrow> uuid \<Rightarrow> (preview_type \<times> string \<times> bytes list) M" where
  "preview_content_route app v item_id = preview_get_content (app_office app) (app_convert app) v item_id"

section \<open>Requests that write\<close>

datatype user_request =
    U_CREATE_FOLDER "uuid option" string
  | U_RENAME uuid string
  | U_MOVE uuid "uuid option"
  | U_STAR uuid bool
  | U_TRASH uuid
  | U_RESTORE uuid
  | U_DELETE uuid
  | U_EMPTY_TRASH
  | U_UPLOAD "string option" "string option" stream "int option" "string option"
  | U_OPEN_SESSION string int "uuid option" "string option"
  | U_CHUNK uuid int stream
  | U_COMPLETE uuid
  | U_CANCEL uuid
  | U_SHARE uuid string permission
  | U_UNSHARE uuid uuid
  | U_LINK uuid link_permission "string option" "time option"
  | U_DELETE_LINK uuid
  | U_DEACTIVATE_LINK uuid
  | U_SNAPSHOT string
  | U_SNAPSHOT_SETTINGS int bool int "int option"
  | U_RESTORE_SNAPSHOT uuid restore_scope subtree_mode
  | U_USERNAME string
  | U_EMAIL string
  | U_PASSWORD string string

definition unit_of :: "'a M \<Rightarrow> unit M" where
  "unit_of m = bindM m (\<lambda>_. returnM ())"

fun user_route :: "'tok app \<Rightarrow> uuid \<Rightarrow> user_request \<Rightarrow> unit M" where
  "user_route app v (U_CREATE_FOLDER p n) = unit_of (create_folder_route v p n)"
| "user_route app v (U_RENAME i n) = unit_of (rename_route v i n)"
| "user_route app v (U_MOVE i p) = unit_of (move_route v i p)"
| "user_route app v (U_STAR i b) = unit_of (star_route v i b)"
| "user_route app v (U_TRASH i) = unit_of (move_to_trash_route v i)"
| "user_route app v (U_RESTORE i) = unit_of (restore_item_route v i)"
| "user_route app v (U_DELETE i) = permanent_delete_route v i"
| "user_route app v U_EMPTY_TRASH = empty_trash_route v"
| "user_route app v (U_UPLOAD p fn s n mime) = unit_of (upload_simple_route app v p fn s n mime)"
| "user_route app v (U_OPEN_SESSION fn n p mime) = unit_of (create_upload_session_route app v fn n p mime)"
| "user_route app v (U_CHUNK i k s) = upload_chunk_route app v i k s"
| "user_route app v (U_COMPLETE i) = unit_of (complete_upload_session_route app v i)"
| "user_route app v (U_CANCEL i) = cancel_upload_session_route v i"
| "user_route app v (U_SHARE i e p) = unit_of (share_item_route v i e p)"
| "user_route app v (U_UNSHARE i t) = remove_share_route v i t"
| "user_route app v (U_LINK i p pw t) = unit_of (create_link_route app v i p pw t)"
| "user_route app v (U_DELETE_LINK l) = delete_link_record_route v l"
| "user_route app v (U_DEACTIVATE_LINK l) = deactivate_link_route v l"
| "user_route app v (U_SNAPSHOT l) = unit_of (create_snapshot_route v l)"
| "user_route app v (U_SNAPSHOT_SETTINGS n b k q) = unit_of (update_settings_route v n b k q)"
| "user_route app v (U_RESTORE_SNAPSHOT s sc m) = unit_of (restore_snapshot_route app v s sc m)"
| "user_route app v (U_USERNAME n) = unit_of (update_me_route v n)"
| "user_route app v (U_EMAIL e) = unit_of (update_email_route v e)"
| "user_route app v (U_PASSWORD a b) = change_password_route app v a b"

end
