(* ===== verification/RouteProperties.thy ===== *)
theory RouteProperties
  imports Routes TrashFacts SearchProperties UploadProperties SnapshotProperties
begin

text \<open>
  What a signed-in user can change: whatever route he calls and however the call ends, the rows of items he has no right to edit stay as
  they are, and what is new belongs to him. The proofs rest on the effects of the services and on rules for the steps on the item table.
\<close>

section \<open>Changes that are allowed\<close>












section \<open>Rights\<close>





section \<open>Drive\<close>






section \<open>Uploads\<close>




section \<open>Upload sessions\<close>




section \<open>Trash\<close>















section \<open>Shares, settings and the profile\<close>


section \<open>Snapshots\<close>



















section \<open>All routes\<close>


lemma keeps_items_unit: "keeps items m \<Longrightarrow> keeps items (unit_of m)"
  unfolding unit_of_def by (intro keeps_rules)









text \<open>
  What is not promised: the right to put a file into a folder is checked when an upload session is opened and not again when it is
  completed. User 2 had opened session 50 on \<open>docs\<close>; his share is gone by now, and the file arrives there all the same.
\<close>

definition late_world :: world where
  "late_world = sample_world\<lparr>shares := [], sessions := [(open_session 50 2 3 1)\<lparr>us_parent_id := Some 10\<rparr>],
     chunks := [(sample_chunk 51 0 3)\<lparr>uc_storage_key := chunk_key 2 50 0\<rparr>], blobs := [sample_blob (chunk_key 2 50 0) ''abc'']\<rparr>"

lemma revoked_editor_completes:
  "fst (check_upload_parent 2 (Some 10) late_world) = Inl ForbiddenError"
  "case complete_session plain_crypto 2 50 late_world of (Inl e, w') \<Rightarrow> False | (Inr r, w') \<Rightarrow> ir_parent_id r = Some 10 \<and> ir_owner_id r = 2"
  by code_simp+

end
