(* ===== verification/EvalScoring.thy ===== *)
theory EvalScoring
  imports EvalVerifier
begin

text \<open>
  What the harness makes of the checks: the score of a run and of repeated runs (\<open>eval/scoring.py\<close>), the verdict of a judge
  (\<open>eval/judge.py\<close>), the comparison with an earlier run (\<open>eval/baseline.py\<close>) and the figures of the report
  (\<open>eval/report.py\<close>). Scores are rational numbers; the rounding of double arithmetic is not modelled, that of \<open>round\<close> is.
  Of the standard deviation the model keeps the variance below the root.
\<close>

section \<open>Numbers\<close>

text \<open>\<open>round\<close> of Python: to the nearest, ties to the even.\<close>

definition round_even :: "rat \<Rightarrow> int" where
  "round_even q = (let f = \<lfloor>q\<rfloor>; r = q - of_int f in
     if r < 1 / 2 then f else if r > 1 / 2 then f + 1 else if even f then f else f + 1)"

definition round3 :: "rat \<Rightarrow> rat" where
  "round3 q = of_int (round_even (q * 1000)) / 1000"

definition mean :: "rat list \<Rightarrow> rat" where
  "mean xs = sum_list xs / of_nat (length xs)"

text \<open>A double that need not be a number.\<close>

datatype pyfloat = Finite rat | NaN | PosInf | NegInf

section \<open>The score of a run\<close>

definition DEFAULT_DIMENSION_WEIGHT :: rat where "DEFAULT_DIMENSION_WEIGHT = 1"

definition check_value :: "check_result \<Rightarrow> rat" where
  "check_value c = (case ck_score c of Some s \<Rightarrow> s | None \<Rightarrow> if ck_ok c then 1 else 0)"

text \<open>The values of the gating checks by dimension, in the order the dimensions appear.\<close>

definition add_check :: "(string \<times> rat list) list \<Rightarrow> check_result \<Rightarrow> (string \<times> rat list) list" where
  "add_check d c = (if ck_gating c
     then dict_set (ck_dimension c) ((case map_of d (ck_dimension c) of None \<Rightarrow> [] | Some vs \<Rightarrow> vs) @ [check_value c]) d else d)"

definition by_dimension :: "check_result list \<Rightarrow> (string \<times> rat list) list" where
  "by_dimension checks = foldl add_check [] checks"

definition dimension_scores :: "check_result list \<Rightarrow> (string \<times> rat) list" where
  "dimension_scores checks = map (\<lambda>(d, vs). (d, mean vs)) (by_dimension checks)"

definition weight_of :: "(string \<times> rat) list \<Rightarrow> string \<Rightarrow> rat" where
  "weight_of weights d = (case map_of weights d of None \<Rightarrow> DEFAULT_DIMENSION_WEIGHT | Some x \<Rightarrow> x)"

definition weighted_score :: "(string \<times> rat) list \<Rightarrow> (string \<times> rat) list \<Rightarrow> rat" where
  "weighted_score weights ds = (let total = sum_list (map (\<lambda>(d, s). weight_of weights d) ds) in
     if total \<le> 0 then (if ds = [] then 0 else mean (map snd ds))
     else sum_list (map (\<lambda>(d, s). s * weight_of weights d) ds) / total)"

definition failure_category :: "bool \<Rightarrow> json \<Rightarrow> check_result list \<Rightarrow> bool \<Rightarrow> string option" where
  "failure_category passed done_reason checks plan_is_none =
     (let failed = map ck_dimension (filter (\<lambda>c. \<not> ck_ok c \<and> ck_gating c) checks) in
      if passed then None
      else if done_reason = JStr ''length'' then Some ''truncated''
      else if plan_is_none then Some ''no_plan''
      else if ''safety'' \<in> set failed then Some ''safety_violation''
      else if ''state'' \<in> set failed then Some ''state_mismatch''
      else if ''correctness'' \<in> set failed then Some ''wrong_plan''
      else if failed \<noteq> [] then Some ''other''
      else Some ''partial'')"

record case_score =
  cs_case_id :: string
  cs_score :: rat
  cs_passed :: bool
  cs_dimension_scores :: "(string \<times> rat) list"
  cs_checks :: "check_result list"
  cs_done_reason :: json
  cs_prompt_tokens :: json
  cs_completion_tokens :: json
  cs_tool_call_count :: "nat option"
  cs_failure_category :: "string option"
  cs_path_deviation :: "(json list \<times> json list) option"
  cs_unweighted_dimensions :: "string list"

definition meta_field :: "json \<Rightarrow> string \<Rightarrow> json" where
  "meta_field meta k = (case meta of JObj m \<Rightarrow> get_key k m | _ \<Rightarrow> JNull)"

definition score_case ::
  "eval_case \<Rightarrow> check_result list \<Rightarrow> json \<Rightarrow> bool \<Rightarrow> (json list \<times> json list) option \<Rightarrow> nat option \<Rightarrow> case_score" where
  "score_case ec checks llm_meta plan_is_none path_deviation tool_call_count =
     (let ds = dimension_scores checks;
          weights = sc_weights (ec_scoring ec);
          score = weighted_score weights ds;
          passed = (score \<ge> sc_pass_threshold (ec_scoring ec));
          no_plan = (plan_is_none \<and> (case ex_workflow (ec_expect ec) of None \<Rightarrow> True | Some we \<Rightarrow> we_skill_generated we = None));
          reason = meta_field llm_meta ''done_reason'' in
      \<lparr>cs_case_id = ec_id ec, cs_score = round3 score, cs_passed = passed, cs_dimension_scores = ds, cs_checks = checks,
       cs_done_reason = reason, cs_prompt_tokens = meta_field llm_meta ''prompt_tokens'',
       cs_completion_tokens = meta_field llm_meta ''completion_tokens'', cs_tool_call_count = tool_call_count,
       cs_failure_category = failure_category passed reason checks no_plan, cs_path_deviation = path_deviation,
       cs_unweighted_dimensions = sort (filter (\<lambda>d. d \<notin> set (map fst weights)) (map fst ds))\<rparr>)"

section \<open>Repeated runs\<close>

record aggregate_score =
  ag_case_id :: string
  ag_score :: rat
  ag_passed :: bool
  ag_runs :: nat
  ag_pass_rate :: rat
  ag_min_score :: rat
  ag_max_score :: rat
  ag_variance :: rat
  ag_run_scores :: "case_score list"

definition pvariance :: "rat list \<Rightarrow> rat" where
  "pvariance xs = mean (map (\<lambda>x. (x - mean xs) * (x - mean xs)) xs)"

definition aggregate_runs :: "eval_case \<Rightarrow> case_score list \<Rightarrow> aggregate_score" where
  "aggregate_runs ec run_scores =
     (let values = map cs_score run_scores; n = length values;
          pass_rate = (if n = 0 then 0 else of_nat (length (filter cs_passed run_scores)) / of_nat n) in
      \<lparr>ag_case_id = ec_id ec, ag_score = (if n = 0 then 0 else round3 (mean values)),
       ag_passed = (n > 0 \<and> pass_rate \<ge> sc_min_pass_rate (ec_scoring ec)), ag_runs = n, ag_pass_rate = round3 pass_rate,
       ag_min_score = (if n = 0 then 0 else Min (set values)), ag_max_score = (if n = 0 then 0 else Max (set values)),
       ag_variance = (if n > 1 then pvariance values else 0), ag_run_scores = run_scores\<rparr>)"

section \<open>Comparison with a baseline\<close>

definition DEFAULT_TOLERANCE :: rat where "DEFAULT_TOLERANCE = 1 / 1000"

record baseline_comparison =
  bc_case_id :: string
  bc_current :: rat
  bc_baseline :: "rat option"
  bc_delta :: rat
  bc_regressed :: bool
  bc_is_new :: bool

definition save_baseline :: "aggregate_score list \<Rightarrow> (string \<times> rat) list" where
  "save_baseline scores = foldl (\<lambda>d s. dict_set (ag_case_id s) (ag_score s) d) [] scores"

definition compare_to_baseline :: "rat \<Rightarrow> aggregate_score list \<Rightarrow> (string \<times> rat) list \<Rightarrow> baseline_comparison list" where
  "compare_to_baseline tolerance scores baseline = map (\<lambda>s. let prior = map_of baseline (ag_case_id s) in
     \<lparr>bc_case_id = ag_case_id s, bc_current = ag_score s, bc_baseline = prior,
      bc_delta = (case prior of None \<Rightarrow> 0 | Some p \<Rightarrow> round3 (ag_score s - p)),
      bc_regressed = (case prior of None \<Rightarrow> False | Some p \<Rightarrow> ag_score s < p - tolerance),
      bc_is_new = (prior = None)\<rparr>) scores"

definition has_regression :: "baseline_comparison list \<Rightarrow> bool" where
  "has_regression cs = list_ex bc_regressed cs"

section \<open>The judge\<close>

definition JUDGE_DIMENSION :: string where "JUDGE_DIMENSION = ''judge''"

definition JUDGE_THRESHOLD :: rat where "JUDGE_THRESHOLD = 7 / 10"

record judge_verdict =
  jv_score :: rat
  jv_strengths :: string
  jv_weaknesses :: string

text \<open>\<open>re.search(r"\{.*\}", text, re.DOTALL)\<close>: from the first opening brace to the last closing one.\<close>

definition braces :: "string \<Rightarrow> string option" where
  "braces t = (let rest = dropWhile (\<lambda>c. code_point c \<noteq> 123) t; kept = rev (dropWhile (\<lambda>c. code_point c \<noteq> 125) (rev rest)) in
     if kept = [] then None else Some kept)"

text \<open>\<open>max(0.0, min(1.0, score))\<close>: both return their first argument unless the second is smaller (greater).\<close>

fun clamp :: "pyfloat \<Rightarrow> rat" where
  "clamp (Finite q) = max 0 (min 1 q)"
| "clamp NaN = 1"
| "clamp PosInf = 1"
| "clamp NegInf = 0"

text \<open>\<open>float(v)\<close>; \<open>float_of\<close> reads a text as Python does.\<close>

definition to_float :: "(string \<Rightarrow> pyfloat option) \<Rightarrow> json \<Rightarrow> pyfloat option" where
  "to_float float_of v = (case v of
       JInt n \<Rightarrow> Some (Finite (of_int n))
     | JBool b \<Rightarrow> Some (Finite (if b then 1 else 0))
     | JFloat s \<Rightarrow> float_of s
     | JStr s \<Rightarrow> float_of s
     | _ \<Rightarrow> None)"

text \<open>\<open>None\<close> is a \<open>JudgeError\<close>.\<close>

definition parse_verdict :: "(string \<Rightarrow> json option) \<Rightarrow> (string \<Rightarrow> pyfloat option) \<Rightarrow> string \<Rightarrow> judge_verdict option" where
  "parse_verdict loads float_of text = (case braces text of
       None \<Rightarrow> None
     | Some b \<Rightarrow> (case loads b of
         Some (JObj data) \<Rightarrow>
           if ''score'' \<notin> set (map fst data) then None
           else (case to_float float_of (get_key ''score'' data) of
               None \<Rightarrow> None
             | Some s \<Rightarrow> Some \<lparr>jv_score = clamp s, jv_strengths = py_strip (py_str (get_or (JStr []) ''strengths'' data)),
                 jv_weaknesses = py_strip (py_str (get_or (JStr []) ''weaknesses'' data))\<rparr>)
       | _ \<Rightarrow> None))"

definition verdict_check :: "rat \<Rightarrow> string \<Rightarrow> judge_verdict \<Rightarrow> check_result" where
  "verdict_check threshold name v = \<lparr>ck_dimension = JUDGE_DIMENSION, ck_name = name, ck_ok = (jv_score v \<ge> threshold),
     ck_score = Some (jv_score v), ck_gating = True\<rparr>"

section \<open>The report\<close>

text \<open>The mean of the judge's scores over the runs that were judged.\<close>

definition judge_summary :: "aggregate_score \<Rightarrow> rat option" where
  "judge_summary s = (let values = List.map_filter (\<lambda>r. map_of (cs_dimension_scores r) JUDGE_DIMENSION) (ag_run_scores s) in
     if values = [] then None else Some (mean values))"

text \<open>The cases with dimensions they give no weight to, and these dimensions.\<close>

definition add_offender :: "(string \<times> string list) list \<Rightarrow> aggregate_score \<Rightarrow> (string \<times> string list) list" where
  "add_offender d s = foldl (\<lambda>d r. if cs_unweighted_dimensions r = [] then d
     else dict_set (ag_case_id s) ((case map_of d (ag_case_id s) of None \<Rightarrow> [] | Some xs \<Rightarrow> xs) @ cs_unweighted_dimensions r) d) d (ag_run_scores s)"

definition unweighted_dimension_warning :: "aggregate_score list \<Rightarrow> (string \<times> string list) list" where
  "unweighted_dimension_warning scores = sort_key fst (map (\<lambda>(i, xs). (i, sort (remdups xs))) (foldl add_offender [] scores))"

text \<open>What the batch driver writes to its file and reads back (\<open>run_isolated_e9.py\<close>): \<open>_score_from_jsonable\<close> passes every field on
  but the dimensions without weight.\<close>

definition score_from_jsonable :: "aggregate_score \<Rightarrow> aggregate_score" where
  "score_from_jsonable s = s\<lparr>ag_run_scores := map (\<lambda>r. r\<lparr>cs_unweighted_dimensions := []\<rparr>) (ag_run_scores s)\<rparr>"

end
