(* ===== verification/EvalRun.thy ===== *)
theory EvalRun
  imports EvalScoring
begin

text \<open>
  The drivers of the harness (\<open>eval/run.py\<close>, \<open>eval/run_isolated_e9.py\<close>) and their requests (\<open>eval/runner.py\<close>,
  \<open>eval/state.py\<close>, \<open>eval/exec_runner.py\<close>). The backend under test, the sandbox, the judge and the browser are a record of calls on a
  state of which nothing is known.
\<close>

section \<open>Requests\<close>

datatype eval_failure = EvalRunnerError | URLError | StateFetchError | JudgeError | EvalException

text \<open>One attempt at a POST: an answer, an HTTP error with its code, or another failure.\<close>

datatype post_outcome = Answer json | HttpError nat | Broken

fun post :: "nat \<Rightarrow> ('s \<Rightarrow> post_outcome \<times> 's) \<Rightarrow> ('s, eval_failure, args) call" where
  "post 0 send s = (Inl EvalRunnerError, s)"
| "post (Suc n) send s = (case send s of
     (Answer v, s') \<Rightarrow> (case v of JObj d \<Rightarrow> (Inr d, s') | _ \<Rightarrow> (Inl EvalRunnerError, s'))
   | (HttpError c, s') \<Rightarrow> if \<not> (c \<ge> 500 \<or> c = 429) \<or> n = 0 then (Inl EvalRunnerError, s') else post n send s'
   | (Broken, s') \<Rightarrow> if n = 0 then (Inl EvalRunnerError, s') else post n send s')"

definition POST_RETRIES :: nat where "POST_RETRIES = 4"

text \<open>A chat is tried again, the confirmation of a workflow never: it may have run in part.\<close>

definition chat_http :: "(string \<Rightarrow> json \<Rightarrow> 's \<Rightarrow> post_outcome \<times> 's) \<Rightarrow> string \<Rightarrow> json \<Rightarrow> ('s, eval_failure, args) call" where
  "chat_http send message session_id = post POST_RETRIES (send message session_id)"

definition confirm_workflow_http :: "(string \<Rightarrow> 's \<Rightarrow> post_outcome \<times> 's) \<Rightarrow> string \<Rightarrow> ('s, eval_failure, args) call" where
  "confirm_workflow_http send workflow_id = post 1 (send workflow_id)"

text \<open>The turns of a case on one session, whose identifier the answers carry; the drive is seeded before.\<close>

fun replay_turns :: "(string \<Rightarrow> json \<Rightarrow> 's \<Rightarrow> post_outcome \<times> 's) \<Rightarrow> string list \<Rightarrow> json \<Rightarrow> ('s, eval_failure, json) call" where
  "replay_turns send [] session_id = returnM session_id"
| "replay_turns send (t # ts) session_id = bindM (chat_http send t session_id) (\<lambda>prior.
     replay_turns send ts (let i = get_key ''session_id'' prior in if truthy i then i else session_id))"

definition run_case_http ::
  "(string \<Rightarrow> json \<Rightarrow> 's \<Rightarrow> post_outcome \<times> 's) \<Rightarrow> (eval_case \<Rightarrow> ('s, eval_failure, unit) call) \<Rightarrow> eval_case \<Rightarrow> ('s, eval_failure, args) call" where
  "run_case_http send seed ec = thenM (seed ec) (bindM (replay_turns send (ec_context_turns ec) JNull) (\<lambda>session_id.
     chat_http send (ec_prompt ec) session_id))"

definition pending_workflow_id :: "args \<Rightarrow> string option" where
  "pending_workflow_id response = (case get_key ''plan'' response of
       JObj plan \<Rightarrow>
         if get_key ''status'' plan \<noteq> JStr ''pending_approval'' then None
         else (let i = get_key ''workflow_id'' plan in if truthy i then Some (py_str i) else None)
     | _ \<Rightarrow> None)"

text \<open>One page of the root and of every folder in it.\<close>

definition page_items :: "json \<Rightarrow> json list option" where
  "page_items body = (case body of
       JObj d \<Rightarrow> map_option (\<lambda>xs. map JObj (dicts xs)) (iterate (get_or (JList []) ''items'' d))
     | _ \<Rightarrow> Some [])"

definition or_raise :: "eval_failure \<Rightarrow> 'a option \<Rightarrow> ('s, eval_failure, 'a) call" where
  "or_raise e x = (case x of None \<Rightarrow> raiseM e | Some y \<Rightarrow> returnM y)"

definition fetch_page :: "(json \<Rightarrow> ('s, eval_failure, json) call) \<Rightarrow> json \<Rightarrow> ('s, eval_failure, json list) call" where
  "fetch_page get parent_id = bindM (get parent_id) (\<lambda>body. or_raise EvalException (page_items body))"

fun fetch_children :: "(json \<Rightarrow> ('s, eval_failure, json) call) \<Rightarrow> json list \<Rightarrow> ('s, eval_failure, json list) call" where
  "fetch_children get [] = returnM []"
| "fetch_children get (JObj d # xs) =
     (if get_key ''item_type'' d = JStr ''FOLDER'' \<and> truthy (get_key ''id'' d)
      then bindM (fetch_page get (get_key ''id'' d)) (\<lambda>ys. bindM (fetch_children get xs) (\<lambda>rest. returnM (ys @ rest)))
      else fetch_children get xs)"
| "fetch_children get (v # xs) = fetch_children get xs"

definition fetch_items_http :: "(json \<Rightarrow> ('s, eval_failure, json) call) \<Rightarrow> ('s, eval_failure, json list) call" where
  "fetch_items_http get = bindM (fetch_page get JNull) (\<lambda>root. bindM (fetch_children get root) (\<lambda>rest. returnM (root @ rest)))"

section \<open>One run\<close>

text \<open>The options of the command line that decide what is run.\<close>

record run_options =
  ro_mode :: string
  ro_llm :: string
  ro_token :: string
  ro_no_strict_steps :: bool
  ro_runs :: int
  ro_tag :: string

text \<open>What the harness calls. The judge, if one is asked for, gets the case, the answer or the output, and returns its reply.\<close>

record 's harness =
  hn_chat :: "eval_case \<Rightarrow> ('s, eval_failure, args) call"
  hn_confirm :: "string \<Rightarrow> ('s, eval_failure, args) call"
  hn_items :: "('s, eval_failure, json list) call"
  hn_execute :: "eval_case \<Rightarrow> ('s, eval_failure, exec_output) call"
  hn_judge_chat :: "(eval_case \<Rightarrow> args \<Rightarrow> ('s, eval_failure, string) call) option"
  hn_judge_execution :: "(eval_case \<Rightarrow> exec_output \<Rightarrow> ('s, eval_failure, string) call) option"
  hn_loads :: "string \<Rightarrow> json option"
  hn_float :: "string \<Rightarrow> pyfloat option"
  hn_smoke :: smoke_sandbox
  hn_claims :: "string list"

text \<open>The driver asks for the fallback rubric, so every case is judged.\<close>

definition run_judge :: "'s harness \<Rightarrow> string \<Rightarrow> ('s, eval_failure, string) call option \<Rightarrow> ('s, eval_failure, check_result list) call" where
  "run_judge h name ask = (case ask of
       None \<Rightarrow> returnM []
     | Some c \<Rightarrow> bindM c (\<lambda>reply. bindM (or_raise JudgeError (parse_verdict (hn_loads h) (hn_float h) reply)) (\<lambda>v.
         returnM [verdict_check JUDGE_THRESHOLD name v])))"

definition is_live :: "run_options \<Rightarrow> bool" where
  "is_live args = (ro_mode args = ''api'' \<and> ro_llm args = ''real'' \<and> ro_token args \<noteq> [])"

definition wants_live_state :: "eval_case \<Rightarrow> run_options \<Rightarrow> bool" where
  "wants_live_state ec args = (if ex_state (ec_expect ec) = None then False else is_live args)"

definition confirm_failed :: check_result where
  "confirm_failed = check ''execution'' ''workflow confirm succeeded'' False"

definition confirm_or_check :: "'s harness \<Rightarrow> string \<Rightarrow> ('s, eval_failure, check_result list \<times> args list option) call" where
  "confirm_or_check h workflow_id = catchM (bindM (hn_confirm h workflow_id) (\<lambda>confirmed. returnM ([], Some (step_results confirmed))))
     (\<lambda>e. if e = EvalRunnerError \<or> e = URLError then returnM ([confirm_failed], None) else raiseM e)"

definition execute_pending :: "'s harness \<Rightarrow> eval_case \<Rightarrow> run_options \<Rightarrow> args \<Rightarrow> ('s, eval_failure, check_result list \<times> args list) call" where
  "execute_pending h ec args response =
     (if \<not> ec_auto_confirm ec \<or> \<not> wants_live_state ec args then returnM ([], [])
      else (case pending_workflow_id response of
          None \<Rightarrow> returnM ([], [])
        | Some i \<Rightarrow> bindM (confirm_or_check h i) (\<lambda>(cs, rs). returnM (cs, case rs of None \<Rightarrow> [] | Some rs \<Rightarrow> rs))))"

definition state_checks :: "'s harness \<Rightarrow> eval_case \<Rightarrow> run_options \<Rightarrow> ('s, eval_failure, check_result list) call" where
  "state_checks h ec args = (if \<not> wants_live_state ec args then returnM []
     else bindM (hn_items h) (\<lambda>xs. returnM (verify_state ec xs)))"

definition plan_missing :: "args \<Rightarrow> bool" where
  "plan_missing response = (get_key ''plan'' response = JNull)"

definition scored :: "eval_case \<Rightarrow> args \<Rightarrow> check_result list \<Rightarrow> ('s, eval_failure, case_score) call" where
  "scored ec response checks = bindM (or_raise EvalException (compute_path_deviation ec response)) (\<lambda>deviation.
     returnM (score_case ec checks (get_key ''llm_meta'' response) (plan_missing response) deviation (count_tool_calls response)))"

text \<open>The assertions on the answer alone.\<close>

definition answer_checks :: "'s harness \<Rightarrow> eval_case \<Rightarrow> args \<Rightarrow> bool \<Rightarrow> ('s, eval_failure, check_result list) call" where
  "answer_checks h ec response strict =
     bindM (or_raise EvalException (verify ec response strict)) (\<lambda>a.
     bindM (or_raise EvalException (verify_reference_grounding ec response)) (\<lambda>b.
     bindM (or_raise EvalException (verify_required_skills ec response)) (\<lambda>c.
     bindM (or_raise EvalException (verify_codegen_execution (hn_smoke h) ec response)) (\<lambda>d.
       returnM (a @ b @ c @ d)))))"

definition run_chat_case :: "'s harness \<Rightarrow> run_options \<Rightarrow> eval_case \<Rightarrow> ('s, eval_failure, case_score) call" where
  "run_chat_case h args ec =
     bindM (hn_chat h ec) (\<lambda>response.
     bindM (answer_checks h ec response (ro_mode args \<noteq> ''browser'' \<and> \<not> ro_no_strict_steps args)) (\<lambda>answer.
     bindM (run_judge h ''rubric judgement'' (map_option (\<lambda>j. j ec response) (hn_judge_chat h))) (\<lambda>judged.
     bindM (execute_pending h ec args response) (\<lambda>(confirming, confirmed).
     let executed = (if is_live args then verify_step_results ec (if confirmed = [] then step_results response else confirmed) else []) in
     bindM (state_checks h ec args) (\<lambda>states.
       scored ec response (answer @ judged @ confirming @ executed @ states @ verify_reply_honesty (hn_claims h) response states))))))"

definition run_skill_case :: "'s harness \<Rightarrow> eval_case \<Rightarrow> ('s, eval_failure, case_score) call" where
  "run_skill_case h ec = bindM (hn_execute h ec) (\<lambda>output.
     bindM (run_judge h ''rubric judgement (execution)'' (map_option (\<lambda>j. j ec output) (hn_judge_execution h))) (\<lambda>judged.
       returnM (score_case ec (verify_execution ec output @ judged) JNull False None None)))"

definition run_once :: "'s harness \<Rightarrow> run_options \<Rightarrow> eval_case \<Rightarrow> ('s, eval_failure, case_score) call" where
  "run_once h args ec = (if ro_mode args = ''exec'' \<or> (ro_mode args = ''browser'' \<and> ex_execute (ec_expect ec) \<noteq> None)
     then run_skill_case h ec else run_chat_case h args ec)"

section \<open>The whole evaluation\<close>

definition run_count :: "run_options \<Rightarrow> eval_case \<Rightarrow> nat" where
  "run_count args ec = nat (if ro_runs args > 0 then ro_runs args else max 1 (ec_runs ec))"

definition selected_cases :: "run_options \<Rightarrow> eval_case list \<Rightarrow> eval_case list" where
  "selected_cases args cases = filter (\<lambda>c. ro_mode args \<in> set (ec_mode c) \<and> (ro_tag args = [] \<or> ro_tag args \<in> set (ec_tags c))) cases"

definition run_case :: "'s harness \<Rightarrow> run_options \<Rightarrow> eval_case \<Rightarrow> ('s, eval_failure, aggregate_score) call" where
  "run_case h args ec = bindM (mapM (\<lambda>_. run_once h args ec) [0..<run_count args ec]) (\<lambda>scores. returnM (aggregate_runs ec scores))"

text \<open>The scores and the exit code; an exception that no handler takes ends the process.\<close>

definition evaluate ::
  "'s harness \<Rightarrow> run_options \<Rightarrow> (string \<times> rat) list option \<Rightarrow> eval_case list \<Rightarrow> ('s, eval_failure, aggregate_score list \<times> nat) call" where
  "evaluate h args baseline cases = bindM (mapM (run_case h args) (selected_cases args cases)) (\<lambda>scores.
     let regressed = (case baseline of None \<Rightarrow> False | Some b \<Rightarrow> has_regression (compare_to_baseline DEFAULT_TOLERANCE scores b));
         passed = (scores \<noteq> [] \<and> list_all ag_passed scores)
     in returnM (scores, if passed \<and> \<not> regressed then 0 else 1))"

section \<open>The driver with throwaway accounts\<close>

text \<open>Each run has an account of its own, so every pending plan is confirmed unless the case says the user never does.\<close>

definition isolated_states :: "'s harness \<Rightarrow> eval_case \<Rightarrow> ('s, eval_failure, check_result list) call" where
  "isolated_states h ec = (if ex_state (ec_expect ec) = None then returnM []
     else catchM (bindM (hn_items h) (\<lambda>xs. returnM (verify_state ec xs)))
       (\<lambda>e. if e = StateFetchError then returnM [check ''state'' ''post-execution state fetch succeeded'' False] else raiseM e))"

definition run_one_isolated :: "'s harness \<Rightarrow> ('s, eval_failure, unit) call \<Rightarrow> eval_case \<Rightarrow> ('s, eval_failure, case_score) call" where
  "run_one_isolated h register ec =
     thenM register
     (bindM (hn_chat h ec) (\<lambda>response.
      bindM (answer_checks h ec response False) (\<lambda>answer.
      bindM (case (if ec_auto_confirm ec then pending_workflow_id response else None) of
          None \<Rightarrow> returnM ([], None) | Some i \<Rightarrow> confirm_or_check h i) (\<lambda>(confirming, confirmed).
      let results = (case confirmed of None \<Rightarrow> step_results response | Some rs \<Rightarrow> rs) in
      bindM (isolated_states h ec) (\<lambda>states.
        scored ec response (answer @ confirming @ verify_step_results ec results @ states
          @ verify_reply_honesty (hn_claims h) response states))))))"

definition run_one_case :: "'s harness \<Rightarrow> ('s, eval_failure, unit) call \<Rightarrow> nat \<Rightarrow> eval_case \<Rightarrow> ('s, eval_failure, aggregate_score) call" where
  "run_one_case h register runs ec =
     bindM (mapM (\<lambda>_. run_one_isolated h register ec) [0..<runs]) (\<lambda>scores. returnM (aggregate_runs ec scores))"

text \<open>Cases that were done before are skipped, and one that fails is left out; the file is the list of the scores written so far.\<close>

fun isolated_loop ::
  "'s harness \<Rightarrow> ('s, eval_failure, unit) call \<Rightarrow> nat \<Rightarrow> string list \<Rightarrow> eval_case list \<Rightarrow> aggregate_score list \<Rightarrow> ('s, eval_failure, aggregate_score list) call" where
  "isolated_loop h register runs done_ids [] file = returnM file"
| "isolated_loop h register runs done_ids (ec # ecs) file =
     (if ec_id ec \<in> set done_ids then isolated_loop h register runs done_ids ecs file
      else bindM (catchM (bindM (run_one_case h register runs ec) (\<lambda>s. returnM (Some s)))
          (\<lambda>e. if e = EvalRunnerError \<or> e = URLError then returnM None else raiseM e)) (\<lambda>r.
        isolated_loop h register runs done_ids ecs (case r of None \<Rightarrow> file | Some s \<Rightarrow> file @ [s])))"

text \<open>The report is made from what is read back from the file.\<close>

definition isolated_report :: "aggregate_score list \<Rightarrow> aggregate_score list" where
  "isolated_report file = map score_from_jsonable file"

end
