(* ===== verification/EvalProperties.thy ===== *)
theory EvalProperties
  imports EvalRun
begin

text \<open>What the scores of the harness mean: bounds, the weight every check has, and when an evaluation succeeds.\<close>

section \<open>Values by dimension\<close>








section \<open>Means\<close>

lemma sum_list_bounds:
  fixes xs :: "rat list"
  shows "(\<And>x. x \<in> set xs \<Longrightarrow> x \<le> u) \<Longrightarrow> sum_list xs \<le> of_nat (length xs) * u"
    and "(\<And>x. x \<in> set xs \<Longrightarrow> l \<le> x) \<Longrightarrow> of_nat (length xs) * l \<le> sum_list xs"
  using sum_list_mono [of xs id "\<lambda>_. u"] sum_list_mono [of xs "\<lambda>_. l" id] by (simp_all add: sum_list_triv)

lemma mean_bounds:
  assumes "xs \<noteq> []"
  shows "(\<And>x. x \<in> set xs \<Longrightarrow> l \<le> x) \<Longrightarrow> l \<le> mean xs" "(\<And>x. x \<in> set xs \<Longrightarrow> x \<le> u) \<Longrightarrow> mean xs \<le> u"
  using assms sum_list_bounds(1) [of xs u] sum_list_bounds(2) [of xs l] by (simp_all add: mean_def field_simps)


section \<open>The weighted score\<close>

















section \<open>Rounding\<close>

lemma round_even_mono: "p \<le> q \<Longrightarrow> round_even p \<le> round_even q"
proof -
  assume pq: "p \<le> q"
  then have f: "\<lfloor>p\<rfloor> \<le> \<lfloor>q\<rfloor>" by (rule floor_mono)
  show ?thesis
  proof (cases "\<lfloor>p\<rfloor> = \<lfloor>q\<rfloor>")
    case True
    with pq show ?thesis by (auto simp: round_even_def Let_def)
  next
    case False
    have "round_even p \<le> \<lfloor>p\<rfloor> + 1" "\<lfloor>q\<rfloor> \<le> round_even q" by (auto simp: round_even_def Let_def)
    with False f show ?thesis by linarith
  qed
qed

lemma round3_mono: "p \<le> q \<Longrightarrow> round3 p \<le> round3 q"
  using round_even_mono [of "p * 1000" "q * 1000"] by (simp add: round3_def)

lemma round3_fixed [simp]: "round3 0 = 0" "round3 1 = 1" "round3 (round3 q) = round3 q"
  by (simp_all add: round3_def round_even_def Let_def)

section \<open>Properties\<close>




text \<open>The score of repeated runs lies between the worst and the best of them, although it is rounded.\<close>

lemma aggregate_between:
  assumes "\<forall>s \<in> set run_scores. round3 (cs_score s) = cs_score s" "run_scores \<noteq> []"
  shows "ag_min_score (aggregate_runs ec run_scores) \<le> ag_score (aggregate_runs ec run_scores)"
    "ag_score (aggregate_runs ec run_scores) \<le> ag_max_score (aggregate_runs ec run_scores)"
proof -
  let ?v = "map cs_score run_scores"
  have "Min (set ?v) \<in> set ?v" "Max (set ?v) \<in> set ?v" using assms(2) by (auto intro!: Min_in Max_in simp del: set_map)
  then have r: "round3 (Min (set ?v)) = Min (set ?v)" "round3 (Max (set ?v)) = Max (set ?v)" using assms(1) by auto
  have "Min (set ?v) \<le> mean ?v" "mean ?v \<le> Max (set ?v)" using assms(2) by (intro mean_bounds; simp)+
  then have "round3 (Min (set ?v)) \<le> round3 (mean ?v)" "round3 (mean ?v) \<le> round3 (Max (set ?v))" by (simp_all add: round3_mono)
  with r assms(2) show "ag_min_score (aggregate_runs ec run_scores) \<le> ag_score (aggregate_runs ec run_scores)"
    "ag_score (aggregate_runs ec run_scores) \<le> ag_max_score (aggregate_runs ec run_scores)"
    by (simp_all add: aggregate_runs_def Let_def)
qed

text \<open>A case whose user never approves is never confirmed, by either driver.\<close>

lemma unapproved_is_never_confirmed:
  fixes h :: "'a harness"
  assumes "\<not> ec_auto_confirm ec"
  shows "run_once (h\<lparr>hn_confirm := x\<rparr>) args ec = run_once h args ec"
    "run_one_isolated (h\<lparr>hn_confirm := x\<rparr>) register ec = run_one_isolated h register ec"
proof -
  let ?h = "h\<lparr>hn_confirm := x\<rparr>"
  have same: "answer_checks ?h ec r b = answer_checks h ec r b" "run_judge ?h n j = run_judge h n j"
      "state_checks ?h ec args = state_checks h ec args" "isolated_states ?h ec = isolated_states h ec" for r b n j
    by (simp_all add: answer_checks_def run_judge_def state_checks_def isolated_states_def split: option.split)
  have pending: "execute_pending g ec args r = returnM ([], [])" for g :: "'a harness" and r
    using assms by (simp add: execute_pending_def)
  have "run_skill_case ?h ec = run_skill_case h ec" unfolding run_skill_case_def same by simp
  moreover have "run_chat_case ?h args ec = run_chat_case h args ec" unfolding run_chat_case_def same pending by simp
  ultimately show "run_once ?h args ec = run_once h args ec" by (simp only: run_once_def)
  show "run_one_isolated ?h register ec = run_one_isolated h register ec"
    unfolding run_one_isolated_def same using assms by simp
qed

text \<open>A confirmation goes out once, whatever comes back.\<close>

lemma confirm_is_sent_once: "snd (confirm_workflow_http send i s) = snd (send i s)"
  by (auto simp: confirm_workflow_http_def split: prod.split post_outcome.split json.split)

text \<open>The exit code is 0 only if there was a case, every case passed and none fell behind its baseline by more than the tolerance.\<close>

lemma success_means_all_passed:
  assumes "evaluate h args (Some b) cases s = (Inr (scores, 0), s')"
  shows "scores \<noteq> []" "a \<in> set scores \<Longrightarrow> ag_passed a"
    "a \<in> set scores \<Longrightarrow> map_of b (ag_case_id a) = Some q \<Longrightarrow> q - DEFAULT_TOLERANCE \<le> ag_score a"
proof -
  have *: "scores \<noteq> [] \<and> list_all ag_passed scores \<and> \<not> has_regression (compare_to_baseline DEFAULT_TOLERANCE scores b)"
    using assms by (auto simp: evaluate_def Let_def elim!: bind_InrE split: if_splits)
  then show "scores \<noteq> []" "a \<in> set scores \<Longrightarrow> ag_passed a" by (auto simp: list_all_iff)
  show "a \<in> set scores \<Longrightarrow> map_of b (ag_case_id a) = Some q \<Longrightarrow> q - DEFAULT_TOLERANCE \<le> ag_score a"
    using * by (fastforce simp: has_regression_def compare_to_baseline_def list_ex_iff Let_def)
qed

text \<open>Two promises that are not kept. The batch driver's warning about dimensions without weight is made from the scores read
  back from its file, and these have lost the field it looks at; and a judge whose score is not a number gives full marks.\<close>

lemma isolated_warning_is_empty: "unweighted_dimension_warning (isolated_report written) = []"
proof -
  have "add_offender d (score_from_jsonable s) = d" for d s
  proof -
    have "foldl (\<lambda>d r. d) d xs = d" for d :: "(string \<times> string list) list" and xs :: "case_score list" by (induction xs) auto
    then show ?thesis by (simp add: add_offender_def score_from_jsonable_def foldl_map)
  qed
  then have "foldl add_offender [] (isolated_report written) = []"
    unfolding isolated_report_def by (induction written rule: rev_induct) auto
  then show ?thesis by (simp add: unweighted_dimension_warning_def)
qed

lemma nan_scores_full:
  assumes "loads b = Some (JObj [(''score'', JFloat ''NaN'')])" "float_of ''NaN'' = Some NaN" "braces reply = Some b"
  shows "map_option jv_score (parse_verdict loads float_of reply) = Some 1"
  using assms by (simp add: parse_verdict_def to_float_def get_or_def)

end
