(* ===== verification/EvalOutputs.thy ===== *)
theory EvalOutputs
  imports EvalVerifier
begin

text \<open>
  \<open>eval/output_checks.py\<close>: whether the files a generated skill wrote are usable. The libraries that open archives, images and documents,
  the decoding of UTF-8 and the hash algorithms are parameters. Of a problem the model keeps its kind and the file.
\<close>

record output_env =
  oe_algorithms :: "string list"
  oe_digest :: "string \<Rightarrow> bytes \<Rightarrow> string"
  oe_decode :: "bytes \<Rightarrow> string option"
  oe_opens :: "string \<Rightarrow> bytes \<Rightarrow> bool option"

text \<open>\<open>oe_opens\<close> is \<open>None\<close> when the library for the format is not installed.\<close>

record written_file =
  wf_name :: string
  wf_data :: bytes

datatype output_problem = EmptyFile string | BadFormat string | WrongDigest string string

section \<open>Formats\<close>

definition CHECKED_SUFFIXES :: "string list" where
  "CHECKED_SUFFIXES = [''.zip'', ''.7z'', ''.png'', ''.jpg'', ''.jpeg'', ''.gif'', ''.bmp'', ''.webp'', ''.tiff'', ''.pdf'', ''.json'']"

text \<open>\<open>path.suffix\<close>: from the last dot on, unless that dot is the first or the last character.\<close>

definition path_suffix :: "string \<Rightarrow> string" where
  "path_suffix name = (let i = py_rfind CHR ''.'' name in
     if 0 < i \<and> i < int (length name) - 1 then drop (nat i) name else [])"

definition check_format :: "output_env \<Rightarrow> written_file \<Rightarrow> output_problem option" where
  "check_format env f = (let suffix = py_lower (path_suffix (wf_name f)) in
     if suffix \<notin> set CHECKED_SUFFIXES then None
     else if oe_opens env suffix (wf_data f) = Some False then Some (BadFormat (wf_name f)) else None)"

section \<open>Digests\<close>

definition shakes :: "string \<Rightarrow> bool" where
  "shakes name = starts_with ''shake'' name"

text \<open>The algorithms whose digests have so many hexadecimal digits.\<close>

definition algorithms_of_length :: "output_env \<Rightarrow> nat \<Rightarrow> string list" where
  "algorithms_of_length env n = filter (\<lambda>a. \<not> shakes a \<and> length (oe_digest env a []) = n) (sort (oe_algorithms env))"

definition is_word :: "char \<Rightarrow> bool" where
  "is_word c = (let n = code_point c in (48 \<le> n \<and> n \<le> 57) \<or> (65 \<le> n \<and> n \<le> 90) \<or> n = 95 \<or> (97 \<le> n \<and> n \<le> 122)
     \<or> n = 170 \<or> n = 178 \<or> n = 179 \<or> n = 181 \<or> n = 185 \<or> n = 186 \<or> (188 \<le> n \<and> n \<le> 190) \<or> (192 \<le> n \<and> n \<noteq> 215 \<and> n \<noteq> 247))"

definition is_hex :: "char \<Rightarrow> bool" where
  "is_hex c = (let n = code_point c in (48 \<le> n \<and> n \<le> 57) \<or> (65 \<le> n \<and> n \<le> 70) \<or> (97 \<le> n \<and> n \<le> 102))"

text \<open>
  The words of a text: its longest runs of word characters. \<open>\b[0-9a-fA-F]{32,128}\b\<close> matches exactly the words of 32 to 128 hexadecimal
  digits: a match begins and ends where a word does, and has no other character in it.
\<close>

function words_of :: "string \<Rightarrow> string list" where
  "words_of t = (let rest = dropWhile (\<lambda>c. \<not> is_word c) t in
     if rest = [] then [] else takeWhile is_word rest # words_of (dropWhile is_word rest))"
  by pat_completeness auto
termination
proof (relation "measure length", goal_cases)
  case (2 t rest)
  from 2 have "is_word (hd rest)" using hd_dropWhile [of "\<lambda>c. \<not> is_word c" t] by auto
  with 2(2) have "length (dropWhile is_word rest) < length rest" by (cases rest) (auto simp: le_imp_less_Suc length_dropWhile_le)
  also have "length rest \<le> length t" using 2(1) by (simp add: length_dropWhile_le)
  finally show ?case by simp
qed simp

declare words_of.simps [simp del]

definition hex_tokens :: "string \<Rightarrow> string list" where
  "hex_tokens t = filter (\<lambda>x. 32 \<le> length x \<and> length x \<le> 128 \<and> list_all is_hex x) (words_of t)"

definition MAX_TEXT_SCAN_BYTES :: nat where "MAX_TEXT_SCAN_BYTES = 1000000"

text \<open>\<open>bytes.strip\<close>.\<close>

definition byte_space :: "char \<Rightarrow> bool" where
  "byte_space c = (let n = code_point c in (9 \<le> n \<and> n \<le> 13) \<or> n = 32)"

definition bytes_strip :: "bytes \<Rightarrow> bytes" where
  "bytes_strip d = rev (dropWhile byte_space (rev (dropWhile byte_space d)))"

text \<open>The source is one file or the files of a folder; each counts as it is and stripped.\<close>

definition variants :: "bytes list \<Rightarrow> bytes list" where
  "variants sources = concat (map (\<lambda>d. if bytes_strip d \<noteq> d then [d, bytes_strip d] else [d]) sources)"

definition digests :: "output_env \<Rightarrow> bytes list \<Rightarrow> nat \<Rightarrow> string list" where
  "digests env sources n = concat (map (\<lambda>d. map (\<lambda>a. oe_digest env a d) (algorithms_of_length env n)) (variants sources))"

text \<open>The first token, in order, that has the length of a digest and is none.\<close>

definition check_digests :: "output_env \<Rightarrow> bytes list \<Rightarrow> written_file \<Rightarrow> output_problem option" where
  "check_digests env sources f =
     (if length (wf_data f) > MAX_TEXT_SCAN_BYTES then None
      else (case oe_decode env (wf_data f) of
          None \<Rightarrow> None
        | Some t \<Rightarrow> map_option (WrongDigest (wf_name f))
            (find (\<lambda>x. digests env sources (length x) \<noteq> [] \<and> x \<notin> set (digests env sources (length x)))
              (sort (remdups (map py_lower (hex_tokens t)))))))"

section \<open>All files\<close>

definition file_problems :: "output_env \<Rightarrow> bytes list \<Rightarrow> written_file \<Rightarrow> output_problem list" where
  "file_problems env sources f =
     (if wf_data f = [] then [EmptyFile (wf_name f)]
      else List.map_filter (\<lambda>p. p) [check_format env f, check_digests env sources f])"

definition check_outputs :: "output_env \<Rightarrow> bytes list \<Rightarrow> written_file list \<Rightarrow> bool \<times> output_problem list \<times> nat" where
  "check_outputs env sources files = (let ps = concat (map (file_problems env sources) files) in (ps = [], ps, length files))"

text \<open>A file is accepted exactly if it is not empty, no library refuses it, and no text in it that could be a digest is wrong.\<close>

lemma accepted_outputs:
  "fst (check_outputs env sources files) \<longleftrightarrow> (\<forall>f \<in> set files. wf_data f \<noteq> [] \<and> check_format env f = None
     \<and> (\<forall>t. length (wf_data f) \<le> MAX_TEXT_SCAN_BYTES \<and> oe_decode env (wf_data f) = Some t \<longrightarrow>
         (\<forall>x \<in> set (hex_tokens t). digests env sources (length x) = [] \<or> py_lower x \<in> set (digests env sources (length x)))))"
proof -
  have len: "length (py_lower x) = length x" for x by (simp add: py_lower_def)
  have "file_problems env sources f = [] \<longleftrightarrow> wf_data f \<noteq> [] \<and> check_format env f = None \<and> check_digests env sources f = None" for f
    by (auto simp: file_problems_def List.map_filter_def)
  moreover have "check_digests env sources f = None \<longleftrightarrow> (\<forall>t. length (wf_data f) \<le> MAX_TEXT_SCAN_BYTES \<and> oe_decode env (wf_data f) = Some t \<longrightarrow>
      (\<forall>x \<in> set (hex_tokens t). digests env sources (length x) = [] \<or> py_lower x \<in> set (digests env sources (length x))))" for f
    by (auto simp: check_digests_def find_None_iff len split: option.splits)
  ultimately show ?thesis by (auto simp: check_outputs_def Let_def)
qed

text \<open>A skill that reports the digest of its input under any of the algorithms is believed.\<close>

lemma right_digest_passes:
  assumes "hex_tokens t = [x]" "oe_decode env (wf_data f) = Some t" "py_lower x = oe_digest env a d" "d \<in> set sources"
    and "a \<in> set (algorithms_of_length env (length x))"
  shows "check_digests env sources f = None"
proof -
  have len: "length (py_lower x) = length x" by (simp add: py_lower_def)
  have "d \<in> set (variants sources)" using assms(4) by (auto simp: variants_def)
  then have "py_lower x \<in> set (digests env sources (length x))" using assms(3,5) by (auto simp: digests_def)
  then show ?thesis using assms(1,2) len by (simp add: check_digests_def)
qed

end
