(* ===== verification/Mail.thy ===== *)
theory Mail
  imports Auth
begin

text \<open>
  \<open>app/email\<close>: the providers of transactional mail, which of them a configuration selects, and what is said about it at start-up. The SMTP
  server is a parameter; the text of the mail (which holds characters that PyStr has not) is one too, logging is not modelled.
\<close>

record mail_settings =
  ms_email_provider :: string
  ms_smtp_host :: string
  ms_smtp_port :: int
  ms_smtp_username :: string
  ms_smtp_password :: string
  ms_smtp_from :: string
  ms_smtp_use_tls :: bool
  ms_app_env :: string

record email_message =
  ms_from :: string
  ms_to :: string
  ms_subject :: string
  ms_body :: string

text \<open>What \<open>aiosmtplib.send\<close> is given.\<close>

record smtp_request =
  sm_message :: email_message
  sm_hostname :: string
  sm_port :: int
  sm_username :: "string option"
  sm_password :: "string option"
  sm_start_tls :: bool

datatype email_provider =
    ConsoleEmailProvider
  | SMTPEmailProvider (smtp_host: string) (smtp_port: int) (smtp_username: string) (smtp_password: string) (smtp_sender: string) (smtp_use_tls: bool)

definition get_email_provider :: "mail_settings \<Rightarrow> email_provider" where
  "get_email_provider s =
     (if ms_email_provider s = ''smtp'' then
        if ms_smtp_host s = [] then ConsoleEmailProvider
        else SMTPEmailProvider (ms_smtp_host s) (ms_smtp_port s) (ms_smtp_username s) (ms_smtp_password s) (ms_smtp_from s) (ms_smtp_use_tls s)
      else ConsoleEmailProvider)"

definition non_empty :: "string \<Rightarrow> string option" where
  "non_empty s = (if s = [] then None else Some s)"

text \<open>A header with a line break is refused when the message is put together, outside the handler.\<close>

definition header_ok :: "string \<Rightarrow> bool" where
  "header_ok s = (\<not> list_ex (\<lambda>c. code_point c = 10 \<or> code_point c = 13) s)"

definition smtp_request_of :: "email_provider \<Rightarrow> string \<Rightarrow> string \<Rightarrow> string \<Rightarrow> smtp_request" where
  "smtp_request_of p dest subject body =
     \<lparr>sm_message = \<lparr>ms_from = smtp_sender p, ms_to = dest, ms_subject = subject, ms_body = body\<rparr>,
      sm_hostname = smtp_host p, sm_port = smtp_port p, sm_username = non_empty (smtp_username p),
      sm_password = non_empty (smtp_password p), sm_start_tls = smtp_use_tls p\<rparr>"

text \<open>Whatever the server answers is swallowed: the answer to the caller must not tell whether mail was sent.\<close>

definition send_mail :: "(time \<Rightarrow> smtp_request \<Rightarrow> error + unit) \<Rightarrow> email_provider \<Rightarrow> time \<Rightarrow> string \<Rightarrow> string \<Rightarrow> string \<Rightarrow> error + unit" where
  "send_mail server p t dest subject body = (case p of
       ConsoleEmailProvider \<Rightarrow> Inr ()
     | SMTPEmailProvider h port u pw sender tls \<Rightarrow>
         if \<not> (header_ok sender \<and> header_ok dest \<and> header_ok subject) then Inl ValueError
         else (case server t (smtp_request_of p dest subject body) of Inl e \<Rightarrow> Inr () | Inr _ \<Rightarrow> Inr ()))"

definition RESET_SUBJECT :: string where
  "RESET_SUBJECT = ''Your Cloud Drive password has been reset''"

text \<open>The provider as the password reset uses it.\<close>

definition mailer_of :: "(string \<Rightarrow> string \<Rightarrow> string) \<Rightarrow> (time \<Rightarrow> smtp_request \<Rightarrow> error + unit) \<Rightarrow> email_provider \<Rightarrow> mailer" where
  "mailer_of wording server p = (\<lambda>t m. send_mail server p t (rm_to m) RESET_SUBJECT (wording (rm_username m) (rm_password m)))"

section \<open>Diagnostics\<close>

record mail_delivery =
  md_provider :: string
  md_effective :: string
  md_delivers :: bool

definition describe_delivery :: "mail_settings \<Rightarrow> mail_delivery" where
  "describe_delivery s =
     (if ms_email_provider s = ''smtp'' \<and> ms_smtp_host s \<noteq> []
      then \<lparr>md_provider = ms_email_provider s, md_effective = ''smtp'', md_delivers = True\<rparr>
      else \<lparr>md_provider = ms_email_provider s, md_effective = ''console'', md_delivers = False\<rparr>)"

definition delivery_reason :: "mail_delivery \<Rightarrow> string option" where
  "delivery_reason d =
     (if md_delivers d then None
      else if md_provider d \<noteq> ''smtp'' then Some (''EMAIL_PROVIDER is not '' @ [CHR 0x27] @ ''smtp'' @ [CHR 0x27])
      else Some ''EMAIL_PROVIDER=smtp but SMTP_HOST is empty'')"

datatype log_level = LOG_INFO | LOG_WARNING | LOG_ERROR

definition check_mail_on_startup :: "mail_settings \<Rightarrow> log_level \<times> mail_delivery" where
  "check_mail_on_startup s = (let d = describe_delivery s in
     (if md_delivers d then LOG_INFO else if ms_app_env s = ''production'' then LOG_ERROR else LOG_WARNING, d))"

text \<open>What the health route of \<open>main.py\<close> tells: its status, the provider in use, and whether it delivers.\<close>

definition health :: "mail_settings \<Rightarrow> string \<times> string \<times> bool" where
  "health s = (let d = describe_delivery s in (''ok'', md_effective d, md_delivers d))"

section \<open>Facts\<close>

text \<open>The diagnosis is what really happens: mail leaves the server exactly when it says so.\<close>

lemma diagnosis_is_right: "md_delivers (describe_delivery s) \<longleftrightarrow> get_email_provider s \<noteq> ConsoleEmailProvider"
  by (simp add: describe_delivery_def get_email_provider_def)

text \<open>The providers keep what the reset of passwords relies on: they do not raise, as long as the addresses are single lines.\<close>

lemma mail_never_fails:
  assumes "header_ok (ms_smtp_from s)" "header_ok (rm_to m)"
  shows "mailer_of wording server (get_email_provider s) t m = Inr ()"
proof -
  have "header_ok RESET_SUBJECT" by code_simp
  with assms show ?thesis by (simp add: mailer_of_def send_mail_def get_email_provider_def split: sum.split)
qed

text \<open>So asking for a new password is answered whatever the server does.\<close>

lemma reset_is_answered:
  assumes "users_by_email (py_lower (py_strip email)) w = (Inr (Some user), w1)" "header_ok (u_email user)" "header_ok (ms_smtp_from s)"
    and "generate_random_password rounds draws RESET_PASSWORD_LENGTH = Inr pw"
  shows "forgot_password c rounds draws (mailer_of wording server (get_email_provider s)) email w
    = forgot_password c rounds draws (\<lambda>t m. Inr ()) email w"
  using assms by (auto simp: forgot_password_def run_bind run_then mail_never_fails hash_password_def split: sum.split prod.split)

end
