(* ===== verification/Conversion.thy ===== *)
theory Conversion
  imports Preview
begin

text \<open>
  \<open>preview/converter.py\<close>: the conversion of documents by LibreOffice. What is installed and what the program does with a file are
  parameters; the temporary directory of a conversion lives as long as it.
\<close>

definition OFFICE_BIN_CANDIDATES :: "string list" where
  "OFFICE_BIN_CANDIDATES = [''soffice'', ''libreoffice'']"

text \<open>How the program ends within its time: its exit code, and the PDF file it left beside its input.\<close>

datatype conversion = TimedOut | Exited int "bytes option"

record office =
  of_which :: "string \<Rightarrow> string option"
  of_run :: "string \<Rightarrow> string \<Rightarrow> bytes \<Rightarrow> conversion"

definition office_bin :: "office \<Rightarrow> string option" where
  "office_bin env = (case List.map_filter (of_which env) OFFICE_BIN_CANDIDATES of [] \<Rightarrow> None | p # _ \<Rightarrow> Some p)"

definition office_available :: "office \<Rightarrow> bool" where
  "office_available env = (office_bin env \<noteq> None)"

text \<open>\<open>None\<close> is a \<open>ConversionError\<close>; the input is the file \<open>input\<close> with the suffix.\<close>

definition convert_to_pdf :: "office \<Rightarrow> bytes \<Rightarrow> string \<Rightarrow> bytes option" where
  "convert_to_pdf env data suffix = (case office_bin env of
       None \<Rightarrow> None
     | Some binary \<Rightarrow> (case of_run env binary (''input'' @ suffix) data of
         TimedOut \<Rightarrow> None
       | Exited rc out \<Rightarrow> if rc \<noteq> 0 then None else out))"

text \<open>Without the program there is no document preview, so the conversion that would fail is never asked for.\<close>

lemma no_office_no_document:
  assumes "\<not> office_available env"
  shows "resolve_preview_type (office_available env) item \<noteq> P_DOCUMENT" "convert_to_pdf env data suffix = None"
  using assms by (auto simp: resolve_preview_type_def preview_type_of_def convert_to_pdf_def office_available_def Let_def split: option.splits if_splits)

end
