(* ===== verification/Anthropic.thy ===== *)
theory Anthropic
  imports LlmClients
begin

text \<open>
  \<open>assistant/llm/anthropic.py\<close>: the client of the Messages API, which no other module of the application builds. As for the other clients, the
  network is a parameter.
\<close>

record anthropic_client =
  ac_base_url :: string
  ac_model :: string
  ac_api_key :: string

section \<open>Requests\<close>

definition to_anthropic_tool :: "llm_tool \<Rightarrow> json" where
  "to_anthropic_tool t = JObj [(''name'', JStr (lt_name t)), (''description'', JStr (lt_description t)), (''input_schema'', lt_parameters t)]"

text \<open>The API takes the system's texts apart from the talk, and has no messages of tools.\<close>

definition system_parts :: "llm_options \<Rightarrow> llm_message list \<Rightarrow> string list" where
  "system_parts opts messages = map lm_content (filter (\<lambda>m. lm_role m = SYSTEM_ROLE) messages)
     @ (if lo_response_format opts \<noteq> None then [''Respond with valid JSON only.''] else [])"

definition request_messages :: "llm_message list \<Rightarrow> llm_message list" where
  "request_messages messages = filter (\<lambda>m. lm_role m \<in> {USER_ROLE, ASSISTANT_ROLE}) messages"

definition anthropic_payload :: "anthropic_client \<Rightarrow> llm_options \<Rightarrow> llm_message list \<Rightarrow> args" where
  "anthropic_payload c opts messages =
     [(''model'', JStr (ac_model c)), (''max_tokens'', JInt (min (lo_num_ctx opts) 4096)), (''messages'', messages_json (request_messages messages))]
     @ (case lo_temperature opts of None \<Rightarrow> [] | Some t \<Rightarrow> [(''temperature'', JFloat t)])
     @ (if system_parts opts messages = [] then [] else [(''system'', JStr (py_join [CHR 0x0A, CHR 0x0A] (system_parts opts messages)))])
     @ (if lo_tools opts = [] then [] else [(''tools'', JList (map to_anthropic_tool (lo_tools opts)))])"

definition anthropic_request :: "anthropic_client \<Rightarrow> llm_options \<Rightarrow> llm_message list \<Rightarrow> http_request" where
  "anthropic_request c opts messages = \<lparr>rq_url = py_rstrip_char CHR ''/'' (ac_base_url c) @ ''/v1/messages'',
     rq_headers = [(''x-api-key'', ac_api_key c), (''anthropic-version'', ''2023-06-01''), (''content-type'', ''application/json'')],
     rq_json = anthropic_payload c opts messages\<rparr>"

section \<open>Answers\<close>

definition is_credential_error :: "nat \<Rightarrow> json option \<Rightarrow> bool" where
  "is_credential_error status body =
     (if status \<in> {401, 403} then True
      else if status = 429 then (case body of
          None \<Rightarrow> False
        | Some v \<Rightarrow> (let t = py_lower (py_str v) in has_part ''quota'' t \<or> has_part ''billing'' t \<or> has_part ''credit'' t))
      else False)"

fun block_text :: "json \<Rightarrow> string option" where
  "block_text (JObj b) = (case (get_key ''type'' b, get_key ''text'' b) of
       (JStr kind, JStr t) \<Rightarrow> if kind = ''text'' then Some t else None
     | _ \<Rightarrow> None)"
| "block_text v = None"

fun block_call :: "json \<Rightarrow> tool_call option" where
  "block_call (JObj b) = (if get_key ''type'' b = JStr ''tool_use''
     then (case (get_key ''name'' b, get_or (JObj []) ''input'' b) of
         (JStr name, JObj a) \<Rightarrow> Some \<lparr>tc_name = name, tc_arguments = a\<rparr>
       | _ \<Rightarrow> None)
     else None)"
| "block_call v = None"

definition parse_anthropic_response :: "json \<Rightarrow> string \<Rightarrow> llm_failure + llm_response" where
  "parse_anthropic_response data model = (case data of
       JObj d \<Rightarrow> (case get_key ''content'' d of
           JList content \<Rightarrow> Inr \<lparr>lr_content = py_join [CHR 0x0A] (List.map_filter block_text content),
             lr_tool_calls = List.map_filter block_call content, lr_model = model,
             lr_done_reason = None, lr_prompt_tokens = None, lr_completion_tokens = None\<rparr>
         | _ \<Rightarrow> Inl LLMInvalidResponse)
     | _ \<Rightarrow> Inl LLMInvalidResponse)"

definition read_anthropic :: "string \<Rightarrow> error + http_reply \<Rightarrow> llm_failure + llm_response" where
  "read_anthropic model r = (case r of
       Inl e \<Rightarrow> Inl (OtherException e)
     | Inr HttpFailed \<Rightarrow> Inl LLMUnavailable
     | Inr (Reply status body) \<Rightarrow>
         if is_success status
         then (case body of None \<Rightarrow> Inl (OtherException ValueError) | Some data \<Rightarrow> parse_anthropic_response data model)
         else Inl (if is_credential_error status body then ExternalAuthFailed else LLMUnavailable))"

definition anthropic_chat :: "'s post \<Rightarrow> anthropic_client \<Rightarrow> ('s, llm_response) asks" where
  "anthropic_chat post c opts messages = liftM (\<lambda>s. read_anthropic (ac_model c) (post (anthropic_request c opts messages) s))"

section \<open>Facts\<close>

text \<open>Nothing of the talk is lost but what tools said: every message of the others is either in the talk or among the system's texts.\<close>

lemma no_message_is_lost:
  assumes "m \<in> set messages" "lm_role m \<noteq> TOOL_ROLE"
  shows "m \<in> set (request_messages messages) \<or> lm_content m \<in> set (system_parts opts messages)"
  using assms by (cases "lm_role m") (auto simp: request_messages_def system_parts_def)

text \<open>Only a refused credential or a used-up account blames the credential; every other refusal leaves the model merely unavailable.\<close>

lemma other_refusals_are_temporary:
  assumes "\<not> is_success status" "status \<notin> {401, 403, 429}"
  shows "read_anthropic model (Inr (Reply status body)) = Inl LLMUnavailable"
  using assms by (simp add: read_anthropic_def is_credential_error_def)

text \<open>The reason in an answer is read only for the status of too many requests: a used-up account told with another one does not blame the credential.\<close>

lemma reason_of_bad_request_ignored:
  "read_anthropic model (Inr (Reply 400 (Some (JObj [(''error'', JObj [(''message'', JStr ''Your credit balance is too low'')])])))) = Inl LLMUnavailable"
  by (simp add: other_refusals_are_temporary is_success_def)

end
