(* ===== verification/Spec2Isabelle.thy ===== *)
theory Spec2Isabelle
  imports DriveProperties UploadProperties TrashProperties SnapshotProperties FileVersions
    PublicShareProperties AuthProperties AssistantProperties StorageRefinement
    ModelProperties AuthoringProperties SearchProperties ExternalProperties RouteProperties EvalProperties
    EvalOutputs Mail Conversion Anthropic
begin

text \<open>
  A verification library for the backend of CloudDrive: the application under \<open>src/backend/app\<close> and its evaluation harness under
  \<open>src/backend/eval\<close>.

  The program. A drive of files and folders per user, in PostgreSQL, with the contents in a blob store. Services own the rules, repositories the
  queries, routers the HTTP surface and the transactions. Around the drive: sharing with users and by public links, trash, snapshots ("Time Machine"), uploads
  in one piece or in chunks, downloads as archives, previews, search, accounts with tokens, and an assistant that lets a language model
  plan and run calls of the same services, and write new skills as Python code that is checked, tried and run in a sandbox.

  How it is modelled. A service method is a function from a \<open>world\<close> to an outcome and the world it leaves (\<open>Prelude\<close>: \<open>'a M\<close>, with \<open>Inl\<close> for a
  raised exception and \<open>Inr\<close> for a returned value). A world (\<open>World\<close>) holds the tables, as lists of records in the order of insertion, the blobs, the clock
  that \<open>datetime.now\<close> reads and the supply of \<open>uuid4\<close>; the constraints of the migrations that matter (keys, foreign keys with their
  cascades, the partial unique index on live names, checks) are raised by the operations that write. A route runs a service inside \<open>transact\<close>,
  which puts the tables back when it raises, but not the blobs. Requests one after another are inductive relations (\<open>auth_steps\<close>, \<open>guest_steps\<close>,
  \<open>assistant_steps\<close>, \<open>session_step\<close> and others); interleavings inside one request are not modelled, the state between two
  requests is arbitrary unless a theorem says otherwise. Integers of Python are \<open>int\<close>; strings are lists of code points below 256 (\<open>PyStr\<close>).

  Theories and code (paths below \<open>src/backend/app\<close>).
    Foundations: \<open>Prelude\<close>, \<open>PyStr\<close> (string methods), \<open>Models\<close> (models/*, core/exceptions.py, core/error_codes.py), \<open>World\<close>, \<open>Samples\<close> (worlds for instances).
    Drive: \<open>DriveRepo\<close> and \<open>Drive\<close> (drive/repository.py, drive/service.py), \<open>Ancestry\<close> (the forest of folders),
      \<open>Permissions\<close> (permission/*), \<open>Activity\<close> (activity_log/*), \<open>Common\<close> (schemas/common.py), \<open>FileVersions\<close> (file_version/*).
    Contents: \<open>Storage\<close> (storage/local.py), \<open>StorageRefinement\<close>, \<open>Naming\<close> and \<open>Upload\<close> (upload/service.py), \<open>UploadSessions\<close> (upload/session_*.py,
      upload/scheduler.py), \<open>Users\<close> (users/*, with the quota ledger), \<open>Download\<close> (download/service.py, core/mime.py), \<open>Preview\<close>, \<open>Conversion\<close> (preview/*).
    Past: \<open>Trash\<close> (trash/*), \<open>SnapshotRepo\<close> and \<open>Snapshots\<close> (snapshot/repository.py, service.py, scheduler.py).
    Sharing: \<open>ShareRepo\<close>, \<open>Share\<close> (share/*), \<open>PublicShare\<close> (public_share/*).
    Accounts: \<open>Security\<close> (core/security.py, core/dependencies.py), \<open>Auth\<close> (auth/*), \<open>Mail\<close> (email/*, the health route of main.py).
    Search: \<open>Search\<close> (search/*).
    Assistant: \<open>Json\<close> and \<open>Plans\<close> (the data of plans), \<open>Workflow\<close> (assistant/workflow.py, permissions.py, skills/registry.py), \<open>Planner\<close> (planner.py, context.py),
      \<open>Memory\<close> (memory.py), \<open>Assistant\<close> (service.py, hooks.py, repository.py, router.py), \<open>Skills\<close> (skills/builtin/*).
    Models behind it: \<open>Privacy\<close> and \<open>ModelRouter\<close> (assistant/llm/privacy.py, router.py), \<open>LlmClients\<close>, \<open>Anthropic\<close> (assistant/llm/*, external_model/codex_client.py,
      search/embedding.py), \<open>ExternalModels\<close> (external_model/*).
    Written skills: \<open>Codeguard\<close>, \<open>Manifest\<close>, \<open>Sandbox\<close> (skills/codeguard.py, manifest.py, sandbox.py, smoke.py), \<open>SubAgent\<close> (subagent.py),
      \<open>Authoring\<close> (skills/authoring.py).
    Surface: \<open>Routes\<close> (every router of a signed-in user).
    Evaluation: \<open>EvalVerifier\<close> (eval/schema.py, verifier.py, codegen_smoke.py), \<open>EvalOutputs\<close> (output_checks.py), \<open>EvalScoring\<close> (scoring.py, judge.py, baseline.py,
      report.py), \<open>EvalRun\<close> (runner.py, state.py, run.py, run_isolated_e9.py).
  A theory \<open>XFacts\<close> holds what the operations of \<open>X\<close> do as equations, elimination rules and invariants; a theory \<open>XProperties\<close>
  holds the properties, labelled C1 to C40, each with an instance on a concrete world. Lemmas without a label that show a defect say so in their
  text.

  Interfaces. \<open>table\<close> (rows under a key; interpreted on the tables of the world), \<open>ancestry\<close> (walks up a forest; on the folders), \<open>name_supply\<close> (search for
  a free name; on uploads and on the top names of an archive), \<open>blob_store\<close> with its extension \<open>blob_collector\<close> (on the local store, once guarded by the snapshots'
  references, once by the references and the grace period of the garbage collection), \<open>ledger\<close> (a balance per user; on the quota), and \<open>scanner\<close> with \<open>free_scanner\<close>
  (replacing matches in a text; on mail addresses and UUIDs). The call rules are collected in \<open>run_simps\<close> (running a call), \<open>keeps_rules\<close> (what a call leaves alone) and \<open>pres_rules\<close>
  (invariants).

  What the properties show. The drive: permissions are the best grant over the chain of folders (C1), no route of a signed-in user changes rows he may not
  edit (C2), the folders stay a forest (C3), what creating does (C4), unique live names (C5), complete pages (C6). Contents: names (C7), uploads stored, charged
  or undone (C8, C9), sessions within the quota, with the right bytes and life cycle (C10 to C12), the local store refines a map from keys to bytes (C31). Past: deletion, restoring
  and their round trip (C13 to C15), snapshots, pruning, restoring, garbage collection (C16 to C19). Sharing: guests stay inside the shared folder, see only it, and lose
  access with the link; archives hold the selection (C20 to C23). Accounts: refresh tokens work once, tokens name their user, forgotten passwords tell nothing (C24 to C26).
  Assistant: chatting only reads, plans are sound, failures stay isolated, confirmed workflows run at most once, conversations stay private (C27 to C30, C33), only checked and
  approved code runs (C34, C35), no identifiers reach external models (C32), refused credentials rest and stored ones are used (C38, C39). Search: the
  backfill reaches zero, pages hold the visible matches (C36, C37). Evaluation: what the score says (C40).

  Loops and bounds. The walk up the folders, the levels of a subtree, the search for a free name and the pages of a folder run on fuel \<open>Suc (length (items w))\<close>: a chain of folders
  in a forest, and the names taken by siblings, are no more than the items, so the fuel is never used up there; \<open>drive_tree\<close>, \<open>file_names\<close>, C7, C13 and C23 prove
  it, and on a cyclic table the calls end in the error \<open>Diverges\<close>, where the code would not return. \<open>draw_password\<close> is given a number of rounds, as the source draws until a password is good; C26 assumes
  only that a good draw comes within them. All other bounds are the code's own: 64 levels for a guest's item (\<open>MAX_DEPTH\<close>, beyond which an item counts as outside), 100 names for
  an extracted folder, 50 chunks per document, the repair attempts of planner and author, the local attempts of the model router, the retries of the harness.

  Parameters, each an argument with its documented behaviour as a named hypothesis where a property needs one: hashes, PyJWT, pwdlib and Fernet (\<open>crypto\<close>), random draws, the collation,
  full-text search and vector distance of PostgreSQL, decoding of UTF-8 and PDF, the network with the language and embedding models, the codex program, the SMTP server,
  LibreOffice, \<open>ast.parse\<close> (the scan works on its tree), the process that runs a skill, \<open>json.loads\<close>, the rendering of dates and percentages, and for the harness the backend
  under test and the libraries for file formats.

  Not modelled. The migrations (\<open>src/backend/alembic\<close>) except the constraints above; the generation of evaluation cases, the temperature sweep, the clean-up script, the
  browser suite, the in-process stand-ins and the runner of reference skills (\<open>eval/generate_cases.py\<close>, \<open>temp_sweep.py\<close>, \<open>cleanup.py\<close>, \<open>runner_browser.py\<close>, \<open>inproc.py\<close>, \<open>exec_runner.py\<close>):
  texts and scripts whose results \<open>EvalRun\<close> takes as parameters; the tables of the reports and the judge's prompts; the wording of prompts and answers; log messages; the
  serialisation of responses, their headers and CORS; the start-up of the application and the endless loops of the two schedulers, of which one pass is modelled; limits of
  resources of the sandbox; and the frontend.
\<close>

end
